(* ===== verification/Prelude.thy ===== *)
theory Prelude
  imports Complex_Main "HOL-Library.List_Lexorder" "HOL-Library.Char_ord" "HOL-Library.Sublist"
begin

text \<open>
  Shared vocabulary of the development: Python values that reach the database as JSON,
  truthiness, the string operations the sources use, SQL statements over a table held as a list
  of rows, and the two interfaces the components share.  A table is a list of rows in insertion
  (rowid) order.  \<open>'e + 'a\<close> is a Python call's result: \<open>Inl\<close> a raised exception,
  \<open>Inr\<close> a returned value.  An Isabelle \<open>char\<close> stands for one character of a Python
  string.
\<close>

named_theorems sql_simps "statements over tables"
named_theorems claim_simps "compare-and-set updates of a row"

section \<open>Python values\<close>

datatype pyfloat = Fin rat | NaN | PInf | NInf

datatype json =
    JNull
  | JBool bool
  | JInt int
  | JFloat pyfloat
  | JStr string
  | JArr "json list"
  | JObj "(string \<times> json) list"

text \<open>\<open>bool(v)\<close> of a Python value.\<close>

fun truthy :: "json \<Rightarrow> bool" where
  "truthy JNull = False"
| "truthy (JBool b) = b"
| "truthy (JInt i) = (i \<noteq> 0)"
| "truthy (JFloat x) = (x \<noteq> Fin 0)"
| "truthy (JStr s) = (s \<noteq> [])"
| "truthy (JArr xs) = (xs \<noteq> [])"
| "truthy (JObj kvs) = (kvs \<noteq> [])"

text \<open>\<open>d.get(key)\<close> of a dict; \<open>None\<close> also for a value that is no dict, which every
  caller tests with \<open>isinstance\<close> first.\<close>

fun jget :: "string \<Rightarrow> json \<Rightarrow> json option" where
  "jget k (JObj kvs) = map_of kvs k"
| "jget k _ = None"

fun is_obj :: "json \<Rightarrow> bool" where
  "is_obj (JObj _) = True"
| "is_obj _ = False"

text \<open>Truthiness of an optional string or value: \<open>None\<close> and the empty one are false.\<close>

fun str_set :: "string option \<Rightarrow> bool" where
  "str_set None = False"
| "str_set (Some s) = (s \<noteq> [])"

fun opt_truthy :: "json option \<Rightarrow> bool" where
  "opt_truthy None = False"
| "opt_truthy (Some j) = truthy j"

lemma str_set_iff: "str_set x \<longleftrightarrow> (\<exists>s. x = Some s \<and> s \<noteq> [])"
  by (cases x) auto

lemma opt_truthy_iff: "opt_truthy x \<longleftrightarrow> (\<exists>j. x = Some j \<and> truthy j)"
  by (cases x) auto

section \<open>Strings\<close>

definition starts_with :: "string \<Rightarrow> string \<Rightarrow> bool" where
  "starts_with p s \<longleftrightarrow> take (length p) s = p"

definition ends_with :: "string \<Rightarrow> string \<Rightarrow> bool" where
  "ends_with p s \<longleftrightarrow> starts_with (rev p) (rev s)"

lemma starts_with_iff: "starts_with p s \<longleftrightarrow> (\<exists>t. s = p @ t)"
  unfolding starts_with_def by (metis append_eq_conv_conj)

lemma starts_with_self [simp]: "starts_with p (p @ t)"
  by (simp add: starts_with_def)

definition is_space :: "char \<Rightarrow> bool" where
  "is_space c \<longleftrightarrow> c = CHR '' '' \<or> c = CHR 0x09 \<or> c = CHR 0x0A \<or> c = CHR 0x0B \<or> c = CHR 0x0C
     \<or> c = CHR 0x0D \<or> c = CHR 0x1C \<or> c = CHR 0x1D \<or> c = CHR 0x1E \<or> c = CHR 0x1F
     \<or> c = CHR 0x85 \<or> c = CHR 0xA0"

definition lstrip :: "string \<Rightarrow> string" where
  "lstrip s = dropWhile is_space s"

definition rstrip :: "string \<Rightarrow> string" where
  "rstrip s = rev (dropWhile is_space (rev s))"

definition strip :: "string \<Rightarrow> string" where
  "strip s = rstrip (lstrip s)"

text \<open>\<open>s.split(c)\<close> for a one-character separator.\<close>

fun split_on :: "char \<Rightarrow> string \<Rightarrow> string list" where
  "split_on c [] = [[]]"
| "split_on c (x # xs) =
     (if x = c then [] # split_on c xs
      else (case split_on c xs of [] \<Rightarrow> [[x]] | w # ws \<Rightarrow> (x # w) # ws))"

lemma split_on_nonempty: "split_on c s \<noteq> []"
  by (induction s) (auto split: list.splits)

text \<open>\<open>sep.join(parts)\<close>.\<close>

fun join_with :: "string \<Rightarrow> string list \<Rightarrow> string" where
  "join_with sep [] = []"
| "join_with sep [w] = w"
| "join_with sep (w # ws) = w @ sep @ join_with sep ws"

lemma join_with_Cons: "ws \<noteq> [] \<Longrightarrow> join_with sep (w # ws) = w @ sep @ join_with sep ws"
  by (cases ws) auto

lemma join_split_on: "join_with [c] (split_on c s) = s"
proof (induction s)
  case (Cons x xs)
  show ?case
  proof (cases "split_on c xs")
    case Nil
    then show ?thesis using split_on_nonempty by blast
  next
    case (Cons w ws)
    with Cons.IH show ?thesis by (cases ws) auto
  qed
qed simp

text \<open>Decimal digits of a natural number, as \<open>str(n)\<close> prints them.\<close>

definition digit :: "nat \<Rightarrow> char" where
  "digit d = char_of (48 + d)"

fun digits :: "nat \<Rightarrow> string" where
  "digits n = (if n < 10 then [digit n] else digits (n div 10) @ [digit (n mod 10)])"

declare digits.simps [simp del]

section \<open>SQL statements over a table\<close>

definition update_where :: "('r \<Rightarrow> bool) \<Rightarrow> ('r \<Rightarrow> 'r) \<Rightarrow> 'r list \<Rightarrow> 'r list" where
  "update_where P f t = map (\<lambda>r. if P r then f r else r) t"

definition delete_where :: "('r \<Rightarrow> bool) \<Rightarrow> 'r list \<Rightarrow> 'r list" where
  "delete_where P t = filter (\<lambda>r. \<not> P r) t"

definition rowcount :: "('r \<Rightarrow> bool) \<Rightarrow> 'r list \<Rightarrow> nat" where
  "rowcount P t = length (filter P t)"

fun fetchone :: "'r list \<Rightarrow> 'r option" where
  "fetchone [] = None"
| "fetchone (r # _) = Some r"

definition order_asc :: "('r \<Rightarrow> 'k::linorder) \<Rightarrow> 'r list \<Rightarrow> 'r list" where
  "order_asc k t = sort_key k t"

definition order_desc :: "('r \<Rightarrow> 'k::linorder) \<Rightarrow> 'r list \<Rightarrow> 'r list" where
  "order_desc k t = rev (sort_key k t)"

text \<open>\<open>GROUP BY key\<close>: one group per key, in the order of the keys.\<close>

definition group_by :: "('r \<Rightarrow> 'k::linorder) \<Rightarrow> 'r list \<Rightarrow> ('k \<times> 'r list) list" where
  "group_by key rows =
     map (\<lambda>k. (k, filter (\<lambda>r. key r = k) rows)) (sort (remdups (map key rows)))"

text \<open>The groups hold every row once.\<close>

lemma group_by_total: "sum_list (map (\<lambda>g. length (snd g)) (group_by key rows)) = length rows"
proof -
  have "sum_list (map (\<lambda>k. length (filter (\<lambda>r. key r = k) rows)) ks) = length rows"
    if "distinct ks" "key ` set rows \<subseteq> set ks" for ks
    using that(2)
  proof (induction rows)
    case (Cons r rows)
    have "key r \<in> set ks" using Cons.prems by simp
    then have "sum_list (map (\<lambda>k. if key r = k then 1 else 0 :: nat) ks) = 1"
      using that(1) by (induction ks) (auto simp: sum_list_eq_0_iff)
    moreover have "length (filter (\<lambda>x. key x = k) (r # rows))
        = (if key r = k then 1 else 0) + length (filter (\<lambda>x. key x = k) rows)" for k
      by simp
    ultimately show ?case using Cons by (simp add: sum_list_addf del: filter.simps)
  qed simp
  from this[of "sort (remdups (map key rows))"] show ?thesis by (simp add: group_by_def comp_def)
qed

lemma set_order_asc [simp]: "set (order_asc k t) = set t"
  by (simp add: order_asc_def)

lemma set_order_desc [simp]: "set (order_desc k t) = set t"
  by (simp add: order_desc_def)

lemma order_desc_empty [simp]: "order_desc k t = [] \<longleftrightarrow> t = []"
  by (metis set_order_desc set_empty)

lemma sorted_order_asc: "sorted (map k (order_asc k t))"
  by (simp add: order_asc_def)

lemma sorted_order_desc: "sorted_wrt (\<ge>) (map k (order_desc k t))"
proof -
  have "sorted (rev (map k (order_desc k t)))"
    by (simp add: order_desc_def rev_map)
  then show ?thesis by (simp only: sorted_wrt_rev)
qed

lemma fetchone_in: "fetchone xs = Some x \<Longrightarrow> x \<in> set xs"
  by (cases xs) auto

lemma fetchone_None [simp]: "fetchone xs = None \<longleftrightarrow> xs = []"
  by (cases xs) auto

lemma fetchone_order_desc_max:
  assumes "fetchone (order_desc k t) = Some x" and "y \<in> set t"
  shows "k y \<le> k x"
proof -
  from assms(1) obtain xs where xs: "order_desc k t = x # xs"
    by (cases "order_desc k t") auto
  have "sorted_wrt (\<ge>) (map k (x # xs))"
    using sorted_order_desc[of k t] xs by simp
  moreover have "y \<in> set (x # xs)"
    using assms(2) xs by (metis set_order_desc)
  ultimately show ?thesis by auto
qed

lemma rowcount_zero [sql_simps]: "rowcount P t = 0 \<longleftrightarrow> (\<forall>r\<in>set t. \<not> P r)"
  by (simp add: rowcount_def filter_empty_conv)

lemma map_update_where [sql_simps]:
  "(\<And>r. P r \<Longrightarrow> g (f r) = g r) \<Longrightarrow> map g (update_where P f t) = map g t"
  by (simp add: update_where_def)

lemma length_update_where [simp]: "length (update_where P f t) = length t"
  by (simp add: update_where_def)

lemma filter_update_where:
  "(\<And>r. Q (f r) = Q r) \<Longrightarrow> filter Q (update_where P f t) = update_where P f (filter Q t)"
  by (induction t) (auto simp: update_where_def)

lemma find_update_where:
  "(\<And>r. P r \<Longrightarrow> Q (f r) = Q r) \<Longrightarrow>
   find Q (update_where P f t) = map_option (\<lambda>r. if P r then f r else r) (find Q t)"
  by (induction t) (auto simp: update_where_def)

lemma update_where_id: "(\<And>r. r \<in> set t \<Longrightarrow> \<not> P r) \<Longrightarrow> update_where P f t = t"
  by (simp add: update_where_def map_idI)

text \<open>Under a primary key, a predicate that fixes the key matches at most one row.\<close>

lemma rowcount_key:
  "distinct (map key t) \<Longrightarrow>
   rowcount (\<lambda>r. key r = k \<and> Q r) t =
     (case find (\<lambda>r. key r = k) t of None \<Rightarrow> 0 | Some r \<Rightarrow> if Q r then 1 else 0)"
proof (induction t)
  case (Cons r t)
  show ?case
  proof (cases "key r = k")
    case True
    with Cons.prems have "\<forall>x\<in>set t. key x \<noteq> k" by (fastforce simp: image_iff)
    then have "filter (\<lambda>x. key x = k \<and> Q x) t = []" by (simp add: filter_empty_conv)
    with True show ?thesis by (simp add: rowcount_def)
  next
    case False
    with Cons show ?thesis by (simp add: rowcount_def)
  qed
qed (simp add: rowcount_def)

lemma find_key_Some:
  "distinct (map key t) \<Longrightarrow> find (\<lambda>r. key r = k) t = Some r \<longleftrightarrow> r \<in> set t \<and> key r = k"
proof (induction t)
  case (Cons x t)
  show ?case
  proof (cases "key x = k")
    case True
    with Cons.prems have "\<forall>y\<in>set t. key y \<noteq> k" by (fastforce simp: image_iff)
    with True show ?thesis by auto
  next
    case False
    with Cons show ?thesis by auto
  qed
qed simp

lemma find_key_None: "find (\<lambda>r. key r = k) t = None \<longleftrightarrow> k \<notin> key ` set t"
  by (auto simp: find_None_iff)

lemma fetchone_filter: "fetchone (filter P t) = find P t"
  by (induction t) auto

lemma find_update_key:
  assumes "\<And>r. key (f r) = key r"
  shows "find (\<lambda>r. key r = k') (update_where (\<lambda>r. key r = k) f t) =
    (if k' = k then map_option f (find (\<lambda>r. key r = k) t) else find (\<lambda>r. key r = k') t)"
  by (induction t) (auto simp: update_where_def assms)

lemma set_delete_where [simp]: "set (delete_where P t) = {r \<in> set t. \<not> P r}"
  by (auto simp: delete_where_def)

lemma distinct_delete_where: "distinct (map g t) \<Longrightarrow> distinct (map g (delete_where P t))"
  by (simp add: delete_where_def distinct_map_filter)

lemma filter_delete_where: "filter Q (delete_where P t) = delete_where P (filter Q t)"
  by (induction t) (auto simp: delete_where_def)

lemma delete_where_twice: "delete_where P (delete_where P t) = delete_where P t"
  by (simp add: delete_where_def)

lemma find_append: "find P (xs @ ys) = (case find P xs of None \<Rightarrow> find P ys | Some x \<Rightarrow> Some x)"
  by (induction xs) auto

section \<open>Results\<close>

text \<open>Running the rest of a function body on the value a call returned; a raised exception
  leaves it.\<close>

definition bindE :: "'e + 'a \<Rightarrow> ('a \<Rightarrow> 'e + 'b) \<Rightarrow> 'e + 'b" where
  "bindE m f = (case m of Inl e \<Rightarrow> Inl e | Inr x \<Rightarrow> f x)"

lemma bindE_simps [simp]: "bindE (Inl e) f = Inl e" "bindE (Inr x) f = f x"
  by (simp_all add: bindE_def)

lemma bindE_Inr: "bindE m f = Inr y \<longleftrightarrow> (\<exists>x. m = Inr x \<and> f x = Inr y)"
  by (cases m) auto

section \<open>Interfaces\<close>

text \<open>
  A compare-and-set cell: \<open>attempt c e s\<close> is a caller \<open>c\<close> that moves the cell from \<open>e\<close> to
  \<open>target c\<close> and learns whether it did.  Claims on report rows, adoption of an abandoned open-pr
  claim and the public status update are such cells; each is interpreted on its own definitions in
  the theory that declares it.
\<close>

locale compare_and_set =
  fixes cell :: "'s \<Rightarrow> 'v option"
    and target :: "'c \<Rightarrow> 'v"
    and attempt :: "'c \<Rightarrow> 'v \<Rightarrow> 's \<Rightarrow> bool \<times> 's"
    and valid :: "'s \<Rightarrow> bool"
  assumes wins: "valid s \<Longrightarrow> fst (attempt c e s) \<longleftrightarrow> cell s = Some e"
    and written: "valid s \<Longrightarrow> cell s = Some e \<Longrightarrow> cell (snd (attempt c e s)) = Some (target c)"
    and kept: "valid s \<Longrightarrow> cell s \<noteq> Some e \<Longrightarrow> cell (snd (attempt c e s)) = cell s"
    and valid_attempt: "valid s \<Longrightarrow> valid (snd (attempt c e s))"
begin

text \<open>Several callers race from the same observed value, in the order they reach the database.\<close>

fun race :: "'v \<Rightarrow> 'c list \<Rightarrow> 's \<Rightarrow> bool list \<times> 's" where
  "race e [] s = ([], s)"
| "race e (c # cs) s =
     (let (w, s1) = attempt c e s; (ws, s2) = race e cs s1 in (w # ws, s2))"

lemma race_lost:
  "valid s \<Longrightarrow> cell s \<noteq> Some e \<Longrightarrow>
   fst (race e cs s) = replicate (length cs) False \<and> cell (snd (race e cs s)) = cell s"
proof (induction cs arbitrary: s)
  case (Cons c cs)
  have v: "valid (snd (attempt c e s))" using Cons.prems(1) by (rule valid_attempt)
  have k: "cell (snd (attempt c e s)) = cell s" using Cons.prems by (rule kept)
  have w: "fst (attempt c e s) = False" using Cons.prems by (simp add: wins)
  have "cell (snd (attempt c e s)) \<noteq> Some e" using k Cons.prems(2) by simp
  from Cons.IH[OF v this] w k show ?case by (simp add: case_prod_beta Let_def)
qed simp

lemma race_one_winner:
  assumes "valid s" and "cell s = Some e" and "target c \<noteq> e"
  shows "fst (race e (c # cs) s) = True # replicate (length cs) False
    \<and> cell (snd (race e (c # cs) s)) = Some (target c)"
proof -
  have v: "valid (snd (attempt c e s))" using assms(1) by (rule valid_attempt)
  have k: "cell (snd (attempt c e s)) = Some (target c)" using assms(1,2) by (rule written)
  have w: "fst (attempt c e s) = True" using assms by (simp add: wins)
  have "cell (snd (attempt c e s)) \<noteq> Some e" using k assms(3) by simp
  from race_lost[OF v this, of cs] w k show ?thesis by (simp add: case_prod_beta Let_def)
qed

lemma second_attempt_fails:
  "valid s \<Longrightarrow> fst (attempt c e s) \<Longrightarrow> target c \<noteq> e \<Longrightarrow> \<not> fst (attempt c' e (snd (attempt c e s)))"
  by (simp add: wins written valid_attempt)

end

text \<open>A cell inside a row that a losing caller leaves alone altogether.\<close>

locale row_cell = compare_and_set cell target attempt valid
  for cell :: "'s \<Rightarrow> 'v option" and target :: "'c \<Rightarrow> 'v" and attempt :: "'c \<Rightarrow> 'v \<Rightarrow> 's \<Rightarrow> bool \<times> 's"
    and valid :: "'s \<Rightarrow> bool" +
  fixes row :: "'s \<Rightarrow> 'r"
  assumes lost_row: "valid s \<Longrightarrow> cell s \<noteq> Some e \<Longrightarrow> row (snd (attempt c e s)) = row s"
begin

lemma race_lost_row: "valid s \<Longrightarrow> cell s \<noteq> Some e \<Longrightarrow> row (snd (race e cs s)) = row s"
proof (induction cs arbitrary: s)
  case (Cons c cs)
  have v: "valid (snd (attempt c e s))" using Cons.prems(1) by (rule valid_attempt)
  have "cell (snd (attempt c e s)) \<noteq> Some e" using Cons.prems kept by metis
  from Cons.IH[OF v this] lost_row[OF Cons.prems] show ?case by (simp add: case_prod_beta Let_def)
qed simp

lemma race_winner_row:
  assumes "valid s" and "cell s = Some e" and "target c \<noteq> e"
  shows "row (snd (race e (c # cs) s)) = row (snd (attempt c e s))"
proof -
  have "cell (snd (attempt c e s)) \<noteq> Some e" using written[OF assms(1,2)] assms(3) by simp
  from race_lost_row[OF valid_attempt[OF assms(1)] this] show ?thesis
    by (simp add: case_prod_beta Let_def)
qed

end

text \<open>A table with a primary key: what looking a row up returns after an update of one row.\<close>

locale row_store =
  fixes get :: "'s \<Rightarrow> 'k \<Rightarrow> 'r option"
    and put :: "'k \<Rightarrow> ('r \<Rightarrow> 'r) \<Rightarrow> 's \<Rightarrow> 's"
    and safe :: "('r \<Rightarrow> 'r) \<Rightarrow> bool"
  assumes get_put_same: "safe f \<Longrightarrow> get (put k f s) k = map_option f (get s k)"
    and get_put_other: "safe f \<Longrightarrow> k' \<noteq> k \<Longrightarrow> get (put k f s) k' = get s k'"
begin

lemma put_frame: "safe f \<Longrightarrow> get (put k f s) k' = (if k' = k then map_option f (get s k) else get s k')"
  by (simp add: get_put_same get_put_other)

lemma put_put: "safe f \<Longrightarrow> safe g \<Longrightarrow> get (put k g (put k f s)) k = map_option (g \<circ> f) (get s k)"
  by (simp add: get_put_same option.map_comp)

lemma put_present: "safe f \<Longrightarrow> get (put k f s) k' = None \<longleftrightarrow> get s k' = None"
  by (simp add: put_frame)

end

end
