(* ===== verification/Connections.thy ===== *)
theory Connections
  imports Prelude
begin

text \<open>
  \<open>db.py\<close>, the connection layer: \<open>retry_on_locked\<close> around every writer, and the cache that gives
  each thread its own SQLite connection (\<open>_get_conn\<close>, \<open>reset_conn\<close>).  A decorated function is
  an argument, a state transformer that returns, reports a locked database, or raises.
\<close>

section \<open>retry_on_locked\<close>

datatype ('e, 'a) attempt = Returned 'a | Locked 'e | Raised 'e

definition delays :: "nat list" where
  "delays = [100, 200, 400]"

text \<open>
  The loop over the attempts; the result is the outcome, the state, the milliseconds slept and the
  number of calls.
\<close>

function retry_from ::
  "nat \<Rightarrow> ('s \<Rightarrow> ('e, 'a) attempt \<times> 's) \<Rightarrow> 's \<Rightarrow> ('e + 'a) \<times> 's \<times> nat list \<times> nat" where
  "retry_from attempt fn s =
     (case fn s of
        (Returned x, s1) \<Rightarrow> (Inr x, s1, [], 1)
      | (Raised e, s1) \<Rightarrow> (Inl e, s1, [], 1)
      | (Locked e, s1) \<Rightarrow>
          if attempt \<ge> length delays then (Inl e, s1, [], 1)
          else (let (res, s2, slept, calls) = retry_from (attempt + 1) fn s1
                in (res, s2, delays ! attempt # slept, calls + 1)))"
  by pat_completeness auto
termination by (relation "measure (\<lambda>(k, _, _). 4 - k)") (auto simp: delays_def)

declare retry_from.simps [simp del]

definition retry_on_locked :: "('s \<Rightarrow> ('e, 'a) attempt \<times> 's) \<Rightarrow> 's \<Rightarrow> ('e + 'a) \<times> 's \<times> nat list \<times> nat" where
  "retry_on_locked fn s = retry_from 0 fn s"

text \<open>The state after a number of locked calls, and the result the function then gives.\<close>

fun after_locks :: "nat \<Rightarrow> ('s \<Rightarrow> ('e, 'a) attempt \<times> 's) \<Rightarrow> 's \<Rightarrow> 's" where
  "after_locks 0 fn s = s"
| "after_locks (Suc k) fn s = after_locks k fn (snd (fn s))"

definition is_locked :: "('e, 'a) attempt \<Rightarrow> bool" where
  "is_locked r = (case r of Locked _ \<Rightarrow> True | _ \<Rightarrow> False)"

fun outcome_of :: "('e, 'a) attempt \<Rightarrow> 'e + 'a" where
  "outcome_of (Returned x) = Inr x"
| "outcome_of (Locked e) = Inl e"
| "outcome_of (Raised e) = Inl e"

lemma retry_from_last:
  assumes "\<not> is_locked (fst (fn s)) \<or> length delays \<le> k"
  shows "retry_from k fn s = (outcome_of (fst (fn s)), snd (fn s), [], 1)"
  using assms by (subst retry_from.simps)
    (auto simp: is_locked_def split: prod.splits attempt.splits)

lemma retry_from_next:
  assumes "is_locked (fst (fn s))" and "k < length delays"
  shows "retry_from k fn s =
    (let (res, s2, slept, calls) = retry_from (Suc k) fn (snd (fn s))
     in (res, s2, delays ! k # slept, calls + 1))"
  using assms by (subst retry_from.simps)
    (auto simp: is_locked_def split: prod.splits attempt.splits)

lemma retry_from_first_unlocked:
  assumes "\<forall>i<n. is_locked (fst (fn (after_locks i fn s)))" and "k + n \<le> length delays"
    and "\<not> is_locked (fst (fn (after_locks n fn s))) \<or> k + n = length delays"
  shows "retry_from k fn s = (outcome_of (fst (fn (after_locks n fn s))),
      snd (fn (after_locks n fn s)), take n (drop k delays), n + 1)"
  using assms
proof (induction n arbitrary: k s)
  case 0
  then show ?case using retry_from_last[of fn s k] by auto
next
  case (Suc n)
  have l: "is_locked (fst (fn s))" using Suc.prems(1) by (metis after_locks.simps(1) zero_less_Suc)
  have r: "\<forall>i<n. is_locked (fst (fn (after_locks i fn (snd (fn s)))))"
    using Suc.prems(1) by (metis Suc_mono after_locks.simps(2))
  have "retry_from (Suc k) fn (snd (fn s)) = (outcome_of (fst (fn (after_locks (Suc n) fn s))),
      snd (fn (after_locks (Suc n) fn s)), take n (drop (Suc k) delays), n + 1)"
    using Suc.IH[OF r, of "Suc k"] Suc.prems(2,3) by auto
  then show ?case
    using Suc.prems(2) retry_from_next[of fn s k, OF l] by (simp add: Cons_nth_drop_Suc[symmetric])
qed

section \<open>Connections\<close>

text \<open>
  A connection is the number of its \<open>sqlite3.connect\<close> call.  \<open>memory\<close> is
  \<open>settings.db_path == ":memory:"\<close>; a thread's cache is its \<open>_local\<close> pair.
\<close>

record conn_state =
  shared :: "nat option"
  generation :: nat
  cache :: "nat \<Rightarrow> (nat \<times> nat) option"
  connects :: nat
  closed :: "nat list"

definition no_conns :: conn_state where
  "no_conns = \<lparr>shared = None, generation = 0, cache = (\<lambda>_. None), connects = 0, closed = []\<rparr>"

definition reset_conn :: "nat \<Rightarrow> conn_state \<Rightarrow> conn_state" where
  "reset_conn tid s =
     (let s1 = s\<lparr>generation := generation s + 1\<rparr>;
          s2 = (case shared s1 of None \<Rightarrow> s1 | Some c \<Rightarrow> s1\<lparr>closed := c # closed s1, shared := None\<rparr>)
      in case cache s2 tid of None \<Rightarrow> s2
         | Some (c, g) \<Rightarrow> s2\<lparr>closed := c # closed s2, cache := (cache s2)(tid := None)\<rparr>)"

definition get_conn :: "bool \<Rightarrow> nat \<Rightarrow> conn_state \<Rightarrow> nat \<times> conn_state" where
  "get_conn memory tid s =
     (if memory then
        (case shared s of
           Some c \<Rightarrow> (c, s)
         | None \<Rightarrow> (connects s, s\<lparr>shared := Some (connects s), connects := Suc (connects s)\<rparr>))
      else
        (case cache s tid of
           Some (c, g) \<Rightarrow>
             if g = generation s then (c, s)
             else (connects s, s\<lparr>closed := c # closed s, connects := Suc (connects s),
                                  cache := (cache s)(tid := Some (connects s, generation s))\<rparr>)
         | None \<Rightarrow> (connects s, s\<lparr>connects := Suc (connects s),
                                  cache := (cache s)(tid := Some (connects s, generation s))\<rparr>)))"

inductive conn_step :: "conn_state \<Rightarrow> conn_state \<Rightarrow> bool" where
  get: "conn_step s (snd (get_conn memory tid s))"
| reset: "conn_step s (reset_conn tid s)"

inductive conn_reach :: "conn_state \<Rightarrow> bool" where
  init: "conn_reach no_conns"
| step: "conn_reach s \<Longrightarrow> conn_step s s' \<Longrightarrow> conn_reach s'"

text \<open>Live connections are numbered below the counter, are not closed and belong to one holder.\<close>

definition conns_ok :: "conn_state \<Rightarrow> bool" where
  "conns_ok s \<longleftrightarrow> (\<forall>c\<in>set (closed s). c < connects s)
     \<and> (\<forall>c. shared s = Some c \<longrightarrow> c < connects s \<and> c \<notin> set (closed s)
          \<and> (\<forall>t g. cache s t \<noteq> Some (c, g)))
     \<and> (\<forall>t c g. cache s t = Some (c, g) \<longrightarrow> c < connects s \<and> c \<notin> set (closed s) \<and> g \<le> generation s
          \<and> (\<forall>t' g'. cache s t' = Some (c, g') \<longrightarrow> t' = t))"

lemma conns_okI:
  assumes "\<And>c. c \<in> set (closed s) \<Longrightarrow> c < connects s"
    and "\<And>c. shared s = Some c \<Longrightarrow> c < connects s \<and> c \<notin> set (closed s)"
    and "\<And>c t g. cache s t = Some (c, g) \<Longrightarrow> shared s \<noteq> Some c"
    and "\<And>c t g. cache s t = Some (c, g) \<Longrightarrow> c < connects s \<and> c \<notin> set (closed s) \<and> g \<le> generation s"
    and "\<And>c t g t' g'. cache s t = Some (c, g) \<Longrightarrow> cache s t' = Some (c, g') \<Longrightarrow> t' = t"
  shows "conns_ok s"
  using assms unfolding conns_ok_def by metis

lemma conns_okD:
  assumes "conns_ok s"
  shows "c \<in> set (closed s) \<Longrightarrow> c < connects s"
    and "shared s = Some c \<Longrightarrow> c < connects s" and "shared s = Some c \<Longrightarrow> c \<notin> set (closed s)"
    and "cache s t = Some (c, g) \<Longrightarrow> shared s \<noteq> Some c"
    and "cache s t = Some (c, g) \<Longrightarrow> c < connects s"
    and "cache s t = Some (c, g) \<Longrightarrow> c \<notin> set (closed s)"
    and "cache s t = Some (c, g) \<Longrightarrow> g \<le> generation s"
    and "cache s t = Some (c, g) \<Longrightarrow> cache s t' = Some (c, g') \<Longrightarrow> t' = t"
  using assms unfolding conns_ok_def by metis+

lemma conns_ok_fresh_shared:
  "conns_ok s \<Longrightarrow> conns_ok (s\<lparr>shared := Some (connects s), connects := Suc (connects s)\<rparr>)"
  by (rule conns_okI) (auto dest: conns_okD)

lemma conns_ok_close_shared:
  "conns_ok s \<Longrightarrow> shared s = Some c \<Longrightarrow> conns_ok (s\<lparr>closed := c # closed s, shared := None\<rparr>)"
  by (rule conns_okI) (auto dest: conns_okD)

lemma conns_ok_fresh_cache:
  "conns_ok s \<Longrightarrow> cache s tid = None \<Longrightarrow>
   conns_ok (s\<lparr>connects := Suc (connects s), cache := (cache s)(tid := Some (connects s, generation s))\<rparr>)"
  by (rule conns_okI) (auto dest: conns_okD split: if_splits)

lemma conns_ok_close_cache:
  "conns_ok s \<Longrightarrow> cache s tid = Some (c, g) \<Longrightarrow>
   conns_ok (s\<lparr>closed := c # closed s, cache := (cache s)(tid := None)\<rparr>)"
  by (rule conns_okI) (auto dest: conns_okD split: if_splits)

lemma conns_ok_next_generation: "conns_ok s \<Longrightarrow> conns_ok (s\<lparr>generation := generation s + 1\<rparr>)"
  by (rule conns_okI) (auto dest: conns_okD)

lemma conns_ok_replace_cache:
  assumes "conns_ok s" and "cache s tid = Some (c, g)"
  shows "conns_ok (s\<lparr>closed := c # closed s, connects := Suc (connects s),
      cache := (cache s)(tid := Some (connects s, generation s))\<rparr>)"
  using conns_ok_fresh_cache[OF conns_ok_close_cache[OF assms], of tid] by simp

lemma conns_ok_get: "conns_ok s \<Longrightarrow> conns_ok (snd (get_conn memory tid s))"
  unfolding get_conn_def
  by (simp add: conns_ok_fresh_shared conns_ok_fresh_cache conns_ok_replace_cache split: option.split)

lemma conns_ok_reset:
  assumes "conns_ok s"
  shows "conns_ok (reset_conn tid s)"
proof -
  let ?s1 = "s\<lparr>generation := generation s + 1\<rparr>"
  let ?s2 = "case shared ?s1 of None \<Rightarrow> ?s1 | Some c \<Rightarrow> ?s1\<lparr>closed := c # closed ?s1, shared := None\<rparr>"
  have "conns_ok ?s1" using assms by (rule conns_ok_next_generation)
  then have "conns_ok ?s2" by (simp add: conns_ok_close_shared[of ?s1, simplified] split: option.split)
  then show ?thesis
    unfolding reset_conn_def Let_def using conns_ok_close_cache[of ?s2 tid] by (simp split: option.split)
qed

lemma conn_reach_ok: "conn_reach s \<Longrightarrow> conns_ok s"
proof (induction rule: conn_reach.induct)
  case init
  then show ?case by (simp add: conns_ok_def no_conns_def)
next
  case (step s s')
  then show ?case by (auto elim!: conn_step.cases intro: conns_ok_get conns_ok_reset)
qed

lemma get_conn_file: "cache (snd (get_conn False tid s)) tid = Some (fst (get_conn False tid s), generation s)"
  by (auto simp: get_conn_def split: option.splits)

section \<open>Properties\<close>

text \<open>
  \<open>retry_on_locked\<close> calls the function until it first does anything other than report a locked
  database, at most four times; it gives that call's value or exception (the fourth call's, if all
  four found the database locked) and has slept 0.1, 0.2 and 0.4 seconds before the calls that
  followed, never after the last one.
\<close>

theorem retry_until_first_unlocked:
  assumes "\<forall>i<n. is_locked (fst (fn (after_locks i fn s)))"
    and "n = 3 \<or> n < 3 \<and> \<not> is_locked (fst (fn (after_locks n fn s)))"
  shows "retry_on_locked fn s = (outcome_of (fst (fn (after_locks n fn s))),
      snd (fn (after_locks n fn s)), take n [100, 200, 400], n + 1)"
  unfolding retry_on_locked_def
  using retry_from_first_unlocked[of n fn s 0] assms by (auto simp: delays_def)

theorem retry_until_first_unlocked_witness:
  "let fn = (\<lambda>k::nat. (if k < 2 then Locked ''locked'' else Returned k, Suc k))
   in retry_on_locked fn 0 = (Inr 2, 3, [100, 200], 3)"
proof -
  let ?fn = "\<lambda>k::nat. (if k < 2 then Locked ''locked'' else Returned k, Suc k)"
  have "\<forall>i<2. is_locked (fst (?fn (after_locks i ?fn 0)))"
    by (auto simp: is_locked_def less_2_cases_iff)
  moreover have "\<not> is_locked (fst (?fn (after_locks 2 ?fn 0)))"
    by (simp add: is_locked_def numeral_2_eq_2)
  ultimately have "retry_on_locked ?fn 0 = (outcome_of (fst (?fn (after_locks 2 ?fn 0))),
      snd (?fn (after_locks 2 ?fn 0)), take 2 [100, 200, 400], 2 + 1)"
    using retry_until_first_unlocked[of 2 ?fn 0] by simp
  then show ?thesis by (simp add: numeral_2_eq_2 numeral_3_eq_3)
qed

text \<open>
  On a file database no two threads ever hold the same SQLite connection, whatever sequence of
  connection requests and \<open>reset_conn\<close> calls ran before, and a thread is never handed a
  connection that was closed or that predates the last reset.
\<close>

theorem connections_are_private:
  assumes "conn_reach s" and "t \<noteq> t'"
  shows "let (c, s1) = get_conn False t s; (c', s2) = get_conn False t' s1
    in c \<noteq> c' \<and> c \<notin> set (closed s2) \<and> c' \<notin> set (closed s2)
      \<and> cache s2 t = Some (c, generation s) \<and> cache s2 t' = Some (c', generation s)"
proof -
  obtain c s1 where g1: "get_conn False t s = (c, s1)" by fastforce
  obtain c' s2 where g2: "get_conn False t' s1 = (c', s2)" by fastforce
  have gen: "generation s1 = generation s" using g1 by (auto simp: get_conn_def split: option.splits if_splits)
  have "conn_reach s1" using conn_reach.step[OF assms(1) conn_step.get[of s False t]] g1 by simp
  then have "conn_reach s2" using conn_reach.step[OF _ conn_step.get[of s1 False t']] g2 by simp
  then have ok: "conns_ok s2" by (rule conn_reach_ok)
  have 1: "cache s1 t = Some (c, generation s)" using get_conn_file[of t s] g1 by simp
  have 2: "cache s2 t' = Some (c', generation s)" using get_conn_file[of t' s1] g2 gen by simp
  have 3: "cache s2 t = Some (c, generation s)"
    using 1 g2 assms(2) by (auto simp: get_conn_def split: option.splits if_splits)
  have "c \<noteq> c'" using conns_okD(8)[OF ok 3, of t'] 2 assms(2) by auto
  then show ?thesis
    using 2 3 conns_okD(6)[OF ok 2] conns_okD(6)[OF ok 3] by (simp add: g1 g2)
qed

definition two_threads :: conn_state where
  "two_threads = reset_conn 1 (snd (get_conn False 1 (snd (get_conn False 2 no_conns))))"

theorem connections_are_private_witness:
  "let (c, s1) = get_conn False 1 two_threads; (c', s2) = get_conn False 2 s1
    in c \<noteq> c' \<and> c \<notin> set (closed s2) \<and> c' \<notin> set (closed s2)
      \<and> cache s2 1 = Some (c, generation two_threads) \<and> cache s2 2 = Some (c', generation two_threads)"
proof (rule connections_are_private)
  show "conn_reach two_threads"
    unfolding two_threads_def
    by (rule conn_reach.step[OF conn_reach.step[OF conn_reach.step[OF conn_reach.init
          conn_step.get] conn_step.get] conn_step.reset])
qed simp

end
