(* ===== verification/Clock.thy ===== *)
theory Clock
  imports Prelude
begin

text \<open>
  The clock of \<open>db.py\<close> (\<open>_now\<close>) and the ISO-8601 text it stores.  A stamp is a UTC
  time as a number of microseconds since 0001-01-01T00:00:00; \<open>isoformat\<close> prints it the way
  \<open>datetime.isoformat\<close> does (no fraction when the microsecond is 0).  The database layer orders
  rows by comparing these texts, so the tables of the later theories hold the stamp and
  \<open>iso_strict_mono\<close> is what makes that the same order.
\<close>

type_synonym stamp = nat

section \<open>Printing a time\<close>

fun pad :: "nat \<Rightarrow> nat \<Rightarrow> string" where
  "pad 0 n = []"
| "pad (Suc w) n = pad w (n div 10) @ [digit (n mod 10)]"

definition is_leap :: "nat \<Rightarrow> bool" where
  "is_leap y \<longleftrightarrow> y mod 4 = 0 \<and> (y mod 100 \<noteq> 0 \<or> y mod 400 = 0)"

definition days_in_year :: "nat \<Rightarrow> nat" where
  "days_in_year y = (if is_leap y then 366 else 365)"

definition days_in_month :: "nat \<Rightarrow> nat \<Rightarrow> nat" where
  "days_in_month y m =
     (if m = 2 then (if is_leap y then 29 else 28)
      else if m = 4 \<or> m = 6 \<or> m = 9 \<or> m = 11 then 30 else 31)"

text \<open>The year of a day number and the day's number in that year; likewise the month.\<close>

function year_of :: "nat \<Rightarrow> nat \<Rightarrow> nat \<times> nat" where
  "year_of y d = (if d < days_in_year y then (y, d) else year_of (Suc y) (d - days_in_year y))"
  by pat_completeness auto
termination
  by (relation "measure snd") (auto simp: days_in_year_def)

function month_of :: "nat \<Rightarrow> nat \<Rightarrow> nat \<Rightarrow> nat \<times> nat" where
  "month_of y m d =
     (if 12 \<le> m \<or> d < days_in_month y m then (m, d)
      else month_of y (Suc m) (d - days_in_month y m))"
  by pat_completeness auto
termination
  by (relation "measure (\<lambda>(y, m, d). 12 - m)") auto

declare year_of.simps [simp del] month_of.simps [simp del]

definition iso_date :: "nat \<Rightarrow> string" where
  "iso_date n =
     (let (y, r) = year_of 1 n; (m, d) = month_of y 1 r
      in pad 4 y @ ''-'' @ pad 2 m @ ''-'' @ pad 2 (Suc d))"

definition day_us :: nat where
  "day_us = 86400000000"

definition fraction :: "nat \<Rightarrow> string" where
  "fraction us = (if us = 0 then [] else ''.'' @ pad 6 us)"

definition iso_time :: "nat \<Rightarrow> string" where
  "iso_time t =
     pad 2 (t div 3600000000) @ '':'' @ pad 2 (t div 60000000 mod 60) @ '':''
       @ pad 2 (t div 1000000 mod 60) @ fraction (t mod 1000000) @ ''+00:00''"

definition isoformat :: "stamp \<Rightarrow> string" where
  "isoformat t = iso_date (t div day_us) @ ''T'' @ iso_time (t mod day_us)"

text \<open>\<open>datetime\<close> cannot hold a year past 9999.\<close>

definition representable :: "stamp \<Rightarrow> bool" where
  "representable t \<longleftrightarrow> fst (year_of 1 (t div day_us)) \<le> 9999"

section \<open>The process clock\<close>

text \<open>
  \<open>_now\<close>: the wall clock's reading \<open>dt\<close>, nudged one microsecond past the last value this
  process handed out when it is not already later.
\<close>

definition next_now :: "stamp option \<Rightarrow> stamp \<Rightarrow> stamp" where
  "next_now prev dt = (case prev of None \<Rightarrow> dt | Some l \<Rightarrow> if dt \<le> l then l + 1 else dt)"

text \<open>The values of successive calls, for the readings the wall clock gives them.\<close>

fun now_calls :: "stamp option \<Rightarrow> stamp list \<Rightarrow> stamp list" where
  "now_calls prev [] = []"
| "now_calls prev (dt # dts) = (let n = next_now prev dt in n # now_calls (Some n) dts)"

section \<open>The text order is the time order\<close>

lemma append_less_append:
  fixes a b :: "'a::linorder list"
  shows "length a = length b \<Longrightarrow> a @ x < b @ y \<longleftrightarrow> a < b \<or> (a = b \<and> x < y)"
  by (induction a b rule: list_induct2) auto

lemma length_pad [simp]: "length (pad w n) = w"
  by (induction w arbitrary: n) auto

lemma digit_less: "a < b \<Longrightarrow> b < 10 \<Longrightarrow> digit a < digit b"
  by (simp add: digit_def less_char_def)

lemma pad_less: "a < b \<Longrightarrow> b < 10 ^ w \<Longrightarrow> pad w a < pad w b"
proof (induction w arbitrary: a b)
  case (Suc w)
  show ?case
  proof (cases "a div 10 < b div 10")
    case True
    from Suc.prems(2) have "b div 10 < 10 ^ w" by (simp add: less_mult_imp_div_less mult.commute)
    with True have "pad w (a div 10) < pad w (b div 10)" by (rule Suc.IH)
    then show ?thesis by (simp add: append_less_append)
  next
    case False
    with Suc.prems(1) have eq: "a div 10 = b div 10"
      by (metis div_le_mono le_neq_implies_less less_imp_le_nat)
    with Suc.prems(1) have "a mod 10 < b mod 10"
      by (metis add_less_cancel_left mult_div_mod_eq)
    then have "digit (a mod 10) < digit (b mod 10)" by (simp add: digit_less)
    with eq show ?thesis by (simp add: append_less_append)
  qed
qed simp

lemma year_of_bounds: "year_of y d = (z, r) \<Longrightarrow> y \<le> z \<and> r < days_in_year z"
  by (induction y d arbitrary: z r rule: year_of.induct)
     (subst (asm) year_of.simps, fastforce split: if_splits)

lemma year_of_mono:
  "d < e \<Longrightarrow> fst (year_of y d) < fst (year_of y e) \<or>
     (fst (year_of y d) = fst (year_of y e) \<and> snd (year_of y d) < snd (year_of y e))"
proof (induction y d arbitrary: e rule: year_of.induct)
  case (1 y d)
  show ?case
  proof (cases "d < days_in_year y")
    case True
    then have yd: "year_of y d = (y, d)" by (simp add: year_of.simps)
    show ?thesis
    proof (cases "e < days_in_year y")
      case True
      then show ?thesis using yd 1 by (simp add: year_of.simps[of y e])
    next
      case False
      then have "year_of y e = year_of (Suc y) (e - days_in_year y)"
        by (simp add: year_of.simps[of y e])
      then have "Suc y \<le> fst (year_of y e)"
        using year_of_bounds by (metis prod.collapse)
      then show ?thesis using yd by simp
    qed
  next
    case False
    then have "year_of y d = year_of (Suc y) (d - days_in_year y)"
      and "year_of y e = year_of (Suc y) (e - days_in_year y)"
      using "1.prems" by (simp_all add: year_of.simps[of y d] year_of.simps[of y e])
    moreover have "d - days_in_year y < e - days_in_year y" using False "1.prems" by simp
    ultimately show ?thesis using "1.IH"[OF False, of "e - days_in_year y"] by simp
  qed
qed

lemma month_of_bounds:
  "month_of y m d = (k, r) \<Longrightarrow> m \<le> k \<and> (k \<le> 12 \<or> k = m) \<and> r \<le> d"
proof (induction y m d arbitrary: k r rule: month_of.induct)
  case (1 y m d)
  show ?case
  proof (cases "12 \<le> m \<or> d < days_in_month y m")
    case True
    then show ?thesis using "1.prems" by (simp add: month_of.simps)
  next
    case False
    then have "month_of y (Suc m) (d - days_in_month y m) = (k, r)"
      using "1.prems" by (simp add: month_of.simps[of y m d])
    from "1.IH"[OF False this] False show ?thesis by auto
  qed
qed

lemma month_of_mono:
  "d < e \<Longrightarrow> fst (month_of y m d) < fst (month_of y m e) \<or>
     (fst (month_of y m d) = fst (month_of y m e) \<and> snd (month_of y m d) < snd (month_of y m e))"
proof (induction y m d arbitrary: e rule: month_of.induct)
  case (1 y m d)
  show ?case
  proof (cases "12 \<le> m \<or> d < days_in_month y m")
    case True
    then have md: "month_of y m d = (m, d)" by (simp add: month_of.simps)
    show ?thesis
    proof (cases "12 \<le> m \<or> e < days_in_month y m")
      case True
      then show ?thesis using md "1.prems" by (simp add: month_of.simps[of y m e])
    next
      case False
      then have "month_of y m e = month_of y (Suc m) (e - days_in_month y m)"
        by (simp add: month_of.simps[of y m e])
      then have "Suc m \<le> fst (month_of y m e)"
        using month_of_bounds by (metis prod.collapse)
      then show ?thesis using md by simp
    qed
  next
    case False
    then have "month_of y m d = month_of y (Suc m) (d - days_in_month y m)"
      and "month_of y m e = month_of y (Suc m) (e - days_in_month y m)"
      using "1.prems" by (simp_all add: month_of.simps[of y m d] month_of.simps[of y m e])
    moreover have "d - days_in_month y m < e - days_in_month y m" using False "1.prems" by auto
    ultimately show ?thesis using "1.IH"[OF False, of "e - days_in_month y m"] by simp
  qed
qed

definition days_left :: "nat \<Rightarrow> nat \<Rightarrow> nat" where
  "days_left y m = sum_list (map (days_in_month y) [m..<13])"

lemma days_left_step: "m \<le> 12 \<Longrightarrow> days_left y m = days_in_month y m + days_left y (Suc m)"
  by (simp add: days_left_def upt_conv_Cons)

lemma days_left_year: "days_left y (Suc 0) = days_in_year y"
  by (simp add: days_left_def days_in_month_def days_in_year_def upt_conv_Cons)

lemma month_of_day:
  "month_of y m d = (k, r) \<Longrightarrow> m \<le> 12 \<Longrightarrow> d < days_left y m \<Longrightarrow> r < days_in_month y k"
proof (induction y m d arbitrary: k r rule: month_of.induct)
  case (1 y m d)
  show ?case
  proof (cases "12 \<le> m \<or> d < days_in_month y m")
    case True
    with "1.prems" have kr: "k = m" "r = d" by (simp_all add: month_of.simps)
    have "days_left y 12 = days_in_month y 12" by (simp add: days_left_def)
    with True "1.prems"(2,3) have "d < days_in_month y m" by (cases "m = 12") auto
    with kr show ?thesis by simp
  next
    case False
    then have eq: "month_of y (Suc m) (d - days_in_month y m) = (k, r)"
      using "1.prems"(1) by (simp add: month_of.simps[of y m d])
    have "d - days_in_month y m < days_left y (Suc m)"
      using False "1.prems"(3) days_left_step[OF "1.prems"(2), of y] by auto
    with "1.IH"[OF False eq] False show ?thesis by simp
  qed
qed

lemma year_pos: "year_of (Suc 0) d = (y, r) \<Longrightarrow> r < days_left y (Suc 0)"
  using year_of_bounds[of "Suc 0" d y r] by (simp add: days_left_year)

lemma length_iso_date [simp]: "length (iso_date n) = 10"
  by (simp add: iso_date_def split: prod.splits)

lemma day_number_bound:
  assumes "year_of (Suc 0) n = (y, r)" and "month_of y (Suc 0) r = (m, d)"
  shows "m < 100 \<and> Suc d < 100"
proof -
  from assms have "d < days_in_month y m" by (intro month_of_day[of y "Suc 0" r]) (simp_all add: year_pos)
  moreover have "m \<le> 12" using month_of_bounds[OF assms(2)] by auto
  ultimately show ?thesis by (auto simp: days_in_month_def split: if_splits)
qed

lemma iso_date_mono:
  assumes "a < b" and "fst (year_of 1 b) \<le> 9999"
  shows "iso_date a < iso_date b"
proof -
  obtain ya ra yb rb where y: "year_of (Suc 0) a = (ya, ra)" "year_of (Suc 0) b = (yb, rb)"
    by (metis surj_pair)
  obtain ma da mb db
    where m: "month_of ya (Suc 0) ra = (ma, da)" "month_of yb (Suc 0) rb = (mb, db)"
    by (metis surj_pair)
  have big: "yb < 10 ^ 4" using assms(2) y by simp
  have lim: "mb < 10 ^ 2" "Suc db < 10 ^ 2" using day_number_bound[OF y(2) m(2)] by simp_all
  note order = append_less_append
  from year_of_mono[OF assms(1), of "Suc 0"] y consider "ya < yb" | "ya = yb" "ra < rb" by auto
  then show ?thesis
  proof cases
    case 1
    from pad_less[OF this big] show ?thesis by (simp add: iso_date_def y m order)
  next
    case 2
    note same_year = m[unfolded 2(1)] 2(1)
    from month_of_mono[OF 2(2), of yb "Suc 0"] m 2(1)
    consider "ma < mb" | "ma = mb" "da < db" by auto
    then show ?thesis
    proof cases
      case 1
      from pad_less[OF this lim(1)] show ?thesis by (simp add: iso_date_def y same_year order)
    next
      case 2
      then have "pad 2 (Suc da) < pad 2 (Suc db)" using lim(2) by (intro pad_less) simp_all
      with 2(1) show ?thesis by (simp add: iso_date_def y same_year order)
    qed
  qed
qed

text \<open>The fraction is dropped at 0, and \<open>+\<close> sorts below \<open>.\<close>, so the order survives.\<close>

lemma fraction_mono:
  assumes "a < b" and "b < 1000000"
  shows "fraction a @ ''+00:00'' < fraction b @ ''+00:00''"
proof (cases "a = 0")
  case True
  with assms show ?thesis by (simp add: fraction_def less_char_def)
next
  case False
  have "pad 6 a < pad 6 b" using assms by (intro pad_less) simp_all
  with False assms show ?thesis by (simp add: fraction_def append_less_append)
qed

lemma clock_fields_less:
  fixes h m s u h' m' s' u' :: nat
  assumes "h * 3600000000 + m * 60000000 + s * 1000000 + u
      < h' * 3600000000 + m' * 60000000 + s' * 1000000 + u'"
    and "m' < 60" "s' < 60" "u' < 1000000"
  shows "h < h' \<or> (h = h' \<and> (m < m' \<or> (m = m' \<and> (s < s' \<or> (s = s' \<and> u < u')))))"
proof -
  consider "h < h'" | "h' + 1 \<le> h" | "h = h'" "m < m'" | "h = h'" "m' + 1 \<le> m"
    | "h = h'" "m = m'" "s < s'" | "h = h'" "m = m'" "s' + 1 \<le> s" | "h = h'" "m = m'" "s = s'"
    by linarith
  then show ?thesis using assms by cases linarith+
qed

lemma time_of_day_cases:
  fixes a b :: nat
  assumes "a < b"
  shows "a div 3600000000 < b div 3600000000 \<or>
    (a div 3600000000 = b div 3600000000 \<and>
      (a div 60000000 mod 60 < b div 60000000 mod 60 \<or>
        (a div 60000000 mod 60 = b div 60000000 mod 60 \<and>
          (a div 1000000 mod 60 < b div 1000000 mod 60 \<or>
            (a div 1000000 mod 60 = b div 1000000 mod 60 \<and> a mod 1000000 < b mod 1000000)))))"
proof -
  have split: "n = n div 3600000000 * 3600000000 + n div 60000000 mod 60 * 60000000
      + n div 1000000 mod 60 * 1000000 + n mod 1000000" for n :: nat
  proof -
    let ?s = "n div 1000000" and ?m = "n div 60000000"
    have m: "?m = ?s div 60" and h: "n div 3600000000 = ?m div 60"
      by (simp_all add: div_mult2_eq [symmetric])
    have "n = ?s * 1000000 + n mod 1000000" by simp
    moreover have "?s = ?m * 60 + ?s mod 60" unfolding m by simp
    moreover have "?m = n div 3600000000 * 60 + ?m mod 60" unfolding h by simp
    ultimately show ?thesis by linarith
  qed
  have "a div 3600000000 * 3600000000 + a div 60000000 mod 60 * 60000000
      + a div 1000000 mod 60 * 1000000 + a mod 1000000
    < b div 3600000000 * 3600000000 + b div 60000000 mod 60 * 60000000
      + b div 1000000 mod 60 * 1000000 + b mod 1000000"
    using assms split[of a] split[of b] by presburger
  then show ?thesis by (rule clock_fields_less) simp_all
qed

lemma iso_time_mono:
  assumes "a < b" and "b < day_us"
  shows "iso_time a < iso_time b"
proof -
  note order = append_less_append
  have h: "b div 3600000000 < 10 ^ 2" using assms(2) by (simp add: day_us_def)
  from time_of_day_cases[OF assms(1)]
  consider (hour) "a div 3600000000 < b div 3600000000"
    | (minute) "a div 3600000000 = b div 3600000000"
        "a div 60000000 mod 60 < b div 60000000 mod 60"
    | (second) "a div 3600000000 = b div 3600000000"
        "a div 60000000 mod 60 = b div 60000000 mod 60"
        "a div 1000000 mod 60 < b div 1000000 mod 60"
    | (micro) "a div 3600000000 = b div 3600000000"
        "a div 60000000 mod 60 = b div 60000000 mod 60"
        "a div 1000000 mod 60 = b div 1000000 mod 60" "a mod 1000000 < b mod 1000000"
    by blast
  then show ?thesis
  proof cases
    case hour
    from pad_less[OF this h] show ?thesis by (simp add: iso_time_def order)
  next
    case minute
    from pad_less[OF this(2), of 2] show ?thesis by (simp add: iso_time_def order minute(1))
  next
    case second
    from pad_less[OF this(3), of 2] show ?thesis by (simp add: iso_time_def order second(1,2))
  next
    case micro
    from fraction_mono[OF this(4)] show ?thesis by (simp add: iso_time_def order micro(1-3))
  qed
qed

lemma isoformat_less:
  assumes "a < b" and "representable b"
  shows "isoformat a < isoformat b"
proof -
  have "0 < day_us" by (simp add: day_us_def)
  consider "a div day_us < b div day_us"
    | "a div day_us = b div day_us" "a mod day_us < b mod day_us"
    using assms(1) by (metis add_less_cancel_left div_le_mono less_imp_le_nat mult_div_mod_eq
        order_le_less)
  then show ?thesis
  proof cases
    case 1
    then have "iso_date (a div day_us) < iso_date (b div day_us)"
      using assms(2) by (simp add: iso_date_mono representable_def)
    then show ?thesis by (simp add: isoformat_def append_less_append)
  next
    case 2
    then have "iso_time (a mod day_us) < iso_time (b mod day_us)"
      using \<open>0 < day_us\<close> by (simp add: iso_time_mono)
    with 2 show ?thesis by (simp add: isoformat_def append_less_append)
  qed
qed

lemma iso_strict_mono:
  "representable a \<Longrightarrow> representable b \<Longrightarrow> isoformat a < isoformat b \<longleftrightarrow> a < b"
  using isoformat_less[of a b] isoformat_less[of b a] by (metis less_asym linorder_neqE_nat)

lemma now_calls_above: "sorted_wrt (<) (now_calls prev dts) \<and> (\<forall>l. prev = Some l \<longrightarrow> (\<forall>t\<in>set (now_calls prev dts). l < t))"
proof (induction dts arbitrary: prev)
  case (Cons dt dts)
  let ?n = "next_now prev dt"
  have above: "\<forall>t\<in>set (now_calls (Some ?n) dts). ?n < t"
    and srt: "sorted_wrt (<) (now_calls (Some ?n) dts)"
    using Cons.IH[of "Some ?n"] by auto
  have "l < ?n" if "prev = Some l" for l
    using that by (auto simp: next_now_def)
  with above srt show ?case by (force simp: Let_def)
qed simp

lemma sorted_texts:
  "sorted_wrt (<) ts \<Longrightarrow> \<forall>t\<in>set ts. representable t \<Longrightarrow> sorted_wrt (<) (map isoformat ts)"
  by (induction ts) (auto simp: isoformat_less)

lemma next_now_bounds:
  "dt \<le> next_now prev dt \<and> next_now prev dt \<le> max dt (case prev of None \<Rightarrow> dt | Some l \<Rightarrow> Suc l)"
  by (auto simp: next_now_def split: option.splits)

lemma representable_first_day: "t < day_us \<Longrightarrow> representable t"
  by (simp add: representable_def year_of.simps[of _ 0] days_in_year_def)

section \<open>Properties\<close>

text \<open>
  C35.  The values one process gets from \<open>_now()\<close> are strictly increasing as ISO-8601 texts,
  whatever the wall clock reads (repeated ticks and backward jumps included) and after whatever
  value came before, up to the last year \<open>datetime\<close> can hold: comparing stored stamps as strings,
  as every query does, orders events by the time they were created.
\<close>

theorem now_texts_strictly_increase:
  assumes "\<forall>t\<in>set (now_calls prev dts). representable t"
  shows "sorted_wrt (<) (map isoformat (now_calls prev dts)) \<and>
    (\<forall>t\<in>set (now_calls prev dts). \<forall>l. prev = Some l \<longrightarrow> isoformat l < isoformat t)"
  using assms now_calls_above[of prev dts] sorted_texts isoformat_less by blast

theorem now_texts_strictly_increase_witness:
  "now_calls (Some 7) [5, 9, 9, 2] = [8, 9, 10, 11] \<and>
   sorted_wrt (<) (map isoformat (now_calls (Some 7) [5, 9, 9, 2]))"
proof -
  have calls: "now_calls (Some 7) [5, 9, 9, 2] = [8, 9, 10, 11]"
    by (simp add: next_now_def)
  have "\<forall>t\<in>set (now_calls (Some 7) [5, 9, 9, 2]). representable t"
    unfolding calls by (simp add: representable_first_day day_us_def)
  from now_texts_strictly_increase[OF this] calls show ?thesis by blast
qed

end
