(* ===== verification/Models.thy ===== *)
theory Models
  imports Prelude
begin

text \<open>
  \<open>models.py\<close>: the status workflow and its phase gate, the enums, and the checkpoint every
  ingest configuration passes (\<open>validate_ingest_pair\<close>).  A status column only ever holds a
  \<open>BugStatus\<close> value, so the later theories store the enum itself.
\<close>

section \<open>Statuses and transitions\<close>

datatype bug_status =
    SUBMITTED | VALIDATING | TRIAGED | ANALYZING | CLARIFICATION_NEEDED | FIX_PROPOSING
  | FIX_PROPOSED | FIX_APPROVED | FIX_COMMITTED | VERIFIED | CLOSED | REJECTED | DUPLICATE | DEFERRED

definition all_statuses :: "bug_status list" where
  "all_statuses = [SUBMITTED, VALIDATING, TRIAGED, ANALYZING, CLARIFICATION_NEEDED, FIX_PROPOSING,
     FIX_PROPOSED, FIX_APPROVED, FIX_COMMITTED, VERIFIED, CLOSED, REJECTED, DUPLICATE, DEFERRED]"

lemma in_all_statuses [simp]: "x \<in> set all_statuses"
  by (cases x) (simp_all add: all_statuses_def)

fun status_value :: "bug_status \<Rightarrow> string" where
  "status_value SUBMITTED = ''submitted''"
| "status_value VALIDATING = ''validating''"
| "status_value TRIAGED = ''triaged''"
| "status_value ANALYZING = ''analyzing''"
| "status_value CLARIFICATION_NEEDED = ''clarification_needed''"
| "status_value FIX_PROPOSING = ''fix_proposing''"
| "status_value FIX_PROPOSED = ''fix_proposed''"
| "status_value FIX_APPROVED = ''fix_approved''"
| "status_value FIX_COMMITTED = ''fix_committed''"
| "status_value VERIFIED = ''verified''"
| "status_value CLOSED = ''closed''"
| "status_value REJECTED = ''rejected''"
| "status_value DUPLICATE = ''duplicate''"
| "status_value DEFERRED = ''deferred''"

text \<open>\<open>BugStatus(value)\<close>; \<open>None\<close> stands for the \<open>ValueError\<close> of an unknown value.\<close>

definition status_of_value :: "string \<Rightarrow> bug_status option" where
  "status_of_value v = find (\<lambda>x. status_value x = v) all_statuses"

lemma status_value_inj: "status_value x = status_value y \<longleftrightarrow> x = y"
  by (cases x; cases y) simp_all

text \<open>A status column is compared and grouped by its text.\<close>

instantiation bug_status :: linorder
begin

definition less_eq_bug_status :: "bug_status \<Rightarrow> bug_status \<Rightarrow> bool" where
  "less_eq_bug_status x y \<longleftrightarrow> status_value x \<le> status_value y"

definition less_bug_status :: "bug_status \<Rightarrow> bug_status \<Rightarrow> bool" where
  "less_bug_status x y \<longleftrightarrow> status_value x < status_value y"

instance
  by intro_classes (auto simp: less_eq_bug_status_def less_bug_status_def status_value_inj[symmetric])

end

lemma status_roundtrip: "status_of_value (status_value x) = Some x"
  unfolding status_of_value_def status_value_inj by (cases x) (simp_all add: all_statuses_def)

definition TERMINAL_STATUSES :: "bug_status list" where
  "TERMINAL_STATUSES = [CLOSED, REJECTED, DUPLICATE]"

fun VALID_TRANSITIONS :: "bug_status \<Rightarrow> bug_status list" where
  "VALID_TRANSITIONS SUBMITTED = [VALIDATING, REJECTED, TRIAGED]"
| "VALID_TRANSITIONS VALIDATING = [TRIAGED, REJECTED]"
| "VALID_TRANSITIONS TRIAGED = [ANALYZING, FIX_PROPOSING, DEFERRED, DUPLICATE, CLOSED]"
| "VALID_TRANSITIONS ANALYZING = [CLARIFICATION_NEEDED, FIX_PROPOSED, TRIAGED]"
| "VALID_TRANSITIONS CLARIFICATION_NEEDED = [ANALYZING, CLOSED]"
| "VALID_TRANSITIONS FIX_PROPOSING = [FIX_PROPOSED, TRIAGED]"
| "VALID_TRANSITIONS FIX_PROPOSED = [FIX_APPROVED, TRIAGED, CLOSED]"
| "VALID_TRANSITIONS FIX_APPROVED = [FIX_COMMITTED, FIX_PROPOSED]"
| "VALID_TRANSITIONS FIX_COMMITTED = [VERIFIED, TRIAGED]"
| "VALID_TRANSITIONS VERIFIED = [CLOSED]"
| "VALID_TRANSITIONS DEFERRED = [TRIAGED]"
| "VALID_TRANSITIONS CLOSED = []"
| "VALID_TRANSITIONS REJECTED = []"
| "VALID_TRANSITIONS DUPLICATE = []"

definition CURRENT_PHASE_TARGETS :: "bug_status list" where
  "CURRENT_PHASE_TARGETS = [VALIDATING, TRIAGED, ANALYZING, CLARIFICATION_NEEDED, FIX_PROPOSING,
     FIX_PROPOSED, DEFERRED, DUPLICATE, CLOSED, REJECTED]"

definition CLAIM_STATUSES :: "bug_status list" where
  "CLAIM_STATUSES = [FIX_APPROVED]"

definition validate_transition :: "bug_status \<Rightarrow> bug_status \<Rightarrow> bool \<Rightarrow> bool" where
  "validate_transition current target enforce_phase_gating =
     (let allowed = VALID_TRANSITIONS current
      in if target \<notin> set allowed then False
         else if enforce_phase_gating \<and>
             (target \<notin> set CURRENT_PHASE_TARGETS \<or> current \<in> set CLAIM_STATUSES) then False
         else True)"

lemmas status_sets = TERMINAL_STATUSES_def CURRENT_PHASE_TARGETS_def CLAIM_STATUSES_def

lemma gated_target: "validate_transition c t True \<Longrightarrow> t \<in> set CURRENT_PHASE_TARGETS"
  by (simp add: validate_transition_def Let_def split: if_splits)

lemma gated_source: "validate_transition c t True \<Longrightarrow> c \<notin> set CLAIM_STATUSES"
  by (simp add: validate_transition_def Let_def split: if_splits)

lemma valid_is_listed: "validate_transition c t g \<Longrightarrow> t \<in> set (VALID_TRANSITIONS c)"
  by (simp add: validate_transition_def Let_def split: if_splits)

section \<open>The other enums\<close>

definition severities :: "string list" where
  "severities = [''critical'', ''high'', ''medium'', ''low'']"

datatype analysis_mode = AUTO | LOCAL_ONLY | HOLD

fun mode_value :: "analysis_mode \<Rightarrow> string" where
  "mode_value AUTO = ''auto''"
| "mode_value LOCAL_ONLY = ''local_only''"
| "mode_value HOLD = ''hold''"

definition mode_of_value :: "string \<Rightarrow> analysis_mode option" where
  "mode_of_value v = find (\<lambda>m. mode_value m = v) [AUTO, LOCAL_ONLY, HOLD]"

lemma mode_roundtrip: "mode_of_value (mode_value m) = Some m"
  by (cases m) (simp_all add: mode_of_value_def)

datatype analysis_tier = LOCAL | CLOUD

text \<open>\<open>LLMOverride\<close>: a request's provider, model and key.\<close>

record llm_override =
  ov_provider :: "string option"
  ov_model :: "string option"
  ov_api_key :: "string option"
  ov_key_ref :: "string option"

definition has_key :: "llm_override \<Rightarrow> bool" where
  "has_key ov = (case ov_api_key ov of None \<Rightarrow> False | Some k \<Rightarrow> k \<noteq> [])"

section \<open>Ingest configuration\<close>

definition is_upper :: "char \<Rightarrow> bool" where
  "is_upper c \<longleftrightarrow> CHR ''A'' \<le> c \<and> c \<le> CHR ''Z''"

definition is_lower :: "char \<Rightarrow> bool" where
  "is_lower c \<longleftrightarrow> CHR ''a'' \<le> c \<and> c \<le> CHR ''z''"

definition is_digit :: "char \<Rightarrow> bool" where
  "is_digit c \<longleftrightarrow> CHR ''0'' \<le> c \<and> c \<le> CHR ''9''"

text \<open>
  \<open>re.match(r"^F R*$", s)\<close> for a first-character class and a rest class.  Without
  \<open>re.MULTILINE\<close>, \<open>$\<close> also matches just before a newline that ends the string.
\<close>

definition match_ident :: "(char \<Rightarrow> bool) \<Rightarrow> (char \<Rightarrow> bool) \<Rightarrow> string \<Rightarrow> bool" where
  "match_ident first rest s =
     (let body = (if s \<noteq> [] \<and> last s = CHR 0x0A then butlast s else s)
      in (case body of [] \<Rightarrow> False | c # cs \<Rightarrow> first c \<and> list_all rest cs)
         \<or> (case s of [] \<Rightarrow> False | c # cs \<Rightarrow> first c \<and> list_all rest cs))"

definition TABLE_IDENT :: "string \<Rightarrow> bool" where
  "TABLE_IDENT = match_ident (\<lambda>c. is_upper c \<or> is_lower c \<or> c = CHR ''_'')
     (\<lambda>c. is_upper c \<or> is_lower c \<or> is_digit c \<or> c = CHR ''_'')"

definition ENV_VAR_NAME :: "string \<Rightarrow> bool" where
  "ENV_VAR_NAME = match_ident is_upper (\<lambda>c. is_upper c \<or> is_digit c \<or> c = CHR ''_'')"

text \<open>
  \<open>urllib.parse.urlsplit\<close> as far as the sources read its result, on ASCII text.  \<open>None\<close> is the
  \<open>ValueError\<close> of unbalanced brackets in the host; a bracketed host is not checked to be an IP
  address.
\<close>

record url_parts =
  u_scheme :: string
  u_hostname :: "string option"
  u_username :: "string option"
  u_password :: "string option"
  u_path :: string
  u_query :: string
  u_fragment :: string

definition partition_at :: "char \<Rightarrow> string \<Rightarrow> string \<times> bool \<times> string" where
  "partition_at c s =
     (takeWhile (\<lambda>x. x \<noteq> c) s, c \<in> set s, drop 1 (dropWhile (\<lambda>x. x \<noteq> c) s))"

definition rpartition_at :: "char \<Rightarrow> string \<Rightarrow> string \<times> bool \<times> string" where
  "rpartition_at c s =
     (if c \<in> set s then
        (rev (drop 1 (dropWhile (\<lambda>x. x \<noteq> c) (rev s))), True, rev (takeWhile (\<lambda>x. x \<noteq> c) (rev s)))
      else ([], False, s))"

definition to_lower :: "char \<Rightarrow> char" where
  "to_lower c = (if is_upper c then char_of (of_char c + 32 :: nat) else c)"

definition scheme_char :: "char \<Rightarrow> bool" where
  "scheme_char c \<longleftrightarrow> is_upper c \<or> is_lower c \<or> is_digit c \<or> c \<in> set ''+-.''"

definition split_scheme :: "string \<Rightarrow> string \<times> string" where
  "split_scheme url =
     (let (pre, colon, post) = partition_at (CHR '':'') url
      in if colon \<and> pre \<noteq> [] \<and> (is_upper (hd pre) \<or> is_lower (hd pre)) \<and> list_all scheme_char pre
         then (map to_lower pre, post) else ([], url))"

definition split_netloc :: "string \<Rightarrow> string \<times> string" where
  "split_netloc url =
     (if starts_with ''//'' url
      then (takeWhile (\<lambda>c. c \<notin> set ''/?#'') (drop 2 url), dropWhile (\<lambda>c. c \<notin> set ''/?#'') (drop 2 url))
      else ([], url))"

definition host_of :: "string \<Rightarrow> string option" where
  "host_of hostinfo =
     (let (pre, bracket, bracketed) = partition_at (CHR ''['') hostinfo;
          name = fst (if bracket then partition_at (CHR '']'') bracketed
                      else partition_at (CHR '':'') hostinfo)
      in if name = [] then None else Some (map to_lower name))"

definition urlsplit :: "string \<Rightarrow> url_parts option" where
  "urlsplit raw =
     (let text = filter (\<lambda>c. c \<notin> {CHR 0x09, CHR 0x0A, CHR 0x0D})
            (dropWhile (\<lambda>c. of_char c \<le> (32 :: nat)) raw);
          (scheme, rest) = split_scheme text;
          (netloc, rest2) = split_netloc rest;
          (before, _, fragment) = partition_at (CHR ''#'') rest2;
          (path, _, query) = partition_at (CHR ''?'') before;
          (userinfo, have_info, hostinfo) = rpartition_at (CHR ''@'') netloc;
          (user, have_pw, pw) = partition_at (CHR '':'') userinfo
      in if (CHR ''['' \<in> set netloc) \<noteq> (CHR '']'' \<in> set netloc) then None
         else Some \<lparr>u_scheme = scheme, u_hostname = host_of hostinfo,
           u_username = (if have_info then Some user else None),
           u_password = (if have_info \<and> have_pw then Some pw else None),
           u_path = path, u_query = query, u_fragment = fragment\<rparr>)"

record supabase_config =
  sc_url :: string
  sc_table :: string
  sc_credential_env :: string
  sc_triage_credential_env :: "string option"

text \<open>The value checks of \<open>SupabaseIngestConfig\<close>: length bounds, then the field validators.\<close>

definition len_in :: "nat \<Rightarrow> nat \<Rightarrow> string \<Rightarrow> bool" where
  "len_in lo hi s \<longleftrightarrow> lo \<le> length s \<and> length s \<le> hi"

definition credential_free_https :: "string \<Rightarrow> string + string" where
  "credential_free_https v =
     (case urlsplit v of None \<Rightarrow> Inl ''invalid url''
      | Some parts \<Rightarrow>
         if u_scheme parts \<noteq> ''https'' then Inl ''url must use https''
         else if \<not> str_set (u_hostname parts) then Inl ''url must include a host''
         else if u_username parts \<noteq> None \<or> u_password parts \<noteq> None
           then Inl ''url must not embed credentials (userinfo)''
         else if u_query parts \<noteq> [] \<or> u_fragment parts \<noteq> []
           then Inl ''url must not carry a query string or fragment''
         else Inr v)"

definition table_identifier :: "string \<Rightarrow> string + string" where
  "table_identifier v =
     (if \<not> TABLE_IDENT v then Inl ''table must be a plain SQL identifier'' else Inr v)"

definition env_var_name :: "string option \<Rightarrow> string + string option" where
  "env_var_name v =
     (case v of None \<Rightarrow> Inr None
      | Some n \<Rightarrow> if \<not> ENV_VAR_NAME n
          then Inl ''must be an environment variable name (uppercase letters, digits, underscores)''
          else Inr (Some n))"

text \<open>
  \<open>SupabaseIngestConfig.model_validate\<close>: the declared fields in order, then the undeclared keys
  (\<open>extra="forbid"\<close>).  A failure is the list of the fields at fault, which is what the error
  message names besides its fixed reasons.
\<close>

definition str_field :: "nat \<Rightarrow> (string \<Rightarrow> bool) \<Rightarrow> json option \<Rightarrow> string option" where
  "str_field hi ok v =
     (case v of Some (JStr s) \<Rightarrow> if len_in 1 hi s \<and> ok s then Some s else None | _ \<Rightarrow> None)"

definition opt_field :: "nat \<Rightarrow> (string \<Rightarrow> bool) \<Rightarrow> json option \<Rightarrow> string option option" where
  "opt_field hi ok v =
     (case v of None \<Rightarrow> Some None | Some JNull \<Rightarrow> Some None
      | Some j \<Rightarrow> map_option Some (str_field hi ok (Some j)))"

definition config_keys :: "string list" where
  "config_keys = [''url'', ''table'', ''credential_env'', ''triage_credential_env'']"

fun is_Inr :: "'a + 'b \<Rightarrow> bool" where
  "is_Inr (Inl _) = False"
| "is_Inr (Inr _) = True"

definition validate_supabase :: "(string \<times> json) list \<Rightarrow> string list + supabase_config" where
  "validate_supabase kvs =
     (let url = str_field 1000 (\<lambda>v. is_Inr (credential_free_https v)) (map_of kvs ''url'');
          table = str_field 128 (\<lambda>v. is_Inr (table_identifier v)) (map_of kvs ''table'');
          cred = str_field 128 (\<lambda>v. is_Inr (env_var_name (Some v))) (map_of kvs ''credential_env'');
          tri = opt_field 128 (\<lambda>v. is_Inr (env_var_name (Some v)))
                  (map_of kvs ''triage_credential_env'');
          extra = filter (\<lambda>k. k \<notin> set config_keys) (map fst kvs);
          bad = (if url = None then [''url''] else []) @ (if table = None then [''table''] else [])
            @ (if cred = None then [''credential_env''] else [])
            @ (if tri = None then [''triage_credential_env''] else []) @ extra
      in if bad \<noteq> [] then Inl bad
         else Inr \<lparr>sc_url = the url, sc_table = the table, sc_credential_env = the cred,
                sc_triage_credential_env = the tri\<rparr>)"

text \<open>\<open>model_dump(exclude_none=True)\<close>: an absent triage name leaves the key out.\<close>

definition dump_config :: "supabase_config \<Rightarrow> (string \<times> json) list" where
  "dump_config c =
     [(''url'', JStr (sc_url c)), (''table'', JStr (sc_table c)),
      (''credential_env'', JStr (sc_credential_env c))]
     @ (case sc_triage_credential_env c of None \<Rightarrow> []
        | Some t \<Rightarrow> [(''triage_credential_env'', JStr t)])"

datatype ingest_error =
    Requires_source | Requires_config | Unknown_source | Invalid_config "string list"

definition validate_ingest_pair ::
  "string option \<Rightarrow> (string \<times> json) list option
   \<Rightarrow> ingest_error + (string option \<times> (string \<times> json) list option)" where
  "validate_ingest_pair source config =
     (case (source, config) of
        (None, None) \<Rightarrow> Inr (None, None)
      | (None, Some _) \<Rightarrow> Inl Requires_source
      | (Some _, None) \<Rightarrow> Inl Requires_config
      | (Some src, Some kvs) \<Rightarrow>
          if src \<noteq> ''supabase'' then Inl Unknown_source
          else (case validate_supabase kvs of
                  Inl bad \<Rightarrow> Inl (Invalid_config bad)
                | Inr c \<Rightarrow> Inr (Some ''supabase'', Some (dump_config c))))"

text \<open>
  \<open>triage_base_url\<close>: the poll URL's parent, \<open>None\<close> without a usable URL.  The outer option is
  \<open>urlsplit\<close>'s \<open>ValueError\<close>.
\<close>

definition rstrip_slash :: "string \<Rightarrow> string" where
  "rstrip_slash s = rev (dropWhile (\<lambda>c. c = CHR ''/'') (rev s))"

definition triage_base_url :: "(string \<times> json) list option \<Rightarrow> string option option" where
  "triage_base_url ingest_config =
     (case map_of (case ingest_config of None \<Rightarrow> [] | Some kvs \<Rightarrow> kvs) ''url'' of
        Some (JStr url) \<Rightarrow>
          (case urlsplit url of None \<Rightarrow> None
           | Some parts \<Rightarrow>
              if CHR ''/'' \<notin> set (rstrip_slash (u_path parts)) then Some None
              else Some (Some (fst (rpartition_at (CHR ''/'') (rstrip_slash url)))))
      | _ \<Rightarrow> Some None)"

section \<open>Lemmas\<close>

definition plain_ident :: "(char \<Rightarrow> bool) \<Rightarrow> (char \<Rightarrow> bool) \<Rightarrow> string \<Rightarrow> bool" where
  "plain_ident first rest i = (case i of [] \<Rightarrow> False | c # cs \<Rightarrow> first c \<and> list_all rest cs)"

lemma match_ident_iff:
  "match_ident f r s \<longleftrightarrow> (\<exists>i. plain_ident f r i \<and> (s = i \<or> s = i @ [CHR 0x0A]))"
proof
  assume m: "match_ident f r s"
  show "\<exists>i. plain_ident f r i \<and> (s = i \<or> s = i @ [CHR 0x0A])"
  proof (cases "s \<noteq> [] \<and> last s = CHR 0x0A")
    case True
    then have "s = butlast s @ [CHR 0x0A]" by (metis append_butlast_last_id)
    with m True show ?thesis
      by (auto simp: match_ident_def plain_ident_def)
  next
    case False
    with m show ?thesis by (auto simp: match_ident_def plain_ident_def)
  qed
next
  assume "\<exists>i. plain_ident f r i \<and> (s = i \<or> s = i @ [CHR 0x0A])"
  then obtain i where i: "plain_ident f r i" "s = i \<or> s = i @ [CHR 0x0A]" by blast
  from i(2) show "match_ident f r s"
  proof
    assume "s = i"
    with i(1) show ?thesis by (auto simp: match_ident_def plain_ident_def split: if_splits)
  next
    assume "s = i @ [CHR 0x0A]"
    with i(1) show ?thesis by (auto simp: match_ident_def plain_ident_def)
  qed
qed

lemma str_field_Some:
  "str_field hi ok v = Some x \<longleftrightarrow> v = Some (JStr x) \<and> len_in 1 hi x \<and> ok x"
  by (auto simp: str_field_def split: option.splits json.splits)

lemma opt_field_Some:
  "opt_field hi ok v = Some (Some x) \<longleftrightarrow> v = Some (JStr x) \<and> len_in 1 hi x \<and> ok x"
  by (auto simp: opt_field_def str_field_Some split: option.splits json.splits)

lemma validate_supabase_fields:
  assumes "validate_supabase kvs = Inr c"
  shows "str_field 1000 (\<lambda>v. is_Inr (credential_free_https v)) (map_of kvs ''url'') = Some (sc_url c)"
    and "str_field 128 (\<lambda>v. is_Inr (table_identifier v)) (map_of kvs ''table'') = Some (sc_table c)"
    and "str_field 128 (\<lambda>v. is_Inr (env_var_name (Some v))) (map_of kvs ''credential_env'')
           = Some (sc_credential_env c)"
    and "opt_field 128 (\<lambda>v. is_Inr (env_var_name (Some v))) (map_of kvs ''triage_credential_env'')
           = Some (sc_triage_credential_env c)"
  using assms by (auto simp: validate_supabase_def Let_def split: if_splits)

lemma validate_supabase_Inr:
  assumes "validate_supabase kvs = Inr c"
  shows "map_of kvs ''url'' = Some (JStr (sc_url c))"
    and "len_in 1 1000 (sc_url c)" and "is_Inr (credential_free_https (sc_url c))"
    and "len_in 1 128 (sc_table c)" and "is_Inr (table_identifier (sc_table c))"
    and "len_in 1 128 (sc_credential_env c)" and "is_Inr (env_var_name (Some (sc_credential_env c)))"
    and "\<And>t. sc_triage_credential_env c = Some t \<Longrightarrow> len_in 1 128 t \<and> is_Inr (env_var_name (Some t))"
  using validate_supabase_fields[OF assms] unfolding str_field_Some
  by (simp_all add: opt_field_Some)

lemma validate_dump:
  assumes "validate_supabase kvs = Inr c"
  shows "validate_supabase (dump_config c) = Inr c"
proof (cases "sc_triage_credential_env c")
  case None
  then show ?thesis
    using validate_supabase_Inr[OF assms]
    by (simp add: validate_supabase_def dump_config_def str_field_def opt_field_def config_keys_def)
next
  case (Some t)
  then show ?thesis
    using validate_supabase_Inr[OF assms]
    by (simp add: validate_supabase_def dump_config_def str_field_def opt_field_def config_keys_def)
qed

lemma dump_keys: "set (map fst (dump_config c)) \<subseteq> set config_keys"
  by (auto simp: dump_config_def config_keys_def split: option.splits)

lemma credential_free_parts:
  "is_Inr (credential_free_https v) \<longleftrightarrow> (\<exists>p. urlsplit v = Some p \<and> u_scheme p = ''https'' \<and>
     str_set (u_hostname p) \<and> u_username p = None \<and> u_password p = None \<and> u_query p = []
     \<and> u_fragment p = [])"
  by (auto simp: credential_free_https_def Let_def split: option.splits)

lemma pair_accepted:
  assumes "validate_ingest_pair source config = Inr (s, c)"
  shows "(s = None \<and> c = None) \<or>
    (\<exists>kvs sc. validate_supabase kvs = Inr sc \<and> s = Some ''supabase'' \<and> c = Some (dump_config sc))"
  using assms
  by (auto simp: validate_ingest_pair_def split: option.splits if_splits sum.splits)

section \<open>Properties\<close>

text \<open>
  The phase gate: a transition is open to the public status update exactly when the workflow
  lists it and it neither enters an open-pr or verification status nor leaves the open-pr claim.
  In particular no public update leaves a terminal status, enters \<open>fix_approved\<close>,
  \<open>fix_committed\<close>, \<open>verified\<close> or \<open>submitted\<close>, or takes a report away from a running open-pr
  request.
\<close>

theorem gate_is_exact:
  "validate_transition current target True \<longleftrightarrow>
     validate_transition current target False \<and> current \<noteq> FIX_APPROVED
     \<and> target \<notin> {SUBMITTED, FIX_APPROVED, FIX_COMMITTED, VERIFIED}
     \<and> current \<notin> set TERMINAL_STATUSES"
  by (cases current; cases target)
     (simp_all add: validate_transition_def status_sets)

text \<open>
  C36.  What the ingest checkpoint lets through: both fields null, or the Supabase source with a
  configuration that holds no key beyond the four declared ones, whose URL is https, names a host
  and carries no user, password, query or fragment.  Checking its output again accepts it
  unchanged, so a stored pair always survives the re-validation of a partial update.
\<close>

theorem ingest_pair_safe_and_stable:
  assumes "validate_ingest_pair source config = Inr (s, c)"
  shows "validate_ingest_pair s c = Inr (s, c) \<and>
    ((s = None \<and> c = None) \<or>
     (\<exists>kvs url p. s = Some ''supabase'' \<and> c = Some kvs \<and> set (map fst kvs) \<subseteq> set config_keys
        \<and> map_of kvs ''url'' = Some (JStr url) \<and> urlsplit url = Some p \<and> u_scheme p = ''https''
        \<and> str_set (u_hostname p) \<and> u_username p = None \<and> u_password p = None
        \<and> u_query p = [] \<and> u_fragment p = []))"
  using pair_accepted[OF assms]
proof (elim disjE exE conjE)
  assume "s = None" and "c = None"
  then show ?thesis by (simp add: validate_ingest_pair_def)
next
  fix kvs sc
  assume v: "validate_supabase kvs = Inr sc" and s: "s = Some ''supabase''"
    and c: "c = Some (dump_config sc)"
  from validate_supabase_Inr(3)[OF v] obtain p where p: "urlsplit (sc_url sc) = Some p"
    "u_scheme p = ''https''" "str_set (u_hostname p)" "u_username p = None" "u_password p = None"
    "u_query p = []" "u_fragment p = []"
    by (auto simp: credential_free_parts)
  have "map_of (dump_config sc) ''url'' = Some (JStr (sc_url sc))"
    by (simp add: dump_config_def)
  with p s c dump_keys validate_dump[OF v] show ?thesis
    by (simp add: validate_ingest_pair_def)
qed

theorem ingest_pair_safe_and_stable_witness:
  "\<exists>c. validate_ingest_pair (Some ''supabase'')
      (Some [(''credential_env'', JStr ''TOKEN''), (''table'', JStr ''bugs''),
             (''url'', JStr ''https://h/api/b'')]) = Inr (Some ''supabase'', Some c)
    \<and> validate_ingest_pair (Some ''supabase'') (Some c) = Inr (Some ''supabase'', Some c)"
proof -
  let ?cfg = "[(''credential_env'', JStr ''TOKEN''), (''table'', JStr ''bugs''),
             (''url'', JStr ''https://h/api/b'')]"
  let ?c = "[(''url'', JStr ''https://h/api/b''), (''table'', JStr ''bugs''),
             (''credential_env'', JStr ''TOKEN'')]"
  have "validate_ingest_pair (Some ''supabase'') (Some ?cfg) = Inr (Some ''supabase'', Some ?c)"
    by code_simp
  with ingest_pair_safe_and_stable[OF this] show ?thesis by blast
qed

text \<open>
  The identifier checks accept exactly the identifiers of their class and those same
  identifiers followed by one newline: \<open>$\<close> also matches before a final newline, so
  \<open>"users\n"\<close> passes as a "plain SQL identifier" and \<open>"TOKEN\n"\<close> as an environment variable
  name.
\<close>

theorem identifier_checks_allow_a_final_newline:
  "(is_Inr (table_identifier s) \<longleftrightarrow>
      (\<exists>i. plain_ident (\<lambda>c. is_upper c \<or> is_lower c \<or> c = CHR ''_'')
             (\<lambda>c. is_upper c \<or> is_lower c \<or> is_digit c \<or> c = CHR ''_'') i
           \<and> (s = i \<or> s = i @ [CHR 0x0A])))
   \<and> (is_Inr (env_var_name (Some s)) \<longleftrightarrow>
      (\<exists>i. plain_ident is_upper (\<lambda>c. is_upper c \<or> is_digit c \<or> c = CHR ''_'') i
           \<and> (s = i \<or> s = i @ [CHR 0x0A])))"
  by (simp add: table_identifier_def env_var_name_def TABLE_IDENT_def ENV_VAR_NAME_def
      match_ident_iff)

end
