(* ===== verification/Schema.thy ===== *)
theory Schema
  imports Clock Models
begin

text \<open>
  The SQLite schema of \<open>db.py\<close>: one record per table row, the database state, the clock and
  id sources every write uses, and the constraints the schema declares (primary keys, the unique
  import key, foreign keys with \<open>PRAGMA foreign_keys=ON\<close>).  A time column holds a stamp (Clock);
  a column that is read back through \<open>datetime.fromisoformat\<close> holds \<open>Iso t\<close> or a text that does
  not parse.  A JSON column holds the decoded value.
\<close>

datatype time_text = Iso stamp | Malformed string

section \<open>Rows\<close>

record project =
  p_id :: string
  p_name :: string
  p_repo_url :: string
  p_repo_path :: "string option"
  p_head_sha :: "string option"
  p_default_branch :: "string option"
  p_llm_provider :: "string option"
  p_llm_model :: "string option"
  p_fix_llm_provider :: "string option"
  p_fix_llm_model :: "string option"
  p_ingest_source :: "string option"
  p_ingest_config :: "(string \<times> json) list option"
  p_ingest_generation :: nat
  p_created_at :: stamp
  p_updated_at :: stamp

record report =
  r_id :: string
  r_project_id :: string
  r_title :: string
  r_description :: string
  r_steps_to_reproduce :: "string list option"
  r_expected_behavior :: "string option"
  r_actual_behavior :: "string option"
  r_reporter :: string
  r_url :: "string option"
  r_feature_area :: "string option"
  r_severity :: "string option"
  r_environment :: "string option"
  r_attachments :: "json option"
  r_labels :: "string list option"
  r_status :: bug_status
  r_analysis_mode :: analysis_mode
  r_claim_token :: "string option"
  r_resolution_reason :: "string option"
  r_assigned_to :: "string option"
  r_ingest_source :: "string option"
  r_external_id :: "string option"
  r_created_at :: stamp
  r_updated_at :: stamp

datatype phase = P_VALIDATION | P_TRIAGE | P_LOCALIZATION | P_FIX

datatype a_state = A_PENDING | A_RUNNING | A_COMPLETED | A_FAILED

record analysis =
  a_id :: string
  a_bug_report_id :: string
  a_phase :: phase
  a_status :: a_state
  a_result :: "json option"
  a_llm_provider :: "string option"
  a_llm_model :: "string option"
  a_prompt_tokens :: int
  a_completion_tokens :: int
  a_started_at :: "time_text option"
  a_completed_at :: "time_text option"
  a_trigger_ref :: "string option"
  a_created_at :: stamp

record fix_proposal =
  f_id :: string
  f_bug_report_id :: string
  f_analysis_id :: "string option"
  f_branch_name :: "string option"
  f_diff :: "string option"
  f_explanation :: "string option"
  f_confidence :: "pyfloat option"
  f_root_cause :: "string option"
  f_files_changed :: "string list option"
  f_status :: string
  f_pr_url :: "string option"
  f_pr_number :: "int option"
  f_pushed_sha :: "string option"
  f_pr_opened_at :: "stamp option"
  f_trigger_ref :: "string option"
  f_pr_state :: "string option"
  f_pr_checked_at :: "stamp option"
  f_pr_settled_at :: "stamp option"
  f_pr_check_error :: "string option"
  f_created_at :: stamp
  f_updated_at :: stamp

record usage_row =
  u_project_id :: string
  u_bug_report_id :: "string option"
  u_provider :: string
  u_model :: string
  u_prompt_tokens :: int
  u_completion_tokens :: int
  u_key_source :: "string option"
  u_key_ref :: "string option"
  u_created_at :: stamp

record ingest_row =
  i_project_id :: string
  i_generation :: nat
  i_cursor :: "string option"
  i_rewalk_cursor :: "string option"
  i_rewalk_started_at :: "time_text option"
  i_last_full_walk_at :: "time_text option"
  i_last_poll_at :: "stamp option"
  i_last_ok_at :: "stamp option"
  i_last_error :: "string option"
  i_consecutive_failures :: nat
  i_imported_total :: nat

record result_row =
  s_report_id :: string
  s_project_id :: string
  s_fingerprint :: "string option"
  s_revision :: int
  s_payload :: "string option"
  s_acked_fingerprint :: "string option"
  s_failed_fingerprint :: "string option"
  s_last_status :: "int option"
  s_last_error :: "string option"
  s_pushed_at :: "stamp option"

datatype ledger_phase = RESERVED | INTENT | DISPATCHED | FIX_DONE | FINISHED

record action_row =
  t_action_id :: string
  t_project_id :: string
  t_report_id :: string
  t_kind :: string
  t_params :: json
  t_requested_by_user_id :: "string option"
  t_phase :: ledger_phase
  t_no_auto_retry :: bool
  t_pinned_llm :: "(string \<times> string \<times> string) list option"
  t_reserved_at :: stamp
  t_intent_at :: "time_text option"
  t_dispatched_at :: "stamp option"
  t_finished_at :: "stamp option"
  t_outcome :: "string option"
  t_message :: "string option"
  t_steps :: "json option"
  t_fix_proposal_id :: "string option"
  t_pr_url :: "string option"
  t_attempts :: nat
  t_terminal_acked :: bool
  t_terminal_error :: "string option"
  t_late_outcome :: "string option"
  t_key_mode :: "string option"

record sync_row =
  y_project_id :: string
  y_last_tick_at :: "stamp option"
  y_last_ok_at :: "stamp option"
  y_last_error :: "string option"
  y_consecutive_failures :: nat
  y_unresolved_actions :: nat

section \<open>The database and its environment\<close>

text \<open>
  \<open>wall\<close> gives the wall clock's successive readings and \<open>uuid\<close> the successive random ids; both
  are arbitrary.
\<close>

record db =
  projects :: "project list"
  reports :: "report list"
  analyses :: "analysis list"
  fix_proposals :: "fix_proposal list"
  token_usage :: "usage_row list"
  ingest_state :: "ingest_row list"
  triage_results :: "result_row list"
  triage_actions :: "action_row list"
  triage_sync_state :: "sync_row list"
  last_now :: "stamp option"
  wall :: "nat \<Rightarrow> stamp"
  wall_ix :: nat
  uuid :: "nat \<Rightarrow> string"
  uuid_ix :: nat

definition utcnow :: "db \<Rightarrow> stamp \<times> db" where
  "utcnow d = (wall d (wall_ix d), d\<lparr>wall_ix := Suc (wall_ix d)\<rparr>)"

definition db_now :: "db \<Rightarrow> stamp \<times> db" where
  "db_now d =
     (let (dt, d1) = utcnow d; n = next_now (last_now d1) dt in (n, d1\<lparr>last_now := Some n\<rparr>))"

definition new_id :: "db \<Rightarrow> string \<times> db" where
  "new_id d = (uuid d (uuid_ix d), d\<lparr>uuid_ix := Suc (uuid_ix d)\<rparr>)"

datatype db_error = IntegrityError | ClaimLostError | ValueErr string

text \<open>The tables of a state, which reading the clock or drawing an id leaves alone.\<close>

definition same_tables :: "db \<Rightarrow> db \<Rightarrow> bool" where
  "same_tables d e \<longleftrightarrow> projects e = projects d \<and> reports e = reports d \<and> analyses e = analyses d
     \<and> fix_proposals e = fix_proposals d \<and> token_usage e = token_usage d
     \<and> ingest_state e = ingest_state d \<and> triage_results e = triage_results d
     \<and> triage_actions e = triage_actions d \<and> triage_sync_state e = triage_sync_state d"

text \<open>
  \<open>conn.rollback()\<close>: the tables of the transaction's start; the clock and the ids drawn meanwhile
  are process state and stay.
\<close>

definition rollback_to :: "db \<Rightarrow> db \<Rightarrow> db" where
  "rollback_to d0 d = d0\<lparr>last_now := last_now d, wall_ix := wall_ix d, uuid_ix := uuid_ix d\<rparr>"

lemma now_frame [simp]:
  "projects (snd (db_now d)) = projects d" "reports (snd (db_now d)) = reports d"
  "analyses (snd (db_now d)) = analyses d" "fix_proposals (snd (db_now d)) = fix_proposals d"
  "token_usage (snd (db_now d)) = token_usage d" "ingest_state (snd (db_now d)) = ingest_state d"
  "triage_results (snd (db_now d)) = triage_results d"
  "triage_actions (snd (db_now d)) = triage_actions d"
  "triage_sync_state (snd (db_now d)) = triage_sync_state d"
  "last_now (snd (db_now d)) = Some (fst (db_now d))" "wall (snd (db_now d)) = wall d"
  "uuid (snd (db_now d)) = uuid d" "uuid_ix (snd (db_now d)) = uuid_ix d"
  by (simp_all add: db_now_def utcnow_def Let_def)

lemma id_frame [simp]:
  "projects (snd (new_id d)) = projects d" "reports (snd (new_id d)) = reports d"
  "analyses (snd (new_id d)) = analyses d" "fix_proposals (snd (new_id d)) = fix_proposals d"
  "token_usage (snd (new_id d)) = token_usage d" "ingest_state (snd (new_id d)) = ingest_state d"
  "triage_results (snd (new_id d)) = triage_results d"
  "triage_actions (snd (new_id d)) = triage_actions d"
  "triage_sync_state (snd (new_id d)) = triage_sync_state d"
  "last_now (snd (new_id d)) = last_now d" "wall (snd (new_id d)) = wall d"
  "wall_ix (snd (new_id d)) = wall_ix d" "uuid (snd (new_id d)) = uuid d"
  "fst (new_id d) = uuid d (uuid_ix d)" "uuid_ix (snd (new_id d)) = Suc (uuid_ix d)"
  by (simp_all add: new_id_def)

lemma utcnow_frame [simp]:
  "projects (snd (utcnow d)) = projects d" "reports (snd (utcnow d)) = reports d"
  "analyses (snd (utcnow d)) = analyses d" "fix_proposals (snd (utcnow d)) = fix_proposals d"
  "token_usage (snd (utcnow d)) = token_usage d" "ingest_state (snd (utcnow d)) = ingest_state d"
  "triage_results (snd (utcnow d)) = triage_results d"
  "triage_actions (snd (utcnow d)) = triage_actions d"
  "triage_sync_state (snd (utcnow d)) = triage_sync_state d"
  "last_now (snd (utcnow d)) = last_now d" "wall (snd (utcnow d)) = wall d"
  "uuid (snd (utcnow d)) = uuid d" "uuid_ix (snd (utcnow d)) = uuid_ix d"
  by (simp_all add: utcnow_def)

lemma rollback_frame [simp]:
  "projects (rollback_to d0 d) = projects d0" "reports (rollback_to d0 d) = reports d0"
  "analyses (rollback_to d0 d) = analyses d0" "fix_proposals (rollback_to d0 d) = fix_proposals d0"
  "token_usage (rollback_to d0 d) = token_usage d0"
  "ingest_state (rollback_to d0 d) = ingest_state d0"
  "triage_results (rollback_to d0 d) = triage_results d0"
  "triage_actions (rollback_to d0 d) = triage_actions d0"
  "triage_sync_state (rollback_to d0 d) = triage_sync_state d0"
  "last_now (rollback_to d0 d) = last_now d"
  by (simp_all add: rollback_to_def)

lemma now_after: "last_now d = Some l \<Longrightarrow> l < fst (db_now d)"
  by (simp add: db_now_def utcnow_def Let_def next_now_def)

section \<open>Constraints\<close>

definition pk_ok :: "db \<Rightarrow> bool" where
  "pk_ok d \<longleftrightarrow> distinct (map p_id (projects d)) \<and> distinct (map r_id (reports d))
     \<and> distinct (map a_id (analyses d)) \<and> distinct (map f_id (fix_proposals d))
     \<and> distinct (map i_project_id (ingest_state d)) \<and> distinct (map s_report_id (triage_results d))
     \<and> distinct (map t_action_id (triage_actions d))
     \<and> distinct (map y_project_id (triage_sync_state d))"

definition fk_ok :: "db \<Rightarrow> bool" where
  "fk_ok d \<longleftrightarrow>
     (\<forall>r\<in>set (reports d). r_project_id r \<in> p_id ` set (projects d))
     \<and> (\<forall>a\<in>set (analyses d). a_bug_report_id a \<in> r_id ` set (reports d))
     \<and> (\<forall>f\<in>set (fix_proposals d). f_bug_report_id f \<in> r_id ` set (reports d)
          \<and> (\<forall>a. f_analysis_id f = Some a \<longrightarrow> a \<in> a_id ` set (analyses d)))
     \<and> (\<forall>u\<in>set (token_usage d). u_project_id u \<in> p_id ` set (projects d)
          \<and> (\<forall>r. u_bug_report_id u = Some r \<longrightarrow> r \<in> r_id ` set (reports d)))
     \<and> (\<forall>i\<in>set (ingest_state d). i_project_id i \<in> p_id ` set (projects d))
     \<and> (\<forall>s\<in>set (triage_results d). s_report_id s \<in> r_id ` set (reports d))"

text \<open>\<open>idx_bug_reports_external\<close>: one row per project and non-null external id.\<close>

definition external_ok :: "db \<Rightarrow> bool" where
  "external_ok d \<longleftrightarrow>
     distinct (map (\<lambda>r. (r_project_id r, r_external_id r))
       (filter (\<lambda>r. r_external_id r \<noteq> None) (reports d)))"

definition schema_ok :: "db \<Rightarrow> bool" where
  "schema_ok d \<longleftrightarrow> pk_ok d \<and> fk_ok d \<and> external_ok d"

text \<open>INSERT and DELETE statements with the constraint checks SQLite makes.\<close>

definition insert_project :: "project \<Rightarrow> db \<Rightarrow> db_error + db" where
  "insert_project p d =
     (if p_id p \<in> p_id ` set (projects d) then Inl IntegrityError
      else Inr (d\<lparr>projects := projects d @ [p]\<rparr>))"

definition has_external :: "string \<Rightarrow> string \<Rightarrow> db \<Rightarrow> bool" where
  "has_external pid x d \<longleftrightarrow>
     (\<exists>r\<in>set (reports d). r_project_id r = pid \<and> r_external_id r = Some x)"

definition insert_report :: "report \<Rightarrow> db \<Rightarrow> db_error + db" where
  "insert_report r d =
     (if r_id r \<in> r_id ` set (reports d) \<or> r_project_id r \<notin> p_id ` set (projects d)
        \<or> (case r_external_id r of None \<Rightarrow> False | Some x \<Rightarrow> has_external (r_project_id r) x d)
      then Inl IntegrityError else Inr (d\<lparr>reports := reports d @ [r]\<rparr>))"

definition insert_analysis :: "analysis \<Rightarrow> db \<Rightarrow> db_error + db" where
  "insert_analysis a d =
     (if a_id a \<in> a_id ` set (analyses d) \<or> a_bug_report_id a \<notin> r_id ` set (reports d)
      then Inl IntegrityError else Inr (d\<lparr>analyses := analyses d @ [a]\<rparr>))"

definition insert_fix_proposal :: "fix_proposal \<Rightarrow> db \<Rightarrow> db_error + db" where
  "insert_fix_proposal f d =
     (if f_id f \<in> f_id ` set (fix_proposals d) \<or> f_bug_report_id f \<notin> r_id ` set (reports d)
        \<or> (case f_analysis_id f of None \<Rightarrow> False | Some a \<Rightarrow> a \<notin> a_id ` set (analyses d))
      then Inl IntegrityError else Inr (d\<lparr>fix_proposals := fix_proposals d @ [f]\<rparr>))"

definition insert_usage :: "usage_row \<Rightarrow> db \<Rightarrow> db_error + db" where
  "insert_usage u d =
     (if u_project_id u \<notin> p_id ` set (projects d)
        \<or> (case u_bug_report_id u of None \<Rightarrow> False | Some r \<Rightarrow> r \<notin> r_id ` set (reports d))
      then Inl IntegrityError else Inr (d\<lparr>token_usage := token_usage d @ [u]\<rparr>))"

definition report_referenced :: "string \<Rightarrow> db \<Rightarrow> bool" where
  "report_referenced rid d \<longleftrightarrow>
     (\<exists>a\<in>set (analyses d). a_bug_report_id a = rid)
     \<or> (\<exists>f\<in>set (fix_proposals d). f_bug_report_id f = rid)
     \<or> (\<exists>u\<in>set (token_usage d). u_bug_report_id u = Some rid)
     \<or> (\<exists>s\<in>set (triage_results d). s_report_id s = rid)"

definition delete_reports :: "(report \<Rightarrow> bool) \<Rightarrow> db \<Rightarrow> db_error + db" where
  "delete_reports P d =
     (if \<exists>r\<in>set (reports d). P r \<and> report_referenced (r_id r) d then Inl IntegrityError
      else Inr (d\<lparr>reports := delete_where P (reports d)\<rparr>))"

text \<open>\<open>ingest_state\<close> cascades; reports and usage rows restrict.\<close>

definition delete_project_row :: "string \<Rightarrow> db \<Rightarrow> db_error + db" where
  "delete_project_row pid d =
     (if pid \<in> p_id ` set (projects d)
        \<and> ((\<exists>r\<in>set (reports d). r_project_id r = pid) \<or> (\<exists>u\<in>set (token_usage d). u_project_id u = pid))
      then Inl IntegrityError
      else Inr (d\<lparr>projects := delete_where (\<lambda>p. p_id p = pid) (projects d),
                 ingest_state := delete_where (\<lambda>i. i_project_id i = pid) (ingest_state d)\<rparr>))"

definition delete_analyses :: "(analysis \<Rightarrow> bool) \<Rightarrow> db \<Rightarrow> db_error + db" where
  "delete_analyses P d =
     (if \<exists>a\<in>set (analyses d). P a \<and> (\<exists>f\<in>set (fix_proposals d). f_analysis_id f = Some (a_id a))
      then Inl IntegrityError else Inr (d\<lparr>analyses := delete_where P (analyses d)\<rparr>))"

section \<open>Column defaults\<close>

text \<open>
  The row an INSERT leaves that names only the NOT NULL columns, and the database \<open>init_db\<close>
  creates, here with a clock that counts microseconds and ids that count up.
\<close>

definition blank_project :: "string \<Rightarrow> stamp \<Rightarrow> project" where
  "blank_project pid now =
     \<lparr>p_id = pid, p_name = ''p'', p_repo_url = ''u'', p_repo_path = None, p_head_sha = None,
      p_default_branch = Some ''main'', p_llm_provider = Some ''ollama'',
      p_llm_model = Some ''qwen2.5-coder:7b'', p_fix_llm_provider = None, p_fix_llm_model = None,
      p_ingest_source = None, p_ingest_config = None, p_ingest_generation = 0,
      p_created_at = now, p_updated_at = now\<rparr>"

definition blank_report :: "string \<Rightarrow> string \<Rightarrow> stamp \<Rightarrow> report" where
  "blank_report rid pid now =
     \<lparr>r_id = rid, r_project_id = pid, r_title = ''t'', r_description = ''d'',
      r_steps_to_reproduce = None, r_expected_behavior = None, r_actual_behavior = None,
      r_reporter = ''r'', r_url = None, r_feature_area = None, r_severity = Some ''medium'',
      r_environment = None, r_attachments = None, r_labels = None, r_status = SUBMITTED,
      r_analysis_mode = AUTO, r_claim_token = None, r_resolution_reason = None,
      r_assigned_to = None, r_ingest_source = None, r_external_id = None,
      r_created_at = now, r_updated_at = now\<rparr>"

definition blank_analysis :: "string \<Rightarrow> string \<Rightarrow> phase \<Rightarrow> a_state \<Rightarrow> stamp \<Rightarrow> analysis" where
  "blank_analysis aid rid ph st now =
     \<lparr>a_id = aid, a_bug_report_id = rid, a_phase = ph, a_status = st, a_result = None,
      a_llm_provider = None, a_llm_model = None, a_prompt_tokens = 0, a_completion_tokens = 0,
      a_started_at = None, a_completed_at = None, a_trigger_ref = None, a_created_at = now\<rparr>"

definition blank_proposal :: "string \<Rightarrow> string \<Rightarrow> stamp \<Rightarrow> fix_proposal" where
  "blank_proposal fid rid now =
     \<lparr>f_id = fid, f_bug_report_id = rid, f_analysis_id = None, f_branch_name = None, f_diff = None,
      f_explanation = None, f_confidence = None, f_root_cause = None, f_files_changed = None,
      f_status = ''proposed'', f_pr_url = None, f_pr_number = None, f_pushed_sha = None,
      f_pr_opened_at = None, f_trigger_ref = None, f_pr_state = None, f_pr_checked_at = None,
      f_pr_settled_at = None, f_pr_check_error = None, f_created_at = now, f_updated_at = now\<rparr>"

definition init_db :: db where
  "init_db = \<lparr>projects = [], reports = [], analyses = [], fix_proposals = [], token_usage = [],
     ingest_state = [], triage_results = [], triage_actions = [], triage_sync_state = [],
     last_now = None, wall = (\<lambda>n. n), wall_ix = 0, uuid = (\<lambda>n. replicate (Suc n) (CHR ''a'')),
     uuid_ix = 0\<rparr>"

end
