(* ===== verification/Db_Projects.thy ===== *)
theory Db_Projects
  imports Schema
begin

text \<open>
  Projects in \<open>db.py\<close>: creation, the partial update that fences the poll checkpoint, and deletion.
  An operation takes the database and returns its result with the state the connection then sees;
  a raised exception leaves the statements that ran before it in the open transaction, since no
  caller rolls back.
\<close>

section \<open>Reading\<close>

definition project_get :: "string \<Rightarrow> db \<Rightarrow> project option" where
  "project_get pid d = fetchone (filter (\<lambda>p. p_id p = pid) (projects d))"

definition project_list :: "db \<Rightarrow> project list" where
  "project_list d = order_desc p_created_at (projects d)"

definition project_exists :: "string \<Rightarrow> db \<Rightarrow> bool" where
  "project_exists pid d \<longleftrightarrow> fetchone (filter (\<lambda>p. p_id p = pid) (projects d)) \<noteq> None"

definition not_deleted :: "report \<Rightarrow> bool" where
  "not_deleted r \<longleftrightarrow> r_resolution_reason r = None \<or> r_resolution_reason r \<noteq> Some ''deleted''"

definition project_has_active_reports :: "string \<Rightarrow> db \<Rightarrow> bool" where
  "project_has_active_reports pid d \<longleftrightarrow>
     fetchone (filter (\<lambda>r. r_project_id r = pid \<and> not_deleted r) (reports d)) \<noteq> None"

section \<open>Creating and updating\<close>

definition project_create ::
  "string \<Rightarrow> string \<Rightarrow> string \<Rightarrow> string \<Rightarrow> string \<Rightarrow> string option \<Rightarrow> string option \<Rightarrow> string option
   \<Rightarrow> (string \<times> json) list option \<Rightarrow> db \<Rightarrow> (db_error + project option) \<times> db" where
  "project_create name repo_url default_branch llm_provider llm_model fix_provider fix_model
      ingest_source ingest_config d0 =
     (let (row_id, d1) = new_id d0; (now, d2) = db_now d1;
          p = \<lparr>p_id = row_id, p_name = name, p_repo_url = repo_url, p_repo_path = None,
               p_head_sha = None, p_default_branch = Some default_branch,
               p_llm_provider = Some llm_provider, p_llm_model = Some llm_model,
               p_fix_llm_provider = fix_provider, p_fix_llm_model = fix_model,
               p_ingest_source = ingest_source, p_ingest_config = ingest_config,
               p_ingest_generation = 0, p_created_at = now, p_updated_at = now\<rparr>
      in case insert_project p d2 of
           Inl e \<Rightarrow> (Inl e, d2)
         | Inr d3 \<Rightarrow> (Inr (project_get row_id d3), d3))"

text \<open>The keyword arguments of \<open>project_update\<close>: one per column a caller passes.\<close>

datatype project_field =
    PF_name string | PF_repo_url string | PF_repo_path "string option" | PF_head_sha "string option"
  | PF_default_branch "string option" | PF_llm_provider "string option"
  | PF_llm_model "string option" | PF_fix_llm_provider "string option"
  | PF_fix_llm_model "string option" | PF_ingest_source "string option"
  | PF_ingest_config "(string \<times> json) list option"

fun set_project_field :: "project_field \<Rightarrow> project \<Rightarrow> project" where
  "set_project_field (PF_name v) p = p\<lparr>p_name := v\<rparr>"
| "set_project_field (PF_repo_url v) p = p\<lparr>p_repo_url := v\<rparr>"
| "set_project_field (PF_repo_path v) p = p\<lparr>p_repo_path := v\<rparr>"
| "set_project_field (PF_head_sha v) p = p\<lparr>p_head_sha := v\<rparr>"
| "set_project_field (PF_default_branch v) p = p\<lparr>p_default_branch := v\<rparr>"
| "set_project_field (PF_llm_provider v) p = p\<lparr>p_llm_provider := v\<rparr>"
| "set_project_field (PF_llm_model v) p = p\<lparr>p_llm_model := v\<rparr>"
| "set_project_field (PF_fix_llm_provider v) p = p\<lparr>p_fix_llm_provider := v\<rparr>"
| "set_project_field (PF_fix_llm_model v) p = p\<lparr>p_fix_llm_model := v\<rparr>"
| "set_project_field (PF_ingest_source v) p = p\<lparr>p_ingest_source := v\<rparr>"
| "set_project_field (PF_ingest_config v) p = p\<lparr>p_ingest_config := v\<rparr>"

fun source_arg :: "project_field list \<Rightarrow> string option option" where
  "source_arg [] = None"
| "source_arg (PF_ingest_source v # fs) = Some v"
| "source_arg (_ # fs) = source_arg fs"

fun config_arg :: "project_field list \<Rightarrow> (string \<times> json) list option option" where
  "config_arg [] = None"
| "config_arg (PF_ingest_config v # fs) = Some v"
| "config_arg (_ # fs) = config_arg fs"

definition poll_identity :: "(string \<times> json) list option \<Rightarrow> (string \<times> json) list option" where
  "poll_identity config =
     map_option (filter (\<lambda>(k, v). k \<noteq> ''triage_credential_env'')) config"

text \<open>Equality of two dicts (or \<open>None\<close>), which ignores the order of the keys.\<close>

definition dict_eq :: "(string \<times> json) list option \<Rightarrow> (string \<times> json) list option \<Rightarrow> bool" where
  "dict_eq a b =
     (case (a, b) of
        (None, None) \<Rightarrow> True
      | (Some xs, Some ys) \<Rightarrow> list_all (\<lambda>k. map_of xs k = map_of ys k) (map fst xs @ map fst ys)
      | _ \<Rightarrow> False)"

definition ingest_changed :: "project \<Rightarrow> project_field list \<Rightarrow> bool" where
  "ingest_changed existing args \<longleftrightarrow>
     (if source_arg args = None \<and> config_arg args = None then False
      else
        (let new_source = (case source_arg args of Some v \<Rightarrow> v | None \<Rightarrow> p_ingest_source existing);
             new_config = (case config_arg args of Some v \<Rightarrow> v | None \<Rightarrow> p_ingest_config existing)
         in \<not> (new_source = p_ingest_source existing
               \<and> dict_eq (poll_identity new_config) (poll_identity (p_ingest_config existing)))))"

definition project_update :: "string \<Rightarrow> project_field list \<Rightarrow> db \<Rightarrow> project option \<times> db" where
  "project_update pid args d0 =
     (case project_get pid d0 of
        None \<Rightarrow> (None, d0)
      | Some existing \<Rightarrow>
          (let changed = ingest_changed existing args;
               (now, d1) = db_now d0;
               upd = (\<lambda>p. (fold set_project_field args p)\<lparr>p_updated_at := now\<rparr>);
               bump = (\<lambda>p. if changed then p\<lparr>p_ingest_generation := p_ingest_generation p + 1\<rparr> else p);
               d2 = d1\<lparr>projects := update_where (\<lambda>p. p_id p = pid) (bump \<circ> upd) (projects d1)\<rparr>;
               d3 = (if changed
                     then d2\<lparr>ingest_state := delete_where (\<lambda>i. i_project_id i = pid) (ingest_state d2)\<rparr>
                     else d2)
           in (project_get pid d3, d3)))"

section \<open>Deleting\<close>

datatype delete_result = Deleted | Not_found | Has_reports

definition project_delete :: "string \<Rightarrow> db \<Rightarrow> (db_error + delete_result) \<times> db" where
  "project_delete pid d0 =
     (if \<not> project_exists pid d0 then (Inr Not_found, d0)
      else if project_has_active_reports pid d0 then (Inr Has_reports, d0)
      else
        (let d1 = d0\<lparr>triage_results := delete_where (\<lambda>s. s_project_id s = pid) (triage_results d0)\<rparr>
         in case delete_reports (\<lambda>r. r_project_id r = pid
                                   \<and> r_resolution_reason r = Some ''deleted'') d1 of
              Inl e \<Rightarrow> (Inl e, d1)
            | Inr d2 \<Rightarrow>
                (let d3 = d2\<lparr>ingest_state := delete_where (\<lambda>i. i_project_id i = pid) (ingest_state d2)\<rparr>;
                     d4 = d3\<lparr>triage_actions := delete_where (\<lambda>t. t_project_id t = pid) (triage_actions d3)\<rparr>;
                     d5 = d4\<lparr>triage_sync_state :=
                               delete_where (\<lambda>y. y_project_id y = pid) (triage_sync_state d4)\<rparr>
                 in case delete_project_row pid d5 of
                      Inl e \<Rightarrow> (Inl e, d5)
                    | Inr d6 \<Rightarrow> (Inr Deleted, d6))))"

section \<open>Lemmas\<close>

lemma project_get_find: "project_get pid d = find (\<lambda>p. p_id p = pid) (projects d)"
  by (simp add: project_get_def fetchone_filter)

lemma project_exists_iff: "project_exists pid d \<longleftrightarrow> pid \<in> p_id ` set (projects d)"
  by (auto simp: project_exists_def filter_empty_conv)

lemma project_get_None: "project_get pid d = None \<longleftrightarrow> pid \<notin> p_id ` set (projects d)"
  by (simp add: project_get_find find_key_None)

lemma project_get_id: "project_get pid d = Some p \<Longrightarrow> p_id p = pid"
  by (auto simp: project_get_find find_Some_iff)

text \<open>A dict of arguments has each column once.\<close>

fun column :: "project_field \<Rightarrow> nat" where
  "column (PF_name _) = 0" | "column (PF_repo_url _) = 1" | "column (PF_repo_path _) = 2"
| "column (PF_head_sha _) = 3" | "column (PF_default_branch _) = 4"
| "column (PF_llm_provider _) = 5" | "column (PF_llm_model _) = 6"
| "column (PF_fix_llm_provider _) = 7" | "column (PF_fix_llm_model _) = 8"
| "column (PF_ingest_source _) = 9" | "column (PF_ingest_config _) = 10"

lemma set_project_field_keeps [simp]:
  "p_id (set_project_field a p) = p_id p"
  "p_ingest_generation (set_project_field a p) = p_ingest_generation p"
  "p_created_at (set_project_field a p) = p_created_at p"
  by (cases a; simp)+

lemma fold_set_keeps [simp]:
  "p_id (fold set_project_field as p) = p_id p"
  "p_ingest_generation (fold set_project_field as p) = p_ingest_generation p"
  "p_created_at (fold set_project_field as p) = p_created_at p"
  by (induction as arbitrary: p) simp_all

lemma source_set_other: "column a \<noteq> 9 \<Longrightarrow> p_ingest_source (set_project_field a p) = p_ingest_source p"
  by (cases a) simp_all

lemma config_set_other: "column a \<noteq> 10 \<Longrightarrow> p_ingest_config (set_project_field a p) = p_ingest_config p"
  by (cases a) simp_all

lemma fold_source_other:
  "9 \<notin> column ` set as \<Longrightarrow> p_ingest_source (fold set_project_field as p) = p_ingest_source p"
  by (induction as arbitrary: p) (auto simp: source_set_other)

lemma fold_config_other:
  "10 \<notin> column ` set as \<Longrightarrow> p_ingest_config (fold set_project_field as p) = p_ingest_config p"
  by (induction as arbitrary: p) (auto simp: config_set_other)

lemma fold_source:
  "distinct (map column as) \<Longrightarrow> p_ingest_source (fold set_project_field as p) =
     (case source_arg as of Some v \<Rightarrow> v | None \<Rightarrow> p_ingest_source p)"
proof (induction as arbitrary: p rule: source_arg.induct)
  case (2 v as)
  then show ?case by (simp add: fold_source_other)
qed (auto split: option.splits)

lemma fold_config:
  "distinct (map column as) \<Longrightarrow> p_ingest_config (fold set_project_field as p) =
     (case config_arg as of Some v \<Rightarrow> v | None \<Rightarrow> p_ingest_config p)"
proof (induction as arbitrary: p rule: config_arg.induct)
  case (2 v as)
  then show ?case by (simp add: fold_config_other)
qed (auto split: option.splits)

lemma dict_eq_refl [simp]: "dict_eq a a"
  by (cases a) (simp_all add: dict_eq_def list_all_iff)

lemma project_update_get:
  assumes "project_get pid d = Some p"
  shows "project_get q (snd (project_update pid args d)) =
    (if q = pid
     then Some ((fold set_project_field args p)\<lparr>p_updated_at := fst (db_now d),
            p_ingest_generation := p_ingest_generation p + (if ingest_changed p args then 1 else 0)\<rparr>)
     else project_get q d)"
  using assms unfolding project_update_def
  by (auto simp: project_get_find find_update_key case_prod_beta Let_def o_def)

lemma project_update_fst:
  "project_get pid d = Some p \<Longrightarrow>
   fst (project_update pid args d) = project_get pid (snd (project_update pid args d))"
  by (simp add: project_update_def case_prod_beta Let_def)

lemma project_update_ingest_state:
  "project_get pid d = Some p \<Longrightarrow> ingest_state (snd (project_update pid args d)) =
     (if ingest_changed p args then delete_where (\<lambda>i. i_project_id i = pid) (ingest_state d)
      else ingest_state d)"
  by (simp add: project_update_def case_prod_beta Let_def)

lemma unchanged_identity:
  assumes "distinct (map column args)" and "\<not> ingest_changed p args"
  shows "p_ingest_source (fold set_project_field args p) = p_ingest_source p
    \<and> dict_eq (poll_identity (p_ingest_config (fold set_project_field args p)))
        (poll_identity (p_ingest_config p))"
  using assms by (auto simp: ingest_changed_def fold_source fold_config Let_def split: if_splits option.splits)

lemma delete_reports_Inr:
  "delete_reports P d = Inr e \<longleftrightarrow>
     e = d\<lparr>reports := delete_where P (reports d)\<rparr>
     \<and> (\<forall>r\<in>set (reports d). P r \<longrightarrow> \<not> report_referenced (r_id r) d)"
  by (auto simp: delete_reports_def)

lemma delete_project_row_Inr:
  "delete_project_row pid d = Inr e \<longleftrightarrow>
     e = d\<lparr>projects := delete_where (\<lambda>p. p_id p = pid) (projects d),
           ingest_state := delete_where (\<lambda>i. i_project_id i = pid) (ingest_state d)\<rparr>
     \<and> (pid \<in> p_id ` set (projects d) \<longrightarrow>
          (\<forall>r\<in>set (reports d). r_project_id r \<noteq> pid) \<and> (\<forall>u\<in>set (token_usage d). u_project_id u \<noteq> pid))"
  by (auto simp: delete_project_row_def)

text \<open>The state a completed deletion leaves.\<close>

definition without_project :: "string \<Rightarrow> db \<Rightarrow> db" where
  "without_project pid d = d\<lparr>
     projects := delete_where (\<lambda>p. p_id p = pid) (projects d),
     reports := delete_where (\<lambda>r. r_project_id r = pid \<and> r_resolution_reason r = Some ''deleted'') (reports d),
     ingest_state := delete_where (\<lambda>i. i_project_id i = pid) (ingest_state d),
     triage_results := delete_where (\<lambda>s. s_project_id s = pid) (triage_results d),
     triage_actions := delete_where (\<lambda>t. t_project_id t = pid) (triage_actions d),
     triage_sync_state := delete_where (\<lambda>y. y_project_id y = pid) (triage_sync_state d)\<rparr>"

definition deletable :: "string \<Rightarrow> db \<Rightarrow> bool" where
  "deletable pid d \<longleftrightarrow> pid \<in> p_id ` set (projects d)
     \<and> list_all (\<lambda>r. r_project_id r = pid \<longrightarrow> r_resolution_reason r = Some ''deleted''
         \<and> \<not> report_referenced (r_id r)
               (d\<lparr>triage_results := delete_where (\<lambda>s. s_project_id s = pid) (triage_results d)\<rparr>)) (reports d)
     \<and> list_all (\<lambda>u. u_project_id u \<noteq> pid) (token_usage d)"

lemma project_deleted:
  "fst (project_delete pid d) = Inr Deleted \<longleftrightarrow> deletable pid d" (is ?A)
  "deletable pid d \<Longrightarrow> snd (project_delete pid d) = without_project pid d"
proof -
  let ?P = "\<lambda>r. r_project_id r = pid \<and> r_resolution_reason r = Some ''deleted''"
  let ?d1 = "d\<lparr>triage_results := delete_where (\<lambda>s. s_project_id s = pid) (triage_results d)\<rparr>"
  have active: "project_has_active_reports pid d \<longleftrightarrow>
      (\<exists>r\<in>set (reports d). r_project_id r = pid \<and> r_resolution_reason r \<noteq> Some ''deleted'')"
    by (auto simp: project_has_active_reports_def not_deleted_def filter_empty_conv)
  have "?A \<and> (deletable pid d \<longrightarrow> snd (project_delete pid d) = without_project pid d)"
  proof (cases "project_exists pid d \<and> \<not> project_has_active_reports pid d
      \<and> (\<forall>r\<in>set (reports d). ?P r \<longrightarrow> \<not> report_referenced (r_id r) ?d1)")
    case True
    then have del: "delete_reports ?P ?d1 = Inr (?d1\<lparr>reports := delete_where ?P (reports d)\<rparr>)"
      by (auto simp: delete_reports_def)
    from True have "pid \<in> p_id ` set (projects d)" by (simp add: project_exists_iff)
    moreover have "\<not> (\<exists>r\<in>set (delete_where ?P (reports d)). r_project_id r = pid)"
      using True by (auto simp: active)
    ultimately show ?thesis
      using True unfolding project_delete_def deletable_def without_project_def
      by (auto simp: Let_def del active delete_project_row_def delete_where_twice list_all_iff)
  next
    case False
    then have "\<not> deletable pid d"
      by (auto simp: deletable_def project_exists_iff active list_all_iff)
    moreover have "fst (project_delete pid d) \<noteq> Inr Deleted"
      using False by (auto simp: project_delete_def Let_def delete_reports_def)
    ultimately show ?thesis by blast
  qed
  then show ?A "deletable pid d \<Longrightarrow> snd (project_delete pid d) = without_project pid d" by blast+
qed

lemma without_project_schema:
  assumes "schema_ok d" and "deletable pid d"
  shows "schema_ok (without_project pid d)"
proof -
  have pk: "pk_ok d" and fk: "fk_ok d" and ex: "external_ok d"
    using assms(1) by (auto simp: schema_ok_def)
  have del: "\<And>r. r \<in> set (reports d) \<Longrightarrow> r_project_id r = pid \<Longrightarrow>
      r_resolution_reason r = Some ''deleted''
      \<and> (\<forall>a\<in>set (analyses d). a_bug_report_id a \<noteq> r_id r)
      \<and> (\<forall>f\<in>set (fix_proposals d). f_bug_report_id f \<noteq> r_id r)
      \<and> (\<forall>u\<in>set (token_usage d). u_bug_report_id u \<noteq> Some (r_id r))
      \<and> (\<forall>s\<in>set (triage_results d). s_project_id s \<noteq> pid \<longrightarrow> s_report_id s \<noteq> r_id r)"
    and use: "\<And>u. u \<in> set (token_usage d) \<Longrightarrow> u_project_id u \<noteq> pid"
    using assms(2) by (auto simp: deletable_def list_all_iff report_referenced_def)
  have "pk_ok (without_project pid d)"
    using pk by (simp add: pk_ok_def without_project_def distinct_delete_where)
  moreover have "external_ok (without_project pid d)"
  proof -
    have "reports (without_project pid d) =
        delete_where (\<lambda>r. r_project_id r = pid \<and> r_resolution_reason r = Some ''deleted'') (reports d)"
      by (simp add: without_project_def)
    then show ?thesis
      using ex unfolding external_ok_def by (simp only: filter_delete_where distinct_delete_where)
  qed
  moreover have "fk_ok (without_project pid d)"
    unfolding fk_ok_def without_project_def
  proof (simp, intro conjI ballI allI impI, goal_cases)
    case (1 r) then show ?case using fk del by (fastforce simp: fk_ok_def)
  next
    case (2 a) then show ?case using fk del unfolding fk_ok_def by blast
  next
    case (3 f) then show ?case using fk del unfolding fk_ok_def by blast
  next
    case (4 f a) then show ?case using fk unfolding fk_ok_def by blast
  next
    case (5 u) then show ?case using fk use unfolding fk_ok_def by blast
  next
    case (6 u r) then show ?case using fk del unfolding fk_ok_def by blast
  next
    case (7 i) then show ?case using fk unfolding fk_ok_def by blast
  next
    case (8 s) then show ?case using fk del unfolding fk_ok_def by blast
  qed
  ultimately show ?thesis by (simp add: schema_ok_def)
qed

section \<open>Properties\<close>



text \<open>
  When \<open>project_delete\<close> answers True the project is gone from every table, nothing that
  belonged to another project was touched, and every primary key, foreign key and import key of the
  schema still holds.
\<close>

theorem project_delete_complete:
  assumes "schema_ok d" and "fst (project_delete pid d) = Inr Deleted"
  shows "schema_ok (snd (project_delete pid d))
    \<and> \<not> project_exists pid (snd (project_delete pid d))
    \<and> reports (snd (project_delete pid d)) = filter (\<lambda>r. r_project_id r \<noteq> pid) (reports d)
    \<and> triage_actions (snd (project_delete pid d)) = filter (\<lambda>t. t_project_id t \<noteq> pid) (triage_actions d)
    \<and> triage_results (snd (project_delete pid d)) = filter (\<lambda>s. s_project_id s \<noteq> pid) (triage_results d)
    \<and> ingest_state (snd (project_delete pid d)) = filter (\<lambda>i. i_project_id i \<noteq> pid) (ingest_state d)
    \<and> analyses (snd (project_delete pid d)) = analyses d
    \<and> fix_proposals (snd (project_delete pid d)) = fix_proposals d
    \<and> token_usage (snd (project_delete pid d)) = filter (\<lambda>u. u_project_id u \<noteq> pid) (token_usage d)"
proof -
  have del: "deletable pid d" using assms(2) by (simp add: project_deleted(1))
  have st: "snd (project_delete pid d) = without_project pid d" by (rule project_deleted(2)[OF del])
  have r: "delete_where (\<lambda>r. r_project_id r = pid \<and> r_resolution_reason r = Some ''deleted'') (reports d)
      = filter (\<lambda>r. r_project_id r \<noteq> pid) (reports d)"
    unfolding delete_where_def using del by (intro filter_cong) (auto simp: deletable_def list_all_iff)
  have u: "filter (\<lambda>u. u_project_id u \<noteq> pid) (token_usage d) = token_usage d"
    using del by (simp add: deletable_def list_all_iff)
  have "\<not> project_exists pid (without_project pid d)"
    by (auto simp: project_exists_iff without_project_def)
  with without_project_schema[OF assms(1) del] r u show ?thesis
    unfolding st by (simp add: without_project_def delete_where_def)
qed

theorem project_delete_complete_witness:
  "let d = init_db\<lparr>projects := [blank_project ''x'' 3, blank_project ''y'' 4],
       reports := [(blank_report ''r'' ''x'' 5)\<lparr>r_resolution_reason := Some ''deleted''\<rparr>]\<rparr>
   in fst (project_delete ''x'' d) = Inr Deleted \<and> schema_ok (snd (project_delete ''x'' d))"
proof -
  let ?d = "init_db\<lparr>projects := [blank_project ''x'' 3, blank_project ''y'' 4],
       reports := [(blank_report ''r'' ''x'' 5)\<lparr>r_resolution_reason := Some ''deleted''\<rparr>]\<rparr>"
  have ok: "schema_ok ?d"
    by (simp add: schema_ok_def pk_ok_def fk_ok_def external_ok_def init_db_def blank_project_def
        blank_report_def)
  have del: "fst (project_delete ''x'' ?d) = Inr Deleted"
    by (simp add: project_deleted(1) deletable_def init_db_def blank_project_def blank_report_def
        report_referenced_def delete_where_def)
  from project_delete_complete[OF ok del] del show ?thesis by (simp add: Let_def)
qed

text \<open>
  A project any of whose reports was ever processed can never be deleted.  When every report
  is soft-deleted and one of them has an analysis row, \<open>project_delete\<close> does not answer
  \<open>True\<close>, \<open>False\<close> or \<open>has_reports\<close>: it raises \<open>IntegrityError\<close>, after the
  project's result rows are already gone from the open transaction.
\<close>

theorem project_delete_blocked_by_history:
  assumes "project_exists pid d" and "\<not> project_has_active_reports pid d"
    and "r \<in> set (reports d)" and "r_project_id r = pid"
    and "a \<in> set (analyses d)" and "a_bug_report_id a = r_id r"
  shows "fst (project_delete pid d) = Inl IntegrityError
    \<and> pid \<notin> s_project_id ` set (triage_results (snd (project_delete pid d)))
    \<and> reports (snd (project_delete pid d)) = reports d"
proof -
  have "r_resolution_reason r = Some ''deleted''"
    using assms(2-4) by (auto simp: project_has_active_reports_def not_deleted_def filter_empty_conv)
  then show ?thesis
    using assms by (auto simp: project_delete_def Let_def delete_reports_def report_referenced_def)
qed

theorem project_delete_blocked_by_history_witness:
  "let d = init_db\<lparr>projects := [blank_project ''x'' 3],
       reports := [(blank_report ''r'' ''x'' 5)\<lparr>r_resolution_reason := Some ''deleted''\<rparr>],
       analyses := [blank_analysis ''a'' ''r'' P_VALIDATION A_COMPLETED 6]\<rparr>
   in fst (project_delete ''x'' d) = Inl IntegrityError"
  unfolding Let_def
  by (rule project_delete_blocked_by_history[THEN conjunct1,
        of _ _ "(blank_report ''r'' ''x'' 5)\<lparr>r_resolution_reason := Some ''deleted''\<rparr>"
           "blank_analysis ''a'' ''r'' P_VALIDATION A_COMPLETED 6"])
     (simp_all add: project_exists_def project_has_active_reports_def not_deleted_def blank_project_def
        blank_report_def blank_analysis_def)

end
