(* ===== verification/Db_Reports.thy ===== *)
theory Db_Reports
  imports Db_Projects Connections
begin

text \<open>
  Bug reports in \<open>db.py\<close>: creation, filtered listing, the public status update and soft delete, the
  atomic claims of the pipeline and of open-pr, and the rollback of claims a dead process left.
  Every claim is one conditional UPDATE; the theory interprets the compare-and-set interface on
  each of them.
\<close>

section \<open>Creating and reading\<close>

record report_args =
  n_steps :: "string list option"
  n_expected :: "string option"
  n_actual :: "string option"
  n_url :: "string option"
  n_feature_area :: "string option"
  n_severity :: string
  n_environment :: "string option"
  n_labels :: "string list option"
  n_mode :: analysis_mode

definition report_get :: "string \<Rightarrow> db \<Rightarrow> report option" where
  "report_get rid d = fetchone (filter (\<lambda>r. r_id r = rid) (reports d))"

definition report_create ::
  "string \<Rightarrow> string \<Rightarrow> string \<Rightarrow> string \<Rightarrow> report_args \<Rightarrow> db \<Rightarrow> (db_error + report option) \<times> db" where
  "report_create pid title description reporter n d0 =
     (let (row_id, d1) = new_id d0; (now, d2) = db_now d1;
          r = \<lparr>r_id = row_id, r_project_id = pid, r_title = title, r_description = description,
               r_steps_to_reproduce = n_steps n, r_expected_behavior = n_expected n,
               r_actual_behavior = n_actual n, r_reporter = reporter, r_url = n_url n,
               r_feature_area = n_feature_area n, r_severity = Some (n_severity n),
               r_environment = n_environment n, r_attachments = None, r_labels = n_labels n,
               r_status = SUBMITTED, r_analysis_mode = n_mode n, r_claim_token = None,
               r_resolution_reason = None, r_assigned_to = None, r_ingest_source = None,
               r_external_id = None, r_created_at = now, r_updated_at = now\<rparr>
      in case insert_report r d2 of
           Inl e \<Rightarrow> (Inl e, d2)
         | Inr d3 \<Rightarrow> (Inr (report_get row_id d3), d3))"

definition report_filter :: "string option \<Rightarrow> string option \<Rightarrow> bool \<Rightarrow> report \<Rightarrow> bool" where
  "report_filter pid status include_deleted r \<longleftrightarrow>
     (include_deleted \<or> not_deleted r)
     \<and> (if str_set pid then Some (r_project_id r) = pid else True)
     \<and> (if str_set status then Some (status_value (r_status r)) = status else True)"

text \<open>SQLite's \<open>LIMIT ? OFFSET ?\<close>: a negative limit is no limit, a negative offset is none.\<close>

definition limit_offset :: "int \<Rightarrow> int \<Rightarrow> 'r list \<Rightarrow> 'r list" where
  "limit_offset l k t =
     (let skipped = drop (nat k) t in if l < 0 then skipped else take (nat l) skipped)"

definition report_list ::
  "string option \<Rightarrow> string option \<Rightarrow> bool \<Rightarrow> int option \<Rightarrow> int \<Rightarrow> string \<Rightarrow> db \<Rightarrow> report list" where
  "report_list pid status include_deleted limit offset direction d =
     (let rows = filter (report_filter pid status include_deleted) (reports d);
          sorted_rows = (if direction = ''asc'' then order_asc r_created_at rows
                         else order_desc r_created_at rows)
      in case limit of None \<Rightarrow> sorted_rows | Some l \<Rightarrow> limit_offset l offset sorted_rows)"

definition report_count :: "string option \<Rightarrow> string option \<Rightarrow> bool \<Rightarrow> db \<Rightarrow> nat" where
  "report_count pid status include_deleted d =
     rowcount (report_filter pid status include_deleted) (reports d)"

definition queue_counts :: "string option \<Rightarrow> db \<Rightarrow> (string \<times> nat) list" where
  "queue_counts pid d =
     (let rows = filter (\<lambda>r. not_deleted r \<and> (if str_set pid then Some (r_project_id r) = pid else True))
            (reports d)
      in map (\<lambda>(st, g). (status_value st, length g)) (group_by r_status rows))"

section \<open>Writing\<close>

text \<open>An UPDATE of \<open>bug_reports\<close>: the number of rows it touched and the new state.\<close>

definition update_reports :: "(report \<Rightarrow> bool) \<Rightarrow> (report \<Rightarrow> report) \<Rightarrow> db \<Rightarrow> nat \<times> db" where
  "update_reports P f d = (rowcount P (reports d), d\<lparr>reports := update_where P f (reports d)\<rparr>)"

definition report_update_status ::
  "string \<Rightarrow> bug_status \<Rightarrow> string option \<Rightarrow> bug_status option \<Rightarrow> db \<Rightarrow> report option \<times> db" where
  "report_update_status rid new_status reason expected d0 =
     (let (now, d1) = db_now d0;
          upd = (\<lambda>r. let r1 = r\<lparr>r_status := new_status, r_updated_at := now\<rparr>
                     in case reason of None \<Rightarrow> r1 | Some x \<Rightarrow> r1\<lparr>r_resolution_reason := Some x\<rparr>);
          (n, d2) = update_reports (\<lambda>r. r_id r = rid
            \<and> (case expected of None \<Rightarrow> True | Some e \<Rightarrow> r_status r = e)) upd d1
      in if expected \<noteq> None \<and> n \<noteq> 1 then (None, d2) else (report_get rid d2, d2))"

text \<open>The claim token a caller expects: absent (\<open>_UNSET\<close>), or \<open>claim_token IS ?\<close>.\<close>

definition report_delete ::
  "string \<Rightarrow> bug_status option \<Rightarrow> string option option \<Rightarrow> db \<Rightarrow> bool \<times> db" where
  "report_delete rid expected expected_token d0 =
     (let (now, d1) = db_now d0;
          (n, d2) = update_reports (\<lambda>r. r_id r = rid \<and> not_deleted r
              \<and> (case expected of None \<Rightarrow> True | Some e \<Rightarrow> r_status r = e)
              \<and> (case expected_token of None \<Rightarrow> True | Some t \<Rightarrow> r_claim_token r = t))
            (\<lambda>r. r\<lparr>r_status := REJECTED, r_resolution_reason := Some ''deleted'', r_updated_at := now\<rparr>) d1
      in (n = 1, d2))"

definition try_claim_report ::
  "string \<Rightarrow> bug_status \<Rightarrow> bug_status \<Rightarrow> string option \<Rightarrow> db \<Rightarrow> bool \<times> db" where
  "try_claim_report rid expected new_status token d0 =
     (let (now, d1) = db_now d0;
          (n, d2) = (case token of
             None \<Rightarrow> update_reports (\<lambda>r. r_id r = rid \<and> r_status r = expected)
                       (\<lambda>r. r\<lparr>r_status := new_status, r_updated_at := now\<rparr>) d1
           | Some t \<Rightarrow> update_reports (\<lambda>r. r_id r = rid \<and> r_status r = expected)
                       (\<lambda>r. r\<lparr>r_status := new_status, r_claim_token := Some t, r_updated_at := now\<rparr>) d1)
      in (n = 1, d2))"

definition adopt_claim :: "string \<Rightarrow> string option \<Rightarrow> string \<Rightarrow> db \<Rightarrow> bool \<times> db" where
  "adopt_claim rid observed new_token d0 =
     (let (now, d1) = db_now d0;
          (n, d2) = update_reports (\<lambda>r. r_id r = rid \<and> r_status r = FIX_APPROVED \<and> r_claim_token r = observed)
                      (\<lambda>r. r\<lparr>r_claim_token := Some new_token, r_updated_at := now\<rparr>) d1
      in (n = 1, d2))"

definition release_claim :: "string \<Rightarrow> string \<Rightarrow> db \<Rightarrow> bool \<times> db" where
  "release_claim rid token d0 =
     (let (now, d1) = db_now d0;
          (n, d2) = update_reports (\<lambda>r. r_id r = rid \<and> r_status r = FIX_APPROVED \<and> r_claim_token r = Some token)
                      (\<lambda>r. r\<lparr>r_status := FIX_PROPOSED, r_claim_token := None, r_updated_at := now\<rparr>) d1
      in (n = 1, d2))"

text \<open>The keyword arguments its callers pass to \<open>report_update_fields\<close>.\<close>

datatype report_field = RF_severity "string option" | RF_feature_area "string option" | RF_mode analysis_mode

fun set_report_field :: "report_field \<Rightarrow> report \<Rightarrow> report" where
  "set_report_field (RF_severity v) r = r\<lparr>r_severity := v\<rparr>"
| "set_report_field (RF_feature_area v) r = r\<lparr>r_feature_area := v\<rparr>"
| "set_report_field (RF_mode m) r = r\<lparr>r_analysis_mode := m\<rparr>"

definition report_update_fields :: "string \<Rightarrow> report_field list \<Rightarrow> db \<Rightarrow> report option \<times> db" where
  "report_update_fields rid args d0 =
     (let (now, d1) = db_now d0;
          (n, d2) = update_reports (\<lambda>r. r_id r = rid)
                      (\<lambda>r. (fold set_report_field args r)\<lparr>r_updated_at := now\<rparr>) d1
      in (report_get rid d2, d2))"

section \<open>Orphaned claims\<close>

definition ORPHANED_CLAIM_ROLLBACK :: "(bug_status \<times> bug_status) list" where
  "ORPHANED_CLAIM_ROLLBACK = [(VALIDATING, SUBMITTED), (ANALYZING, TRIAGED), (FIX_PROPOSING, TRIAGED)]"

definition INTERRUPTED_ERROR :: string where
  "INTERRUPTED_ERROR = ''interrupted: the process stopped mid-stage''"

definition interrupted_result :: json where
  "interrupted_result = JObj [(''error'', JStr INTERRUPTED_ERROR), (''interrupted'', JBool True)]"

definition interrupted_fix_result :: json where
  "interrupted_fix_result =
     JObj [(''error'', JStr INTERRUPTED_ERROR), (''interrupted'', JBool True), (''permanent'', JBool True)]"

fun record_interrupted :: "string list \<Rightarrow> stamp \<Rightarrow> db \<Rightarrow> (db_error option) \<times> db" where
  "record_interrupted [] now d = (None, d)"
| "record_interrupted (rid # rids) now d =
     (let (aid, d1) = new_id d
      in case insert_analysis ((blank_analysis aid rid P_FIX A_FAILED now)
                \<lparr>a_result := Some interrupted_fix_result, a_completed_at := Some (Iso now)\<rparr>) d1 of
           Inl e \<Rightarrow> (Some e, d1)
         | Inr d2 \<Rightarrow> record_interrupted rids now d2)"

fun roll_back_claims :: "(bug_status \<times> bug_status) list \<Rightarrow> stamp \<Rightarrow> db \<Rightarrow> (bug_status \<times> nat) list \<times> db" where
  "roll_back_claims [] now d = ([], d)"
| "roll_back_claims ((claimed, rollback) # cs) now d =
     (let (n, d1) = update_reports (\<lambda>r. r_status r = claimed)
            (\<lambda>r. r\<lparr>r_status := rollback, r_updated_at := now\<rparr>) d;
          (released, d2) = roll_back_claims cs now d1
      in ((if n \<noteq> 0 then [(claimed, n)] else []) @ released, d2))"

definition release_orphaned_claims :: "db \<Rightarrow> (db_error + (bug_status \<times> nat) list) \<times> db" where
  "release_orphaned_claims d0 =
     (let (now, d1) = db_now d0;
          d2 = d1\<lparr>analyses := update_where (\<lambda>a. a_status a = A_RUNNING)
                 (\<lambda>a. a\<lparr>a_status := A_FAILED, a_result := Some interrupted_result,
                       a_completed_at := Some (Iso now)\<rparr>) (analyses d1)\<rparr>;
          fixing = map r_id (filter (\<lambda>r. r_status r = FIX_PROPOSING) (reports d2))
      in case record_interrupted fixing now d2 of
           (Some e, d3) \<Rightarrow> (Inl e, rollback_to d1 d3)
         | (None, d3) \<Rightarrow> (case roll_back_claims ORPHANED_CLAIM_ROLLBACK now d3 of
                            (released, d4) \<Rightarrow> (Inr released, d4)))"

section \<open>Lemmas\<close>

lemma report_get_find: "report_get rid d = find (\<lambda>r. r_id r = rid) (reports d)"
  by (simp add: report_get_def fetchone_filter)

text \<open>What one conditional UPDATE of a row does to the row and to every other one.\<close>

lemma find_update_cond:
  assumes "\<And>r. key (f r) = key r"
  shows "find (\<lambda>r. key r = k') (update_where (\<lambda>r. key r = k \<and> Q r) f t) =
    (if k' = k then map_option (\<lambda>r. if Q r then f r else r) (find (\<lambda>r. key r = k) t)
     else find (\<lambda>r. key r = k') t)"
  by (induction t) (auto simp: update_where_def assms)

lemma map_key_update_where [simp]:
  "(\<And>r. key (f r) = key r) \<Longrightarrow> map key (update_where P f t) = map key t"
  by (simp add: update_where_def)

lemma image_update_where [simp]:
  "(\<And>r. key (f r) = key r) \<Longrightarrow> key ` set (update_where P f t) = key ` set t"
  by (metis map_key_update_where set_map)

lemma update_reports_frame [simp]:
  "projects (snd (update_reports P f d)) = projects d"
  "analyses (snd (update_reports P f d)) = analyses d"
  "fix_proposals (snd (update_reports P f d)) = fix_proposals d"
  "token_usage (snd (update_reports P f d)) = token_usage d"
  "ingest_state (snd (update_reports P f d)) = ingest_state d"
  "triage_results (snd (update_reports P f d)) = triage_results d"
  "triage_actions (snd (update_reports P f d)) = triage_actions d"
  "triage_sync_state (snd (update_reports P f d)) = triage_sync_state d"
  "last_now (snd (update_reports P f d)) = last_now d"
  "reports (snd (update_reports P f d)) = update_where P f (reports d)"
  "fst (update_reports P f d) = rowcount P (reports d)"
  by (simp_all add: update_reports_def)

lemma update_reports_get:
  "(\<And>r. r_id (f r) = r_id r) \<Longrightarrow>
   report_get rid (snd (update_reports (\<lambda>r. r_id r = k \<and> Q r) f d)) =
     (if rid = k then map_option (\<lambda>r. if Q r then f r else r) (report_get k d) else report_get rid d)"
  by (simp add: report_get_find find_update_cond)

text \<open>A won conditional UPDATE on one report.\<close>

lemma rowcount_one:
  "distinct (map r_id (reports d)) \<Longrightarrow>
   rowcount (\<lambda>r. r_id r = rid \<and> Q r) (reports d) = Suc 0
     \<longleftrightarrow> (case report_get rid d of None \<Rightarrow> False | Some r \<Rightarrow> Q r)"
  by (simp add: rowcount_key report_get_find split: option.split)

definition ids_ok :: "db \<Rightarrow> bool" where
  "ids_ok d \<longleftrightarrow> distinct (map r_id (reports d))"

lemma try_claim_eq:
  "try_claim_report rid e n tok d =
    (let (k, d2) = update_reports (\<lambda>r. r_id r = rid \<and> r_status r = e)
        (\<lambda>r. r\<lparr>r_status := n, r_claim_token := (case tok of None \<Rightarrow> r_claim_token r | Some t \<Rightarrow> Some t),
               r_updated_at := fst (db_now d)\<rparr>) (snd (db_now d))
     in (k = 1, d2))"
  by (cases tok) (simp_all add: try_claim_report_def case_prod_beta Let_def)

lemma try_claim_won [claim_simps]:
  "ids_ok d \<Longrightarrow> fst (try_claim_report rid e n tok d)
     \<longleftrightarrow> (case report_get rid d of None \<Rightarrow> False | Some r \<Rightarrow> r_status r = e)"
  by (simp add: try_claim_eq ids_ok_def case_prod_beta Let_def rowcount_one)

lemma report_get_now [simp]: "report_get rid (snd (db_now d)) = report_get rid d"
  by (simp add: report_get_find)

lemma try_claim_get [claim_simps]:
  "report_get rid' (snd (try_claim_report rid e n tok d)) =
     (if rid' = rid then map_option (\<lambda>r. if r_status r = e
          then r\<lparr>r_status := n, r_claim_token := (case tok of None \<Rightarrow> r_claim_token r | Some t \<Rightarrow> Some t),
                 r_updated_at := fst (db_now d)\<rparr> else r) (report_get rid d)
      else report_get rid' d)"
  by (simp add: try_claim_eq case_prod_beta Let_def update_reports_get)

lemma try_claim_ids [claim_simps]: "ids_ok (snd (try_claim_report rid e n tok d)) = ids_ok d"
  by (simp add: try_claim_eq ids_ok_def case_prod_beta Let_def)

lemma adopt_won [claim_simps]:
  "ids_ok d \<Longrightarrow> fst (adopt_claim rid obs tok d)
     \<longleftrightarrow> (case report_get rid d of None \<Rightarrow> False
          | Some r \<Rightarrow> r_status r = FIX_APPROVED \<and> r_claim_token r = obs)"
  by (simp add: adopt_claim_def ids_ok_def case_prod_beta Let_def rowcount_one)

lemma adopt_lost:
  "ids_ok d \<Longrightarrow> \<not> fst (adopt_claim rid obs tok d) \<Longrightarrow>
   report_get rid (snd (adopt_claim rid obs tok d)) = report_get rid d"
  unfolding adopt_won
  by (cases "report_get rid d") (auto simp: adopt_claim_def case_prod_beta Let_def update_reports_get)

lemma adopt_get [claim_simps]:
  "report_get rid' (snd (adopt_claim rid obs tok d)) =
     (if rid' = rid then map_option (\<lambda>r. if r_status r = FIX_APPROVED \<and> r_claim_token r = obs
          then r\<lparr>r_claim_token := Some tok, r_updated_at := fst (db_now d)\<rparr> else r) (report_get rid d)
      else report_get rid' d)"
  by (simp add: adopt_claim_def case_prod_beta Let_def update_reports_get)

lemma adopt_ids [claim_simps]: "ids_ok (snd (adopt_claim rid obs tok d)) = ids_ok d"
  by (simp add: adopt_claim_def ids_ok_def case_prod_beta Let_def)

lemma release_won [claim_simps]:
  "ids_ok d \<Longrightarrow> fst (release_claim rid tok d)
     \<longleftrightarrow> (case report_get rid d of None \<Rightarrow> False
          | Some r \<Rightarrow> r_status r = FIX_APPROVED \<and> r_claim_token r = Some tok)"
  by (simp add: release_claim_def ids_ok_def case_prod_beta Let_def rowcount_one)

lemma release_get [claim_simps]:
  "report_get rid' (snd (release_claim rid tok d)) =
     (if rid' = rid then map_option (\<lambda>r. if r_status r = FIX_APPROVED \<and> r_claim_token r = Some tok
          then r\<lparr>r_status := FIX_PROPOSED, r_claim_token := None, r_updated_at := fst (db_now d)\<rparr> else r)
        (report_get rid d)
      else report_get rid' d)"
  by (simp add: release_claim_def case_prod_beta Let_def update_reports_get)

lemma release_ids [claim_simps]: "ids_ok (snd (release_claim rid tok d)) = ids_ok d"
  by (simp add: release_claim_def ids_ok_def case_prod_beta Let_def)

lemma delete_won [claim_simps]:
  "ids_ok d \<Longrightarrow> fst (report_delete rid e tok d)
     \<longleftrightarrow> (case report_get rid d of None \<Rightarrow> False
          | Some r \<Rightarrow> not_deleted r \<and> (case e of None \<Rightarrow> True | Some x \<Rightarrow> r_status r = x)
              \<and> (case tok of None \<Rightarrow> True | Some t \<Rightarrow> r_claim_token r = t))"
  by (simp add: report_delete_def ids_ok_def case_prod_beta Let_def rowcount_one)

lemma delete_get [claim_simps]:
  "report_get rid' (snd (report_delete rid e tok d)) =
     (if rid' = rid then map_option (\<lambda>r. if not_deleted r \<and> (case e of None \<Rightarrow> True | Some x \<Rightarrow> r_status r = x)
              \<and> (case tok of None \<Rightarrow> True | Some t \<Rightarrow> r_claim_token r = t)
          then r\<lparr>r_status := REJECTED, r_resolution_reason := Some ''deleted'',
                 r_updated_at := fst (db_now d)\<rparr> else r) (report_get rid d)
      else report_get rid' d)"
  by (simp add: report_delete_def case_prod_beta Let_def update_reports_get)

lemma update_status_eq:
  "report_update_status rid n reason e d =
    (let (k, d2) = update_reports (\<lambda>r. r_id r = rid \<and> (case e of None \<Rightarrow> True | Some x \<Rightarrow> r_status r = x))
        (\<lambda>r. r\<lparr>r_status := n, r_updated_at := fst (db_now d),
               r_resolution_reason := (case reason of None \<Rightarrow> r_resolution_reason r | Some x \<Rightarrow> Some x)\<rparr>)
        (snd (db_now d))
     in (if e \<noteq> None \<and> k \<noteq> 1 then None else report_get rid d2, d2))"
  by (cases reason) (simp_all add: report_update_status_def case_prod_beta Let_def)

lemma update_status_get [claim_simps]:
  "report_get rid' (snd (report_update_status rid n reason e d)) =
     (if rid' = rid then map_option (\<lambda>r. if case e of None \<Rightarrow> True | Some x \<Rightarrow> r_status r = x
          then r\<lparr>r_status := n, r_updated_at := fst (db_now d),
                 r_resolution_reason := (case reason of None \<Rightarrow> r_resolution_reason r | Some x \<Rightarrow> Some x)\<rparr>
          else r) (report_get rid d)
      else report_get rid' d)"
  by (simp add: update_status_eq case_prod_beta Let_def update_reports_get)

lemma update_status_ids [claim_simps]: "ids_ok (snd (report_update_status rid n reason e d)) = ids_ok d"
  by (simp add: update_status_eq ids_ok_def case_prod_beta Let_def)

lemma update_status_result:
  assumes "ids_ok d"
  shows "fst (report_update_status rid n reason (Some e) d) \<noteq> None
     \<longleftrightarrow> (case report_get rid d of None \<Rightarrow> False | Some r \<Rightarrow> r_status r = e)"
proof (cases "report_get rid d")
  case None
  with assms show ?thesis
    by (simp add: update_status_eq case_prod_beta Let_def ids_ok_def rowcount_one)
next
  case (Some r)
  with assms show ?thesis
    by (simp add: update_status_eq case_prod_beta Let_def ids_ok_def rowcount_one update_reports_get)
qed

text \<open>The three cells: a report's status, the token of an open-pr claim, and the status a public
  update validated against.\<close>

definition status_cell :: "string \<Rightarrow> db \<Rightarrow> bug_status option" where
  "status_cell rid d = map_option r_status (report_get rid d)"

definition token_cell :: "string \<Rightarrow> db \<Rightarrow> string option option" where
  "token_cell rid d = (case report_get rid d of None \<Rightarrow> None
     | Some r \<Rightarrow> if r_status r = FIX_APPROVED then Some (r_claim_token r) else None)"

interpretation claim_cas: row_cell "status_cell rid" fst
    "\<lambda>(n, tok) e. try_claim_report rid e n tok" ids_ok "report_get rid" for rid
proof unfold_locales
  fix s c and e :: bug_status
  assume "ids_ok s"
  then show "fst ((\<lambda>(n, tok) e. try_claim_report rid e n tok) c e s) \<longleftrightarrow> status_cell rid s = Some e"
    and "ids_ok (snd ((\<lambda>(n, tok) e. try_claim_report rid e n tok) c e s))"
    and "status_cell rid s = Some e \<Longrightarrow>
      status_cell rid (snd ((\<lambda>(n, tok) e. try_claim_report rid e n tok) c e s)) = Some (fst c)"
    and "status_cell rid s \<noteq> Some e \<Longrightarrow>
      status_cell rid (snd ((\<lambda>(n, tok) e. try_claim_report rid e n tok) c e s)) = status_cell rid s"
    and "status_cell rid s \<noteq> Some e \<Longrightarrow>
      report_get rid (snd ((\<lambda>(n, tok) e. try_claim_report rid e n tok) c e s)) = report_get rid s"
    by (cases c; cases "report_get rid s"; simp add: status_cell_def claim_simps)+
qed

interpretation adopt_cas: row_cell "token_cell rid" Some
    "\<lambda>tok obs. adopt_claim rid obs tok" ids_ok "report_get rid" for rid
proof unfold_locales
  fix s c and e :: "string option"
  assume ok: "ids_ok s"
  then show won: "fst (adopt_claim rid e c s) \<longleftrightarrow> token_cell rid s = Some e"
    by (cases "report_get rid s"; simp add: token_cell_def claim_simps)
  show "ids_ok (snd (adopt_claim rid e c s))"
    using ok by (simp add: claim_simps)
  show "token_cell rid s = Some e \<Longrightarrow> token_cell rid (snd (adopt_claim rid e c s)) = Some (Some c)"
    by (cases "report_get rid s"; simp add: token_cell_def claim_simps split: if_split_asm)
  assume "token_cell rid s \<noteq> Some e"
  then show lost: "report_get rid (snd (adopt_claim rid e c s)) = report_get rid s"
    using adopt_lost[OF ok] won by simp
  then show "token_cell rid (snd (adopt_claim rid e c s)) = token_cell rid s"
    by (simp add: token_cell_def)
qed

text \<open>The public update as a caller sees it: \<open>None\<close> is a lost race.\<close>

definition patch_status :: "string \<Rightarrow> bug_status \<times> string option \<Rightarrow> bug_status \<Rightarrow> db \<Rightarrow> bool \<times> db" where
  "patch_status rid c e d =
     (case report_update_status rid (fst c) (snd c) (Some e) d of (res, d2) \<Rightarrow> (res \<noteq> None, d2))"

interpretation patch_cas: row_cell "status_cell rid" fst "patch_status rid" ids_ok "report_get rid" for rid
proof unfold_locales
  fix s c and e :: bug_status
  assume "ids_ok s"
  then show "fst (patch_status rid c e s) \<longleftrightarrow> status_cell rid s = Some e"
    and "ids_ok (snd (patch_status rid c e s))"
    and "status_cell rid s = Some e \<Longrightarrow> status_cell rid (snd (patch_status rid c e s)) = Some (fst c)"
    and "status_cell rid s \<noteq> Some e \<Longrightarrow> status_cell rid (snd (patch_status rid c e s)) = status_cell rid s"
    and "status_cell rid s \<noteq> Some e \<Longrightarrow> report_get rid (snd (patch_status rid c e s)) = report_get rid s"
    using update_status_result[of s rid "fst c" "snd c" e]
    by (cases "report_get rid s"; simp add: patch_status_def case_prod_beta status_cell_def claim_simps)+
qed

interpretation report_rows: row_store "\<lambda>d rid. report_get rid d"
    "\<lambda>rid f d. snd (update_reports (\<lambda>r. r_id r = rid) f d)" "\<lambda>f. \<forall>r. r_id (f r) = r_id r"
  by unfold_locales (simp_all add: report_get_find find_update_key)

lemma update_fields_get:
  "report_get rid' (snd (report_update_fields rid args d)) =
    (if rid' = rid then map_option (\<lambda>r. (fold set_report_field args r)\<lparr>r_updated_at := fst (db_now d)\<rparr>)
         (report_get rid d)
     else report_get rid' d)"
proof -
  have keep: "r_id (set_report_field a r) = r_id r" for a r by (cases a) simp_all
  have "r_id (fold set_report_field args r) = r_id r" for r
    by (induction args arbitrary: r) (simp_all add: keep)
  then show ?thesis
    using report_rows.put_frame[where k = rid and k' = rid' and s = "snd (db_now d)" and
          f = "\<lambda>r. (fold set_report_field args r)\<lparr>r_updated_at := fst (db_now d)\<rparr>"]
    by (simp add: report_update_fields_def case_prod_beta Let_def)
qed

text \<open>Workers or requests claiming one report, in the order their statements run.\<close>

fun claim_race ::
  "string \<Rightarrow> bug_status \<Rightarrow> (bug_status \<times> string option) list \<Rightarrow> db \<Rightarrow> bool list \<times> db" where
  "claim_race rid e [] d = ([], d)"
| "claim_race rid e ((n, tok) # cs) d =
     (let (w, d1) = try_claim_report rid e n tok d; (ws, d2) = claim_race rid e cs d1 in (w # ws, d2))"

lemma claim_race_eq: "claim_race rid e cs d = claim_cas.race rid e cs d"
  by (induction cs arbitrary: d) (auto simp: case_prod_beta Let_def)

fun adopt_race :: "string \<Rightarrow> string option \<Rightarrow> string list \<Rightarrow> db \<Rightarrow> bool list \<times> db" where
  "adopt_race rid obs [] d = ([], d)"
| "adopt_race rid obs (tok # toks) d =
     (let (w, d1) = adopt_claim rid obs tok d; (ws, d2) = adopt_race rid obs toks d1 in (w # ws, d2))"

lemma adopt_race_eq: "adopt_race rid obs toks d = adopt_cas.race rid obs toks d"
  by (induction toks arbitrary: d) (auto simp: case_prod_beta Let_def)

text \<open>What the startup rollback does to a report.\<close>

definition rolled_back :: "stamp \<Rightarrow> report \<Rightarrow> report" where
  "rolled_back now r = (case map_of ORPHANED_CLAIM_ROLLBACK (r_status r) of
     None \<Rightarrow> r | Some s \<Rightarrow> r\<lparr>r_status := s, r_updated_at := now\<rparr>)"

lemma roll_back_reports:
  "reports (snd (roll_back_claims ORPHANED_CLAIM_ROLLBACK now d)) = map (rolled_back now) (reports d)"
  by (simp add: ORPHANED_CLAIM_ROLLBACK_def case_prod_beta Let_def update_where_def)
     (auto simp: rolled_back_def ORPHANED_CLAIM_ROLLBACK_def)

lemma roll_back_frame:
  "analyses (snd (roll_back_claims cs now d)) = analyses d
   \<and> fix_proposals (snd (roll_back_claims cs now d)) = fix_proposals d
   \<and> projects (snd (roll_back_claims cs now d)) = projects d"
  by (induction cs arbitrary: d) (auto simp: case_prod_beta Let_def)

lemma roll_back_none:
  "\<forall>r\<in>set (reports d). r_status r \<notin> fst ` set cs \<Longrightarrow>
   fst (roll_back_claims cs now d) = [] \<and> reports (snd (roll_back_claims cs now d)) = reports d"
proof (induction cs arbitrary: d)
  case (Cons c cs)
  obtain x y where c: "c = (x, y)" by (cases c)
  have none: "\<And>r. r \<in> set (reports d) \<Longrightarrow> r_status r \<noteq> x" using Cons.prems by (auto simp: c)
  have same: "update_where (\<lambda>r. r_status r = x) (\<lambda>r. r\<lparr>r_status := y, r_updated_at := now\<rparr>) (reports d) = reports d"
    by (rule update_where_id) (rule none)
  have "rowcount (\<lambda>r. r_status r = x) (reports d) = 0" using none by (simp add: rowcount_zero)
  with Cons.IH[of "snd (update_reports (\<lambda>r. r_status r = x)
      (\<lambda>r. r\<lparr>r_status := y, r_updated_at := now\<rparr>) d)"] Cons.prems same
  show ?case by (auto simp: c case_prod_beta Let_def)
qed simp

lemma record_interrupted_frame:
  "record_interrupted rids now d = (res, d') \<Longrightarrow>
   reports d' = reports d \<and> projects d' = projects d \<and> fix_proposals d' = fix_proposals d"
proof (induction rids arbitrary: d)
  case (Cons rid rids)
  then show ?case
    by (fastforce simp: case_prod_beta Let_def insert_analysis_def split: sum.splits if_splits)
qed simp

lemma record_interrupted_rows:
  "record_interrupted rids now d = (None, d') \<Longrightarrow>
   \<exists>new. analyses d' = analyses d @ new \<and> map a_bug_report_id new = rids
     \<and> list_all (\<lambda>a. a_phase a = P_FIX \<and> a_status a = A_FAILED
          \<and> a_result a = Some interrupted_fix_result \<and> a_created_at a = now) new"
proof (induction rids arbitrary: d)
  case (Cons rid rids)
  let ?a = "(blank_analysis (fst (new_id d)) rid P_FIX A_FAILED now)
              \<lparr>a_result := Some interrupted_fix_result, a_completed_at := Some (Iso now)\<rparr>"
  from Cons.prems have
    "record_interrupted rids now ((snd (new_id d))\<lparr>analyses := analyses d @ [?a]\<rparr>) = (None, d')"
    by (simp add: case_prod_beta Let_def insert_analysis_def split: sum.splits if_splits)
  from Cons.IH[OF this] obtain new where "analyses d' = analyses d @ ?a # new"
    "map a_bug_report_id new = rids" "list_all (\<lambda>a. a_phase a = P_FIX \<and> a_status a = A_FAILED
          \<and> a_result a = Some interrupted_fix_result \<and> a_created_at a = now) new" by auto
  then show ?case by (intro exI[of _ "?a # new"]) (simp add: blank_analysis_def)
qed simp

lemma released_state:
  assumes "fst (release_orphaned_claims d) = Inr released"
  shows "let d' = snd (release_orphaned_claims d); now = fst (db_now d) in
    reports d' = map (rolled_back now) (reports d)
    \<and> (\<exists>new. analyses d' = update_where (\<lambda>a. a_status a = A_RUNNING)
          (\<lambda>a. a\<lparr>a_status := A_FAILED, a_result := Some interrupted_result,
                a_completed_at := Some (Iso now)\<rparr>) (analyses d) @ new
        \<and> map a_bug_report_id new = map r_id (filter (\<lambda>r. r_status r = FIX_PROPOSING) (reports d))
        \<and> list_all (\<lambda>a. a_phase a = P_FIX \<and> a_status a = A_FAILED
             \<and> a_result a = Some interrupted_fix_result \<and> a_created_at a = now) new)"
proof -
  let ?now = "fst (db_now d)"
  let ?d2 = "(snd (db_now d))\<lparr>analyses := update_where (\<lambda>a. a_status a = A_RUNNING)
                 (\<lambda>a. a\<lparr>a_status := A_FAILED, a_result := Some interrupted_result,
                       a_completed_at := Some (Iso ?now)\<rparr>) (analyses d)\<rparr>"
  let ?fixing = "map r_id (filter (\<lambda>r. r_status r = FIX_PROPOSING) (reports d))"
  obtain d3 where ri: "record_interrupted ?fixing ?now ?d2 = (None, d3)"
    using assms by (cases "record_interrupted ?fixing ?now ?d2"; cases "fst (record_interrupted ?fixing ?now ?d2)")
      (auto simp: release_orphaned_claims_def case_prod_beta Let_def)
  then have st: "snd (release_orphaned_claims d) = snd (roll_back_claims ORPHANED_CLAIM_ROLLBACK ?now d3)"
    by (simp add: release_orphaned_claims_def case_prod_beta Let_def)
  from record_interrupted_frame[OF ri] record_interrupted_rows[OF ri]
  show ?thesis by (simp add: Let_def st roll_back_reports roll_back_frame)
qed

lemma rolled_back_status:
  "r_status (rolled_back now r) \<notin> {VALIDATING, ANALYZING, FIX_PROPOSING}"
  "r_status r \<notin> {VALIDATING, ANALYZING, FIX_PROPOSING} \<Longrightarrow> rolled_back now r = r"
  "r_id (rolled_back now r) = r_id r" "r_claim_token (rolled_back now r) = r_claim_token r"
  by (cases "r_status r"; simp add: rolled_back_def ORPHANED_CLAIM_ROLLBACK_def)+

text \<open>Without a stage claim or a running row there is nothing to do.\<close>

definition quiet :: "db \<Rightarrow> bool" where
  "quiet d \<longleftrightarrow> (\<forall>r\<in>set (reports d). r_status r \<notin> {VALIDATING, ANALYZING, FIX_PROPOSING})
     \<and> (\<forall>a\<in>set (analyses d). a_status a \<noteq> A_RUNNING)"

lemma quiet_after_release:
  assumes "fst (release_orphaned_claims d) = Inr released"
  shows "quiet (snd (release_orphaned_claims d))"
proof -
  from released_state[OF assms] obtain new where
    r: "reports (snd (release_orphaned_claims d)) = map (rolled_back (fst (db_now d))) (reports d)" and
    a: "analyses (snd (release_orphaned_claims d)) = update_where (\<lambda>a. a_status a = A_RUNNING)
          (\<lambda>a. a\<lparr>a_status := A_FAILED, a_result := Some interrupted_result,
                a_completed_at := Some (Iso (fst (db_now d)))\<rparr>) (analyses d) @ new" and
    n: "list_all (\<lambda>a. a_phase a = P_FIX \<and> a_status a = A_FAILED
             \<and> a_result a = Some interrupted_fix_result \<and> a_created_at a = fst (db_now d)) new"
    by (auto simp: Let_def)
  from n have "\<forall>x\<in>set new. a_status x \<noteq> A_RUNNING" by (auto simp: list_all_iff)
  then show ?thesis
    using rolled_back_status(1) by (auto simp: quiet_def r a update_where_def)
qed

lemma quiet_release:
  assumes "quiet d"
  shows "fst (release_orphaned_claims d) = Inr [] \<and> same_tables d (snd (release_orphaned_claims d))"
proof -
  have no: "filter (\<lambda>r. r_status r = FIX_PROPOSING) (reports d) = []"
    using assms by (auto simp: quiet_def filter_empty_conv)
  have same: "update_where (\<lambda>a. a_status a = A_RUNNING)
      (\<lambda>a. a\<lparr>a_status := A_FAILED, a_result := Some interrupted_result,
             a_completed_at := Some (Iso (fst (db_now d)))\<rparr>) (analyses d) = analyses d"
    by (rule update_where_id) (use assms in \<open>auto simp: quiet_def\<close>)
  have "\<forall>r\<in>set (reports d). r_status r \<notin> fst ` set ORPHANED_CLAIM_ROLLBACK"
    using assms by (auto simp: quiet_def ORPHANED_CLAIM_ROLLBACK_def)
  then have "fst (roll_back_claims ORPHANED_CLAIM_ROLLBACK (fst (db_now d)) (snd (db_now d))) = []
    \<and> reports (snd (roll_back_claims ORPHANED_CLAIM_ROLLBACK (fst (db_now d)) (snd (db_now d)))) = reports d"
    using roll_back_none[of "snd (db_now d)" ORPHANED_CLAIM_ROLLBACK "fst (db_now d)"] by simp
  then have id: "roll_back_claims ORPHANED_CLAIM_ROLLBACK (fst (db_now d)) ((snd (db_now d))\<lparr>analyses := analyses d\<rparr>)
      = ([], (snd (db_now d))\<lparr>analyses := analyses d\<rparr>)"
    by (simp add: ORPHANED_CLAIM_ROLLBACK_def case_prod_beta Let_def update_reports_def split: if_splits)
  show ?thesis
    unfolding release_orphaned_claims_def case_prod_beta Let_def
    by (simp add: no same id same_tables_def)
qed

text \<open>Listing and pagination.\<close>

fun pages :: "nat \<Rightarrow> nat \<Rightarrow> string option \<Rightarrow> string option \<Rightarrow> bool \<Rightarrow> string \<Rightarrow> db \<Rightarrow> report list" where
  "pages 0 l pid st del dir d = []"
| "pages (Suc k) l pid st del dir d =
     pages k l pid st del dir d @ report_list pid st del (Some (int l)) (int (k * l)) dir d"

lemma report_list_page:
  "report_list pid st del (Some (int l)) (int k) dir d = take l (drop k (report_list pid st del None 0 dir d))"
  by (simp add: report_list_def limit_offset_def Let_def)

lemma pages_take: "pages k l pid st del dir d = take (k * l) (report_list pid st del None 0 dir d)"
proof (induction k)
  case (Suc k)
  have "take (k * l) xs @ take l (drop (k * l) xs) = take (Suc k * l) xs" for xs :: "report list"
    by (simp add: take_add[symmetric] add.commute)
  with Suc show ?case by (simp only: pages.simps report_list_page)
qed simp

lemma length_report_list: "length (report_list pid st del None 0 dir d) = report_count pid st del d"
  by (simp add: report_list_def report_count_def rowcount_def Let_def order_asc_def order_desc_def)

section \<open>Properties\<close>

text \<open>
  C30.  A claim has exactly one winner.  However many workers and open-pr requests try to move a
  report out of the status they all saw, and whatever each would move it to, the first to reach the
  database wins and every later one is told it lost; the report then holds the winner's status and
  token, untouched by the losers.
\<close>

theorem claim_has_one_winner:
  assumes "ids_ok d" and "report_get rid d = Some r" and "n \<noteq> r_status r"
  shows "fst (claim_race rid (r_status r) ((n, tok) # cs) d) = True # replicate (length cs) False
    \<and> report_get rid (snd (claim_race rid (r_status r) ((n, tok) # cs) d))
        = Some (r\<lparr>r_status := n, r_claim_token := (case tok of None \<Rightarrow> r_claim_token r | Some t \<Rightarrow> Some t),
                  r_updated_at := fst (db_now d)\<rparr>)"
proof -
  have cell: "status_cell rid d = Some (r_status r)" using assms(2) by (simp add: status_cell_def)
  have t: "fst (n, tok) \<noteq> r_status r" using assms(3) by simp
  show ?thesis
    using claim_cas.race_one_winner[OF assms(1) cell t, of cs]
      claim_cas.race_winner_row[OF assms(1) cell t, of cs] assms(2)
    by (simp add: claim_race_eq try_claim_get)
qed

theorem claim_has_one_winner_witness:
  "fst (claim_race ''r'' SUBMITTED [(VALIDATING, None), (VALIDATING, None), (TRIAGED, Some ''k'')]
     (init_db\<lparr>reports := [blank_report ''q'' ''x'' 4, blank_report ''r'' ''x'' 5]\<rparr>)) = [True, False, False]"
proof -
  let ?d = "init_db\<lparr>reports := [blank_report ''q'' ''x'' 4, blank_report ''r'' ''x'' 5]\<rparr>"
  have ids: "ids_ok ?d" by (simp add: ids_ok_def blank_report_def)
  have g: "report_get ''r'' ?d = Some (blank_report ''r'' ''x'' 5)"
    by (simp add: report_get_def blank_report_def)
  have n: "VALIDATING \<noteq> r_status (blank_report ''r'' ''x'' 5)" by (simp add: blank_report_def)
  from claim_has_one_winner[OF ids g n, of None "[(VALIDATING, None), (TRIAGED, Some ''k'')]"]
  show ?thesis by (simp add: blank_report_def numeral_2_eq_2)
qed

text \<open>
  Of several open-pr requests that all saw the same abandoned claim, only one adopts it: the
  first takes the token over, and every other request finds a token it did not observe and gives up
  without changing the row.  A request whose report is no longer claimed adopts nothing.
\<close>

theorem adoption_has_one_winner:
  assumes "ids_ok d" and "report_get rid d = Some r" and "Some tok \<noteq> r_claim_token r"
  shows "fst (adopt_race rid (r_claim_token r) (tok # toks) d)
      = (r_status r = FIX_APPROVED) # replicate (length toks) False
    \<and> report_get rid (snd (adopt_race rid (r_claim_token r) (tok # toks) d))
        = Some (if r_status r = FIX_APPROVED
                then r\<lparr>r_claim_token := Some tok, r_updated_at := fst (db_now d)\<rparr> else r)"
proof (cases "r_status r = FIX_APPROVED")
  case True
  then have cell: "token_cell rid d = Some (r_claim_token r)" using assms(2) by (simp add: token_cell_def)
  show ?thesis
    using adopt_cas.race_one_winner[OF assms(1) cell assms(3), of toks]
      adopt_cas.race_winner_row[OF assms(1) cell assms(3), of toks] assms(2) True
    by (simp add: adopt_race_eq adopt_get)
next
  case False
  then have cell: "token_cell rid d \<noteq> Some (r_claim_token r)" using assms(2) by (simp add: token_cell_def)
  show ?thesis
    using adopt_cas.race_lost[OF assms(1) cell, of "tok # toks"]
      adopt_cas.race_lost_row[OF assms(1) cell, of "tok # toks"] assms(2) False
    by (simp add: adopt_race_eq)
qed

theorem adoption_has_one_winner_witness:
  "fst (adopt_race ''r'' (Some ''dead'') [''a'', ''b'']
     (init_db\<lparr>reports := [(blank_report ''r'' ''x'' 5)\<lparr>r_status := FIX_APPROVED, r_claim_token := Some ''dead''\<rparr>]\<rparr>))
   = [True, False]"
proof -
  let ?r = "(blank_report ''r'' ''x'' 5)\<lparr>r_status := FIX_APPROVED, r_claim_token := Some ''dead''\<rparr>"
  let ?d = "init_db\<lparr>reports := [?r]\<rparr>"
  have ids: "ids_ok ?d" by (simp add: ids_ok_def)
  have g: "report_get ''r'' ?d = Some ?r" by (simp add: report_get_def blank_report_def)
  have n: "Some ''a'' \<noteq> r_claim_token ?r" by simp
  from adoption_has_one_winner[OF ids g n, of "[''b'']"] show ?thesis by simp
qed

text \<open>
  C33.  Startup recovery.  A successful run leaves no report in a stage claim and no running
  analysis; every report outside the three stage claims, open-pr claims included, is left as it
  was; every report that was proposing a fix gets exactly one failed fix row that is marked
  permanent, so the worker never repeats the paid call; and a second run releases nothing and
  writes nothing.
\<close>

theorem startup_recovery:
  assumes "fst (release_orphaned_claims d) = Inr released"
  shows "let d' = snd (release_orphaned_claims d) in
    quiet d' \<and> map r_id (reports d') = map r_id (reports d)
    \<and> (\<forall>i < length (reports d). r_status (reports d ! i) \<in> {VALIDATING, ANALYZING, FIX_PROPOSING}
         \<or> reports d' ! i = reports d ! i)
    \<and> map a_bug_report_id (filter (\<lambda>a. a_phase a = P_FIX \<and> a_status a = A_FAILED
          \<and> a_result a = Some interrupted_fix_result) (drop (length (analyses d)) (analyses d')))
        = map r_id (filter (\<lambda>r. r_status r = FIX_PROPOSING) (reports d))
    \<and> fst (release_orphaned_claims d') = Inr []
    \<and> same_tables d' (snd (release_orphaned_claims d'))"
proof -
  from released_state[OF assms] obtain new where
    r: "reports (snd (release_orphaned_claims d)) = map (rolled_back (fst (db_now d))) (reports d)" and
    a: "analyses (snd (release_orphaned_claims d)) = update_where (\<lambda>a. a_status a = A_RUNNING)
          (\<lambda>a. a\<lparr>a_status := A_FAILED, a_result := Some interrupted_result,
                a_completed_at := Some (Iso (fst (db_now d)))\<rparr>) (analyses d) @ new" and
    n: "map a_bug_report_id new = map r_id (filter (\<lambda>r. r_status r = FIX_PROPOSING) (reports d))"
      "list_all (\<lambda>a. a_phase a = P_FIX \<and> a_status a = A_FAILED
             \<and> a_result a = Some interrupted_fix_result \<and> a_created_at a = fst (db_now d)) new"
    by (auto simp: Let_def)
  have "filter (\<lambda>a. a_phase a = P_FIX \<and> a_status a = A_FAILED
          \<and> a_result a = Some interrupted_fix_result) new = new"
    using n(2) by (auto simp: list_all_iff)
  moreover have "\<forall>i < length (reports d). r_status (reports d ! i) \<in> {VALIDATING, ANALYZING, FIX_PROPOSING}
         \<or> map (rolled_back (fst (db_now d))) (reports d) ! i = reports d ! i"
    using rolled_back_status(2) by (metis nth_map)
  ultimately show ?thesis
    using quiet_after_release[OF assms] quiet_release[OF quiet_after_release[OF assms]] n(1)
    by (simp add: Let_def r a rolled_back_status comp_def)
qed

theorem startup_recovery_witness:
  "let d = init_db\<lparr>reports := [(blank_report ''r'' ''x'' 5)\<lparr>r_status := FIX_PROPOSING\<rparr>,
         (blank_report ''s'' ''x'' 6)\<lparr>r_status := FIX_APPROVED\<rparr>]\<rparr>
   in fst (release_orphaned_claims d) = Inr [(FIX_PROPOSING, 1)]
      \<and> fst (release_orphaned_claims (snd (release_orphaned_claims d))) = Inr []"
proof -
  let ?d = "init_db\<lparr>reports := [(blank_report ''r'' ''x'' 5)\<lparr>r_status := FIX_PROPOSING\<rparr>,
         (blank_report ''s'' ''x'' 6)\<lparr>r_status := FIX_APPROVED\<rparr>]\<rparr>"
  have "fst (release_orphaned_claims ?d) = Inr [(FIX_PROPOSING, 1)]"
    by (simp add: release_orphaned_claims_def case_prod_beta Let_def insert_analysis_def init_db_def
        blank_report_def blank_analysis_def ORPHANED_CLAIM_ROLLBACK_def update_where_def rowcount_def)
  with startup_recovery[OF this] show ?thesis by (simp add: Let_def)
qed

text \<open>
  Pagination loses and repeats nothing.  For any filter, order and positive page size, the
  first pages joined are a prefix of the whole listing, enough pages give all of it, the whole
  listing has as many rows as \<open>report_count\<close> says, consists of exactly the reports the filter
  selects, and is ordered by creation time (oldest first for \<open>asc\<close>, newest first for any
  other order).
\<close>

theorem pagination_is_exact:
  assumes "report_count pid st del d \<le> k * l"
  shows "pages k l pid st del dir d = report_list pid st del None 0 dir d
    \<and> length (pages k l pid st del dir d) = report_count pid st del d
    \<and> set (pages k l pid st del dir d) = {r \<in> set (reports d). report_filter pid st del r}
    \<and> (if dir = ''asc'' then sorted (map r_created_at (pages k l pid st del dir d))
       else sorted_wrt (\<ge>) (map r_created_at (pages k l pid st del dir d)))"
proof -
  have all: "pages k l pid st del dir d = report_list pid st del None 0 dir d"
    using assms by (simp add: pages_take length_report_list)
  show ?thesis
    unfolding all length_report_list
    by (simp add: report_list_def Let_def sorted_order_asc sorted_order_desc)
qed

theorem pagination_is_exact_witness:
  "length (pages 2 1 None None False ''desc''
     (init_db\<lparr>reports := [blank_report ''q'' ''x'' 4, blank_report ''r'' ''x'' 5]\<rparr>)) = 2"
proof -
  let ?d = "init_db\<lparr>reports := [blank_report ''q'' ''x'' 4, blank_report ''r'' ''x'' 5]\<rparr>"
  have c: "report_count None None False ?d = 2"
    by (simp add: report_count_def rowcount_def report_filter_def not_deleted_def blank_report_def)
  then have "report_count None None False ?d \<le> 2 * 1" by simp
  from pagination_is_exact[OF this, of "''desc''"] c show ?thesis by metis
qed

end
