(* ===== verification/Config.thy ===== *)
theory Config
  imports Prelude
begin

text \<open>
  \<open>config.py\<close> and \<open>auth.py\<close>: the settings the components read, the generic-environment fallback
  that runs after they load, credential lookup, and the API key check.  \<open>explicit\<close> is pydantic's
  \<open>model_fields_set\<close>; the environment and the \<open>.env\<close> file are maps from names to values.
  \<open>str.casefold\<close> is an argument where it is used, since a character here carries no Unicode table.
\<close>

record settings =
  api_keys :: string
  cors_origins :: string
  ollama_host :: string
  default_triage_model :: string
  queue_poll_seconds :: int
  queue_max_concurrent :: int
  queue_enabled :: bool
  auto_fix_enabled :: bool
  duplicate_threshold :: rat
  retry_delay_seconds :: int
  max_triage_retries :: int
  max_localize_retries :: int
  max_fix_retries :: int
  default_localize_model :: string
  repo_map_max_files :: int
  repo_map_max_tokens :: int
  localize_max_file_chars :: int
  localize_max_files :: int
  localize_confidence_threshold :: rat
  default_fix_model :: string
  fix_provider :: string
  anthropic_api_key :: string
  fix_max_bundle_bytes :: int
  fix_max_file_bytes :: int
  github_token :: "string option"
  ingest_enabled :: bool
  ingest_poll_seconds :: int
  ingest_page_limit :: int
  ingest_max_pages :: int
  ingest_rewalk_hours :: rat
  ingest_rewalk_pages :: int
  triage_sync_enabled :: bool
  triage_sync_seconds :: int
  triage_action_timeout_minutes :: rat
  triage_max_concurrent :: int
  triage_push_per_tick :: int
  sonicgrid_cloud_users :: string
  sonicgrid_user_keys :: bool

definition default_settings :: settings where
  "default_settings =
     \<lparr>api_keys = [], cors_origins = [], ollama_host = ''http://localhost:11434'',
      default_triage_model = ''qwen2.5-coder:7b'', queue_poll_seconds = 5, queue_max_concurrent = 2,
      queue_enabled = True, auto_fix_enabled = False, duplicate_threshold = 4/5,
      retry_delay_seconds = 60, max_triage_retries = 3, max_localize_retries = 3,
      max_fix_retries = 2, default_localize_model = ''qwen2.5-coder:7b'', repo_map_max_files = 50,
      repo_map_max_tokens = 4000, localize_max_file_chars = 8000, localize_max_files = 3,
      localize_confidence_threshold = 1/2, default_fix_model = ''claude-sonnet-4-6'',
      fix_provider = ''anthropic'', anthropic_api_key = [], fix_max_bundle_bytes = 4194304,
      fix_max_file_bytes = 524288, github_token = None, ingest_enabled = False,
      ingest_poll_seconds = 120, ingest_page_limit = 100, ingest_max_pages = 20,
      ingest_rewalk_hours = 6, ingest_rewalk_pages = 5, triage_sync_enabled = False,
      triage_sync_seconds = 15, triage_action_timeout_minutes = 45, triage_max_concurrent = 1,
      triage_push_per_tick = 20, sonicgrid_cloud_users = [], sonicgrid_user_keys = False\<rparr>"

section \<open>Generic LLM fallbacks\<close>

definition removeprefix :: "string \<Rightarrow> string \<Rightarrow> string" where
  "removeprefix p s = (if starts_with p s then drop (length p) s else s)"

definition generic_model_fallback ::
  "(string \<Rightarrow> string option) \<Rightarrow> string list \<Rightarrow> settings \<Rightarrow> settings" where
  "generic_model_fallback env explicit s =
     (case env ''QA_LLM_MODEL'' of
        None \<Rightarrow> s
      | Some generic \<Rightarrow>
          if generic = [] then s
          else
            (let sa = (if ''fix_provider'' \<notin> set explicit \<and> ''default_fix_model'' \<notin> set explicit
                       then s\<lparr>default_fix_model := generic,
                              fix_provider := (if CHR ''/'' \<in> set generic
                                then takeWhile (\<lambda>c. c \<noteq> CHR ''/'') generic else ''openai'')\<rparr>
                       else s)
             in if starts_with ''ollama/'' generic then
                  (let bare = removeprefix ''ollama/'' generic;
                       sb = (if ''default_triage_model'' \<notin> set explicit
                             then sa\<lparr>default_triage_model := bare\<rparr> else sa)
                   in if ''default_localize_model'' \<notin> set explicit
                      then sb\<lparr>default_localize_model := bare\<rparr> else sb)
                else sa))"

definition apply_generic_llm_fallbacks ::
  "(string \<Rightarrow> string option) \<Rightarrow> string list \<Rightarrow> settings \<Rightarrow> settings" where
  "apply_generic_llm_fallbacks env explicit s =
     (let s1 = generic_model_fallback env explicit s
      in case env ''QA_LLM_API_BASE'' of
           None \<Rightarrow> s1
         | Some base \<Rightarrow>
             if base \<noteq> [] \<and> ''ollama_host'' \<notin> set explicit then s1\<lparr>ollama_host := base\<rparr> else s1)"

section \<open>Credentials and lists\<close>

definition comma_list :: "string \<Rightarrow> string list" where
  "comma_list v = map strip (filter (\<lambda>k. strip k \<noteq> []) (split_on (CHR '','') v))"

definition valid_api_keys :: "settings \<Rightarrow> string list" where
  "valid_api_keys s = (if strip (api_keys s) = [] then [] else comma_list (api_keys s))"

definition cors_origin_list :: "settings \<Rightarrow> string list" where
  "cors_origin_list s = (if strip (cors_origins s) = [] then [] else comma_list (cors_origins s))"

definition github_token_value :: "settings \<Rightarrow> string option" where
  "github_token_value s =
     (case github_token s of None \<Rightarrow> None
      | Some secret \<Rightarrow> (let value = strip secret in if value = [] then None else Some value))"

definition sonicgrid_cloud_user_set :: "(string \<Rightarrow> string) \<Rightarrow> settings \<Rightarrow> string list" where
  "sonicgrid_cloud_user_set casefold s =
     map (\<lambda>e. casefold (strip e)) (filter (\<lambda>e. strip e \<noteq> []) (split_on (CHR '','') (sonicgrid_cloud_users s)))"

definition resolve_env_credential ::
  "(string \<Rightarrow> string option) \<Rightarrow> (string \<Rightarrow> string option option) \<Rightarrow> string \<Rightarrow> string option" where
  "resolve_env_credential env env_file name =
     (let value = (case env name of Some v \<Rightarrow> Some v
                   | None \<Rightarrow> (case env_file name of None \<Rightarrow> None | Some v \<Rightarrow> v));
          stripped = strip (case value of None \<Rightarrow> [] | Some v \<Rightarrow> v)
      in if stripped = [] then None else Some stripped)"

text \<open>A \<open>timedelta\<close> in whole microseconds, rounded half to even.\<close>

definition round_half_even :: "rat \<Rightarrow> int" where
  "round_half_even q =
     (let f = \<lfloor>q\<rfloor>; r = q - of_int f
      in if r < 1 / 2 \<or> (r = 1 / 2 \<and> even f) then f else f + 1)"

text \<open>\<open>require_api_key\<close>: \<open>Inl 401\<close> or the caller's key.\<close>

definition require_api_key :: "settings \<Rightarrow> string option \<Rightarrow> nat + string" where
  "require_api_key s key =
     (let valid = valid_api_keys s
      in if valid = [] then Inr ''anonymous''
         else (case key of
                 None \<Rightarrow> Inl 401
               | Some k \<Rightarrow> if k = [] \<or> k \<notin> set valid then Inl 401 else Inr k))"

section \<open>Lemmas\<close>

lemma strip_nil [simp]: "strip [] = []"
  by (simp add: strip_def lstrip_def rstrip_def)

lemma strip_blank: "strip v = [] \<longleftrightarrow> (\<forall>c\<in>set v. is_space c)"
proof -
  have "(\<forall>c\<in>set (dropWhile is_space v). is_space c) \<longleftrightarrow> (\<forall>c\<in>set v. is_space c)"
    by (induction v) auto
  then show ?thesis by (simp add: strip_def lstrip_def rstrip_def)
qed

lemma set_split_on: "w \<in> set (split_on c v) \<Longrightarrow> set w \<subseteq> set v"
  by (induction v arbitrary: w) (fastforce split: if_splits list.splits)+

lemma comma_list_blank: "strip v = [] \<Longrightarrow> comma_list v = []"
  unfolding comma_list_def strip_blank by (auto simp: filter_empty_conv strip_blank dest: set_split_on)

lemma valid_api_keys_eq: "valid_api_keys s = comma_list (api_keys s)"
  by (simp add: valid_api_keys_def comma_list_blank)

text \<open>Every configured key is non-blank, so a missing or empty header never passes a key check.\<close>

lemma require_api_key_rejects:
  "comma_list (api_keys s) \<noteq> [] \<Longrightarrow> \<not> str_set key \<Longrightarrow> require_api_key s key = Inl 401"
  by (cases key) (auto simp: require_api_key_def valid_api_keys_eq Let_def)

text \<open>The fallback as one update per field.\<close>

definition generic_model :: "(string \<Rightarrow> string option) \<Rightarrow> string" where
  "generic_model env = (case env ''QA_LLM_MODEL'' of None \<Rightarrow> [] | Some g \<Rightarrow> g)"

definition generic_base :: "(string \<Rightarrow> string option) \<Rightarrow> string" where
  "generic_base env = (case env ''QA_LLM_API_BASE'' of None \<Rightarrow> [] | Some g \<Rightarrow> g)"

definition fix_free :: "string list \<Rightarrow> bool" where
  "fix_free explicit \<longleftrightarrow> ''fix_provider'' \<notin> set explicit \<and> ''default_fix_model'' \<notin> set explicit"

lemma model_fallback_frame:
  fixes h :: "settings \<Rightarrow> 'a"
  assumes "\<And>s m p. h (s\<lparr>default_fix_model := m, fix_provider := p\<rparr>) = h s"
    and "\<And>s t. h (s\<lparr>default_triage_model := t\<rparr>) = h s"
    and "\<And>s t. h (s\<lparr>default_localize_model := t\<rparr>) = h s"
  shows "h (generic_model_fallback env explicit s) = h s"
  unfolding generic_model_fallback_def Let_def option.case_distrib[where h = h] if_distrib[of h] assms
  by (simp split: option.split)

lemma host_fallback_frame:
  fixes h :: "settings \<Rightarrow> 'a"
  assumes "\<And>s t. h (s\<lparr>ollama_host := t\<rparr>) = h s"
  shows "h (apply_generic_llm_fallbacks env explicit s) = h (generic_model_fallback env explicit s)"
  unfolding apply_generic_llm_fallbacks_def Let_def option.case_distrib[where h = h] if_distrib[of h] assms
  by (simp split: option.split)

lemmas fallback_simps = generic_model_fallback_def Let_def option.case_distrib[where h = fix_provider]
  option.case_distrib[where h = default_fix_model] option.case_distrib[where h = default_triage_model]
  option.case_distrib[where h = default_localize_model]
  if_distrib[of fix_provider] if_distrib[of default_fix_model] if_distrib[of default_triage_model]
  if_distrib[of default_localize_model] generic_model_def fix_free_def

lemma fallback_fields:
  "default_fix_model (apply_generic_llm_fallbacks env explicit s) =
     (if generic_model env \<noteq> [] \<and> fix_free explicit then generic_model env else default_fix_model s)"
  "fix_provider (apply_generic_llm_fallbacks env explicit s) =
     (if generic_model env \<noteq> [] \<and> fix_free explicit
      then (if CHR ''/'' \<in> set (generic_model env) then takeWhile (\<lambda>c. c \<noteq> CHR ''/'') (generic_model env)
            else ''openai'') else fix_provider s)"
  "default_triage_model (apply_generic_llm_fallbacks env explicit s) =
     (if starts_with ''ollama/'' (generic_model env) \<and> ''default_triage_model'' \<notin> set explicit
      then removeprefix ''ollama/'' (generic_model env) else default_triage_model s)"
  "default_localize_model (apply_generic_llm_fallbacks env explicit s) =
     (if starts_with ''ollama/'' (generic_model env) \<and> ''default_localize_model'' \<notin> set explicit
      then removeprefix ''ollama/'' (generic_model env) else default_localize_model s)"
proof -
  have n: "\<not> starts_with ''ollama/'' []" by (simp add: starts_with_def)
  show "default_fix_model (apply_generic_llm_fallbacks env explicit s) =
     (if generic_model env \<noteq> [] \<and> fix_free explicit then generic_model env else default_fix_model s)"
    unfolding host_fallback_frame[of default_fix_model, simplified] fallback_simps by (simp split: option.split)
  show "fix_provider (apply_generic_llm_fallbacks env explicit s) =
     (if generic_model env \<noteq> [] \<and> fix_free explicit
      then (if CHR ''/'' \<in> set (generic_model env) then takeWhile (\<lambda>c. c \<noteq> CHR ''/'') (generic_model env)
            else ''openai'') else fix_provider s)"
    unfolding host_fallback_frame[of fix_provider, simplified] fallback_simps by (simp split: option.split)
  show "default_triage_model (apply_generic_llm_fallbacks env explicit s) =
     (if starts_with ''ollama/'' (generic_model env) \<and> ''default_triage_model'' \<notin> set explicit
      then removeprefix ''ollama/'' (generic_model env) else default_triage_model s)"
    unfolding host_fallback_frame[of default_triage_model, simplified] fallback_simps
    by (simp add: n split: option.split)
  show "default_localize_model (apply_generic_llm_fallbacks env explicit s) =
     (if starts_with ''ollama/'' (generic_model env) \<and> ''default_localize_model'' \<notin> set explicit
      then removeprefix ''ollama/'' (generic_model env) else default_localize_model s)"
    unfolding host_fallback_frame[of default_localize_model, simplified] fallback_simps
    by (simp add: n split: option.split)
qed

lemma fallback_host:
  "''ollama_host'' \<in> set explicit \<Longrightarrow> ollama_host (apply_generic_llm_fallbacks env explicit s) = ollama_host s"
  by (simp add: apply_generic_llm_fallbacks_def model_fallback_frame Let_def split: option.split)

lemma fix_pair: "CHR ''/'' \<in> set g \<Longrightarrow> \<exists>m. g = takeWhile (\<lambda>c. c \<noteq> CHR ''/'') g @ CHR ''/'' # m"
  by (induction g) auto

lemma removeprefix_append: "starts_with p g \<Longrightarrow> p @ removeprefix p g = g"
  by (auto simp: removeprefix_def starts_with_iff)

lemma generic_model_set: "str_set (env ''QA_LLM_MODEL'') \<longleftrightarrow> generic_model env \<noteq> []"
  "generic_model env \<noteq> [] \<Longrightarrow> env ''QA_LLM_MODEL'' = Some (generic_model env)"
  by (auto simp: generic_model_def split: option.splits)

section \<open>Properties\<close>

text \<open>
  The generic environment never overrides a setting that was configured, and never mixes
  tiers: a configured fix provider or fix model keeps both; otherwise the pair is taken from the one
  generic string together; the local triage and localization models change only to the model of an
  \<open>ollama/\<close> string, so a cloud model never becomes a local one; a configured ollama host stays; and
  no key, token, paid-stage switch or fix retry cap changes.
\<close>

theorem generic_fallback_keeps_tiers:
  assumes "apply_generic_llm_fallbacks env explicit s = s'"
  shows "(if ''fix_provider'' \<in> set explicit \<or> ''default_fix_model'' \<in> set explicit
        \<or> \<not> str_set (env ''QA_LLM_MODEL'')
      then fix_provider s' = fix_provider s \<and> default_fix_model s' = default_fix_model s
      else Some (default_fix_model s') = env ''QA_LLM_MODEL''
        \<and> (fix_provider s' = ''openai'' \<or> (\<exists>m. default_fix_model s' = fix_provider s' @ CHR ''/'' # m)))
    \<and> (default_triage_model s' = default_triage_model s
        \<or> ''default_triage_model'' \<notin> set explicit
          \<and> env ''QA_LLM_MODEL'' = Some (''ollama/'' @ default_triage_model s'))
    \<and> (default_localize_model s' = default_localize_model s
        \<or> ''default_localize_model'' \<notin> set explicit
          \<and> env ''QA_LLM_MODEL'' = Some (''ollama/'' @ default_localize_model s'))
    \<and> auto_fix_enabled s' = auto_fix_enabled s \<and> anthropic_api_key s' = anthropic_api_key s
    \<and> github_token s' = github_token s \<and> api_keys s' = api_keys s
    \<and> sonicgrid_user_keys s' = sonicgrid_user_keys s \<and> max_fix_retries s' = max_fix_retries s
    \<and> (''ollama_host'' \<in> set explicit \<longrightarrow> ollama_host s' = ollama_host s)"
proof -
  let ?g = "generic_model env"
  have pre: "starts_with ''ollama/'' ?g \<Longrightarrow>
      env ''QA_LLM_MODEL'' = Some (''ollama/'' @ removeprefix ''ollama/'' ?g)"
    by (metis generic_model_set(2) removeprefix_append append_is_Nil_conv list.distinct(1))
  note eqs = fallback_fields[where env = env and explicit = explicit and s = s, unfolded assms]
  have fixp: "if ''fix_provider'' \<in> set explicit \<or> ''default_fix_model'' \<in> set explicit
        \<or> \<not> str_set (env ''QA_LLM_MODEL'')
      then fix_provider s' = fix_provider s \<and> default_fix_model s' = default_fix_model s
      else Some (default_fix_model s') = env ''QA_LLM_MODEL''
        \<and> (fix_provider s' = ''openai'' \<or> (\<exists>m. default_fix_model s' = fix_provider s' @ CHR ''/'' # m))"
    using fix_pair[of ?g] generic_model_set[of env] by (auto simp: eqs(1,2) fix_free_def)
  have frame: "auto_fix_enabled s' = auto_fix_enabled s" "anthropic_api_key s' = anthropic_api_key s"
    "github_token s' = github_token s" "api_keys s' = api_keys s"
    "sonicgrid_user_keys s' = sonicgrid_user_keys s" "max_fix_retries s' = max_fix_retries s"
    unfolding assms[symmetric] by (simp_all add: host_fallback_frame model_fallback_frame)
  show ?thesis using fixp pre frame fallback_host[of explicit env s] assms by (simp add: eqs(3,4))
qed

theorem generic_fallback_keeps_tiers_witness:
  "fix_provider (apply_generic_llm_fallbacks (map_of [(''QA_LLM_MODEL'', ''a/b'')]) [] default_settings)
     \<in> {''openai'', ''a''}"
proof -
  let ?s = "apply_generic_llm_fallbacks (map_of [(''QA_LLM_MODEL'', ''a/b'')]) [] default_settings"
  have c: "\<not> (''fix_provider'' \<in> set [] \<or> ''default_fix_model'' \<in> set []
      \<or> \<not> str_set (map_of [(''QA_LLM_MODEL'', ''a/b'')] ''QA_LLM_MODEL''))" by simp
  note fix_part = generic_fallback_keeps_tiers[of "map_of [(''QA_LLM_MODEL'', ''a/b'')]" "[]" default_settings,
      OF refl, THEN conjunct1, unfolded if_not_P[OF c]]
  have m: "default_fix_model ?s = ''a/b''" using fix_part by simp
  from fix_part[THEN conjunct2, unfolded m] show ?thesis by (auto simp: Cons_eq_append_conv)
qed

end
