(* ===== verification/Db_Analyses.thy ===== *)
theory Db_Analyses
  imports Db_Reports Config
begin

text \<open>
  Analysis rows in \<open>db.py\<close>: creation and update, the newest-first queries, the retry gate the
  stages share (\<open>_latest_completed_created_at\<close>, \<open>_failed_attempts_after\<close>, \<open>_retry_blocked\<close>),
  the failure summary and the retry resets.  Times are microseconds, delays seconds.
\<close>

section \<open>Rows\<close>

fun phase_value :: "phase \<Rightarrow> string" where
  "phase_value P_VALIDATION = ''validation''"
| "phase_value P_TRIAGE = ''triage''"
| "phase_value P_LOCALIZATION = ''localization''"
| "phase_value P_FIX = ''fix''"

record analysis_args =
  m_result :: "json option"
  m_provider :: "string option"
  m_model :: "string option"
  m_prompt_tokens :: int
  m_completion_tokens :: int
  m_started_at :: "time_text option"
  m_completed_at :: "time_text option"
  m_trigger_ref :: "string option"

definition no_analysis_args :: analysis_args where
  "no_analysis_args = \<lparr>m_result = None, m_provider = None, m_model = None, m_prompt_tokens = 0,
     m_completion_tokens = 0, m_started_at = None, m_completed_at = None, m_trigger_ref = None\<rparr>"

definition analysis_get :: "string \<Rightarrow> db \<Rightarrow> analysis option" where
  "analysis_get aid d = fetchone (filter (\<lambda>a. a_id a = aid) (analyses d))"

text \<open>\<open>json.dumps(result) if result else None\<close>: a falsy result is stored as NULL.\<close>

definition analysis_create ::
  "string \<Rightarrow> phase \<Rightarrow> a_state \<Rightarrow> analysis_args \<Rightarrow> db \<Rightarrow> (db_error + analysis option) \<times> db" where
  "analysis_create rid ph st m d0 =
     (let (row_id, d1) = new_id d0; (now, d2) = db_now d1;
          a = \<lparr>a_id = row_id, a_bug_report_id = rid, a_phase = ph, a_status = st,
               a_result = (if opt_truthy (m_result m) then m_result m else None),
               a_llm_provider = m_provider m, a_llm_model = m_model m,
               a_prompt_tokens = m_prompt_tokens m, a_completion_tokens = m_completion_tokens m,
               a_started_at = m_started_at m, a_completed_at = m_completed_at m,
               a_trigger_ref = m_trigger_ref m, a_created_at = now\<rparr>
      in case insert_analysis a d2 of
           Inl e \<Rightarrow> (Inl e, d2)
         | Inr d3 \<Rightarrow> (Inr (analysis_get row_id d3), d3))"

text \<open>The keyword arguments its callers pass to \<open>analysis_update\<close>.\<close>

datatype analysis_field =
    AF_status a_state | AF_result json | AF_provider string | AF_model string
  | AF_prompt_tokens int | AF_completion_tokens int | AF_completed_at time_text

fun set_analysis_field :: "analysis_field \<Rightarrow> analysis \<Rightarrow> analysis" where
  "set_analysis_field (AF_status v) a = a\<lparr>a_status := v\<rparr>"
| "set_analysis_field (AF_result v) a = a\<lparr>a_result := Some v\<rparr>"
| "set_analysis_field (AF_provider v) a = a\<lparr>a_llm_provider := Some v\<rparr>"
| "set_analysis_field (AF_model v) a = a\<lparr>a_llm_model := Some v\<rparr>"
| "set_analysis_field (AF_prompt_tokens v) a = a\<lparr>a_prompt_tokens := v\<rparr>"
| "set_analysis_field (AF_completion_tokens v) a = a\<lparr>a_completion_tokens := v\<rparr>"
| "set_analysis_field (AF_completed_at v) a = a\<lparr>a_completed_at := Some v\<rparr>"

definition analysis_update :: "string \<Rightarrow> analysis_field list \<Rightarrow> db \<Rightarrow> analysis option \<times> db" where
  "analysis_update aid args d =
     (let d1 = d\<lparr>analyses := update_where (\<lambda>a. a_id a = aid) (fold set_analysis_field args) (analyses d)\<rparr>
      in (analysis_get aid d1, d1))"

section \<open>Queries\<close>

definition analyses_for_report :: "string \<Rightarrow> phase option \<Rightarrow> db \<Rightarrow> analysis list" where
  "analyses_for_report rid ph d =
     order_desc a_created_at (filter (\<lambda>a. a_bug_report_id a = rid
        \<and> (case ph of None \<Rightarrow> True | Some p \<Rightarrow> a_phase a = p)) (analyses d))"

definition submitted_reports :: "db \<Rightarrow> report list" where
  "submitted_reports d =
     order_asc r_created_at (filter (\<lambda>r. r_status r = SUBMITTED \<and> not_deleted r) (reports d))"

definition latest_completed_localization :: "string \<Rightarrow> db \<Rightarrow> analysis option" where
  "latest_completed_localization rid d =
     fetchone (order_desc a_created_at (filter (\<lambda>a. a_bug_report_id a = rid
        \<and> a_phase a = P_LOCALIZATION \<and> a_status a = A_COMPLETED) (analyses d)))"

definition report_ids_with_localization :: "db \<Rightarrow> string list" where
  "report_ids_with_localization d =
     remdups (map a_bug_report_id
       (filter (\<lambda>a. a_phase a = P_LOCALIZATION \<and> a_status a = A_COMPLETED) (analyses d)))"

definition analyses_by_trigger :: "string \<Rightarrow> db \<Rightarrow> analysis list" where
  "analyses_by_trigger ref d =
     order_desc a_created_at (filter (\<lambda>a. a_trigger_ref a = Some ref) (analyses d))"

text \<open>\<open>MAX\<close> over stored texts, as SQLite compares them.\<close>

fun text_of_time :: "time_text \<Rightarrow> string" where
  "text_of_time (Iso t) = isoformat t"
| "text_of_time (Malformed s) = s"

fun sql_max :: "string list \<Rightarrow> string option" where
  "sql_max [] = None"
| "sql_max (x # xs) = (case sql_max xs of None \<Rightarrow> Some x | Some y \<Rightarrow> Some (max x y))"

definition completed_texts :: "analysis list \<Rightarrow> string list" where
  "completed_texts xs = map (\<lambda>a. case a_completed_at a of None \<Rightarrow> [] | Some t \<Rightarrow> text_of_time t) xs"

definition report_tier_summary ::
  "string option \<Rightarrow> db \<Rightarrow> (string \<times> string option \<times> string option) list" where
  "report_tier_summary rid d =
     (let rows = filter (\<lambda>a. a_status a = A_COMPLETED \<and> a_completed_at a \<noteq> None
            \<and> (case rid of None \<Rightarrow> True | Some r \<Rightarrow> a_bug_report_id a = r)) (analyses d)
      in map (\<lambda>r. (r,
           sql_max (completed_texts (filter (\<lambda>a. a_bug_report_id a = r
              \<and> a_llm_provider a = Some ''ollama'') rows)),
           sql_max (completed_texts (filter (\<lambda>a. a_bug_report_id a = r
              \<and> a_llm_provider a \<noteq> None \<and> a_llm_provider a \<noteq> Some ''ollama'') rows))))
         (remdups (map a_bug_report_id rows)))"

section \<open>The retry gate\<close>

fun latest_completed_created_at :: "analysis list \<Rightarrow> stamp option" where
  "latest_completed_created_at [] = None"
| "latest_completed_created_at (r # rows) =
     (if a_status r = A_COMPLETED then Some (a_created_at r) else latest_completed_created_at rows)"

definition failed_attempts_after :: "analysis list \<Rightarrow> stamp option \<Rightarrow> analysis list" where
  "failed_attempts_after rows reference =
     filter (\<lambda>r. a_status r = A_FAILED
        \<and> (case reference of None \<Rightarrow> True | Some t \<Rightarrow> a_created_at r > t)) rows"

definition marked_permanent :: "analysis \<Rightarrow> bool" where
  "marked_permanent r =
     (case a_result r of None \<Rightarrow> False | Some j \<Rightarrow> is_obj j \<and> opt_truthy (jget ''permanent'' j))"

definition elapsed_us :: "stamp \<Rightarrow> stamp \<Rightarrow> int" where
  "elapsed_us now completed = max 0 (int now - int completed)"

definition retry_blocked :: "analysis list \<Rightarrow> int \<Rightarrow> int \<Rightarrow> stamp \<Rightarrow> bool" where
  "retry_blocked failed_rows max_retries retry_delay now =
     (case failed_rows of
        [] \<Rightarrow> False
      | newest # _ \<Rightarrow>
          if list_ex marked_permanent failed_rows then True
          else if int (length failed_rows) \<ge> max_retries then True
          else (case a_completed_at newest of
                  None \<Rightarrow> False
                | Some (Malformed _) \<Rightarrow> False
                | Some (Iso t) \<Rightarrow> elapsed_us now t < retry_delay * 1000000))"

section \<open>Resets and the failure summary\<close>

definition RETRYABLE_PHASES :: "phase list" where
  "RETRYABLE_PHASES = [P_TRIAGE, P_LOCALIZATION, P_FIX]"

definition reset_triage_retries :: "string \<Rightarrow> db \<Rightarrow> (db_error + bool) \<times> db" where
  "reset_triage_retries rid d =
     (let P = (\<lambda>a. a_bug_report_id a = rid \<and> a_phase a = P_TRIAGE \<and> a_status a = A_FAILED)
      in case delete_analyses P d of
           Inl e \<Rightarrow> (Inl e, d)
         | Inr d1 \<Rightarrow> (Inr (rowcount P (analyses d) > 0), d1))"

definition reset_stage_retries :: "string \<Rightarrow> db \<Rightarrow> (db_error + bool) \<times> db" where
  "reset_stage_retries rid d =
     (let P = (\<lambda>a. a_bug_report_id a = rid \<and> a_status a = A_FAILED \<and> a_phase a \<in> set RETRYABLE_PHASES)
      in case delete_analyses P d of
           Inl e \<Rightarrow> (Inl e, d)
         | Inr d1 \<Rightarrow> (Inr (rowcount P (analyses d) > 0), d1))"

record failure_info =
  failed_stage :: string
  last_error :: "json option"
  permanent :: bool

fun latest_failure :: "phase list \<Rightarrow> string \<Rightarrow> db \<Rightarrow> analysis option \<Rightarrow> analysis option" where
  "latest_failure [] rid d best = best"
| "latest_failure (ph # phs) rid d best =
     (let rows = analyses_for_report rid (Some ph) d;
          failed = failed_attempts_after rows (latest_completed_created_at rows)
      in case failed of
           [] \<Rightarrow> latest_failure phs rid d best
         | candidate # _ \<Rightarrow>
             (case best of
                None \<Rightarrow> latest_failure phs rid d (Some candidate)
              | Some b \<Rightarrow> latest_failure phs rid d
                  (Some (if a_created_at candidate > a_created_at b then candidate else b))))"

definition report_failure_info :: "string \<Rightarrow> db \<Rightarrow> failure_info option" where
  "report_failure_info rid d =
     (case latest_failure RETRYABLE_PHASES rid d None of
        None \<Rightarrow> None
      | Some f \<Rightarrow> Some
          \<lparr>failed_stage = phase_value (a_phase f),
           last_error = (case a_result f of None \<Rightarrow> None
             | Some j \<Rightarrow> if is_obj j then jget ''error'' j else None),
           permanent = marked_permanent f\<rparr>)"

end
