(* ===== verification/Eligibility.thy ===== *)
theory Eligibility
  imports Db_Analyses
begin

text \<open>
  Which reports the worker dispatches: \<open>triage_eligible_reports\<close>,
  \<open>localization_eligible_reports\<close> and \<open>reports_eligible_for_fix\<close> of \<open>db.py\<close>, against what
  their docstrings promise.  The abstract specifications are stated on sets of rows; the code walks
  sorted lists.
\<close>

section \<open>The three queries\<close>

text \<open>One report of the triage loop: eligible, skipped, or \<open>fromisoformat\<close>'s \<open>ValueError\<close>.\<close>

definition triage_check :: "settings \<Rightarrow> stamp \<Rightarrow> analysis list \<Rightarrow> string + bool" where
  "triage_check st now triage_rows =
     (case triage_rows of
        [] \<Rightarrow> Inr True
      | latest # _ \<Rightarrow>
          if list_ex (\<lambda>r. a_status r = A_COMPLETED) triage_rows then Inr False
          else if int (length (filter (\<lambda>r. a_status r = A_FAILED) triage_rows)) \<ge> max_triage_retries st
          then Inr False
          else if a_status latest = A_FAILED then
            (case a_completed_at latest of
               None \<Rightarrow> Inr True
             | Some (Malformed t) \<Rightarrow> if t = [] then Inr True else Inl ''ValueError''
             | Some (Iso t) \<Rightarrow> Inr (\<not> elapsed_us now t < retry_delay_seconds st * 1000000))
          else Inr True)"

fun collect :: "('r \<Rightarrow> 'e + bool) \<Rightarrow> 'r list \<Rightarrow> 'e + 'r list" where
  "collect f [] = Inr []"
| "collect f (r # rs) =
     bindE (f r) (\<lambda>ok. bindE (collect f rs) (\<lambda>out. Inr (if ok then r # out else out)))"

definition triage_eligible_reports :: "settings \<Rightarrow> db \<Rightarrow> (string + report list) \<times> db" where
  "triage_eligible_reports st d =
     (let rows = order_asc r_created_at (filter (\<lambda>r. r_status r = TRIAGED
            \<and> r_analysis_mode r \<noteq> HOLD \<and> not_deleted r) (reports d));
          (now, d1) = utcnow d
      in (collect (\<lambda>r. triage_check st now (analyses_for_report (r_id r) (Some P_TRIAGE) d)) rows, d1))"

text \<open>The project row a report joins with.\<close>

definition project_of :: "report \<Rightarrow> db \<Rightarrow> project option" where
  "project_of r d = find (\<lambda>p. p_id p = r_project_id r) (projects d)"

definition has_completed :: "string \<Rightarrow> phase \<Rightarrow> db \<Rightarrow> bool" where
  "has_completed rid ph d \<longleftrightarrow>
     list_ex (\<lambda>a. a_bug_report_id a = rid \<and> a_phase a = ph \<and> a_status a = A_COMPLETED) (analyses d)"

definition localization_check :: "settings \<Rightarrow> stamp \<Rightarrow> db \<Rightarrow> report \<Rightarrow> string + bool" where
  "localization_check st now d r =
     (let all_loc = analyses_for_report (r_id r) (Some P_LOCALIZATION) d;
          failed = failed_attempts_after all_loc (latest_completed_created_at all_loc);
          head = (case project_of r d of None \<Rightarrow> None | Some p \<Rightarrow> p_head_sha p)
      in if retry_blocked failed (max_localize_retries st) (retry_delay_seconds st) now then Inr False
         else (case latest_completed_localization (r_id r) d of
                 None \<Rightarrow> Inr True
               | Some loc \<Rightarrow>
                   if \<not> str_set head then Inr False
                   else (case a_result loc of
                           None \<Rightarrow> Inr True
                         | Some j \<Rightarrow> if \<not> is_obj j then Inl ''AttributeError''
                             else Inr (jget ''repo_sha'' j \<noteq> map_option JStr head))))"

definition localization_eligible_reports :: "settings \<Rightarrow> db \<Rightarrow> (string + report list) \<times> db" where
  "localization_eligible_reports st d0 =
     (let (now, d) = utcnow d0;
          rows = order_asc r_created_at (filter (\<lambda>r. r_status r = TRIAGED
            \<and> r_analysis_mode r \<noteq> HOLD
            \<and> (case project_of r d of None \<Rightarrow> False | Some p \<Rightarrow> p_repo_path p \<noteq> None)
            \<and> not_deleted r \<and> has_completed (r_id r) P_TRIAGE d) (reports d))
      in (collect (localization_check st now d) rows, d))"

definition fix_check :: "settings \<Rightarrow> stamp \<Rightarrow> db \<Rightarrow> report \<Rightarrow> bool" where
  "fix_check st now d r =
     (case latest_completed_localization (r_id r) d of
        None \<Rightarrow> False
      | Some loc \<Rightarrow>
          let head = (case project_of r d of None \<Rightarrow> None | Some p \<Rightarrow> p_head_sha p);
              result = (case a_result loc of None \<Rightarrow> JObj [] | Some j \<Rightarrow> j)
          in if \<not> str_set head then False
             else if \<not> is_obj result \<or> jget ''repo_sha'' result \<noteq> map_option JStr head then False
             else if list_ex (\<lambda>f. f_bug_report_id f = r_id r \<and> f_analysis_id f = Some (a_id loc))
                      (fix_proposals d) then False
             else \<not> retry_blocked
                      (failed_attempts_after (analyses_for_report (r_id r) (Some P_FIX) d)
                         (Some (a_created_at loc)))
                      (max_fix_retries st) (retry_delay_seconds st) now)"

definition reports_eligible_for_fix :: "settings \<Rightarrow> db \<Rightarrow> report list \<times> db" where
  "reports_eligible_for_fix st d0 =
     (let (now, d) = utcnow d0;
          rows = order_asc r_created_at (filter (\<lambda>r. r_status r = TRIAGED
            \<and> r_analysis_mode r = AUTO \<and> project_of r d \<noteq> None
            \<and> not_deleted r \<and> has_completed (r_id r) P_LOCALIZATION d) (reports d))
      in (filter (fix_check st now d) rows, d))"

section \<open>Abstract specification\<close>

text \<open>The completed localization with the latest creation time.\<close>

definition current_localization :: "string \<Rightarrow> db \<Rightarrow> analysis \<Rightarrow> bool" where
  "current_localization rid d loc \<longleftrightarrow>
     loc \<in> set (analyses d) \<and> a_bug_report_id loc = rid \<and> a_phase loc = P_LOCALIZATION
     \<and> a_status loc = A_COMPLETED
     \<and> (\<forall>a\<in>set (analyses d). a_bug_report_id a = rid \<and> a_phase a = P_LOCALIZATION
          \<and> a_status a = A_COMPLETED \<longrightarrow> a_created_at a \<le> a_created_at loc)"

definition failures_since :: "string \<Rightarrow> phase \<Rightarrow> stamp option \<Rightarrow> db \<Rightarrow> analysis set" where
  "failures_since rid ph reference d =
     {a \<in> set (analyses d). a_bug_report_id a = rid \<and> a_phase a = ph \<and> a_status a = A_FAILED
        \<and> (case reference of None \<Rightarrow> True | Some t \<Rightarrow> t < a_created_at a)}"

text \<open>
  A stage may run again: no failure is permanent, there are fewer than the cap, and the delay since
  the newest has passed.
\<close>

definition may_retry :: "analysis set \<Rightarrow> int \<Rightarrow> int \<Rightarrow> stamp \<Rightarrow> bool" where
  "may_retry fs cap wait now \<longleftrightarrow>
     fs = {} \<or>
     (\<forall>a\<in>fs. \<not> marked_permanent a) \<and> int (card fs) < cap
     \<and> (\<forall>a\<in>fs. (\<forall>b\<in>fs. a_created_at b \<le> a_created_at a) \<longrightarrow>
          (\<forall>t. a_completed_at a = Some (Iso t) \<longrightarrow> wait * 1000000 \<le> elapsed_us now t))"

text \<open>Creation times tell the analyses apart, as \<open>_now()\<close> makes them.\<close>

definition times_ok :: "db \<Rightarrow> bool" where
  "times_ok d \<longleftrightarrow> distinct (map a_created_at (analyses d))"

definition fix_ready :: "settings \<Rightarrow> stamp \<Rightarrow> db \<Rightarrow> report \<Rightarrow> bool" where
  "fix_ready st now d r \<longleftrightarrow>
     r_status r = TRIAGED \<and> r_analysis_mode r = AUTO \<and> not_deleted r
     \<and> (\<exists>p loc sha kvs. project_of r d = Some p \<and> p_head_sha p = Some sha \<and> sha \<noteq> []
          \<and> current_localization (r_id r) d loc
          \<and> a_result loc = Some (JObj kvs) \<and> map_of kvs ''repo_sha'' = Some (JStr sha)
          \<and> (\<forall>f\<in>set (fix_proposals d). f_bug_report_id f = r_id r \<longrightarrow> f_analysis_id f \<noteq> Some (a_id loc))
          \<and> may_retry (failures_since (r_id r) P_FIX (Some (a_created_at loc)) d)
              (max_fix_retries st) (retry_delay_seconds st) now)"

section \<open>Lemmas\<close>

lemma current_found:
  assumes "times_ok d"
  shows "latest_completed_localization rid d = Some loc \<longleftrightarrow> current_localization rid d loc"
proof -
  let ?t = "filter (\<lambda>a. a_bug_report_id a = rid \<and> a_phase a = P_LOCALIZATION \<and> a_status a = A_COMPLETED) (analyses d)"
  have max: "current_localization rid d x" if "latest_completed_localization rid d = Some x" for x
  proof -
    have f: "fetchone (order_desc a_created_at ?t) = Some x"
      using that by (simp only: latest_completed_localization_def)
    have "x \<in> set ?t" using fetchone_in[OF f] by simp
    moreover have "\<forall>a\<in>set ?t. a_created_at a \<le> a_created_at x"
      using fetchone_order_desc_max[OF f] by blast
    ultimately show ?thesis
      unfolding current_localization_def set_filter mem_Collect_eq by blast
  qed
  have inj: "inj_on a_created_at (set (analyses d))"
    using assms by (simp add: times_ok_def distinct_map)
  show ?thesis
  proof
    assume cur: "current_localization rid d loc"
    then have "?t \<noteq> []" by (auto simp: current_localization_def filter_empty_conv)
    then have "fetchone (order_desc a_created_at ?t) \<noteq> None" by (simp only: fetchone_None order_desc_empty not_False_eq_True)
    then obtain x where x: "latest_completed_localization rid d = Some x"
      unfolding latest_completed_localization_def by blast
    have "a_created_at x = a_created_at loc"
      using max[OF x] cur unfolding current_localization_def by (intro antisym) blast+
    moreover have "x \<in> set (analyses d)" "loc \<in> set (analyses d)"
      using max[OF x] cur by (simp_all only: current_localization_def)
    ultimately have "x = loc" using inj by (meson inj_onD)
    with x show "latest_completed_localization rid d = Some loc" by simp
  qed (rule max)
qed

lemma failed_set:
  "set (failed_attempts_after (analyses_for_report rid (Some ph) d) reference) = failures_since rid ph reference d"
  by (auto simp: failed_attempts_after_def analyses_for_report_def failures_since_def split: option.splits)

lemma distinct_order_desc [simp]: "distinct (order_desc k t) \<longleftrightarrow> distinct t"
  by (simp add: order_desc_def)

lemma failed_distinct:
  "times_ok d \<Longrightarrow> distinct (failed_attempts_after (analyses_for_report rid ph d) reference)"
  by (auto simp: failed_attempts_after_def analyses_for_report_def times_ok_def distinct_map)

lemma failed_newest_first:
  assumes "failed_attempts_after (analyses_for_report rid ph d) reference = x # xs" and "y \<in> set (x # xs)"
  shows "a_created_at y \<le> a_created_at x"
proof -
  have "sorted_wrt (\<lambda>a b. a_created_at a \<ge> a_created_at b) (analyses_for_report rid ph d)"
    using sorted_order_desc unfolding analyses_for_report_def by (simp add: sorted_wrt_map)
  then have "sorted_wrt (\<lambda>a b. a_created_at a \<ge> a_created_at b) (x # xs)"
    unfolding assms(1)[symmetric] failed_attempts_after_def by (rule sorted_wrt_filter)
  with assms(2) show ?thesis by auto
qed

text \<open>The list the code walks blocks a stage exactly when the set of failures does.\<close>

lemma retry_gate:
  assumes "times_ok d"
  shows "retry_blocked (failed_attempts_after (analyses_for_report rid (Some ph) d) reference) cap wait now
    \<longleftrightarrow> \<not> may_retry (failures_since rid ph reference d) cap wait now"
proof (cases "failed_attempts_after (analyses_for_report rid (Some ph) d) reference")
  case Nil
  then have "failures_since rid ph reference d = {}" using failed_set[of rid ph d reference] by simp
  with Nil show ?thesis by (simp add: retry_blocked_def may_retry_def)
next
  case (Cons x xs)
  have fs: "failures_since rid ph reference d = set (x # xs)" using failed_set[of rid ph d reference] Cons by simp
  have card: "card (failures_since rid ph reference d) = length (x # xs)"
    using failed_distinct[OF assms, of rid "Some ph" reference] unfolding fs Cons by (rule distinct_card)
  have newest: "\<And>y. y \<in> set (x # xs) \<Longrightarrow> a_created_at y \<le> a_created_at x"
    using failed_newest_first[OF Cons] by blast
  have sub: "set (x # xs) \<subseteq> set (analyses d)" using fs by (auto simp: failures_since_def)
  have only: "y = x" if "y \<in> set (x # xs)" "a_created_at x \<le> a_created_at y" for y
    using that newest[OF that(1)] sub assms unfolding times_ok_def distinct_map inj_on_def
    by (metis list.set_intros(1) order_antisym subsetD)
  have wait: "(\<forall>a\<in>set (x # xs). (\<forall>b\<in>set (x # xs). a_created_at b \<le> a_created_at a) \<longrightarrow> P a) \<longleftrightarrow> P x" for P
    using newest only by (metis list.set_intros(1))
  have "may_retry (failures_since rid ph reference d) cap wait now \<longleftrightarrow>
      (\<forall>a\<in>set (x # xs). \<not> marked_permanent a) \<and> int (length (x # xs)) < cap
      \<and> (\<forall>t. a_completed_at x = Some (Iso t) \<longrightarrow> wait * 1000000 \<le> elapsed_us now t)"
    unfolding may_retry_def card wait[symmetric, where P = "\<lambda>a. \<forall>t. a_completed_at a = Some (Iso t) \<longrightarrow> wait * 1000000 \<le> elapsed_us now t"]
    unfolding fs by auto
  then show ?thesis
    unfolding Cons retry_blocked_def
    by (auto simp: list_ex_iff not_less split: option.splits time_text.splits if_splits)
qed

lemma has_completed_current:
  assumes "times_ok d"
  shows "has_completed rid P_LOCALIZATION d \<longleftrightarrow> (\<exists>loc. current_localization rid d loc)"
proof -
  have "has_completed rid P_LOCALIZATION d \<longleftrightarrow> latest_completed_localization rid d \<noteq> None"
    by (auto simp: has_completed_def latest_completed_localization_def list_ex_iff filter_empty_conv)
  then show ?thesis using current_found[OF assms, of rid] by auto
qed

lemma collect_ok: "(\<forall>r\<in>set rs. \<exists>b. f r = Inr b) \<Longrightarrow> collect f rs = Inr (filter (\<lambda>r. f r = Inr True) rs)"
  by (induction rs) auto

lemma fix_check_ready:
  assumes "times_ok d"
  shows "fix_check st now d r \<and> r_status r = TRIAGED \<and> r_analysis_mode r = AUTO
      \<and> project_of r d \<noteq> None \<and> not_deleted r \<and> has_completed (r_id r) P_LOCALIZATION d
    \<longleftrightarrow> fix_ready st now d r"
proof (cases "latest_completed_localization (r_id r) d")
  case None
  then have "\<not> current_localization (r_id r) d loc" for loc
    using current_found[OF assms, of "r_id r" loc] by simp
  with None show ?thesis by (auto simp: fix_check_def fix_ready_def)
next
  case (Some loc)
  then have cur: "current_localization (r_id r) d x \<longleftrightarrow> x = loc" for x
    using current_found[OF assms, of "r_id r" x] by auto
  show ?thesis
    unfolding fix_check_def fix_ready_def has_completed_current[OF assms] Some option.case Let_def
      retry_gate[OF assms] cur
    by (cases "project_of r d"; cases "a_result loc"; cases "the (a_result loc)")
       (auto simp: str_set_iff list_ex_iff)
qed

text \<open>Localization, with the results its rows hold being objects.\<close>

definition localization_results_ok :: "db \<Rightarrow> bool" where
  "localization_results_ok d \<longleftrightarrow> list_all (\<lambda>a. a_phase a = P_LOCALIZATION \<and> a_status a = A_COMPLETED
     \<longrightarrow> (\<exists>kvs. a_result a = Some (JObj kvs))) (analyses d)"

definition last_success :: "string \<Rightarrow> phase \<Rightarrow> db \<Rightarrow> stamp option" where
  "last_success rid ph d = latest_completed_created_at (analyses_for_report rid (Some ph) d)"

definition localization_ready :: "settings \<Rightarrow> stamp \<Rightarrow> db \<Rightarrow> report \<Rightarrow> bool" where
  "localization_ready st now d r \<longleftrightarrow>
     r_status r = TRIAGED \<and> r_analysis_mode r \<noteq> HOLD \<and> not_deleted r
     \<and> has_completed (r_id r) P_TRIAGE d
     \<and> (\<exists>p. project_of r d = Some p \<and> p_repo_path p \<noteq> None
         \<and> may_retry (failures_since (r_id r) P_LOCALIZATION (last_success (r_id r) P_LOCALIZATION d) d)
             (max_localize_retries st) (retry_delay_seconds st) now
         \<and> (case latest_completed_localization (r_id r) d of
              None \<Rightarrow> True
            | Some loc \<Rightarrow> \<exists>sha. p_head_sha p = Some sha \<and> sha \<noteq> []
                \<and> (case a_result loc of None \<Rightarrow> True | Some j \<Rightarrow> jget ''repo_sha'' j \<noteq> Some (JStr sha))))"

lemma localization_result_obj:
  assumes "localization_results_ok d" and "latest_completed_localization rid d = Some loc"
  shows "\<exists>kvs. a_result loc = Some (JObj kvs)"
proof -
  have f: "fetchone (order_desc a_created_at (filter (\<lambda>a. a_bug_report_id a = rid
      \<and> a_phase a = P_LOCALIZATION \<and> a_status a = A_COMPLETED) (analyses d))) = Some loc"
    using assms(2) by (simp only: latest_completed_localization_def)
  have "loc \<in> set (filter (\<lambda>a. a_bug_report_id a = rid \<and> a_phase a = P_LOCALIZATION
      \<and> a_status a = A_COMPLETED) (analyses d))"
    using fetchone_in[OF f] by (simp only: set_order_desc)
  with assms(1) show ?thesis by (auto simp: localization_results_ok_def list_all_iff)
qed

lemma localization_check_total:
  "localization_results_ok d \<Longrightarrow> \<exists>b. localization_check st now d r = Inr b"
  using localization_result_obj[of d "r_id r"]
  by (auto simp: localization_check_def Let_def split: option.split)

lemma localization_check_ready:
  assumes "times_ok d" and "localization_results_ok d"
  shows "localization_check st now d r = Inr True \<and> r_status r = TRIAGED \<and> r_analysis_mode r \<noteq> HOLD
      \<and> (case project_of r d of None \<Rightarrow> False | Some p \<Rightarrow> p_repo_path p \<noteq> None)
      \<and> not_deleted r \<and> has_completed (r_id r) P_TRIAGE d \<longleftrightarrow> localization_ready st now d r"
proof (cases "project_of r d")
  case None
  then show ?thesis by (simp add: localization_ready_def)
next
  case (Some p)
  note defs = localization_check_def localization_ready_def Let_def retry_gate[OF assms(1)]
    last_success_def Some option.case
  show ?thesis
  proof (cases "latest_completed_localization (r_id r) d")
    case None
    show ?thesis unfolding defs None by auto
  next
    case (Some loc)
    obtain kvs where "a_result loc = Some (JObj kvs)" using localization_result_obj[OF assms(2) Some] by blast
    then show ?thesis unfolding defs Some by (cases "p_head_sha p") auto
  qed
qed

lemma utcnow_value: "fst (utcnow d) = wall d (wall_ix d)"
  by (simp add: utcnow_def)

lemma queries_ignore_clock [simp]:
  "analyses_for_report rid ph (snd (utcnow d)) = analyses_for_report rid ph d"
  "latest_completed_localization rid (snd (utcnow d)) = latest_completed_localization rid d"
  "project_of r (snd (utcnow d)) = project_of r d"
  "has_completed rid stage (snd (utcnow d)) = has_completed rid stage d"
  by (simp_all add: analyses_for_report_def latest_completed_localization_def project_of_def has_completed_def)

lemma checks_ignore_clock [simp]:
  "localization_check st now (snd (utcnow d)) = localization_check st now d"
  "fix_check st now (snd (utcnow d)) = fix_check st now d"
  by (simp_all only: fun_eq_iff localization_check_def fix_check_def queries_ignore_clock utcnow_frame simp_thms)

lemma retryable_phase: "ph \<in> set RETRYABLE_PHASES \<longleftrightarrow> ph \<noteq> P_VALIDATION"
  by (cases ph) (simp_all add: RETRYABLE_PHASES_def)

lemma failures_after_reset:
  assumes "fst (reset_stage_retries rid d) = Inr b"
  shows "analyses (snd (reset_stage_retries rid d)) =
    filter (\<lambda>a. \<not> (a_bug_report_id a = rid \<and> a_status a = A_FAILED \<and> a_phase a \<noteq> P_VALIDATION)) (analyses d)"
  using assms
  by (auto simp: reset_stage_retries_def delete_analyses_def delete_where_def Let_def retryable_phase
      split: if_splits)

lemma no_failed_rows:
  assumes "\<forall>a\<in>set (analyses d). \<not> (a_bug_report_id a = rid \<and> a_status a = A_FAILED \<and> a_phase a = ph)"
  shows "failed_attempts_after (analyses_for_report rid (Some ph) d) reference = []"
  using assms by (auto simp: failed_attempts_after_def analyses_for_report_def filter_empty_conv)

section \<open>Properties\<close>



text \<open>
  Stage 3 is dispatched exactly when its contract allows, for every database whose finished
  localizations stored a result object: the report is triaged, not held, not deleted and its triage
  completed; its project has a checkout; the failures since the last success allow another try; and
  it was never localized, or the project's known head is not the commit it was localized at.
\<close>

theorem localization_dispatch_exact:
  assumes "times_ok d" and "localization_results_ok d"
  shows "\<exists>rs. fst (localization_eligible_reports st d) = Inr rs
    \<and> set rs = {r \<in> set (reports d). localization_ready st (wall d (wall_ix d)) d r}
    \<and> same_tables d (snd (localization_eligible_reports st d))"
  using localization_check_ready[OF assms, of st "wall d (wall_ix d)"]
    localization_check_total[OF assms(2), of st "wall d (wall_ix d)"]
  by (auto simp: localization_eligible_reports_def case_prod_beta Let_def utcnow_value same_tables_def
      collect_ok)

theorem localization_dispatch_exact_witness:
  "let d = init_db\<lparr>reports := [blank_report ''r'' ''x'' 5], wall := (\<lambda>_. 9)\<rparr>
   in \<exists>rs. fst (localization_eligible_reports default_settings d) = Inr rs"
proof -
  let ?d = "init_db\<lparr>reports := [blank_report ''r'' ''x'' 5], wall := (\<lambda>_. 9)\<rparr>"
  have t: "times_ok ?d" "localization_results_ok ?d"
    by (simp_all add: times_ok_def localization_results_ok_def init_db_def)
  from localization_dispatch_exact[OF t, of default_settings] show ?thesis by (auto simp: Let_def)
qed

text \<open>
  A retry reset really reopens a report: afterwards no failure is reported for it, no stage of
  it is blocked by the retry gate whatever the caps and delay, and no other row is gone, completed
  analyses and the failures of other reports included.
\<close>

theorem reset_reopens_every_stage:
  assumes "fst (reset_stage_retries rid d) = Inr b"
  shows "let d' = snd (reset_stage_retries rid d) in
    report_failure_info rid d' = None
    \<and> list_all (\<lambda>ph. \<not> retry_blocked (failed_attempts_after (analyses_for_report rid (Some ph) d') reference)
         cap wait now) RETRYABLE_PHASES
    \<and> filter (\<lambda>a. a_bug_report_id a \<noteq> rid \<or> a_status a \<noteq> A_FAILED) (analyses d')
      = filter (\<lambda>a. a_bug_report_id a \<noteq> rid \<or> a_status a \<noteq> A_FAILED) (analyses d)
    \<and> (b \<longleftrightarrow> analyses d' \<noteq> analyses d)"
proof -
  let ?d' = "snd (reset_stage_retries rid d)"
  have an: "analyses ?d' = filter (\<lambda>a. \<not> (a_bug_report_id a = rid \<and> a_status a = A_FAILED
      \<and> a_phase a \<noteq> P_VALIDATION)) (analyses d)"
    using assms by (rule failures_after_reset)
  have none: "failed_attempts_after (analyses_for_report rid (Some ph) ?d') ref = []"
    if "ph \<noteq> P_VALIDATION" for ph ref
    by (rule no_failed_rows) (use that in \<open>auto simp: an\<close>)
  have "latest_failure RETRYABLE_PHASES rid ?d' None = None"
    by (simp add: RETRYABLE_PHASES_def none)
  moreover have "filter (\<lambda>a. a_bug_report_id a \<noteq> rid \<or> a_status a \<noteq> A_FAILED) (analyses ?d')
      = filter (\<lambda>a. a_bug_report_id a \<noteq> rid \<or> a_status a \<noteq> A_FAILED) (analyses d)"
    unfolding an filter_filter by (rule filter_cong) auto
  moreover have "b \<longleftrightarrow> analyses ?d' \<noteq> analyses d"
  proof -
    have "b \<longleftrightarrow> 0 < rowcount (\<lambda>a. a_bug_report_id a = rid \<and> a_status a = A_FAILED
        \<and> a_phase a \<noteq> P_VALIDATION) (analyses d)"
      using assms
      by (auto simp: reset_stage_retries_def delete_analyses_def Let_def retryable_phase split: if_splits)
    also have "\<dots> \<longleftrightarrow> analyses ?d' \<noteq> analyses d"
      unfolding an filter_id_conv by (auto simp: rowcount_def filter_empty_conv)
    finally show ?thesis .
  qed
  ultimately show ?thesis
    by (simp add: Let_def report_failure_info_def RETRYABLE_PHASES_def none retry_blocked_def)
qed

theorem reset_reopens_every_stage_witness:
  "let d = init_db\<lparr>analyses := [blank_analysis ''a'' ''r'' P_FIX A_FAILED 6,
         blank_analysis ''b'' ''q'' P_FIX A_FAILED 7]\<rparr>
   in fst (reset_stage_retries ''r'' d) = Inr True
      \<and> report_failure_info ''r'' (snd (reset_stage_retries ''r'' d)) = None"
proof -
  let ?d = "init_db\<lparr>analyses := [blank_analysis ''a'' ''r'' P_FIX A_FAILED 6,
         blank_analysis ''b'' ''q'' P_FIX A_FAILED 7]\<rparr>"
  have r: "fst (reset_stage_retries ''r'' ?d) = Inr True"
    by (simp add: reset_stage_retries_def delete_analyses_def rowcount_def init_db_def blank_analysis_def
        RETRYABLE_PHASES_def)
  from reset_reopens_every_stage[OF r] r show ?thesis by (simp add: Let_def)
qed

text \<open>
  The failure summary does not mirror the fix gate.  A permanent fix failure recorded before a
  newer localization is still reported as the report's permanent failure while the gate, which
  counts from the localization, dispatches the paid stage again.
\<close>

theorem failure_summary_outlives_fix_gate:
  "let loc = (blank_analysis ''b'' ''r'' P_LOCALIZATION A_COMPLETED 7)
           \<lparr>a_result := Some (JObj [(''repo_sha'', JStr ''c0'')])\<rparr>;
       bad = (blank_analysis ''a'' ''r'' P_FIX A_FAILED 6)\<lparr>a_result := Some interrupted_fix_result\<rparr>;
       d = init_db\<lparr>projects := [(blank_project ''x'' 1)\<lparr>p_head_sha := Some ''c0''\<rparr>],
         reports := [(blank_report ''r'' ''x'' 2)\<lparr>r_status := TRIAGED\<rparr>], analyses := [bad, loc]\<rparr>
   in map_option permanent (report_failure_info ''r'' d) = Some True
      \<and> map r_id (fst (reports_eligible_for_fix default_settings d)) = [''r'']"
  by (simp add: Let_def report_failure_info_def RETRYABLE_PHASES_def analyses_for_report_def
      failed_attempts_after_def order_desc_def blank_analysis_def marked_permanent_def
      interrupted_fix_result_def reports_eligible_for_fix_def case_prod_beta blank_project_def
      blank_report_def project_of_def has_completed_def not_deleted_def order_asc_def fix_check_def
      latest_completed_localization_def retry_blocked_def init_db_def utcnow_def)

end
