(* ===== verification/Db_Fix.thy ===== *)
theory Db_Fix
  imports Eligibility
begin

text \<open>
  Fix proposals and pull requests in \<open>db.py\<close>: the proposal rows, the push intent, the one
  transaction that records an opened pull request, and the pull request follow-up (\<open>prs_to_check\<close>,
  \<open>pr_check_record\<close>, \<open>pr_settle\<close>).  \<open>BEGIN IMMEDIATE\<close> serialises the writers, so a
  transaction runs on the state it started with and either commits or leaves that state.
\<close>

section \<open>Proposals\<close>

definition fix_proposal_create ::
  "string \<Rightarrow> string option \<Rightarrow> string \<Rightarrow> string \<Rightarrow> string \<Rightarrow> pyfloat \<Rightarrow> string list \<Rightarrow> string option
   \<Rightarrow> db \<Rightarrow> (db_error + fix_proposal option) \<times> db" where
  "fix_proposal_create rid aid root_cause explanation diff confidence files trigger d0 =
     (let (row_id, d1) = new_id d0; (now, d2) = db_now d1;
          f = (blank_proposal row_id rid now)\<lparr>f_analysis_id := aid, f_diff := Some diff,
                f_explanation := Some explanation, f_confidence := Some confidence,
                f_root_cause := Some root_cause, f_files_changed := Some files, f_trigger_ref := trigger\<rparr>
      in case insert_fix_proposal f d2 of
           Inl e \<Rightarrow> (Inl e, d2)
         | Inr d3 \<Rightarrow> (Inr (fetchone (filter (\<lambda>x. f_id x = row_id) (fix_proposals d3))), d3))"

definition fix_proposals_for_report :: "string \<Rightarrow> db \<Rightarrow> fix_proposal list" where
  "fix_proposals_for_report rid d =
     order_desc f_created_at (filter (\<lambda>f. f_bug_report_id f = rid) (fix_proposals d))"

definition fix_proposal_of_report :: "string \<Rightarrow> string \<Rightarrow> db \<Rightarrow> fix_proposal option" where
  "fix_proposal_of_report rid fid d =
     fetchone (filter (\<lambda>f. f_id f = fid \<and> f_bug_report_id f = rid) (fix_proposals d))"

text \<open>\<open>NULL\<close> sorts before every value.\<close>

definition null_first :: "stamp option \<Rightarrow> nat" where
  "null_first t = (case t of None \<Rightarrow> 0 | Some x \<Rightarrow> Suc x)"

definition recorded_pull_request :: "string \<Rightarrow> db \<Rightarrow> fix_proposal option" where
  "recorded_pull_request rid d =
     fetchone (order_asc (\<lambda>f. null_first (f_pr_opened_at f))
       (filter (\<lambda>f. f_bug_report_id f = rid \<and> f_pr_url f \<noteq> None) (fix_proposals d)))"

definition fix_analysis_for_proposal :: "fix_proposal \<Rightarrow> db \<Rightarrow> analysis option" where
  "fix_analysis_for_proposal f d =
     fetchone (order_desc a_created_at (filter (\<lambda>a. a_bug_report_id a = f_bug_report_id f
        \<and> a_phase a = P_FIX \<and> a_status a = A_COMPLETED \<and> a_created_at a \<le> f_created_at f) (analyses d)))"

definition fix_proposals_by_trigger :: "string \<Rightarrow> db \<Rightarrow> fix_proposal list" where
  "fix_proposals_by_trigger ref d =
     order_desc f_created_at (filter (\<lambda>f. f_trigger_ref f = Some ref) (fix_proposals d))"

definition update_proposals :: "(fix_proposal \<Rightarrow> bool) \<Rightarrow> (fix_proposal \<Rightarrow> fix_proposal) \<Rightarrow> db \<Rightarrow> nat \<times> db" where
  "update_proposals P f d =
     (rowcount P (fix_proposals d), d\<lparr>fix_proposals := update_where P f (fix_proposals d)\<rparr>)"

definition fix_proposal_record_push_intent :: "string \<Rightarrow> string \<Rightarrow> string \<Rightarrow> db \<Rightarrow> db" where
  "fix_proposal_record_push_intent fid pushed_sha branch d0 =
     (let (now, d1) = db_now d0
      in snd (update_proposals (\<lambda>f. f_id f = fid)
           (\<lambda>f. f\<lparr>f_pushed_sha := Some pushed_sha, f_branch_name := Some branch, f_updated_at := now\<rparr>) d1))"

section \<open>Recording a pull request\<close>

definition record_pr_proposal ::
  "string \<Rightarrow> string \<Rightarrow> string \<Rightarrow> int \<Rightarrow> string option \<Rightarrow> string \<Rightarrow> stamp \<Rightarrow> db \<Rightarrow> db_error option \<times> db" where
  "record_pr_proposal rid fid pr_url pr_number pushed_sha branch now d =
     (let (n, d1) = update_proposals (\<lambda>f. f_id f = fid \<and> f_bug_report_id f = rid)
            (\<lambda>f. f\<lparr>f_pr_url := Some pr_url, f_pr_number := Some pr_number,
                   f_pushed_sha := (case pushed_sha of None \<Rightarrow> f_pushed_sha f | Some s \<Rightarrow> Some s),
                   f_branch_name := Some branch, f_pr_opened_at := Some now,
                   f_status := ''pr_opened'', f_updated_at := now\<rparr>) d
      in if n \<noteq> 1 then (Some (ValueErr ''proposal does not belong to the report''), d1) else (None, d1))"

definition record_pr_report :: "string \<Rightarrow> string \<Rightarrow> stamp \<Rightarrow> db \<Rightarrow> db_error option \<times> db" where
  "record_pr_report rid token now d =
     (let (n, d1) = update_reports (\<lambda>r. r_id r = rid \<and> r_status r = FIX_APPROVED \<and> r_claim_token r = Some token)
            (\<lambda>r. r\<lparr>r_status := FIX_COMMITTED, r_claim_token := None, r_updated_at := now\<rparr>) d
      in if n \<noteq> 1 then (Some ClaimLostError, d1) else (None, d1))"

definition record_pull_request ::
  "string \<Rightarrow> string \<Rightarrow> string \<Rightarrow> string \<Rightarrow> int \<Rightarrow> string option \<Rightarrow> string \<Rightarrow> db \<Rightarrow> (db_error + unit) \<times> db" where
  "record_pull_request rid fid token pr_url pr_number pushed_sha branch d0 =
     (let (now, d1) = db_now d0
      in case record_pr_proposal rid fid pr_url pr_number pushed_sha branch now d1 of
           (Some e, d2) \<Rightarrow> (Inl e, rollback_to d1 d2)
         | (None, d2) \<Rightarrow>
             (case record_pr_report rid token now d2 of
                (Some e, d3) \<Rightarrow> (Inl e, rollback_to d1 d3)
              | (None, d3) \<Rightarrow> (Inr (), d3)))"

section \<open>Following a pull request\<close>

definition prs_to_check :: "string \<Rightarrow> stamp \<Rightarrow> db \<Rightarrow> fix_proposal list" where
  "prs_to_check pid checked_before d =
     order_asc (\<lambda>f. null_first (f_pr_checked_at f))
       (filter (\<lambda>f. (case find (\<lambda>r. r_id r = f_bug_report_id f) (reports d) of
                        None \<Rightarrow> False
                      | Some r \<Rightarrow> r_project_id r = pid \<and> r_status r = FIX_COMMITTED)
            \<and> f_pr_number f \<noteq> None \<and> f_pr_settled_at f = None
            \<and> (case f_pr_checked_at f of None \<Rightarrow> True | Some t \<Rightarrow> t < checked_before)) (fix_proposals d))"

definition pr_check_record :: "string \<Rightarrow> string option \<Rightarrow> string option \<Rightarrow> db \<Rightarrow> db" where
  "pr_check_record fid st err d0 =
     (let (now, d1) = db_now d0
      in case st of
           Some s \<Rightarrow> snd (update_proposals (\<lambda>f. f_id f = fid)
             (\<lambda>f. f\<lparr>f_pr_state := Some s, f_pr_checked_at := Some now, f_pr_check_error := None\<rparr>) d1)
         | None \<Rightarrow> snd (update_proposals (\<lambda>f. f_id f = fid)
             (\<lambda>f. f\<lparr>f_pr_checked_at := Some now, f_pr_check_error := err\<rparr>) d1))"

definition int_text :: "int \<Rightarrow> string" where
  "int_text i = (if i < 0 then CHR ''-'' # digits (nat (- i)) else digits (nat i))"

definition pr_settle :: "string \<Rightarrow> string \<Rightarrow> int \<Rightarrow> string \<Rightarrow> db \<Rightarrow> (db_error + bool) \<times> db" where
  "pr_settle fid rid pr_number st d0 =
     (if st \<noteq> ''merged'' \<and> st \<noteq> ''closed'' then (Inl (ValueErr (''not a terminal PR state: '' @ st)), d0)
      else
        (let (now, d1) = db_now d0;
             (n, d2) = (if st = ''merged''
               then update_reports (\<lambda>r. r_id r = rid \<and> r_status r = FIX_COMMITTED)
                      (\<lambda>r. r\<lparr>r_status := CLOSED, r_resolution_reason := Some (''pr_merged:'' @ int_text pr_number),
                             r_updated_at := now\<rparr>) d1
               else update_reports (\<lambda>r. r_id r = rid \<and> r_status r = FIX_COMMITTED)
                      (\<lambda>r. r\<lparr>r_status := TRIAGED, r_updated_at := now\<rparr>) d1);
             (m, d3) = update_proposals (\<lambda>f. f_id f = fid \<and> f_bug_report_id f = rid)
               (\<lambda>f. f\<lparr>f_pr_state := Some st, f_pr_checked_at := Some now, f_pr_settled_at := Some now,
                      f_pr_check_error := None, f_updated_at := now\<rparr>) d2
         in (Inr (n = 1), d3)))"

definition pr_check_error_count :: "string option \<Rightarrow> db \<Rightarrow> nat" where
  "pr_check_error_count pid d =
     rowcount (\<lambda>f. (case find (\<lambda>r. r_id r = f_bug_report_id f) (reports d) of
                      None \<Rightarrow> False
                    | Some r \<Rightarrow> (case pid of None \<Rightarrow> True | Some p \<Rightarrow> r_project_id r = p))
          \<and> f_pr_settled_at f = None \<and> f_pr_check_error f \<noteq> None) (fix_proposals d)"

section \<open>Lemmas\<close>

lemma update_proposals_frame [simp]:
  "projects (snd (update_proposals P f d)) = projects d"
  "reports (snd (update_proposals P f d)) = reports d"
  "analyses (snd (update_proposals P f d)) = analyses d"
  "token_usage (snd (update_proposals P f d)) = token_usage d"
  "ingest_state (snd (update_proposals P f d)) = ingest_state d"
  "triage_results (snd (update_proposals P f d)) = triage_results d"
  "triage_actions (snd (update_proposals P f d)) = triage_actions d"
  "triage_sync_state (snd (update_proposals P f d)) = triage_sync_state d"
  "fix_proposals (snd (update_proposals P f d)) = update_where P f (fix_proposals d)"
  "fst (update_proposals P f d) = rowcount P (fix_proposals d)"
  by (simp_all add: update_proposals_def)

definition proposal_get :: "string \<Rightarrow> db \<Rightarrow> fix_proposal option" where
  "proposal_get fid d = find (\<lambda>f. f_id f = fid) (fix_proposals d)"

lemma proposal_get_eqI: "fix_proposals d' = fix_proposals d \<Longrightarrow> proposal_get fid d' = proposal_get fid d"
  by (simp add: proposal_get_def)

lemma report_get_eqI: "reports d' = reports d \<Longrightarrow> report_get rid d' = report_get rid d"
  by (simp add: report_get_find)

lemma update_proposals_get:
  "(\<And>f. f_id (g f) = f_id f) \<Longrightarrow>
   proposal_get fid (snd (update_proposals (\<lambda>f. f_id f = k \<and> Q f) g d)) =
     (if fid = k then map_option (\<lambda>f. if Q f then g f else f) (proposal_get k d) else proposal_get fid d)"
  by (simp add: proposal_get_def find_update_cond)

interpretation proposal_rows: row_store "\<lambda>d fid. proposal_get fid d"
    "\<lambda>fid g d. snd (update_proposals (\<lambda>f. f_id f = fid) g d)" "\<lambda>g. \<forall>f. f_id (g f) = f_id f"
  by unfold_locales (simp_all add: proposal_get_def find_update_key)

definition proposals_ok :: "db \<Rightarrow> bool" where
  "proposals_ok d \<longleftrightarrow> distinct (map f_id (fix_proposals d))"

lemma proposal_rowcount_one:
  "proposals_ok d \<Longrightarrow> rowcount (\<lambda>f. f_id f = fid \<and> Q f) (fix_proposals d) = Suc 0
     \<longleftrightarrow> (case proposal_get fid d of None \<Rightarrow> False | Some f \<Rightarrow> Q f)"
  by (simp add: proposals_ok_def rowcount_key proposal_get_def split: option.split)

text \<open>Who may record: the owner of the claim, for a proposal of the report.\<close>

definition holds_claim :: "string \<Rightarrow> string \<Rightarrow> db \<Rightarrow> bool" where
  "holds_claim rid token d \<longleftrightarrow>
     (case report_get rid d of None \<Rightarrow> False
      | Some r \<Rightarrow> r_status r = FIX_APPROVED \<and> r_claim_token r = Some token)"

definition owns_proposal :: "string \<Rightarrow> string \<Rightarrow> db \<Rightarrow> bool" where
  "owns_proposal rid fid d \<longleftrightarrow>
     (case proposal_get fid d of None \<Rightarrow> False | Some f \<Rightarrow> f_bug_report_id f = rid)"

definition pr_proposal :: "string \<Rightarrow> int \<Rightarrow> string option \<Rightarrow> string \<Rightarrow> stamp \<Rightarrow> fix_proposal \<Rightarrow> fix_proposal" where
  "pr_proposal pr_url pr_number pushed_sha branch now f =
     f\<lparr>f_pr_url := Some pr_url, f_pr_number := Some pr_number,
       f_pushed_sha := (case pushed_sha of None \<Rightarrow> f_pushed_sha f | Some s \<Rightarrow> Some s),
       f_branch_name := Some branch, f_pr_opened_at := Some now,
       f_status := ''pr_opened'', f_updated_at := now\<rparr>"

lemma record_pr_proposal_eq:
  assumes "proposals_ok d"
  shows "record_pr_proposal rid fid u n sha br now d =
    (let d1 = snd (update_proposals (\<lambda>f. f_id f = fid \<and> f_bug_report_id f = rid) (pr_proposal u n sha br now) d)
     in (if owns_proposal rid fid d then None
         else Some (ValueErr ''proposal does not belong to the report''), d1))"
  using assms
  by (simp add: record_pr_proposal_def case_prod_beta Let_def proposal_rowcount_one owns_proposal_def
      pr_proposal_def[abs_def])

lemma record_pr_report_eq:
  assumes "ids_ok d"
  shows "record_pr_report rid token now d =
    (let d1 = snd (update_reports (\<lambda>r. r_id r = rid \<and> r_status r = FIX_APPROVED \<and> r_claim_token r = Some token)
            (\<lambda>r. r\<lparr>r_status := FIX_COMMITTED, r_claim_token := None, r_updated_at := now\<rparr>) d)
     in (if holds_claim rid token d then None else Some ClaimLostError, d1))"
  using assms
  by (simp add: record_pr_report_def case_prod_beta Let_def rowcount_one holds_claim_def ids_ok_def)

lemma proposal_get_frame [simp]:
  "proposal_get fid (snd (db_now d)) = proposal_get fid d"
  "proposal_get fid (snd (update_reports P g d)) = proposal_get fid d"
  "report_get rid (snd (update_proposals Q h d)) = report_get rid d"
  by (simp_all add: proposal_get_def report_get_find)

lemma claim_frame [simp]:
  "holds_claim rid token (snd (db_now d)) = holds_claim rid token d"
  "holds_claim rid token (snd (update_proposals Q h d)) = holds_claim rid token d"
  "owns_proposal rid fid (snd (db_now d)) = owns_proposal rid fid d"
  "ids_ok (snd (db_now d)) = ids_ok d" "proposals_ok (snd (db_now d)) = proposals_ok d"
  "ids_ok (snd (update_proposals Q h d)) = ids_ok d"
  by (simp_all add: holds_claim_def owns_proposal_def ids_ok_def proposals_ok_def)

lemma same_tables_rollback: "same_tables d (rollback_to (snd (db_now d)) e)"
  by (simp add: same_tables_def)

lemma record_pull_request_cases:
  assumes "ids_ok d" and "proposals_ok d"
  shows "if owns_proposal rid fid d \<and> holds_claim rid token d
    then record_pull_request rid fid token u n sha br d = (Inr (),
      snd (update_reports (\<lambda>r. r_id r = rid \<and> r_status r = FIX_APPROVED \<and> r_claim_token r = Some token)
        (\<lambda>r. r\<lparr>r_status := FIX_COMMITTED, r_claim_token := None, r_updated_at := fst (db_now d)\<rparr>)
        (snd (update_proposals (\<lambda>f. f_id f = fid \<and> f_bug_report_id f = rid)
           (pr_proposal u n sha br (fst (db_now d))) (snd (db_now d))))))
    else fst (record_pull_request rid fid token u n sha br d)
           = Inl (if owns_proposal rid fid d then ClaimLostError
                  else ValueErr ''proposal does not belong to the report'')
      \<and> same_tables d (snd (record_pull_request rid fid token u n sha br d))"
  using assms
  by (simp add: record_pull_request_def case_prod_beta Let_def record_pr_proposal_eq record_pr_report_eq
      same_tables_rollback)

lemma recorded_rows:
  assumes "ids_ok d" and "proposals_ok d" and "owns_proposal rid fid d" and "holds_claim rid token d"
    and "report_get rid d = Some r" and "proposal_get fid d = Some f"
    and "d' = snd (record_pull_request rid fid token u n sha br d)"
  shows "report_get rid' d' = (if rid' = rid then Some (r\<lparr>r_status := FIX_COMMITTED, r_claim_token := None,
            r_updated_at := fst (db_now d)\<rparr>) else report_get rid' d)"
    and "proposal_get fid' d' = (if fid' = fid then Some (pr_proposal u n sha br (fst (db_now d)) f)
           else proposal_get fid' d)"
    and "ids_ok d'" and "proposals_ok d'"
proof -
  have f: "f_bug_report_id f = rid" using assms(3,6) by (simp add: owns_proposal_def)
  have r: "r_status r = FIX_APPROVED" "r_claim_token r = Some token"
    using assms(4,5) by (simp_all add: holds_claim_def)
  note d' = assms(7)[unfolded record_pull_request_cases[OF assms(1,2), of rid fid token u n sha br,
      unfolded if_P[OF conjI[OF assms(3,4)]]] snd_conv]
  show "report_get rid' d' = (if rid' = rid then Some (r\<lparr>r_status := FIX_COMMITTED, r_claim_token := None,
            r_updated_at := fst (db_now d)\<rparr>) else report_get rid' d)"
    using r assms(5) by (simp add: d' update_reports_get)
  show "proposal_get fid' d' = (if fid' = fid then Some (pr_proposal u n sha br (fst (db_now d)) f)
           else proposal_get fid' d)"
    using f assms(6) by (simp add: d' update_proposals_get pr_proposal_def)
  show "ids_ok d'" "proposals_ok d'"
    using assms(1,2) by (simp_all add: d' ids_ok_def proposals_ok_def pr_proposal_def)
qed

text \<open>A proposal that was opened and settled.\<close>

definition settled :: "fix_proposal \<Rightarrow> bool" where
  "settled f \<longleftrightarrow> f_pr_settled_at f \<noteq> None"

definition settle_report :: "string \<Rightarrow> int \<Rightarrow> stamp \<Rightarrow> report \<Rightarrow> report" where
  "settle_report st n now r =
     (if st = ''merged'' then r\<lparr>r_status := CLOSED, r_resolution_reason := Some (''pr_merged:'' @ int_text n),
        r_updated_at := now\<rparr>
      else r\<lparr>r_status := TRIAGED, r_updated_at := now\<rparr>)"

definition settle_proposal :: "string \<Rightarrow> stamp \<Rightarrow> fix_proposal \<Rightarrow> fix_proposal" where
  "settle_proposal st now f = f\<lparr>f_pr_state := Some st, f_pr_checked_at := Some now,
     f_pr_settled_at := Some now, f_pr_check_error := None, f_updated_at := now\<rparr>"

lemma settle_report_id [simp]: "r_id (settle_report st n now r) = r_id r"
  by (simp add: settle_report_def)

lemma pr_settle_eq:
  assumes "st = ''merged'' \<or> st = ''closed''"
  shows "pr_settle fid rid n st d =
    (let d2 = snd (update_reports (\<lambda>r. r_id r = rid \<and> r_status r = FIX_COMMITTED)
                (settle_report st n (fst (db_now d))) (snd (db_now d)))
     in (Inr (rowcount (\<lambda>r. r_id r = rid \<and> r_status r = FIX_COMMITTED) (reports d) = 1),
         snd (update_proposals (\<lambda>f. f_id f = fid \<and> f_bug_report_id f = rid)
                (settle_proposal st (fst (db_now d))) d2)))"
  using assms by (elim disjE)
    (simp_all add: pr_settle_def case_prod_beta Let_def settle_report_def[abs_def] settle_proposal_def[abs_def])

lemma pr_settle_rows:
  assumes "st = ''merged'' \<or> st = ''closed''" and "d' = snd (pr_settle fid rid n st d)"
  shows "report_get rid' d' = (if rid' = rid then map_option (\<lambda>r. if r_status r = FIX_COMMITTED then
            settle_report st n (fst (db_now d)) r else r) (report_get rid d) else report_get rid' d)"
    and "proposal_get fid' d' = (if fid' = fid then map_option (\<lambda>f. if f_bug_report_id f = rid then
            settle_proposal st (fst (db_now d)) f else f) (proposal_get fid d) else proposal_get fid' d)"
    and "ids_ok d \<Longrightarrow> fst (pr_settle fid rid n st d) = Inr
          (case report_get rid d of None \<Rightarrow> False | Some r \<Rightarrow> r_status r = FIX_COMMITTED)"
    and "ids_ok d' = ids_ok d"
  unfolding assms(2) pr_settle_eq[OF assms(1)]
  by (simp_all add: Let_def update_reports_get update_proposals_get settle_proposal_def rowcount_one ids_ok_def)

section \<open>Properties\<close>

text \<open>
  C24.  Recording a pull request is all or nothing and happens once.  If the request still holds the
  claim and the proposal belongs to the report, then in one step the proposal gets the pull request
  and the report moves to \<open>fix_committed\<close> with its token cleared, no other row changes, and no
  later recording for this report can succeed, with any token; otherwise nothing is written at all
  and the caller learns which of the two conditions failed.
\<close>

theorem pull_request_recorded_atomically:
  assumes "ids_ok d" and "proposals_ok d"
    and "(res, d') = record_pull_request rid fid token u n sha br d"
  shows "if owns_proposal rid fid d \<and> holds_claim rid token d
    then res = Inr ()
      \<and> report_get rid d' = map_option (\<lambda>r. r\<lparr>r_status := FIX_COMMITTED, r_claim_token := None,
            r_updated_at := fst (db_now d)\<rparr>) (report_get rid d)
      \<and> proposal_get fid d' = map_option (pr_proposal u n sha br (fst (db_now d))) (proposal_get fid d)
      \<and> (\<forall>x. x = rid \<or> report_get x d' = report_get x d)
      \<and> (\<forall>x. x = fid \<or> proposal_get x d' = proposal_get x d)
      \<and> (\<forall>fid2 tok2 u2 n2 sha2 br2. fst (record_pull_request rid fid2 tok2 u2 n2 sha2 br2 d') \<noteq> Inr ())
    else res = Inl (if owns_proposal rid fid d then ClaimLostError
                    else ValueErr ''proposal does not belong to the report'')
      \<and> same_tables d d'"
proof (cases "owns_proposal rid fid d \<and> holds_claim rid token d")
  case True
  then obtain r f where r: "report_get rid d = Some r" and f: "proposal_get fid d = Some f"
    by (auto simp: owns_proposal_def holds_claim_def split: option.splits)
  have d': "d' = snd (record_pull_request rid fid token u n sha br d)" using assms(3) by (metis snd_conv)
  note rows = recorded_rows[OF assms(1,2) conjunct1[OF True] conjunct2[OF True] r f d']
  have "\<not> holds_claim rid tok2 d'" for tok2 by (simp add: holds_claim_def rows(1))
  then have never: "fst (record_pull_request rid fid2 tok2 u2 n2 sha2 br2 d') \<noteq> Inr ()" for fid2 tok2 u2 n2 sha2 br2
    using record_pull_request_cases[OF rows(3,4), of rid fid2 tok2 u2 n2 sha2 br2] by auto
  have "res = Inr ()"
    using True record_pull_request_cases[OF assms(1,2), of rid fid token u n sha br] assms(3)
    by (simp add: prod_eq_iff)
  then show ?thesis using True never by (simp add: rows r f)
next
  case False
  then show ?thesis
    using record_pull_request_cases[OF assms(1,2), of rid fid token u n sha br] assms(3)
    by (metis (no_types, lifting) fst_conv snd_conv)
qed

theorem pull_request_recorded_atomically_witness:
  "let d = init_db\<lparr>reports := [(blank_report ''r'' ''x'' 5)\<lparr>r_status := FIX_APPROVED, r_claim_token := Some ''k''\<rparr>],
       fix_proposals := [blank_proposal ''f'' ''r'' 6]\<rparr>
   in fst (record_pull_request ''r'' ''f'' ''k'' ''u'' 7 None ''b'' d) = Inr ()
      \<and> fst (record_pull_request ''r'' ''f'' ''z'' ''u'' 7 None ''b'' d) = Inl ClaimLostError"
proof -
  let ?d = "init_db\<lparr>reports := [(blank_report ''r'' ''x'' 5)\<lparr>r_status := FIX_APPROVED, r_claim_token := Some ''k''\<rparr>],
       fix_proposals := [blank_proposal ''f'' ''r'' 6]\<rparr>"
  have i: "ids_ok ?d" "proposals_ok ?d" by (simp_all add: ids_ok_def proposals_ok_def)
  have h: "owns_proposal ''r'' ''f'' ?d" "holds_claim ''r'' ''k'' ?d" "\<not> holds_claim ''r'' ''z'' ?d"
    by (simp_all add: owns_proposal_def holds_claim_def proposal_get_def report_get_def blank_report_def
        blank_proposal_def)
  show ?thesis
    using pull_request_recorded_atomically[OF i prod.collapse, of "''r''" "''f''" "''k''" "''u''" 7 None "''b''"]
      pull_request_recorded_atomically[OF i prod.collapse, of "''r''" "''f''" "''z''" "''u''" 7 None "''b''"] h
    by (simp add: Let_def)
qed

text \<open>
  C32.  A pull request is settled once.  The first terminal read moves the report out of
  \<open>fix_committed\<close> (to \<open>closed\<close> when merged, back to \<open>triaged\<close> when closed) and marks the
  proposal settled, so it is never read again; every later settle of any proposal of the report
  answers False and leaves the report alone.
\<close>

theorem pull_request_settles_once:
  assumes "ids_ok d" and "report_get rid d = Some r" and "r_status r = FIX_COMMITTED"
    and "proposal_get fid d = Some f" and "f_bug_report_id f = rid"
    and "st = ''merged'' \<or> st = ''closed''" and "st' = ''merged'' \<or> st' = ''closed''"
    and "d' = snd (pr_settle fid rid n st d)"
  shows "fst (pr_settle fid rid n st d) = Inr True
    \<and> map_option r_status (report_get rid d') = Some (if st = ''merged'' then CLOSED else TRIAGED)
    \<and> map_option settled (proposal_get fid d') = Some True
    \<and> (proposals_ok d' \<longrightarrow> fid \<notin> f_id ` set (prs_to_check pid before d'))
    \<and> fst (pr_settle fid2 rid n2 st' d') = Inr False
    \<and> report_get rid (snd (pr_settle fid2 rid n2 st' d')) = report_get rid d'"
proof -
  note rows = pr_settle_rows[OF assms(6,8)]
  have r': "report_get rid d' = Some (settle_report st n (fst (db_now d)) r)"
    by (simp add: rows(1) assms(2,3))
  have moved: "r_status (settle_report st n (fst (db_now d)) r) = (if st = ''merged'' then CLOSED else TRIAGED)"
    by (simp add: settle_report_def)
  have f': "proposal_get fid d' = Some (settle_proposal st (fst (db_now d)) f)"
    by (simp add: rows(2) assms(4,5))
  have "fid \<notin> f_id ` set (prs_to_check pid before d')" if ok: "proposals_ok d'"
  proof
    assume "fid \<in> f_id ` set (prs_to_check pid before d')"
    then obtain g where g: "g \<in> set (fix_proposals d')" "f_id g = fid" "f_pr_settled_at g = None"
      by (auto simp: prs_to_check_def)
    then have "proposal_get fid d' = Some g"
      using ok by (simp add: proposal_get_def proposals_ok_def find_key_Some)
    with f' g show False by (auto simp: settle_proposal_def)
  qed
  moreover have "ids_ok d'" using assms(1) rows(4) by simp
  ultimately show ?thesis
    using pr_settle_rows(3)[OF assms(7) refl, where fid = fid2 and rid = rid and n = n2 and d = d']
      pr_settle_rows(1)[OF assms(7) refl, where rid' = rid and fid = fid2 and rid = rid and n = n2 and d = d']
      rows(3)[OF assms(1)] assms(2,3)
    by (simp add: r' f' moved settled_def settle_proposal_def)
qed

theorem pull_request_settles_once_witness:
  "let d = init_db\<lparr>reports := [(blank_report ''r'' ''x'' 5)\<lparr>r_status := FIX_COMMITTED\<rparr>],
       fix_proposals := [blank_proposal ''f'' ''r'' 6]\<rparr>
   in fst (pr_settle ''f'' ''r'' 7 ''closed'' d) = Inr True
      \<and> fst (pr_settle ''f'' ''r'' 7 ''merged'' (snd (pr_settle ''f'' ''r'' 7 ''closed'' d))) = Inr False"
proof -
  let ?r = "(blank_report ''r'' ''x'' 5)\<lparr>r_status := FIX_COMMITTED\<rparr>"
  let ?d = "init_db\<lparr>reports := [?r], fix_proposals := [blank_proposal ''f'' ''r'' 6]\<rparr>"
  have i: "ids_ok ?d" by (simp add: ids_ok_def)
  have r: "report_get ''r'' ?d = Some ?r" by (simp add: report_get_def blank_report_def)
  have f: "proposal_get ''f'' ?d = Some (blank_proposal ''f'' ''r'' 6)"
    by (simp add: proposal_get_def blank_proposal_def)
  show ?thesis
    using pull_request_settles_once[OF i r _ f _ _ _ refl, of "''closed''" "''merged''" 7]
    by (simp add: Let_def blank_proposal_def)
qed

end
