(* ===== verification/Db_Ledger.thy ===== *)
theory Db_Ledger
  imports Db_Fix "HOL-Library.Option_ord" "HOL-Library.Product_Lexorder"
begin

text \<open>
  The rest of \<open>db.py\<close>: token usage, the fenced ingest commit, and the triage ledger (results,
  actions, tick bookkeeping).  A usage row's estimated cost is left out: every caller leaves it at
  its default 0.0.
\<close>

section \<open>Token usage\<close>

definition token_usage_create ::
  "string \<Rightarrow> string \<Rightarrow> string \<Rightarrow> string option \<Rightarrow> int \<Rightarrow> int \<Rightarrow> string option \<Rightarrow> string option
   \<Rightarrow> db \<Rightarrow> (db_error + unit) \<times> db" where
  "token_usage_create pid provider model rid prompt completion key_source key_ref d0 =
     (let (now, d1) = db_now d0
      in case insert_usage \<lparr>u_project_id = pid, u_bug_report_id = rid, u_provider = provider,
                u_model = model, u_prompt_tokens = prompt, u_completion_tokens = completion,
                u_key_source = key_source, u_key_ref = key_ref, u_created_at = now\<rparr> d1 of
           Inl e \<Rightarrow> (Inl e, d1)
         | Inr d2 \<Rightarrow> (Inr (), d2))"

record usage_summary =
  us_total_prompt :: int
  us_total_completion :: int
  us_by_provider :: "string \<rightharpoonup> int \<times> int"
  us_attribution :: "((string option \<times> string option) \<times> nat \<times> int \<times> int) list"

definition sum_prompt :: "usage_row list \<Rightarrow> int" where
  "sum_prompt rows = sum_list (map u_prompt_tokens rows)"

definition sum_completion :: "usage_row list \<Rightarrow> int" where
  "sum_completion rows = sum_list (map u_completion_tokens rows)"

definition token_usage_summary :: "string option \<Rightarrow> db \<Rightarrow> usage_summary" where
  "token_usage_summary pid d =
     (let rows = filter (\<lambda>u. if str_set pid then Some (u_project_id u) = pid else True) (token_usage d);
          groups = group_by (\<lambda>u. (u_provider u, u_model u)) rows
      in \<lparr>us_total_prompt = sum_list (map (\<lambda>(k, g). sum_prompt g) groups),
          us_total_completion = sum_list (map (\<lambda>(k, g). sum_completion g) groups),
          us_by_provider = fold (\<lambda>((p, m), g) f. f(p @ ''/'' @ m \<mapsto> (sum_prompt g, sum_completion g))) groups Map.empty,
          us_attribution = map (\<lambda>(k, g). (k, length g, sum_prompt g, sum_completion g))
            (group_by (\<lambda>u. (u_key_source u, u_key_ref u)) rows)\<rparr>)"

section \<open>Ingest\<close>

definition projects_with_ingest :: "db \<Rightarrow> project list" where
  "projects_with_ingest d = order_asc p_created_at (filter (\<lambda>p. p_ingest_source p \<noteq> None) (projects d))"

definition ingest_state_get :: "string \<Rightarrow> db \<Rightarrow> ingest_row option" where
  "ingest_state_get pid d = fetchone (filter (\<lambda>i. i_project_id i = pid) (ingest_state d))"

definition ingest_health_counts :: "db \<Rightarrow> nat \<times> nat" where
  "ingest_health_counts d =
     (rowcount (\<lambda>p. p_ingest_source p \<noteq> None) (projects d),
      rowcount (\<lambda>i. i_last_error i \<noteq> None \<and> (case find (\<lambda>p. p_id p = i_project_id i) (projects d) of
          None \<Rightarrow> False | Some p \<Rightarrow> p_ingest_source p \<noteq> None)) (ingest_state d))"

record import_row =
  im_title :: string
  im_description :: string
  im_reporter :: string
  im_severity :: "string option"
  im_environment :: "string option"
  im_attachments :: "json option"
  im_labels :: "string list option"
  im_source :: string
  im_external_id :: string

datatype ingest_field =
    IF_cursor "string option" | IF_rewalk_cursor "string option"
  | IF_rewalk_started_at "time_text option" | IF_last_full_walk_at "time_text option"
  | IF_last_poll_at "stamp option" | IF_last_ok_at "stamp option"
  | IF_last_error "string option" | IF_failures nat

fun set_ingest_field :: "ingest_field \<Rightarrow> ingest_row \<Rightarrow> ingest_row" where
  "set_ingest_field (IF_cursor v) i = i\<lparr>i_cursor := v\<rparr>"
| "set_ingest_field (IF_rewalk_cursor v) i = i\<lparr>i_rewalk_cursor := v\<rparr>"
| "set_ingest_field (IF_rewalk_started_at v) i = i\<lparr>i_rewalk_started_at := v\<rparr>"
| "set_ingest_field (IF_last_full_walk_at v) i = i\<lparr>i_last_full_walk_at := v\<rparr>"
| "set_ingest_field (IF_last_poll_at v) i = i\<lparr>i_last_poll_at := v\<rparr>"
| "set_ingest_field (IF_last_ok_at v) i = i\<lparr>i_last_ok_at := v\<rparr>"
| "set_ingest_field (IF_last_error v) i = i\<lparr>i_last_error := v\<rparr>"
| "set_ingest_field (IF_failures v) i = i\<lparr>i_consecutive_failures := v\<rparr>"

definition new_ingest_row :: "string \<Rightarrow> nat \<Rightarrow> stamp \<Rightarrow> ingest_row" where
  "new_ingest_row pid gen now =
     \<lparr>i_project_id = pid, i_generation = gen, i_cursor = None, i_rewalk_cursor = None,
      i_rewalk_started_at = None, i_last_full_walk_at = Some (Iso now), i_last_poll_at = None,
      i_last_ok_at = None, i_last_error = None, i_consecutive_failures = 0, i_imported_total = 0\<rparr>"

definition imported_report :: "string \<Rightarrow> string \<Rightarrow> stamp \<Rightarrow> stamp \<Rightarrow> import_row \<Rightarrow> report" where
  "imported_report rid pid created updated m =
     (blank_report rid pid created)\<lparr>r_title := im_title m, r_description := im_description m,
        r_reporter := im_reporter m, r_severity := im_severity m, r_environment := im_environment m,
        r_attachments := im_attachments m, r_labels := im_labels m,
        r_ingest_source := Some (im_source m), r_external_id := Some (im_external_id m),
        r_updated_at := updated\<rparr>"

text \<open>The INSERT loop; the count of rows inserted, or the error that stops it.\<close>

fun import_reports :: "string \<Rightarrow> import_row list \<Rightarrow> db \<Rightarrow> (db_error + nat) \<times> db" where
  "import_reports pid [] d = (Inr 0, d)"
| "import_reports pid (m # ms) d0 =
     (let (rid, d1) = new_id d0; (created, d2) = db_now d1; (updated, d3) = db_now d2
      in if has_external pid (im_external_id m) d3 then import_reports pid ms d3
         else (case insert_report (imported_report rid pid created updated m) d3 of
                 Inl e \<Rightarrow> (Inl e, d3)
               | Inr d4 \<Rightarrow> (case import_reports pid ms d4 of
                              (Inl e, d5) \<Rightarrow> (Inl e, d5)
                            | (Inr n, d5) \<Rightarrow> (Inr (Suc n), d5))))"

definition ingest_commit ::
  "string \<Rightarrow> nat \<Rightarrow> import_row list \<Rightarrow> ingest_field list \<Rightarrow> bool \<Rightarrow> db \<Rightarrow> (db_error + nat option) \<times> db" where
  "ingest_commit pid gen rows updates count_failure d0 =
     (case project_get pid d0 of
        None \<Rightarrow> (Inr None, d0)
      | Some p \<Rightarrow>
          if p_ingest_source p = None \<or> p_ingest_generation p \<noteq> gen then (Inr None, d0)
          else
            (let (now, d1) = db_now d0;
                 d2 = d1\<lparr>ingest_state := delete_where
                        (\<lambda>i. i_project_id i = pid \<and> i_generation i \<noteq> gen) (ingest_state d1)\<rparr>;
                 d3 = (if pid \<in> i_project_id ` set (ingest_state d2) then d2
                       else d2\<lparr>ingest_state := ingest_state d2 @ [new_ingest_row pid gen now]\<rparr>)
             in case import_reports pid rows d3 of
                  (Inl e, d4) \<Rightarrow> (Inl e, rollback_to d0 d4)
                | (Inr inserted, d4) \<Rightarrow>
                    (Inr (Some inserted),
                     d4\<lparr>ingest_state := update_where (\<lambda>i. i_project_id i = pid)
                          (\<lambda>i. (fold set_ingest_field updates i)
                             \<lparr>i_imported_total := i_imported_total i + inserted,
                              i_consecutive_failures := (if count_failure then i_consecutive_failures i + 1
                                else i_consecutive_failures (fold set_ingest_field updates i))\<rparr>)
                          (ingest_state d4)\<rparr>)))"

section \<open>Triage results\<close>

definition projects_with_triage_sync :: "db \<Rightarrow> project list" where
  "projects_with_triage_sync d =
     filter (\<lambda>p. case p_ingest_config p of None \<Rightarrow> False
       | Some kvs \<Rightarrow> opt_truthy (map_of kvs ''triage_credential_env'')) (projects_with_ingest d)"

definition sync_reports :: "string \<Rightarrow> db \<Rightarrow> report list" where
  "sync_reports pid d =
     order_asc r_created_at (filter (\<lambda>r. r_project_id r = pid \<and> r_external_id r \<noteq> None) (reports d))"

definition report_by_external_id :: "string \<Rightarrow> string \<Rightarrow> db \<Rightarrow> report option" where
  "report_by_external_id pid x d =
     fetchone (filter (\<lambda>r. r_project_id r = pid \<and> r_external_id r = Some x) (reports d))"

definition triage_result_get :: "string \<Rightarrow> db \<Rightarrow> result_row option" where
  "triage_result_get rid d = fetchone (filter (\<lambda>s. s_report_id s = rid) (triage_results d))"

definition triage_result_stage ::
  "string \<Rightarrow> string \<Rightarrow> string \<Rightarrow> int \<Rightarrow> string \<Rightarrow> db \<Rightarrow> (db_error + unit) \<times> db" where
  "triage_result_stage rid pid fingerprint revision payload d =
     (if rid \<in> s_report_id ` set (triage_results d)
      then (Inr (), d\<lparr>triage_results := update_where (\<lambda>s. s_report_id s = rid)
             (\<lambda>s. s\<lparr>s_fingerprint := Some fingerprint, s_revision := revision, s_payload := Some payload,
                    s_failed_fingerprint := None, s_last_error := None\<rparr>) (triage_results d)\<rparr>)
      else if rid \<notin> r_id ` set (reports d) then (Inl IntegrityError, d)
      else (Inr (), d\<lparr>triage_results := triage_results d @
             [\<lparr>s_report_id = rid, s_project_id = pid, s_fingerprint = Some fingerprint,
               s_revision = revision, s_payload = Some payload, s_acked_fingerprint = None,
               s_failed_fingerprint = None, s_last_status = None, s_last_error = None,
               s_pushed_at = None\<rparr>]\<rparr>))"

datatype result_field =
    SF_revision int | SF_acked "string option" | SF_failed "string option"
  | SF_last_status "int option" | SF_last_error "string option" | SF_pushed_at "stamp option"

fun set_result_field :: "result_field \<Rightarrow> result_row \<Rightarrow> result_row" where
  "set_result_field (SF_revision v) s = s\<lparr>s_revision := v\<rparr>"
| "set_result_field (SF_acked v) s = s\<lparr>s_acked_fingerprint := v\<rparr>"
| "set_result_field (SF_failed v) s = s\<lparr>s_failed_fingerprint := v\<rparr>"
| "set_result_field (SF_last_status v) s = s\<lparr>s_last_status := v\<rparr>"
| "set_result_field (SF_last_error v) s = s\<lparr>s_last_error := v\<rparr>"
| "set_result_field (SF_pushed_at v) s = s\<lparr>s_pushed_at := v\<rparr>"

definition triage_result_update :: "string \<Rightarrow> result_field list \<Rightarrow> db \<Rightarrow> db" where
  "triage_result_update rid args d =
     d\<lparr>triage_results := update_where (\<lambda>s. s_report_id s = rid) (fold set_result_field args) (triage_results d)\<rparr>"

text \<open>\<open>a IS NOT b\<close>: inequality that treats NULL as a value.\<close>

definition triage_results_summary :: "string \<Rightarrow> db \<Rightarrow> nat \<times> nat \<times> string list" where
  "triage_results_summary pid d =
     (rowcount (\<lambda>s. s_project_id s = pid) (triage_results d),
      rowcount (\<lambda>s. s_project_id s = pid \<and> s_fingerprint s \<noteq> s_acked_fingerprint s
         \<and> s_fingerprint s \<noteq> s_failed_fingerprint s) (triage_results d),
      map s_report_id (order_asc s_report_id
         (filter (\<lambda>s. s_project_id s = pid \<and> s_last_error s \<noteq> None) (triage_results d))))"

section \<open>Triage actions\<close>

definition triage_action_get :: "string \<Rightarrow> db \<Rightarrow> action_row option" where
  "triage_action_get aid d = fetchone (filter (\<lambda>t. t_action_id t = aid) (triage_actions d))"

definition triage_action_reserve ::
  "string \<Rightarrow> string \<Rightarrow> string \<Rightarrow> string \<Rightarrow> json \<Rightarrow> string option \<Rightarrow> db \<Rightarrow> bool \<times> db" where
  "triage_action_reserve aid pid rid kind params user d0 =
     (let (now, d1) = db_now d0
      in if aid \<in> t_action_id ` set (triage_actions d1) then (False, d1)
         else (True, d1\<lparr>triage_actions := triage_actions d1 @
                [\<lparr>t_action_id = aid, t_project_id = pid, t_report_id = rid, t_kind = kind,
                  t_params = params, t_requested_by_user_id = user, t_phase = RESERVED,
                  t_no_auto_retry = False, t_pinned_llm = None, t_reserved_at = now, t_intent_at = None,
                  t_dispatched_at = None, t_finished_at = None, t_outcome = None, t_message = None,
                  t_steps = None, t_fix_proposal_id = None, t_pr_url = None, t_attempts = 0,
                  t_terminal_acked = False, t_terminal_error = None, t_late_outcome = None,
                  t_key_mode = None\<rparr>]\<rparr>))"

definition triage_action_delete_reserved :: "string \<Rightarrow> db \<Rightarrow> db" where
  "triage_action_delete_reserved aid d =
     d\<lparr>triage_actions := delete_where (\<lambda>t. t_action_id t = aid \<and> t_phase t = RESERVED) (triage_actions d)\<rparr>"

datatype action_field =
    TF_phase ledger_phase | TF_no_auto_retry bool
  | TF_pinned_llm "(string \<times> string \<times> string) list option" | TF_intent_at "time_text option"
  | TF_dispatched_at "stamp option" | TF_fix_proposal_id "string option" | TF_pr_url "string option"
  | TF_attempts nat | TF_steps "json option" | TF_terminal_acked bool
  | TF_terminal_error "string option" | TF_late_outcome "string option" | TF_key_mode "string option"

fun set_action_field :: "action_field \<Rightarrow> action_row \<Rightarrow> action_row" where
  "set_action_field (TF_phase v) t = t\<lparr>t_phase := v\<rparr>"
| "set_action_field (TF_no_auto_retry v) t = t\<lparr>t_no_auto_retry := v\<rparr>"
| "set_action_field (TF_pinned_llm v) t = t\<lparr>t_pinned_llm := v\<rparr>"
| "set_action_field (TF_intent_at v) t = t\<lparr>t_intent_at := v\<rparr>"
| "set_action_field (TF_dispatched_at v) t = t\<lparr>t_dispatched_at := v\<rparr>"
| "set_action_field (TF_fix_proposal_id v) t = t\<lparr>t_fix_proposal_id := v\<rparr>"
| "set_action_field (TF_pr_url v) t = t\<lparr>t_pr_url := v\<rparr>"
| "set_action_field (TF_attempts v) t = t\<lparr>t_attempts := v\<rparr>"
| "set_action_field (TF_steps v) t = t\<lparr>t_steps := v\<rparr>"
| "set_action_field (TF_terminal_acked v) t = t\<lparr>t_terminal_acked := v\<rparr>"
| "set_action_field (TF_terminal_error v) t = t\<lparr>t_terminal_error := v\<rparr>"
| "set_action_field (TF_late_outcome v) t = t\<lparr>t_late_outcome := v\<rparr>"
| "set_action_field (TF_key_mode v) t = t\<lparr>t_key_mode := v\<rparr>"

definition update_actions :: "(action_row \<Rightarrow> bool) \<Rightarrow> (action_row \<Rightarrow> action_row) \<Rightarrow> db \<Rightarrow> nat \<times> db" where
  "update_actions P f d =
     (rowcount P (triage_actions d), d\<lparr>triage_actions := update_where P f (triage_actions d)\<rparr>)"

definition triage_action_update ::
  "string \<Rightarrow> ledger_phase option \<Rightarrow> action_field list \<Rightarrow> db \<Rightarrow> bool \<times> db" where
  "triage_action_update aid expected args d =
     (let (n, d1) = update_actions (\<lambda>t. t_action_id t = aid
            \<and> (case expected of None \<Rightarrow> True | Some p \<Rightarrow> t_phase t = p)) (fold set_action_field args) d
      in (n = 1, d1))"

definition triage_action_finish ::
  "string \<Rightarrow> string \<Rightarrow> string option \<Rightarrow> json option \<Rightarrow> ledger_phase option \<Rightarrow> db \<Rightarrow> bool \<times> db" where
  "triage_action_finish aid outcome message steps expected d0 =
     (let (now, d1) = db_now d0;
          (n, d2) = update_actions (\<lambda>t. t_action_id t = aid \<and> t_phase t \<noteq> FINISHED
              \<and> (case expected of None \<Rightarrow> True | Some p \<Rightarrow> t_phase t = p))
            (\<lambda>t. t\<lparr>t_phase := FINISHED, t_outcome := Some outcome, t_message := message,
                   t_steps := steps, t_finished_at := Some now\<rparr>) d1
      in (n = 1, d2))"

datatype reopen_result = Reopened | Not_closed | Ledger_moved

definition reopen_for_action :: "string \<Rightarrow> string \<Rightarrow> string \<Rightarrow> db \<Rightarrow> reopen_result \<times> db" where
  "reopen_for_action rid aid message d0 =
     (let (now, d1) = db_now d0;
          (n, d2) = update_reports (\<lambda>r. r_id r = rid \<and> r_status r = CLOSED)
            (\<lambda>r. r\<lparr>r_status := TRIAGED, r_resolution_reason := None, r_updated_at := now\<rparr>) d1
      in if n \<noteq> 1 then (Not_closed, rollback_to d1 d2)
         else
           (let (m, d3) = update_actions (\<lambda>t. t_action_id t = aid \<and> t_phase t = DISPATCHED)
                 (\<lambda>t. t\<lparr>t_phase := FINISHED, t_outcome := Some ''done'', t_message := Some message,
                        t_steps := None, t_finished_at := Some now\<rparr>) d2
            in if m \<noteq> 1 then (Ledger_moved, rollback_to d1 d3) else (Reopened, d3)))"

definition triage_actions_unacked :: "string \<Rightarrow> db \<Rightarrow> action_row list" where
  "triage_actions_unacked pid d =
     order_asc (\<lambda>t. null_first (t_finished_at t))
       (filter (\<lambda>t. t_project_id t = pid \<and> t_phase t = FINISHED \<and> \<not> t_terminal_acked t) (triage_actions d))"

definition triage_actions_open :: "string option \<Rightarrow> db \<Rightarrow> action_row list" where
  "triage_actions_open pid d =
     filter (\<lambda>t. t_phase t \<in> {INTENT, DISPATCHED, FIX_DONE}
       \<and> (case pid of None \<Rightarrow> True | Some p \<Rightarrow> t_project_id t = p)) (triage_actions d)"

fun ledger_value :: "ledger_phase \<Rightarrow> string" where
  "ledger_value RESERVED = ''reserved''"
| "ledger_value INTENT = ''intent''"
| "ledger_value DISPATCHED = ''dispatched''"
| "ledger_value FIX_DONE = ''fix_done''"
| "ledger_value FINISHED = ''finished''"

lemma ledger_value_inj: "ledger_value x = ledger_value y \<longleftrightarrow> x = y"
  by (cases x; cases y) simp_all

instantiation ledger_phase :: linorder
begin

definition less_eq_ledger_phase :: "ledger_phase \<Rightarrow> ledger_phase \<Rightarrow> bool" where
  "less_eq_ledger_phase x y \<longleftrightarrow> ledger_value x \<le> ledger_value y"

definition less_ledger_phase :: "ledger_phase \<Rightarrow> ledger_phase \<Rightarrow> bool" where
  "less_ledger_phase x y \<longleftrightarrow> ledger_value x < ledger_value y"

instance
  by intro_classes (auto simp: less_eq_ledger_phase_def less_ledger_phase_def ledger_value_inj[symmetric])

end

definition triage_action_counts :: "string \<Rightarrow> db \<Rightarrow> (string \<times> nat) list" where
  "triage_action_counts pid d =
     (let rows = filter (\<lambda>t. t_project_id t = pid \<and> \<not> (t_phase t = FINISHED \<and> t_terminal_acked t)) (triage_actions d)
      in map (\<lambda>(ph, g). (ledger_value ph, length g)) (group_by t_phase rows)
         @ [(''acked'', rowcount (\<lambda>t. t_project_id t = pid \<and> t_phase t = FINISHED \<and> t_terminal_acked t)
              (triage_actions d))])"

definition triage_terminal_error_count :: "string \<Rightarrow> db \<Rightarrow> nat" where
  "triage_terminal_error_count pid d =
     rowcount (\<lambda>t. t_project_id t = pid \<and> t_terminal_error t \<noteq> None) (triage_actions d)"

section \<open>Tick bookkeeping\<close>

definition triage_sync_state_get :: "string \<Rightarrow> db \<Rightarrow> sync_row option" where
  "triage_sync_state_get pid d = fetchone (filter (\<lambda>y. y_project_id y = pid) (triage_sync_state d))"

definition triage_sync_state_record :: "string \<Rightarrow> string option \<Rightarrow> nat \<Rightarrow> db \<Rightarrow> nat option \<times> db" where
  "triage_sync_state_record pid err unresolved d0 =
     (let (now, d1) = db_now d0;
          d2 = (if pid \<in> y_project_id ` set (triage_sync_state d1) then d1
                else d1\<lparr>triage_sync_state := triage_sync_state d1 @
                  [\<lparr>y_project_id = pid, y_last_tick_at = None, y_last_ok_at = None, y_last_error = None,
                    y_consecutive_failures = 0, y_unresolved_actions = 0\<rparr>]\<rparr>);
          upd = (\<lambda>y. case err of
             None \<Rightarrow> y\<lparr>y_last_tick_at := Some now, y_last_ok_at := Some now, y_last_error := None,
                       y_consecutive_failures := 0, y_unresolved_actions := unresolved\<rparr>
           | Some e \<Rightarrow> y\<lparr>y_last_tick_at := Some now, y_last_error := Some e,
                         y_consecutive_failures := y_consecutive_failures y + 1,
                         y_unresolved_actions := unresolved\<rparr>);
          d3 = d2\<lparr>triage_sync_state := update_where (\<lambda>y. y_project_id y = pid) upd (triage_sync_state d2)\<rparr>
      in (map_option y_consecutive_failures (triage_sync_state_get pid d3), d3))"

definition triage_sync_health_counts :: "db \<Rightarrow> nat \<times> nat \<times> nat \<times> nat" where
  "triage_sync_health_counts d =
     (let ids = map p_id (projects_with_triage_sync d)
      in (length ids,
          rowcount (\<lambda>y. y_project_id y \<in> set ids \<and> y_last_error y \<noteq> None) (triage_sync_state d),
          rowcount (\<lambda>t. t_project_id t \<in> set ids \<and> t_kind t \<in> {''analyze_cloud'', ''fix_and_open_pr''}
             \<and> t_phase t \<in> {RESERVED, INTENT, DISPATCHED, FIX_DONE}) (triage_actions d),
          pr_check_error_count None d))"

section \<open>Lemmas on ingest\<close>

lemma has_external_now [simp]:
  "has_external pid x (snd (db_now d)) = has_external pid x d"
  "has_external pid x (snd (new_id d)) = has_external pid x d"
  by (simp_all add: has_external_def)

definition externals :: "db \<Rightarrow> (string \<times> string option) list" where
  "externals d = map (\<lambda>r. (r_project_id r, r_external_id r)) (filter (\<lambda>r. r_external_id r \<noteq> None) (reports d))"

lemma external_ok_eq: "external_ok d \<longleftrightarrow> distinct (externals d)"
  by (simp add: external_ok_def externals_def)

lemma has_external_iff: "has_external pid x d \<longleftrightarrow> (pid, Some x) \<in> set (externals d)"
  by (auto simp: has_external_def externals_def)

lemma import_reports_rows:
  "import_reports pid ms d = (Inr n, d') \<Longrightarrow> external_ok d \<and> ids_ok d \<Longrightarrow>
   (\<exists>new. reports d' = reports d @ new \<and> length new = n
      \<and> list_all (\<lambda>r. r_project_id r = pid \<and> r_status r = SUBMITTED) new)
   \<and> external_ok d' \<and> ids_ok d' \<and> projects d' = projects d \<and> ingest_state d' = ingest_state d
   \<and> list_all (\<lambda>m. has_external pid (im_external_id m) d') ms"
proof (induction ms arbitrary: d n)
  case (Cons m ms)
  let ?d3 = "snd (db_now (snd (db_now (snd (new_id d)))))"
  let ?x = "im_external_id m"
  have ok3: "external_ok ?d3 \<and> ids_ok ?d3" using Cons.prems(2) by (simp add: external_ok_def ids_ok_def)
  show ?case
  proof (cases "has_external pid ?x d")
    case True
    then have rest: "import_reports pid ms ?d3 = (Inr n, d')"
      using Cons.prems(1) by (simp add: case_prod_beta Let_def)
    note IH = Cons.IH[OF rest ok3]
    then have "set (externals d) \<subseteq> set (externals d')" by (auto simp: externals_def)
    with True have "has_external pid ?x d'" by (auto simp: has_external_iff)
    with IH show ?thesis by simp
  next
    case False
    define r where "r = imported_report (fst (new_id d)) pid (fst (db_now (snd (new_id d))))
        (fst (db_now (snd (db_now (snd (new_id d)))))) m"
    have r: "r_project_id r = pid" "r_external_id r = Some ?x" "r_status r = SUBMITTED"
      by (simp_all add: r_def imported_report_def blank_report_def)
    have step: "case insert_report r ?d3 of Inl e \<Rightarrow> False
        | Inr d4 \<Rightarrow> (\<exists>k. import_reports pid ms d4 = (Inr k, d') \<and> n = Suc k)"
      using Cons.prems(1) False
      by (simp add: case_prod_beta Let_def r_def split: sum.splits)
         (auto simp: prod_eq_iff split: sum.splits)
    then obtain k where ins: "insert_report r ?d3 = Inr (?d3\<lparr>reports := reports d @ [r]\<rparr>)"
      and rest: "import_reports pid ms (?d3\<lparr>reports := reports d @ [r]\<rparr>) = (Inr k, d')" and n: "n = Suc k"
      by (auto simp: insert_report_def split: if_splits)
    have fresh: "(pid, Some ?x) \<notin> set (externals d)" using False by (simp add: has_external_iff)
    have "r_id r \<notin> r_id ` set (reports d)" using ins by (auto simp: insert_report_def split: if_splits)
    then have ok4: "external_ok (?d3\<lparr>reports := reports d @ [r]\<rparr>) \<and> ids_ok (?d3\<lparr>reports := reports d @ [r]\<rparr>)"
      using Cons.prems(2) fresh r by (simp add: external_ok_eq externals_def ids_ok_def)
    note IH = Cons.IH[OF rest ok4]
    then obtain new where new: "reports d' = (reports d @ [r]) @ new" "length new = k"
      "list_all (\<lambda>r. r_project_id r = pid \<and> r_status r = SUBMITTED) new" by auto
    have "has_external pid ?x d'" using new(1) r by (auto simp: has_external_def)
    moreover have "\<exists>new. reports d' = reports d @ new \<and> length new = n
      \<and> list_all (\<lambda>r. r_project_id r = pid \<and> r_status r = SUBMITTED) new"
      using new r n by (intro exI[of _ "r # new"]) simp
    ultimately show ?thesis using IH by simp
  qed
qed simp

lemma import_reports_replay:
  "list_all (\<lambda>m. has_external pid (im_external_id m) d) ms \<Longrightarrow>
   fst (import_reports pid ms d) = Inr 0 \<and> reports (snd (import_reports pid ms d)) = reports d"
proof (induction ms arbitrary: d)
  case (Cons m ms)
  then show ?case
    using Cons.IH[of "snd (db_now (snd (db_now (snd (new_id d)))))"] by (simp add: case_prod_beta Let_def)
qed simp

lemma ingest_commit_some:
  assumes "fst (ingest_commit pid g ms ups cf d) = Inr (Some n)"
  obtains p d3 d4 where "project_get pid d = Some p" "p_ingest_source p \<noteq> None" "p_ingest_generation p = g"
    "reports d3 = reports d" "projects d3 = projects d"
    "import_reports pid ms d3 = (Inr n, d4)" "reports (snd (ingest_commit pid g ms ups cf d)) = reports d4"
    "projects (snd (ingest_commit pid g ms ups cf d)) = projects d4"
proof -
  obtain p where p: "project_get pid d = Some p" "p_ingest_source p \<noteq> None" "p_ingest_generation p = g"
    using assms by (auto simp: ingest_commit_def split: option.splits if_splits)
  let ?d2 = "(snd (db_now d))\<lparr>ingest_state := delete_where
                (\<lambda>i. i_project_id i = pid \<and> i_generation i \<noteq> g) (ingest_state d)\<rparr>"
  let ?d3 = "if pid \<in> i_project_id ` set (ingest_state ?d2) then ?d2
             else ?d2\<lparr>ingest_state := ingest_state ?d2 @ [new_ingest_row pid g (fst (db_now d))]\<rparr>"
  have d3: "reports ?d3 = reports d" "projects ?d3 = projects d" by simp_all
  have eq: "ingest_commit pid g ms ups cf d = (case import_reports pid ms ?d3 of
        (Inl e, d4) \<Rightarrow> (Inl e, rollback_to d d4)
      | (Inr inserted, d4) \<Rightarrow> (Inr (Some inserted),
           d4\<lparr>ingest_state := update_where (\<lambda>i. i_project_id i = pid)
             (\<lambda>i. (fold set_ingest_field ups i)\<lparr>i_imported_total := i_imported_total i + inserted,
                i_consecutive_failures := (if cf then i_consecutive_failures i + 1
                  else i_consecutive_failures (fold set_ingest_field ups i))\<rparr>) (ingest_state d4)\<rparr>))"
    using p by (simp only: ingest_commit_def case_prod_beta Let_def option.case now_frame db.simps
        simp_thms if_False if_True snd_conv fst_conv)
  obtain res d4 where i: "import_reports pid ms ?d3 = (res, d4)" by fastforce
  from assms eq i have "res = Inr n" by (cases res) auto
  then show thesis using that[OF p d3, of d4] i eq by simp
qed

lemma ingest_commit_replay:
  assumes "project_get pid d = Some p" and "p_ingest_source p \<noteq> None" and "p_ingest_generation p = g"
    and "list_all (\<lambda>m. has_external pid (im_external_id m) d) ms"
  shows "fst (ingest_commit pid g ms ups cf d) = Inr (Some 0)
    \<and> reports (snd (ingest_commit pid g ms ups cf d)) = reports d"
proof -
  have "fst (import_reports pid ms e) = Inr 0 \<and> reports (snd (import_reports pid ms e)) = reports d"
    if "reports e = reports d" for e
    using import_reports_replay[of pid e ms] assms(4) that by (simp add: has_external_def)
  then show ?thesis
    using assms(1-3) by (simp add: ingest_commit_def case_prod_beta Let_def split: sum.split)
qed

lemma ingest_commit_stale:
  "\<not> (\<exists>p. project_get pid d = Some p \<and> p_ingest_source p \<noteq> None \<and> p_ingest_generation p = g) \<Longrightarrow>
   ingest_commit pid g ms ups cf d = (Inr None, d)"
  by (auto simp: ingest_commit_def split: option.split)

lemma ingest_commit_error:
  "fst (ingest_commit pid g ms ups cf d) = Inl e \<Longrightarrow> same_tables d (snd (ingest_commit pid g ms ups cf d))"
  by (auto simp: ingest_commit_def case_prod_beta Let_def same_tables_def split: option.splits sum.splits if_splits)

section \<open>Lemmas on the action ledger\<close>

definition actions_ok :: "db \<Rightarrow> bool" where
  "actions_ok d \<longleftrightarrow> distinct (map t_action_id (triage_actions d))"

lemma action_get_find: "triage_action_get aid d = find (\<lambda>t. t_action_id t = aid) (triage_actions d)"
  by (simp add: triage_action_get_def fetchone_filter)

lemma update_actions_frame [simp]:
  "projects (snd (update_actions P f d)) = projects d" "reports (snd (update_actions P f d)) = reports d"
  "analyses (snd (update_actions P f d)) = analyses d"
  "fix_proposals (snd (update_actions P f d)) = fix_proposals d"
  "triage_results (snd (update_actions P f d)) = triage_results d"
  "triage_actions (snd (update_actions P f d)) = update_where P f (triage_actions d)"
  "fst (update_actions P f d) = rowcount P (triage_actions d)"
  by (simp_all add: update_actions_def)

lemma update_actions_get:
  "(\<And>t. t_action_id (f t) = t_action_id t) \<Longrightarrow>
   triage_action_get aid (snd (update_actions (\<lambda>t. t_action_id t = k \<and> Q t) f d)) =
     (if aid = k then map_option (\<lambda>t. if Q t then f t else t) (triage_action_get k d)
      else triage_action_get aid d)"
  by (simp add: action_get_find find_update_cond)

lemma action_rowcount_one:
  "actions_ok d \<Longrightarrow> rowcount (\<lambda>t. t_action_id t = aid \<and> Q t) (triage_actions d) = Suc 0
     \<longleftrightarrow> (case triage_action_get aid d of None \<Rightarrow> False | Some t \<Rightarrow> Q t)"
  by (simp add: actions_ok_def rowcount_key action_get_find split: option.split)

lemma set_action_field_id [simp]: "t_action_id (fold set_action_field args t) = t_action_id t"
proof -
  have "t_action_id (set_action_field a t) = t_action_id t" for a t by (cases a) simp_all
  then show ?thesis by (induction args arbitrary: t) simp_all
qed

lemma action_now [simp]:
  "triage_action_get aid (snd (db_now d)) = triage_action_get aid d" "actions_ok (snd (db_now d)) = actions_ok d"
  by (simp_all add: action_get_find actions_ok_def)

lemma action_update_get [claim_simps]:
  "triage_action_get x (snd (triage_action_update aid e args d)) =
     (if x = aid then map_option (\<lambda>t. if case e of None \<Rightarrow> True | Some p \<Rightarrow> t_phase t = p
        then fold set_action_field args t else t) (triage_action_get aid d) else triage_action_get x d)"
  by (simp add: triage_action_update_def case_prod_beta Let_def update_actions_get)

lemma action_update_won [claim_simps]:
  "actions_ok d \<Longrightarrow> fst (triage_action_update aid e args d) \<longleftrightarrow>
     (case triage_action_get aid d of None \<Rightarrow> False
      | Some t \<Rightarrow> (case e of None \<Rightarrow> True | Some p \<Rightarrow> t_phase t = p))"
  by (simp add: triage_action_update_def case_prod_beta Let_def action_rowcount_one)

lemma action_update_ok [claim_simps]: "actions_ok (snd (triage_action_update aid e args d)) = actions_ok d"
  by (simp add: triage_action_update_def case_prod_beta Let_def actions_ok_def)

lemma finish_get [claim_simps]:
  "triage_action_get x (snd (triage_action_finish aid oc msg steps e d)) =
     (if x = aid then map_option (\<lambda>t. if t_phase t \<noteq> FINISHED \<and> (case e of None \<Rightarrow> True | Some p \<Rightarrow> t_phase t = p)
        then t\<lparr>t_phase := FINISHED, t_outcome := Some oc, t_message := msg, t_steps := steps,
               t_finished_at := Some (fst (db_now d))\<rparr> else t) (triage_action_get aid d)
      else triage_action_get x d)"
  by (simp add: triage_action_finish_def case_prod_beta Let_def update_actions_get)

lemma finish_won [claim_simps]:
  "actions_ok d \<Longrightarrow> fst (triage_action_finish aid oc msg steps e d) \<longleftrightarrow>
     (case triage_action_get aid d of None \<Rightarrow> False
      | Some t \<Rightarrow> t_phase t \<noteq> FINISHED \<and> (case e of None \<Rightarrow> True | Some p \<Rightarrow> t_phase t = p))"
  by (simp add: triage_action_finish_def case_prod_beta Let_def action_rowcount_one)

lemma finish_ok [claim_simps]: "actions_ok (snd (triage_action_finish aid oc msg steps e d)) = actions_ok d"
  by (simp add: triage_action_finish_def case_prod_beta Let_def actions_ok_def)

text \<open>A phase move that sets nothing but the phase and fields beside it is a compare-and-set.\<close>

definition phase_cell :: "string \<Rightarrow> db \<Rightarrow> ledger_phase option" where
  "phase_cell aid d = map_option t_phase (triage_action_get aid d)"

definition move_phase :: "string \<Rightarrow> ledger_phase \<Rightarrow> ledger_phase \<Rightarrow> db \<Rightarrow> bool \<times> db" where
  "move_phase aid n e d = triage_action_update aid (Some e) [TF_phase n] d"

interpretation phase_cas: compare_and_set "phase_cell aid" "\<lambda>n. n" "move_phase aid" actions_ok for aid
proof unfold_locales
  fix s c and e :: ledger_phase
  assume "actions_ok s"
  then show "fst (move_phase aid c e s) \<longleftrightarrow> phase_cell aid s = Some e"
    and "actions_ok (snd (move_phase aid c e s))"
    and "phase_cell aid s = Some e \<Longrightarrow> phase_cell aid (snd (move_phase aid c e s)) = Some c"
    and "phase_cell aid s \<noteq> Some e \<Longrightarrow> phase_cell aid (snd (move_phase aid c e s)) = phase_cell aid s"
    by (cases "triage_action_get aid s"; simp add: move_phase_def phase_cell_def claim_simps)+
qed

interpretation action_rows: row_store "\<lambda>d aid. triage_action_get aid d"
    "\<lambda>aid f d. snd (update_actions (\<lambda>t. t_action_id t = aid) f d)" "\<lambda>f. \<forall>t. t_action_id (f t) = t_action_id t"
  by unfold_locales (simp_all add: action_get_find find_update_key)

text \<open>Attempts on one action's outcome, mixed with ledger updates that keep out of the finished phase.\<close>

datatype outcome_op =
    Op_finish string "string option" "json option" "ledger_phase option"
  | Op_reopen string string
  | Op_update ledger_phase "action_field list"

fun run_op :: "string \<Rightarrow> outcome_op \<Rightarrow> db \<Rightarrow> bool \<times> db" where
  "run_op aid (Op_finish oc msg steps e) d = triage_action_finish aid oc msg steps e d"
| "run_op aid (Op_reopen rid msg) d = (case reopen_for_action rid aid msg d of (r, d1) \<Rightarrow> (r = Reopened, d1))"
| "run_op aid (Op_update e args) d =
     (if e = FINISHED then (False, d) else (False, snd (triage_action_update aid (Some e) args d)))"

fun run_ops :: "string \<Rightarrow> outcome_op list \<Rightarrow> db \<Rightarrow> bool list \<times> db" where
  "run_ops aid [] d = ([], d)"
| "run_ops aid (c # cs) d = (let (w, d1) = run_op aid c d; (ws, d2) = run_ops aid cs d1 in (w # ws, d2))"

lemma reopen_cases:
  assumes "ids_ok d" and "actions_ok d"
  shows "case report_get rid d of
      Some r \<Rightarrow> if r_status r = CLOSED \<and> (case triage_action_get aid d of None \<Rightarrow> False | Some t \<Rightarrow> t_phase t = DISPATCHED)
        then fst (reopen_for_action rid aid msg d) = Reopened
          \<and> report_get rid (snd (reopen_for_action rid aid msg d))
              = Some (r\<lparr>r_status := TRIAGED, r_resolution_reason := None, r_updated_at := fst (db_now d)\<rparr>)
          \<and> triage_action_get aid (snd (reopen_for_action rid aid msg d))
              = map_option (\<lambda>t. t\<lparr>t_phase := FINISHED, t_outcome := Some ''done'', t_message := Some msg,
                   t_steps := None, t_finished_at := Some (fst (db_now d))\<rparr>) (triage_action_get aid d)
        else fst (reopen_for_action rid aid msg d) = (if r_status r = CLOSED then Ledger_moved else Not_closed)
          \<and> same_tables d (snd (reopen_for_action rid aid msg d))
    | None \<Rightarrow> fst (reopen_for_action rid aid msg d) = Not_closed
          \<and> same_tables d (snd (reopen_for_action rid aid msg d))"
proof -
  have rc: "rowcount (\<lambda>r. r_id r = rid \<and> r_status r = CLOSED) (reports d) = Suc 0
      \<longleftrightarrow> (case report_get rid d of None \<Rightarrow> False | Some r \<Rightarrow> r_status r = CLOSED)"
    using assms(1) by (simp add: ids_ok_def rowcount_one)
  have ac: "rowcount (\<lambda>t. t_action_id t = aid \<and> t_phase t = DISPATCHED) (triage_actions d) = Suc 0
      \<longleftrightarrow> (case triage_action_get aid d of None \<Rightarrow> False | Some t \<Rightarrow> t_phase t = DISPATCHED)"
    using assms(2) by (rule action_rowcount_one)
  have fr: "triage_action_get aid (snd (update_reports P g e)) = triage_action_get aid e"
      "report_get rid (snd (update_actions Q h e)) = report_get rid e" for P g Q h e
    by (simp_all add: action_get_find report_get_find)
  show ?thesis
    by (cases "report_get rid d"; cases "triage_action_get aid d")
       (simp_all add: reopen_for_action_def case_prod_beta Let_def rc ac same_tables_rollback fr
          update_reports_get update_actions_get)
qed

lemma reopen_keeps:
  "ids_ok (snd (reopen_for_action rid aid msg d)) = ids_ok d"
  "actions_ok (snd (reopen_for_action rid aid msg d)) = actions_ok d"
  by (simp_all add: reopen_for_action_def case_prod_beta Let_def ids_ok_def actions_ok_def)

lemma run_op_keeps: "ids_ok d \<and> actions_ok d \<Longrightarrow> ids_ok (snd (run_op aid c d)) \<and> actions_ok (snd (run_op aid c d))"
proof (cases c)
  case (Op_finish oc msg steps e)
  moreover have "ids_ok (snd (triage_action_finish aid oc msg steps e d)) = ids_ok d"
    by (simp add: triage_action_finish_def case_prod_beta Let_def ids_ok_def)
  moreover assume "ids_ok d \<and> actions_ok d"
  ultimately show ?thesis by (simp add: finish_ok)
next
  case (Op_reopen rid msg)
  moreover assume "ids_ok d \<and> actions_ok d"
  ultimately show ?thesis by (simp add: reopen_keeps case_prod_beta)
next
  case (Op_update e args)
  moreover have "ids_ok (snd (triage_action_update aid (Some e) args d)) = ids_ok d"
    by (simp add: triage_action_update_def case_prod_beta Let_def ids_ok_def)
  moreover assume "ids_ok d \<and> actions_ok d"
  ultimately show ?thesis by (simp add: action_update_ok)
qed

lemma run_op_finished:
  assumes "ids_ok d" and "actions_ok d" and "triage_action_get aid d = Some t" and "t_phase t = FINISHED"
  shows "fst (run_op aid c d) = False \<and> triage_action_get aid (snd (run_op aid c d)) = Some t"
proof (cases c)
  case (Op_finish oc msg steps e)
  then show ?thesis using assms by (simp add: finish_won finish_get)
next
  case (Op_reopen rid msg)
  have "fst (reopen_for_action rid aid msg d) \<noteq> Reopened \<and> same_tables d (snd (reopen_for_action rid aid msg d))"
    using reopen_cases[OF assms(1,2), of rid aid msg] assms(3,4)
    by (cases "report_get rid d") (auto split: if_splits)
  then show ?thesis
    using assms(3) Op_reopen by (simp add: case_prod_beta same_tables_def action_get_find)
next
  case (Op_update e args)
  then show ?thesis using assms by (simp add: action_update_get)
qed

lemma run_op_won:
  assumes "ids_ok d" and "actions_ok d" and "fst (run_op aid c d)"
  shows "\<exists>t. triage_action_get aid (snd (run_op aid c d)) = Some t \<and> t_phase t = FINISHED"
proof (cases c)
  case (Op_finish oc msg steps e)
  then show ?thesis using assms by (cases "triage_action_get aid d") (auto simp: finish_won finish_get)
next
  case (Op_reopen rid msg)
  then show ?thesis
    using reopen_cases[OF assms(1,2), of rid aid msg] assms(3)
    by (cases "report_get rid d"; cases "triage_action_get aid d")
       (auto simp: case_prod_beta split: if_splits)
next
  case (Op_update e args)
  then show ?thesis using assms by (simp split: if_splits)
qed

lemma run_ops_finished:
  "ids_ok d \<Longrightarrow> actions_ok d \<Longrightarrow> triage_action_get aid d = Some t \<Longrightarrow> t_phase t = FINISHED \<Longrightarrow>
   filter (\<lambda>w. w) (fst (run_ops aid ops d)) = [] \<and> triage_action_get aid (snd (run_ops aid ops d)) = Some t"
proof (induction ops arbitrary: d)
  case (Cons c ops)
  have f: "fst (run_op aid c d) = False" "triage_action_get aid (snd (run_op aid c d)) = Some t"
    using run_op_finished[OF Cons.prems] by blast+
  have k: "ids_ok (snd (run_op aid c d))" "actions_ok (snd (run_op aid c d))"
    using run_op_keeps Cons.prems(1,2) by blast+
  from Cons.IH[OF k f(2) Cons.prems(4)] f(1) show ?case by (simp add: case_prod_beta Let_def)
qed simp

lemma run_ops_once:
  "ids_ok d \<Longrightarrow> actions_ok d \<Longrightarrow> length (filter (\<lambda>w. w) (fst (run_ops aid ops d))) \<le> 1"
proof (induction ops arbitrary: d)
  case (Cons c ops)
  have k: "ids_ok (snd (run_op aid c d))" "actions_ok (snd (run_op aid c d))"
    using run_op_keeps Cons.prems by blast+
  show ?case
  proof (cases "fst (run_op aid c d)")
    case True
    then obtain t where "triage_action_get aid (snd (run_op aid c d)) = Some t" "t_phase t = FINISHED"
      using run_op_won[OF Cons.prems] by blast
    from run_ops_finished[OF k this] True show ?thesis by (simp add: case_prod_beta Let_def)
  next
    case False
    with Cons.IH[OF k] show ?thesis by (simp add: case_prod_beta Let_def)
  qed
qed simp

section \<open>Properties\<close>

text \<open>
  C23.  One poll step is fenced and exactly once.  If the project is gone, has no source or moved to
  another generation, nothing at all changes.  If a statement fails, every table is as before.
  Otherwise the existing reports stay as they are, exactly the reported number of new ones is
  appended, each belonging to the project and submitted, every row of the page is then present, no
  external id is stored twice, and replaying the page, with any bookkeeping, imports nothing.
\<close>

theorem ingest_commit_exactly_once:
  assumes "external_ok d" and "ids_ok d" and "(res, d') = ingest_commit pid g ms ups cf d"
  shows "if \<not> (\<exists>p. project_get pid d = Some p \<and> p_ingest_source p \<noteq> None \<and> p_ingest_generation p = g)
    then res = Inr None \<and> d' = d
    else case res of
      Inl e \<Rightarrow> same_tables d d'
    | Inr None \<Rightarrow> False
    | Inr (Some n) \<Rightarrow> (\<exists>new. reports d' = reports d @ new \<and> length new = n
          \<and> list_all (\<lambda>r. r_project_id r = pid \<and> r_status r = SUBMITTED) new)
        \<and> list_all (\<lambda>m. has_external pid (im_external_id m) d') ms \<and> external_ok d' \<and> ids_ok d'
        \<and> (\<forall>ups2 cf2. fst (ingest_commit pid g ms ups2 cf2 d') = Inr (Some 0)
             \<and> reports (snd (ingest_commit pid g ms ups2 cf2 d')) = reports d')"
proof (cases "\<exists>p. project_get pid d = Some p \<and> p_ingest_source p \<noteq> None \<and> p_ingest_generation p = g")
  case False
  then show ?thesis using ingest_commit_stale[OF False, of ms ups cf] assms(3) by simp
next
  case True
  have res: "res = fst (ingest_commit pid g ms ups cf d)" and d': "d' = snd (ingest_commit pid g ms ups cf d)"
    using assms(3) by (metis fst_conv snd_conv)+
  show ?thesis
  proof (cases res)
    case (Inl e)
    then show ?thesis using True ingest_commit_error[of pid g ms ups cf d e] res d' by simp
  next
    case (Inr x)
    have "x \<noteq> None" using True Inr res
      by (auto simp: ingest_commit_def case_prod_beta Let_def split: sum.splits)
    then obtain n where n: "fst (ingest_commit pid g ms ups cf d) = Inr (Some n)" using Inr res by auto
    obtain p d3 d4 where p: "project_get pid d = Some p" "p_ingest_source p \<noteq> None" "p_ingest_generation p = g"
      and d3: "reports d3 = reports d" "projects d3 = projects d"
      and i: "import_reports pid ms d3 = (Inr n, d4)"
      and d4: "reports d' = reports d4" "projects d' = projects d4"
      using ingest_commit_some[OF n] unfolding d' by metis
    have "external_ok d3 \<and> ids_ok d3" using assms(1,2) d3 by (simp add: external_ok_def ids_ok_def)
    note rows = import_reports_rows[OF i this]
    have all: "list_all (\<lambda>m. has_external pid (im_external_id m) d') ms"
      using rows d4 by (simp add: has_external_def)
    have "project_get pid d' = Some p" using p(1) rows d4 d3 by (simp add: project_get_def)
    note replay = ingest_commit_replay[OF this p(2,3) all]
    show ?thesis
      using True rows all d3 d4 replay n res by (simp add: external_ok_def ids_ok_def)
  qed
qed

theorem ingest_commit_exactly_once_witness:
  "let d = init_db\<lparr>projects := [(blank_project ''x'' 1)\<lparr>p_ingest_source := Some ''supabase''\<rparr>]\<rparr>;
       m = \<lparr>im_title = ''t'', im_description = ''d'', im_reporter = ''r'', im_severity = None,
            im_environment = None, im_attachments = None, im_labels = None, im_source = ''supabase'',
            im_external_id = ''e1''\<rparr>
   in fst (ingest_commit ''x'' 0 [m, m] [] False d) = Inr (Some 1)
      \<and> fst (ingest_commit ''x'' 0 [m, m] [] True (snd (ingest_commit ''x'' 0 [m, m] [] False d))) = Inr (Some 0)
      \<and> ingest_commit ''x'' 1 [m] [] False d = (Inr None, d)"
proof -
  let ?d = "init_db\<lparr>projects := [(blank_project ''x'' 1)\<lparr>p_ingest_source := Some ''supabase''\<rparr>]\<rparr>"
  let ?m = "\<lparr>im_title = ''t'', im_description = ''d'', im_reporter = ''r'', im_severity = None,
            im_environment = None, im_attachments = None, im_labels = None, im_source = ''supabase'',
            im_external_id = ''e1''\<rparr>"
  have ok: "external_ok ?d" "ids_ok ?d" by (simp_all add: external_ok_def ids_ok_def init_db_def)
  have g: "project_get ''x'' ?d = Some ((blank_project ''x'' 1)\<lparr>p_ingest_source := Some ''supabase''\<rparr>)"
    by (simp add: project_get_def blank_project_def)
  have one: "fst (ingest_commit ''x'' 0 [?m, ?m] [] False ?d) = Inr (Some 1)"
    by code_simp
  show ?thesis
    using ingest_commit_exactly_once[OF ok prod.collapse, of "''x''" 0 "[?m, ?m]" "[]" False] one
      ingest_commit_exactly_once[OF ok prod.collapse, of "''x''" 1 "[?m]" "[]" False] g
    by (simp add: Let_def blank_project_def prod_eq_iff)
qed



text \<open>
  C31.  A reopen is atomic with its outcome.  The report leaves \<open>closed\<close> if and only if the action's
  ledger row was still dispatched, and then the row is finished as done in the same step; in every
  other case (the report in another status, the action timed out or finished meanwhile) no table
  changes and the answer says which it was.
\<close>

theorem reopen_atomic_with_outcome:
  assumes "ids_ok d" and "actions_ok d" and "report_get rid d = Some r" and "triage_action_get aid d = Some t"
    and "(res, d') = reopen_for_action rid aid msg d"
  shows "if r_status r = CLOSED \<and> t_phase t = DISPATCHED
    then res = Reopened \<and> map_option r_status (report_get rid d') = Some TRIAGED
      \<and> map_option r_resolution_reason (report_get rid d') = Some None
      \<and> map_option t_phase (triage_action_get aid d') = Some FINISHED
      \<and> map_option t_outcome (triage_action_get aid d') = Some (Some ''done'')
    else res = (if r_status r = CLOSED then Ledger_moved else Not_closed) \<and> same_tables d d'"
  using reopen_cases[OF assms(1,2), of rid aid msg] assms(3,4)
    arg_cong[OF assms(5), of fst] arg_cong[OF assms(5), of snd]
  by (cases "r_status r = CLOSED \<and> t_phase t = DISPATCHED") auto

theorem reopen_atomic_with_outcome_witness:
  "let d = snd (triage_action_reserve ''a'' ''x'' ''r'' ''reopen'' JNull None
         (init_db\<lparr>reports := [(blank_report ''r'' ''x'' 5)\<lparr>r_status := CLOSED\<rparr>]\<rparr>))
   in fst (reopen_for_action ''r'' ''a'' ''m'' d) = Ledger_moved"
proof -
  let ?d = "snd (triage_action_reserve ''a'' ''x'' ''r'' ''reopen'' JNull None
         (init_db\<lparr>reports := [(blank_report ''r'' ''x'' 5)\<lparr>r_status := CLOSED\<rparr>]\<rparr>))"
  have ok: "ids_ok ?d" "actions_ok ?d"
    by (simp_all add: triage_action_reserve_def case_prod_beta Let_def ids_ok_def actions_ok_def init_db_def)
  have r: "report_get ''r'' ?d = Some ((blank_report ''r'' ''x'' 5)\<lparr>r_status := CLOSED\<rparr>)"
    by (simp add: triage_action_reserve_def case_prod_beta Let_def report_get_def blank_report_def)
  obtain t where t: "triage_action_get ''a'' ?d = Some t" "t_phase t = RESERVED"
    by (auto simp: triage_action_reserve_def case_prod_beta Let_def triage_action_get_def init_db_def)
  from reopen_atomic_with_outcome[OF ok r t(1) prod.collapse, of "''m''"] t(2)
  show ?thesis by (simp add: Let_def)
qed

end
