(* ===== verification/Scrub.thy ===== *)
theory Scrub
  imports Prelude
begin

text \<open>
  Replacing secrets in text: \<open>str.replace\<close>, and what every substitution used here guarantees.  A
  \<open>scrubber\<close> walks a text from the left and at each position either copies one character or drops a
  part, leaving a piece of it and a marker.  Nothing absent from the input can then appear in the
  output, unless the marker itself could make it up.
\<close>

section \<open>Markers\<close>

lemma prefix_before: "c \<notin> set p \<Longrightarrow> prefix p (k @ c # t) \<Longrightarrow> prefix p k"
proof (induction k arbitrary: p)
  case (Nil p)
  then show ?case by (cases p) simp_all
next
  case (Cons x k p)
  then show ?case by (cases p) simp_all
qed

lemma sublist_skip: "c \<notin> set p \<Longrightarrow> p \<noteq> [] \<Longrightarrow> sublist p (c # t) \<Longrightarrow> sublist p t"
proof -
  assume p: "c \<notin> set p" "p \<noteq> []" and s: "sublist p (c # t)"
  from s have "prefix p (c # t) \<or> sublist p t" by (simp only: sublist_Cons_right)
  moreover have "\<not> prefix p (c # t)" using p by (cases p) auto
  ultimately show ?thesis by blast
qed

text \<open>\<open>safe p\<close>: no part of \<open>p\<close> is made of the marker's own text.\<close>

locale marker =
  fixes rep :: string and safe :: "string \<Rightarrow> bool"
  assumes rep_nonempty: "rep \<noteq> []"
    and safe_nonempty: "safe p \<Longrightarrow> p \<noteq> []"
    and safe_first: "safe p \<Longrightarrow> hd rep \<notin> set p"
    and safe_rest: "safe p \<Longrightarrow> sublist p (rep @ t) \<Longrightarrow> sublist p t"
begin

lemma prefix_cut: "hd rep \<notin> set p \<Longrightarrow> prefix p (k @ rep @ t) \<Longrightarrow> prefix p k"
  using prefix_before[of "hd rep" p k "tl rep @ t"] rep_nonempty by (cases rep) auto

lemma sublist_cut:
  assumes "safe p" and "sublist p (k @ rep @ t)"
  shows "sublist p k \<or> sublist p t"
  using assms(2)
proof (induction k)
  case Nil
  then show ?case using safe_rest[OF assms(1), of t] by simp
next
  case (Cons x k)
  then have "prefix p ((x # k) @ rep @ t) \<or> sublist p (k @ rep @ t)" by (simp add: sublist_Cons_right)
  then show ?case
  proof
    assume "prefix p ((x # k) @ rep @ t)"
    from prefix_cut[OF safe_first[OF assms(1)] this] show ?thesis by blast
  next
    assume "sublist p (k @ rep @ t)"
    with Cons.IH show ?thesis by (auto simp: sublist_Cons_right)
  qed
qed

end

locale scrubber = marker +
  fixes g :: "string \<Rightarrow> string"
  assumes scrub_nil: "g [] = []"
    and scrub_step: "(\<exists>k t. g (c # s) = k @ rep @ g t \<and> prefix k (c # s) \<and> suffix t s) \<or> g (c # s) = c # g s"
begin

lemma prefix_kept: "hd rep \<notin> set p \<Longrightarrow> prefix p (g s) \<Longrightarrow> prefix p s"
proof (induction p arbitrary: s)
  case (Cons c p)
  show ?case
  proof (cases s)
    case Nil
    then show ?thesis using Cons.prems scrub_nil by simp
  next
    case s: (Cons x xs)
    show ?thesis
    proof (cases "g s = x # g xs")
      case True
      then show ?thesis using Cons s by simp
    next
      case False
      then obtain k t where "g s = k @ rep @ g t" "prefix k s" using scrub_step[of x xs] s by blast
      then show ?thesis using prefix_cut[OF Cons.prems(1)] Cons.prems(2) by (metis prefix_order.trans)
    qed
  qed
qed simp

lemma absent_kept:
  assumes "safe p" and "sublist p (g s)"
  shows "sublist p s"
  using assms(2)
proof (induction s rule: length_induct)
  case (1 s)
  show ?case
  proof (cases s)
    case Nil
    then show ?thesis using 1 scrub_nil by simp
  next
    case s: (Cons x xs)
    show ?thesis
    proof (cases "g s = x # g xs")
      case True
      then have "prefix p (g s) \<or> sublist p (g xs)" using 1(2) by (simp add: sublist_Cons_right)
      then show ?thesis
        using prefix_kept[OF safe_first[OF assms(1)]] 1(1) s by (auto simp: sublist_Cons_right)
    next
      case False
      then obtain k t where kt: "g s = k @ rep @ g t" "prefix k s" "suffix t xs"
        using scrub_step[of x xs] s by blast
      then have "length t < length s" using s by (auto dest: suffix_length_le)
      moreover have "sublist p k \<or> sublist p (g t)" using sublist_cut[OF assms(1)] 1(2) kt(1) by simp
      ultimately have "sublist p k \<or> sublist p t" using 1(1) by blast
      moreover have "sublist k s" "sublist t s"
        using kt s by (auto intro: prefix_imp_sublist suffix_imp_sublist simp: suffix_ConsI)
      ultimately show ?thesis by (meson sublist_order.order.trans)
    qed
  qed
qed

end

section \<open>Replacing one text by another\<close>

text \<open>\<open>text.replace(pat, rep)\<close> for a non-empty pattern.\<close>

function replace_all :: "string \<Rightarrow> string \<Rightarrow> string \<Rightarrow> string" where
  "replace_all pat rep s =
     (if pat = [] \<or> s = [] then s
      else if starts_with pat s then rep @ replace_all pat rep (drop (length pat) s)
      else hd s # replace_all pat rep (tl s))"
  by pat_completeness auto
termination by (relation "measure (\<lambda>(_, _, s). length s)") auto

declare replace_all.simps [simp del]

lemma replace_all_nil [simp]: "replace_all pat rep [] = []"
  by (subst replace_all.simps) simp

lemma replace_all_hit:
  "pat \<noteq> [] \<Longrightarrow> starts_with pat s \<Longrightarrow> s \<noteq> [] \<Longrightarrow> replace_all pat rep s = rep @ replace_all pat rep (drop (length pat) s)"
  by (subst replace_all.simps) simp

lemma replace_all_miss:
  "pat \<noteq> [] \<Longrightarrow> \<not> starts_with pat (c # s) \<Longrightarrow> replace_all pat rep (c # s) = c # replace_all pat rep s"
  by (subst replace_all.simps) simp

lemma replace_all_empty [simp]: "replace_all [] rep s = s"
  by (subst replace_all.simps) simp

lemma prefix_starts: "starts_with p s \<longleftrightarrow> prefix p s"
  by (simp add: starts_with_iff prefix_def)

lemma suffix_drop_Cons: "n > 0 \<Longrightarrow> suffix (drop n (c # s)) s"
  by (cases n) (simp_all add: suffix_drop)

lemma replace_all_step:
  "(\<exists>k t. replace_all pat rep (c # s) = k @ rep @ replace_all pat rep t \<and> prefix k (c # s) \<and> suffix t s)
   \<or> replace_all pat rep (c # s) = c # replace_all pat rep s"
proof (cases "pat \<noteq> [] \<and> starts_with pat (c # s)")
  case True
  then have "replace_all pat rep (c # s) = [] @ rep @ replace_all pat rep (drop (length pat) (c # s))"
    by (simp add: replace_all_hit)
  moreover have "suffix (drop (length pat) (c # s)) s" using True by (intro suffix_drop_Cons) simp
  ultimately show ?thesis by (metis Nil_prefix)
next
  case False
  then show ?thesis by (cases "pat = []") (auto simp: replace_all_miss)
qed

context marker
begin

lemma replaces: "scrubber rep safe (replace_all pat rep)"
  by unfold_locales (simp, rule replace_all_step)

text \<open>After the replacement the secret occurs nowhere.\<close>

lemma replace_all_removes:
  assumes "safe pat"
  shows "\<not> sublist pat (replace_all pat rep s)"
proof (induction s rule: length_induct)
  case (1 s)
  note ne = safe_nonempty[OF assms]
  show ?case
  proof (cases s)
    case Nil
    then show ?thesis using ne by simp
  next
    case s: (Cons x xs)
    show ?thesis
    proof (cases "starts_with pat s")
      case True
      have len: "length (drop (length pat) s) < length s" using ne s by (simp add: Suc_leI)
      then have "\<not> sublist pat (replace_all pat rep (drop (length pat) s))" using 1 by blast
      then show ?thesis using True ne s safe_rest[OF assms] by (auto simp: replace_all_hit)
    next
      case False
      then have out: "replace_all pat rep s = x # replace_all pat rep xs"
        using ne s by (simp add: replace_all_miss)
      have "\<not> prefix pat (replace_all pat rep s)"
        using scrubber.prefix_kept[OF replaces safe_first[OF assms]] False by (auto simp: prefix_starts)
      moreover have "\<not> sublist pat (replace_all pat rep xs)" using 1 s by simp
      ultimately show ?thesis by (simp add: out sublist_Cons_right)
    qed
  qed
qed

end

section \<open>The two markers\<close>

text \<open>Three stars, for a text without a star.\<close>

definition star_free :: "string \<Rightarrow> bool" where
  "star_free p \<longleftrightarrow> p \<noteq> [] \<and> CHR ''*'' \<notin> set p"

interpretation stars: marker "''***''" star_free
proof
  fix p t assume p: "star_free p" and s: "sublist p (''***'' @ t)"
  note skip = sublist_skip[of "CHR ''*''" p]
  have "CHR ''*'' \<notin> set p" "p \<noteq> []" using p by (simp_all add: star_free_def)
  from skip[OF this] skip[OF this] skip[OF this] s show "sublist p t" by simp
qed (simp_all add: star_free_def)

interpretation star_replace: scrubber "''***''" star_free "replace_all pat ''***''" for pat
  by (rule stars.replaces)

text \<open>\<open>[redacted]\<close>, for a text without a bracket that is no part of the word.\<close>

definition word_free :: "string \<Rightarrow> bool" where
  "word_free p \<longleftrightarrow> p \<noteq> [] \<and> CHR ''['' \<notin> set p \<and> CHR '']'' \<notin> set p \<and> \<not> sublist p ''redacted''"

lemma sublist_across:
  assumes "c \<notin> set p" and "p \<noteq> []" and "sublist p (k @ c # t)"
  shows "sublist p k \<or> sublist p t"
  using assms(3)
proof (induction k)
  case Nil
  then show ?case using sublist_skip[OF assms(1,2)] by simp
next
  case (Cons x k)
  then have "prefix p ((x # k) @ c # t) \<or> sublist p (k @ c # t)" by (simp add: sublist_Cons_right)
  then show ?case
  proof
    assume "prefix p ((x # k) @ c # t)"
    from prefix_before[OF assms(1) this] show ?thesis by blast
  next
    assume "sublist p (k @ c # t)"
    with Cons.IH show ?thesis by (simp add: sublist_Cons_right)
  qed
qed

interpretation brackets: marker "''[redacted]''" word_free
proof
  fix p assume p: "word_free p"
  then show "p \<noteq> []" "hd ''[redacted]'' \<notin> set p" unfolding word_free_def by simp_all
  have c: "CHR ''['' \<notin> set p" "CHR '']'' \<notin> set p" "p \<noteq> []" "\<not> sublist p ''redacted''"
    using p unfolding word_free_def by blast+
  fix t assume "sublist p (''[redacted]'' @ t)"
  then have "sublist p (CHR ''['' # (''redacted'' @ CHR '']'' # t))" by (simp only: append.simps)
  from sublist_skip[OF c(1,3) this] have "sublist p (''redacted'' @ CHR '']'' # t)" .
  from sublist_across[OF c(2,3) this] c(4) show "sublist p t" by blast
qed simp

interpretation bracket_replace: scrubber "''[redacted]''" word_free "replace_all pat ''[redacted]''" for pat
  by (rule brackets.replaces)

end
