(* ===== verification/Git_Text.thy ===== *)
theory Git_Text
  imports Config Scrub
begin

text \<open>
  The text handling of \<open>git_ops/pull_request.py\<close>: which repository a URL names, which refs may be
  pushed, redaction of secrets from git's output, and reading diffs and \<open>git apply --numstat -z\<close>.
  Regular expressions are written out as the functions they denote; \<open>$\<close> also matches before one
  final newline.
\<close>

section \<open>Destination\<close>

definition no_final_newline :: "string \<Rightarrow> string" where
  "no_final_newline s = (if s \<noteq> [] \<and> last s = CHR 0x0A then butlast s else s)"

definition is_alnum :: "char \<Rightarrow> bool" where
  "is_alnum c \<longleftrightarrow> (CHR ''A'' \<le> c \<and> c \<le> CHR ''Z'') \<or> (CHR ''a'' \<le> c \<and> c \<le> CHR ''z'')
     \<or> (CHR ''0'' \<le> c \<and> c \<le> CHR ''9'')"

text \<open>\<open>^[class]+$\<close>.\<close>

definition all_in_class :: "(char \<Rightarrow> bool) \<Rightarrow> string \<Rightarrow> bool" where
  "all_in_class ok s \<longleftrightarrow>
     (s \<noteq> [] \<and> list_all ok s) \<or> (no_final_newline s \<noteq> [] \<and> list_all ok (no_final_newline s))"

definition SLUG_PART :: "string \<Rightarrow> bool" where
  "SLUG_PART = all_in_class (\<lambda>c. is_alnum c \<or> c \<in> set ''_.-'')"

definition SAFE_ID :: "string \<Rightarrow> bool" where
  "SAFE_ID = all_in_class (\<lambda>c. is_alnum c \<or> c \<in> set ''_-'')"

definition SAFE_BRANCH :: "string \<Rightarrow> bool" where
  "SAFE_BRANCH = all_in_class (\<lambda>c. is_alnum c \<or> c \<in> set ''._/-'')"

text \<open>\<open>([^/]+?)sfx$\<close> with the suffixes tried longest first, as the lazy group does.\<close>

fun lazy_body :: "string list \<Rightarrow> string \<Rightarrow> string option" where
  "lazy_body [] s = None"
| "lazy_body (sfx # ss) s =
     (let body = take (length s - length sfx) s
      in if ends_with sfx s \<and> body \<noteq> [] \<and> CHR ''/'' \<notin> set body then Some body
         else lazy_body ss s)"

definition slug_of :: "string list \<Rightarrow> string \<Rightarrow> (string \<times> string) option" where
  "slug_of sfxs rest =
     (let owner = takeWhile (\<lambda>c. c \<noteq> CHR ''/'') rest; tail = dropWhile (\<lambda>c. c \<noteq> CHR ''/'') rest
      in if owner = [] \<or> tail = [] then None
         else map_option (\<lambda>repo. (owner, repo)) (lazy_body sfxs (tl tail)))"

definition parse_github_slug :: "string \<Rightarrow> (string \<times> string) option" where
  "parse_github_slug repo_url =
     (let url = strip repo_url;
          m = (if starts_with ''https://github.com/'' url
               then slug_of [''.git/'', ''.git'', ''/'', []] (drop 19 url)
               else if starts_with ''git@github.com:'' url
               then slug_of [''.git'', []] (drop 15 url) else None)
      in case m of
           None \<Rightarrow> None
         | Some (owner, repo) \<Rightarrow>
             if list_all (\<lambda>part. SLUG_PART part \<and> part \<noteq> ''.'' \<and> part \<noteq> ''..'') [owner, repo]
             then Some (owner, repo) else None)"

definition canonical_url :: "string \<Rightarrow> string \<Rightarrow> string \<Rightarrow> string" where
  "canonical_url web_base owner repo =
     rev (dropWhile (\<lambda>c. c = CHR ''/'') (rev web_base)) @ ''/'' @ owner @ ''/'' @ repo @ ''.git''"

definition BRANCH_PREFIX :: string where
  "BRANCH_PREFIX = ''fix/bugalizer-''"

definition branch_for :: "string \<Rightarrow> string" where
  "branch_for rid = BRANCH_PREFIX @ rid"

text \<open>\<open>None\<close> when the push is allowed, else the \<open>PermissionError\<close>'s text.\<close>

definition assert_push_allowed :: "string \<Rightarrow> string \<Rightarrow> string option" where
  "assert_push_allowed target default_branch =
     (if target = ''refs/heads/'' @ default_branch \<or> target \<in> {default_branch, ''HEAD''}
      then Some ''push to the default branch is refused''
      else if \<not> starts_with (''refs/heads/'' @ BRANCH_PREFIX) target
      then Some ''push outside refs/heads/fix/bugalizer-* is refused''
      else if starts_with ''+'' target \<or> CHR '':'' \<in> set target
      then Some ''forced or compound push refspecs are refused''
      else None)"

section \<open>Redaction\<close>

definition b64_alphabet :: string where
  "b64_alphabet = ''ABCDEFGHIJKLMNOPQRSTUVWXYZabcdefghijklmnopqrstuvwxyz0123456789+/''"

definition b64_digit :: "nat \<Rightarrow> char" where
  "b64_digit n = b64_alphabet ! (n mod 64)"

fun b64encode :: "string \<Rightarrow> string" where
  "b64encode [] = []"
| "b64encode [a] = (let x = of_char a :: nat
     in [b64_digit (x div 4), b64_digit ((x mod 4) * 16), CHR ''='', CHR ''=''])"
| "b64encode [a, b] = (let x = of_char a :: nat; y = of_char b :: nat
     in [b64_digit (x div 4), b64_digit ((x mod 4) * 16 + y div 16), b64_digit ((y mod 16) * 4), CHR ''=''])"
| "b64encode (a # b # c # rest) = (let x = of_char a :: nat; y = of_char b :: nat; z = of_char c :: nat
     in b64_digit (x div 4) # b64_digit ((x mod 4) * 16 + y div 16)
        # b64_digit ((y mod 16) * 4 + z div 64) # b64_digit (z mod 64) # b64encode rest)"

definition auth_header :: "string \<Rightarrow> string" where
  "auth_header token = ''AUTHORIZATION: basic '' @ b64encode (''x-access-token:'' @ token)"

definition lower :: "char \<Rightarrow> char" where
  "lower c = (if CHR ''A'' \<le> c \<and> c \<le> CHR ''Z'' then char_of (of_char c + 32 :: nat) else c)"

text \<open>\<open>(?i)(authorization:\s*)[^\r\n]*\<close> replaced by its group and three stars.\<close>

function auth_line_sub :: "string \<Rightarrow> string" where
  "auth_line_sub s =
     (if s = [] then []
      else if starts_with ''authorization:'' (map lower s) then
        (let rest = drop 14 s; spaces = takeWhile is_space rest; value = dropWhile is_space rest
         in take 14 s @ spaces @ ''***''
            @ auth_line_sub (dropWhile (\<lambda>c. c \<noteq> CHR 0x0D \<and> c \<noteq> CHR 0x0A) value))
      else hd s # auth_line_sub (tl s))"
  by pat_completeness auto
termination
proof (relation "measure length", goal_cases)
  case (2 s rest spaces val)
  have "length (dropWhile (\<lambda>c. c \<noteq> CHR 0x0D \<and> c \<noteq> CHR 0x0A) val) \<le> length val"
    by (simp add: length_dropWhile_le)
  also have "\<dots> \<le> length rest" using 2 length_dropWhile_le[of is_space "drop 14 s"] by simp
  also have "\<dots> < length s" using 2 by (cases s) auto
  finally show ?case by simp
qed auto

declare auth_line_sub.simps [simp del]

definition redact :: "string option \<Rightarrow> string option \<Rightarrow> string" where
  "redact text token =
     (if \<not> str_set text then []
      else
        (let out = the text;
             out1 = (if str_set token
                     then replace_all (the token) ''***''
                            (replace_all (b64encode (''x-access-token:'' @ the token)) ''***'' out)
                     else out)
         in auth_line_sub out1))"

section \<open>Diffs\<close>

text \<open>\<open>str.splitlines\<close> (keeping no line ends): every line boundary Python knows among these characters.\<close>

definition line_end :: "char \<Rightarrow> bool" where
  "line_end c \<longleftrightarrow> c = CHR 0x0A \<or> c = CHR 0x0D \<or> c = CHR 0x0B \<or> c = CHR 0x0C \<or> c = CHR 0x1C
     \<or> c = CHR 0x1D \<or> c = CHR 0x1E \<or> c = CHR 0x85"

fun split_lines :: "string \<Rightarrow> string \<Rightarrow> string list" where
  "split_lines cur [] = (if cur = [] then [] else [rev cur])"
| "split_lines cur (CHR 0x0D # CHR 0x0A # s) = rev cur # split_lines [] s"
| "split_lines cur (c # s) = (if line_end c then rev cur # split_lines [] s else split_lines (c # cur) s)"

definition splitlines :: "string \<Rightarrow> string list" where
  "splitlines s = split_lines [] s"

definition strip_quotes :: "string \<Rightarrow> string" where
  "strip_quotes s = rev (dropWhile (\<lambda>c. c = CHR 0x22) (rev (dropWhile (\<lambda>c. c = CHR 0x22) s)))"

definition header_path :: "string \<Rightarrow> string" where
  "header_path line = strip_quotes (strip (hd (split_on (CHR 0x09) (drop 4 line))))"

fun strip_level_lines :: "string option \<Rightarrow> string list \<Rightarrow> nat" where
  "strip_level_lines old [] = 1"
| "strip_level_lines old (line # lines) =
     (if starts_with ''diff --git '' line then 1
      else if starts_with ''--- '' line \<and> old = None then strip_level_lines (Some (header_path line)) lines
      else if starts_with ''+++ '' line \<and> old \<noteq> None then
        (let plus = header_path line; path = (if the old = ''/dev/null'' then plus else the old)
         in if starts_with ''a/'' path \<or> starts_with ''b/'' path then 1 else 0)
      else strip_level_lines old lines)"

definition strip_level :: "string \<Rightarrow> nat" where
  "strip_level diff = strip_level_lines None (splitlines diff)"

text \<open>The walk over the NUL-separated parts.\<close>

function numstat_paths :: "string list \<Rightarrow> string list" where
  "numstat_paths [] = []"
| "numstat_paths (part # parts) =
     (let fields = split_on (CHR 0x09) part
      in if length fields = 3 \<and> fields ! 2 \<noteq> [] then fields ! 2 # numstat_paths parts
         else if length fields = 3
         then filter (\<lambda>p. p \<noteq> []) (take 2 parts) @ numstat_paths (drop 2 parts)
         else numstat_paths parts)"
  by pat_completeness auto
termination by (relation "measure length") auto

definition parse_numstat_z :: "string \<Rightarrow> string list" where
  "parse_numstat_z out = numstat_paths (split_on (CHR 0x00) out)"

section \<open>Lemmas\<close>

lemma auth_line_step:
  "(\<exists>k t. auth_line_sub (c # s) = k @ ''***'' @ auth_line_sub t \<and> prefix k (c # s) \<and> suffix t s)
   \<or> auth_line_sub (c # s) = c # auth_line_sub s"
proof (cases "starts_with ''authorization:'' (map lower (c # s))")
  case True
  let ?r = "drop 14 (c # s)"
  let ?t = "dropWhile (\<lambda>c. c \<noteq> CHR 0x0D \<and> c \<noteq> CHR 0x0A) (dropWhile is_space ?r)"
  have "auth_line_sub (c # s) = (take 14 (c # s) @ takeWhile is_space ?r) @ ''***'' @ auth_line_sub ?t"
    using True by (subst auth_line_sub.simps) (simp add: Let_def)
  moreover have "prefix (take 14 (c # s) @ takeWhile is_space ?r) (c # s)"
    by (metis append.assoc append_take_drop_id prefixI takeWhile_dropWhile_id)
  moreover have "suffix ?t s"
    by (meson suffix_dropWhile suffix_drop_Cons suffix_order.trans zero_less_numeral)
  ultimately show ?thesis by blast
next
  case False
  then show ?thesis by (subst (3) auth_line_sub.simps) simp
qed

interpretation auth_line: scrubber "''***''" star_free auth_line_sub
proof
  show "auth_line_sub [] = []" by (subst auth_line_sub.simps) simp
qed (rule auth_line_step)

lemma b64_digit_star: "b64_digit n \<noteq> CHR ''*''"
proof -
  have "list_all (\<lambda>k. b64_alphabet ! k \<noteq> CHR ''*'') [0..<64]" by code_simp
  then show ?thesis by (simp add: b64_digit_def list_all_iff)
qed

lemma b64_star: "CHR ''*'' \<notin> set (b64encode s)"
  by (induction s rule: b64encode.induct) (simp_all add: Let_def b64_digit_star b64_digit_star[symmetric])

lemma b64_nonempty: "s \<noteq> [] \<Longrightarrow> b64encode s \<noteq> []"
  by (cases s rule: b64encode.cases) (simp_all add: Let_def)

declare b64encode.simps [simp del]

section \<open>Properties\<close>

text \<open>
  Redaction works.  For any token without a star and any text, neither the token nor its
  basic-auth encoding occurs anywhere in what \<open>redact\<close> returns, wherever and however often they
  occurred, and the inserted markers and the header substitution never put them back together.
\<close>

theorem redact_removes_secret:
  assumes "token \<noteq> []" and "CHR ''*'' \<notin> set token"
  shows "\<not> sublist token (redact text (Some token))
    \<and> \<not> sublist (b64encode (''x-access-token:'' @ token)) (redact text (Some token))"
proof (cases "str_set text")
  case False
  then show ?thesis using assms(1) b64_nonempty[of "''x-access-token:'' @ token"] by (simp add: redact_def)
next
  case True
  let ?e = "b64encode (''x-access-token:'' @ token)"
  let ?a = "replace_all ?e ''***'' (the text)"
  let ?b = "replace_all token ''***'' ?a"
  have ok: "star_free token" "star_free ?e"
    using assms b64_nonempty[of "''x-access-token:'' @ token"] by (simp_all add: star_free_def b64_star)
  have "\<not> sublist token ?b" by (rule stars.replace_all_removes[OF ok(1)])
  moreover have "\<not> sublist ?e ?b"
    using stars.replace_all_removes[OF ok(2)] star_replace.absent_kept[OF ok(2)] by blast
  ultimately have "\<not> sublist token (auth_line_sub ?b)" "\<not> sublist ?e (auth_line_sub ?b)"
    using auth_line.absent_kept ok by blast+
  then show ?thesis using True assms(1) by (simp add: redact_def Let_def)
qed

theorem redact_removes_secret_witness:
  "\<not> sublist ''tok'' (redact (Some ''fatal: tottok at https://x:tok@h'') (Some ''tok''))"
  using redact_removes_secret[of "''tok''"] by simp

text \<open>
  The write policy.  A push the guard lets through names a branch below
  \<open>refs/heads/fix/bugalizer-\<close>, never the default branch, never a forced or compound refspec; and
  the branch the code computes for a report passes the guard for every id without a colon unless
  the project's default branch is that very branch.
\<close>

theorem push_guard_exact:
  "(case assert_push_allowed target default_branch of
      None \<Rightarrow> (\<exists>rid. target = ''refs/heads/'' @ branch_for rid \<and> CHR '':'' \<notin> set rid)
        \<and> target \<noteq> ''refs/heads/'' @ default_branch
    | Some _ \<Rightarrow> True)
   \<and> (assert_push_allowed (''refs/heads/'' @ branch_for rid) default_branch = None
      \<longleftrightarrow> CHR '':'' \<notin> set rid \<and> default_branch \<noteq> branch_for rid
        \<and> default_branch \<noteq> ''refs/heads/'' @ branch_for rid)"
proof
  show "case assert_push_allowed target default_branch of
      None \<Rightarrow> (\<exists>rid. target = ''refs/heads/'' @ branch_for rid \<and> CHR '':'' \<notin> set rid)
        \<and> target \<noteq> ''refs/heads/'' @ default_branch
    | Some _ \<Rightarrow> True"
    by (auto simp: assert_push_allowed_def starts_with_iff branch_for_def BRANCH_PREFIX_def)
  show "assert_push_allowed (''refs/heads/'' @ branch_for rid) default_branch = None
      \<longleftrightarrow> CHR '':'' \<notin> set rid \<and> default_branch \<noteq> branch_for rid
        \<and> default_branch \<noteq> ''refs/heads/'' @ branch_for rid"
    by (auto simp: assert_push_allowed_def starts_with_iff branch_for_def BRANCH_PREFIX_def)
qed

text \<open>What git writes for one file: the counts and the path, or the counts and both names of a rename.\<close>

datatype numstat_entry = Plain string string string | Renamed string string string string

fun render_entry :: "numstat_entry \<Rightarrow> string" where
  "render_entry (Plain a d p) = a @ CHR 0x09 # d @ CHR 0x09 # p @ [CHR 0x00]"
| "render_entry (Renamed a d old new) =
     a @ CHR 0x09 # d @ CHR 0x09 # CHR 0x00 # old @ CHR 0x00 # new @ [CHR 0x00]"

fun entry_paths :: "numstat_entry \<Rightarrow> string list" where
  "entry_paths (Plain _ _ p) = [p]"
| "entry_paths (Renamed _ _ old new) = [old, new]"

definition plain_text :: "char list \<Rightarrow> string \<Rightarrow> bool" where
  "plain_text bad w \<longleftrightarrow> set w \<inter> set bad = {}"

fun entry_ok :: "numstat_entry \<Rightarrow> bool" where
  "entry_ok (Plain a d p) \<longleftrightarrow> plain_text [CHR 0x00, CHR 0x09] a \<and> plain_text [CHR 0x00, CHR 0x09] d
     \<and> plain_text [CHR 0x00, CHR 0x09] p \<and> p \<noteq> []"
| "entry_ok (Renamed a d old new) \<longleftrightarrow> plain_text [CHR 0x00, CHR 0x09] a \<and> plain_text [CHR 0x00, CHR 0x09] d
     \<and> plain_text [CHR 0x00] old \<and> plain_text [CHR 0x00] new \<and> old \<noteq> [] \<and> new \<noteq> []"

lemma split_on_none: "c \<notin> set w \<Longrightarrow> split_on c w = [w]"
  by (induction w) auto

lemma split_on_first: "c \<notin> set w \<Longrightarrow> split_on c (w @ c # s) = w # split_on c s"
  by (induction w) auto

lemma numstat_step:
  assumes "entry_ok e"
  shows "numstat_paths (split_on (CHR 0x00) (render_entry e @ s)) =
    entry_paths e @ numstat_paths (split_on (CHR 0x00) s)"
proof (cases e)
  case (Plain a d p)
  let ?row = "a @ CHR 0x09 # d @ CHR 0x09 # p"
  have "split_on (CHR 0x00) (render_entry e @ s) = ?row # split_on (CHR 0x00) s"
    using split_on_first[of "CHR 0x00" ?row s] assms by (simp add: Plain plain_text_def)
  moreover have "split_on (CHR 0x09) ?row = [a, d, p]"
    using assms by (simp add: Plain plain_text_def split_on_first split_on_none)
  ultimately show ?thesis using assms by (simp add: Plain Let_def)
next
  case (Renamed a d old new)
  let ?row = "a @ CHR 0x09 # d @ [CHR 0x09]"
  have "split_on (CHR 0x00) (render_entry e @ s) = ?row # old # new # split_on (CHR 0x00) s"
    using split_on_first[of "CHR 0x00" ?row "old @ CHR 0x00 # new @ CHR 0x00 # s"] assms
    by (simp add: Renamed plain_text_def split_on_first)
  moreover have "split_on (CHR 0x09) ?row = [a, d, []]"
    using assms by (simp add: Renamed plain_text_def split_on_first)
  ultimately show ?thesis using assms by (simp add: Renamed Let_def)
qed

text \<open>
  Reading back \<open>git apply --numstat -z\<close>: for any list of changed files, renames included, the
  parser gives exactly their paths in order (both names of a rename), so precisely the files the
  diff touches are staged, provided no path of a plain entry contains a tab.
\<close>

theorem numstat_roundtrip:
  assumes "list_all entry_ok es"
  shows "parse_numstat_z (concat (map render_entry es)) = concat (map entry_paths es)"
  using assms
proof (induction es)
  case (Cons e es)
  then show ?case by (simp add: parse_numstat_z_def numstat_step)
qed (simp add: parse_numstat_z_def)

theorem numstat_roundtrip_witness:
  "parse_numstat_z (concat (map render_entry [Plain ''1'' ''0'' ''a b.py'', Renamed ''0'' ''0'' ''x'' ''y'']))
     = [''a b.py'', ''x'', ''y'']"
  using numstat_roundtrip[of "[Plain ''1'' ''0'' ''a b.py'', Renamed ''0'' ''0'' ''x'' ''y'']"]
  by (simp add: plain_text_def)

end
