(* ===== verification/Open_Pr.thy ===== *)
theory Open_Pr
  imports Db_Ledger Git_Text
begin

text \<open>
  \<open>open_pull_request\<close> of \<open>git_ops/pull_request.py\<close>: the checks, the claim, the git steps and the
  GitHub calls, and the recording.  Git and GitHub are arguments: \<open>git\<close> answers a command with an
  exit code and output (or raises, \<open>None\<close>), and a record of functions answers the REST calls; both
  change an arbitrary world.  Every git command is logged.  A cancellation or any other exception
  out of an awaited step is one more way for that step to raise.
\<close>

section \<open>Remote interfaces\<close>

datatype git_cwd = In_clone | In_worktree

datatype git_env = Local_env | Remote_env | Commit_env

record git_call =
  g_args :: "string list"
  g_cwd :: git_cwd
  g_env :: git_env
  g_input :: "string option"

record git_result =
  g_code :: int
  g_out :: string
  g_err :: string

record pull_request =
  pr_html_url :: string
  pr_num :: int
  pr_head_ref :: "string option"
  pr_head_sha :: "string option"

record commit =
  co_sha :: "string option"
  co_message :: string

datatype gh_error = GitHubError | PrAlreadyExists | GhOther string

record 'w github =
  gh_find_pr :: "string \<Rightarrow> 'w \<Rightarrow> (gh_error + pull_request option) \<times> 'w"
  gh_pr_commits :: "int \<Rightarrow> 'w \<Rightarrow> (gh_error + commit list) \<times> 'w"
  gh_create_pr :: "string \<Rightarrow> string \<Rightarrow> string \<Rightarrow> string \<Rightarrow> 'w \<Rightarrow> (gh_error + pull_request) \<times> 'w"

datatype open_error = OpenPrError nat string | OtherError string

section \<open>The GitHub client\<close>

text \<open>
  \<open>_GitHub\<close> over HTTP.  A request fails (\<open>None\<close>, an \<open>httpx\<close> error) or answers a status with a
  body; \<open>http_get_pr\<close> also gives the rate-limit header.  A body that is not the JSON it should be is
  \<open>None\<close>.
\<close>

record 'w http =
  http_list_prs :: "string \<Rightarrow> 'w \<Rightarrow> (nat \<times> pull_request list option) option \<times> 'w"
  http_pr_commits :: "int \<Rightarrow> 'w \<Rightarrow> (nat \<times> commit list option) option \<times> 'w"
  http_create_pr :: "string \<Rightarrow> string \<Rightarrow> string \<Rightarrow> string \<Rightarrow> 'w \<Rightarrow> (nat \<times> string \<times> pull_request option) option \<times> 'w"
  http_get_pr :: "int \<Rightarrow> 'w \<Rightarrow> (nat \<times> string option \<times> json option) option \<times> 'w"

definition parsed :: "'a option \<Rightarrow> gh_error + 'a" where
  "parsed body = (case body of None \<Rightarrow> Inl (GhOther ''JSONDecodeError'') | Some x \<Rightarrow> Inr x)"

definition find_pr :: "'w http \<Rightarrow> string \<Rightarrow> 'w \<Rightarrow> (gh_error + pull_request option) \<times> 'w" where
  "find_pr h branch w =
     (case http_list_prs h branch w of
        (None, w1) \<Rightarrow> (Inl GitHubError, w1)
      | (Some (code, body), w1) \<Rightarrow>
          ((if code \<noteq> 200 then Inl GitHubError
            else map_sum id (find (\<lambda>pr. pr_head_ref pr = Some branch)) (parsed body)), w1))"

definition pr_commits :: "'w http \<Rightarrow> int \<Rightarrow> 'w \<Rightarrow> (gh_error + commit list) \<times> 'w" where
  "pr_commits h n w =
     (case http_pr_commits h n w of
        (None, w1) \<Rightarrow> (Inl GitHubError, w1)
      | (Some (code, body), w1) \<Rightarrow> ((if code \<noteq> 200 then Inl GitHubError else parsed body), w1))"

definition create_pr ::
  "'w http \<Rightarrow> string \<Rightarrow> string \<Rightarrow> string \<Rightarrow> string \<Rightarrow> 'w \<Rightarrow> (gh_error + pull_request) \<times> 'w" where
  "create_pr h title body head base w =
     (case http_create_pr h title body head base w of
        (None, w1) \<Rightarrow> (Inl GitHubError, w1)
      | (Some (code, text, pr), w1) \<Rightarrow>
          ((if code = 422 \<and> sublist ''already exists'' (map lower text) then Inl PrAlreadyExists
            else if code \<noteq> 201 then Inl GitHubError else parsed pr), w1))"

definition github_client :: "'w http \<Rightarrow> 'w github" where
  "github_client h = \<lparr>gh_find_pr = find_pr h, gh_pr_commits = pr_commits h, gh_create_pr = create_pr h\<rparr>"

text \<open>\<open>read_pr_state\<close>: the pull request's fate, or a code of a fixed vocabulary.\<close>

definition pr_state_of :: "nat \<Rightarrow> string option \<Rightarrow> json option \<Rightarrow> string + string" where
  "pr_state_of code remaining body =
     (if code = 200 then
        (case body of
           Some (JObj kvs) \<Rightarrow>
             if map_of kvs ''merged'' = Some (JBool True) \<or> opt_truthy (map_of kvs ''merged_at'') then Inr ''merged''
             else if map_of kvs ''state'' = Some (JStr ''open'') then Inr ''open''
             else if map_of kvs ''state'' = Some (JStr ''closed'') then Inr ''closed''
             else Inl ''malformed_response''
         | _ \<Rightarrow> Inl ''malformed_response'')
      else if code = 429 \<or> (code = 403 \<and> remaining = Some ''0'') then Inl ''rate_limited''
      else if code = 401 \<or> code = 403 then Inl ''unauthorized''
      else if code = 404 then Inl ''not_found''
      else Inl (''http_'' @ digits code))"

definition read_pr_state :: "settings \<Rightarrow> 'w http \<Rightarrow> project \<Rightarrow> int \<Rightarrow> 'w \<Rightarrow> (string + string) \<times> 'w" where
  "read_pr_state st h p n w =
     (if github_token_value st = None then (Inl ''github_not_configured'', w)
      else if parse_github_slug (p_repo_url p) = None then (Inl ''not_github'', w)
      else (case http_get_pr h n w of
              (None, w1) \<Rightarrow> (Inl ''network_error'', w1)
            | (Some (code, remaining, body), w1) \<Rightarrow> (pr_state_of code remaining body, w1)))"

section \<open>The state of a call\<close>

text \<open>The state one call runs on; \<open>active\<close> is \<open>_active_claims\<close>, \<open>finalized\<close> the call's flag.\<close>

record 'w env =
  e_db :: db
  e_world :: 'w
  e_log :: "git_call list"
  e_active :: "string \<rightharpoonup> string"
  e_finalized :: bool

type_synonym ('w, 'a) step = "'w env \<Rightarrow> (open_error + 'a) \<times> 'w env"

definition ret :: "'a \<Rightarrow> ('w, 'a) step" where
  "ret x s = (Inr x, s)"

definition raise :: "open_error \<Rightarrow> ('w, 'a) step" where
  "raise e s = (Inl e, s)"

definition bind :: "('w, 'a) step \<Rightarrow> ('a \<Rightarrow> ('w, 'b) step) \<Rightarrow> ('w, 'b) step" where
  "bind m f s = (case m s of (Inl e, s1) \<Rightarrow> (Inl e, s1) | (Inr x, s1) \<Rightarrow> f x s1)"

type_synonym 'w git = "git_call \<Rightarrow> 'w \<Rightarrow> git_result option \<times> 'w"

definition run_git ::
  "'w git \<Rightarrow> string list \<Rightarrow> git_cwd \<Rightarrow> git_env \<Rightarrow> string option \<Rightarrow> ('w, git_result) step" where
  "run_git git args cwd envk inp s =
     (let c = \<lparr>g_args = args, g_cwd = cwd, g_env = envk, g_input = inp\<rparr>;
          (r, w) = git c (e_world s);
          s1 = s\<lparr>e_world := w, e_log := e_log s @ [c]\<rparr>
      in case r of None \<Rightarrow> (Inl (OtherError ''TimeoutExpired''), s1) | Some res \<Rightarrow> (Inr res, s1))"

definition github_call ::
  "('w \<Rightarrow> (gh_error + 'a) \<times> 'w) \<Rightarrow> 'w env \<Rightarrow> (gh_error + 'a) \<times> 'w env" where
  "github_call f s = (case f (e_world s) of (r, w) \<Rightarrow> (r, s\<lparr>e_world := w\<rparr>))"

section \<open>One call\<close>

record call =
  c_report :: report
  c_project :: project
  c_owner :: string
  c_repo :: string
  c_token :: string
  c_canonical :: string
  c_default_branch :: string
  c_claim_token :: string
  c_requested :: "string option"
  c_proposal :: fix_proposal
  c_worktree :: string

definition c_branch :: "call \<Rightarrow> string" where
  "c_branch c = branch_for (r_id (c_report c))"

definition c_base_ref :: "call \<Rightarrow> string" where
  "c_base_ref c = ''refs/bugalizer/base/'' @ r_id (c_report c)"

record answer =
  an_status :: nat
  an_pr_url :: "string option"
  an_pr_number :: "int option"
  an_branch :: string
  an_proposal :: string
  an_created :: bool

definition answer_for :: "nat \<Rightarrow> fix_proposal \<Rightarrow> bool \<Rightarrow> answer" where
  "answer_for status f created =
     \<lparr>an_status = status, an_pr_url = f_pr_url f, an_pr_number = f_pr_number f,
      an_branch = (if str_set (f_branch_name f) then the (f_branch_name f)
                   else branch_for (f_bug_report_id f)),
      an_proposal = f_id f, an_created = created\<rparr>"

definition recorded_answer :: "fix_proposal \<Rightarrow> string option \<Rightarrow> open_error + answer" where
  "recorded_answer recorded requested =
     (if requested \<noteq> None \<and> requested \<noteq> Some (f_id recorded) then Inl (OpenPrError 409 ''pr_exists'')
      else Inr (answer_for 200 recorded False))"

text \<open>\<open>_trailer\<close>: \<open>^key:\s*(\S+)\s*$\<close> searched with \<open>MULTILINE\<close>.\<close>

definition trailer_here :: "string \<Rightarrow> string \<Rightarrow> string option" where
  "trailer_here key s =
     (let rest = dropWhile is_space (drop (length key + 1) s);
          val = takeWhile (\<lambda>c. \<not> is_space c) rest; after = dropWhile (\<lambda>c. \<not> is_space c) rest
      in if starts_with (key @ '':'') s \<and> val \<noteq> []
           \<and> (dropWhile is_space after = [] \<or> CHR 0x0A \<in> set (takeWhile is_space after))
         then Some val else None)"

fun trailer_from :: "bool \<Rightarrow> string \<Rightarrow> string \<Rightarrow> string option" where
  "trailer_from bol key [] = None"
| "trailer_from bol key (c # s) =
     (case (if bol then trailer_here key (c # s) else None) of
        Some v \<Rightarrow> Some v
      | None \<Rightarrow> trailer_from (c = CHR 0x0A) key s)"

definition trailer :: "string \<Rightarrow> string \<Rightarrow> string option" where
  "trailer message key = trailer_from True key message"

definition resolve_owner ::
  "string \<Rightarrow> fix_proposal list \<Rightarrow> pull_request \<Rightarrow> commit list \<Rightarrow> string option" where
  "resolve_owner rid proposals pr commits =
     (let shas = filter (\<lambda>x. x \<noteq> None) (map co_sha commits @ [pr_head_sha pr]);
          by_intent = filter (\<lambda>p. str_set (f_pushed_sha p) \<and> f_pushed_sha p \<in> set shas) proposals
      in if length by_intent = 1 then Some (f_id (hd by_intent))
         else (case find (\<lambda>c. trailer (co_message c) ''Bugalizer-Report'' = Some rid
                    \<and> trailer (co_message c) ''Bugalizer-Proposal'' \<in> Some ` f_id ` set proposals) commits of
                 None \<Rightarrow> None
               | Some c \<Rightarrow> trailer (co_message c) ''Bugalizer-Proposal''))"

definition record_pr :: "call \<Rightarrow> string \<Rightarrow> pull_request \<Rightarrow> string option \<Rightarrow> ('w, fix_proposal) step" where
  "record_pr c fid pr pushed_sha s =
     (let rid = r_id (c_report c) in
      case record_pull_request rid fid (c_claim_token c) (pr_html_url pr) (pr_num pr) pushed_sha
             (c_branch c) (e_db s) of
        (Inl ClaimLostError, d) \<Rightarrow> (Inl (OpenPrError 409 ''in_progress''), s\<lparr>e_db := d\<rparr>)
      | (Inl _, d) \<Rightarrow> (Inl (OtherError ''ValueError''), s\<lparr>e_db := d\<rparr>)
      | (Inr _, d) \<Rightarrow>
          (case fix_proposal_of_report rid fid d of
             None \<Rightarrow> (Inl (OtherError ''AssertionError''), s\<lparr>e_db := d, e_finalized := True\<rparr>)
           | Some f \<Rightarrow> (Inr f, s\<lparr>e_db := d, e_finalized := True\<rparr>)))"

definition gh_lift :: "gh_error \<Rightarrow> open_error" where
  "gh_lift e = (case e of GitHubError \<Rightarrow> OpenPrError 502 ''github_error''
     | PrAlreadyExists \<Rightarrow> OtherError ''_PrAlreadyExists'' | GhOther x \<Rightarrow> OtherError x)"

definition record_existing_pr ::
  "'w github \<Rightarrow> call \<Rightarrow> fix_proposal list \<Rightarrow> pull_request \<Rightarrow> ('w, answer) step" where
  "record_existing_pr gh c proposals pr s =
     (case github_call (gh_pr_commits gh (pr_num pr)) s of
        (Inl e, s1) \<Rightarrow> (Inl (gh_lift e), s1)
      | (Inr commits, s1) \<Rightarrow>
          (case (case resolve_owner (r_id (c_report c)) proposals pr commits of
                   Some o1 \<Rightarrow> Some o1 | None \<Rightarrow> c_requested c) of
             None \<Rightarrow> (Inl (OpenPrError 409 ''pr_unattributed''), s1)
           | Some owner \<Rightarrow>
               bind (record_pr c owner pr None)
                 (\<lambda>recorded. if c_requested c \<noteq> None \<and> c_requested c \<noteq> Some owner
                    then ret ((answer_for 200 recorded False)\<lparr>an_status := 409\<rparr>)
                    else ret (answer_for 200 recorded False)) s1))"

text \<open>The title and body sent to GitHub; the body is cut to \<open>_MAX_PR_BODY_CHARS\<close>.\<close>

definition PR_BODY_FOOTER :: string where
  "PR_BODY_FOOTER = ''Opened by Bugalizer. A human reviews and merges; Bugalizer never merges.''"

definition MAX_PR_BODY_CHARS :: nat where
  "MAX_PR_BODY_CHARS = 60000"

definition cap_body :: "string \<Rightarrow> string" where
  "cap_body body =
     (if length body > MAX_PR_BODY_CHARS
      then take (MAX_PR_BODY_CHARS - length PR_BODY_FOOTER - 20) body
           @ [CHR 0x0A, CHR 0x0A] @ ''(truncated)'' @ [CHR 0x0A, CHR 0x0A] @ PR_BODY_FOOTER
      else body)"

fun words_from :: "string \<Rightarrow> string \<Rightarrow> string list" where
  "words_from cur [] = (if cur = [] then [] else [rev cur])"
| "words_from cur (c # s) =
     (if is_space c then (if cur = [] then [] else [rev cur]) @ words_from [] s
      else words_from (c # cur) s)"

definition short_title :: "string \<Rightarrow> string" where
  "short_title t = take 200 (join_with '' '' (words_from [] t))"

definition pr_title :: "call \<Rightarrow> string" where
  "pr_title c = ''fix: '' @ short_title (r_title (c_report c)) @ '' (bugalizer '' @ r_id (c_report c) @ '')''"

definition create_pr_step ::
  "'w github \<Rightarrow> (report \<Rightarrow> fix_proposal \<Rightarrow> string) \<Rightarrow> call \<Rightarrow> fix_proposal list \<Rightarrow> fix_proposal \<Rightarrow> string
   \<Rightarrow> ('w, answer) step" where
  "create_pr_step gh render c proposals f sha s =
     (case github_call (gh_create_pr gh (pr_title c) (cap_body (render (c_report c) f)) (c_branch c)
              (c_default_branch c)) s of
        (Inl PrAlreadyExists, s1) \<Rightarrow>
          (case github_call (gh_find_pr gh (c_branch c)) s1 of
             (Inl e, s2) \<Rightarrow> (Inl (gh_lift e), s2)
           | (Inr None, s2) \<Rightarrow> (Inl (OpenPrError 502 ''github_error''), s2)
           | (Inr (Some existing), s2) \<Rightarrow> record_existing_pr gh c proposals existing s2)
      | (Inl e, s1) \<Rightarrow> (Inl (gh_lift e), s1)
      | (Inr pr, s1) \<Rightarrow>
          bind (record_pr c (f_id f) pr (Some sha)) (\<lambda>recorded. ret (answer_for 201 recorded True)) s1)"

section \<open>Git steps\<close>

text \<open>\<open>_git_or_500\<close>.\<close>

definition git_or_500 :: "git_result \<Rightarrow> ('w, unit) step" where
  "git_or_500 r = (if g_code r \<noteq> 0 then raise (OpenPrError 500 ''git_error'') else ret ())"

text \<open>
  \<open>_cleanup\<close>; whether the worktree path exists is asked of the file system (\<open>exists\<close>), and
  \<open>shutil.rmtree\<close> changes the world.
\<close>

definition cleanup ::
  "'w git \<Rightarrow> (string \<Rightarrow> 'w \<Rightarrow> bool) \<Rightarrow> (string \<Rightarrow> 'w \<Rightarrow> 'w) \<Rightarrow> call \<Rightarrow> ('w, unit) step" where
  "cleanup git exists rmtree c =
     bind (run_git git [''worktree'', ''list'', ''--porcelain''] In_clone Local_env None) (\<lambda>listed s.
       let registered = list_ex (\<lambda>line. starts_with ''worktree '' line \<and> drop 9 line = c_worktree c)
             (splitlines (g_out listed));
           drop_tree =
             (if registered \<or> exists (c_worktree c) (e_world s) then
                bind (run_git git [''worktree'', ''remove'', ''--force'', c_worktree c] In_clone Local_env None) (\<lambda>_.
                bind (run_git git [''worktree'', ''prune''] In_clone Local_env None) (\<lambda>_ s1.
                  if exists (c_worktree c) (e_world s1)
                  then (Inr (), s1\<lparr>e_world := rmtree (c_worktree c) (e_world s1)\<rparr>) else (Inr (), s1)))
              else ret ())
       in bind drop_tree (\<lambda>_.
          bind (run_git git [''show-ref'', ''--verify'', ''--quiet'', c_base_ref c] In_clone Local_env None) (\<lambda>r.
          if g_code r = 0
          then bind (run_git git [''update-ref'', ''-d'', c_base_ref c] In_clone Local_env None) (\<lambda>_. ret ())
          else ret ())) s)"

fun tip_in :: "string \<Rightarrow> string list \<Rightarrow> string option" where
  "tip_in ref [] = None"
| "tip_in ref (line # lines) =
     (let sha = takeWhile (\<lambda>c. c \<noteq> CHR 0x09) line; rest = tl (dropWhile (\<lambda>c. c \<noteq> CHR 0x09) line @ [CHR 0x20])
      in if strip rest = ref then Some (strip sha) else tip_in ref lines)"

definition remote_branch_tip :: "'w git \<Rightarrow> call \<Rightarrow> ('w, string option) step" where
  "remote_branch_tip git c =
     bind (run_git git [''ls-remote'', c_canonical c, ''refs/heads/'' @ c_branch c] In_clone Remote_env None) (\<lambda>r.
       if g_code r \<noteq> 0 then raise (OpenPrError 502 ''github_error'')
       else ret (tip_in (''refs/heads/'' @ c_branch c) (splitlines (g_out r))))"

definition commit_message :: "call \<Rightarrow> string" where
  "commit_message c =
     pr_title c @ [CHR 0x0A, CHR 0x0A]
     @ take 2000 (strip (case f_root_cause (c_proposal c) of None \<Rightarrow> [] | Some x \<Rightarrow> x))
     @ [CHR 0x0A, CHR 0x0A] @ ''Bugalizer-Report: '' @ r_id (c_report c) @ [CHR 0x0A]
     @ ''Bugalizer-Proposal: '' @ f_id (c_proposal c) @ [CHR 0x0A]"

definition build_commit :: "'w git \<Rightarrow> call \<Rightarrow> ('w, string) step" where
  "build_commit git c =
     bind (run_git git [''fetch'', ''--no-tags'', ''--no-write-fetch-head'', c_canonical c,
             ''refs/heads/'' @ c_default_branch c @ '':'' @ c_base_ref c] In_clone Remote_env None) (\<lambda>fetch.
     if g_code fetch \<noteq> 0 then raise (OpenPrError 502 ''github_error'') else
     bind (run_git git [''rev-parse'', ''--verify'', c_base_ref c @ ''^{commit}''] In_clone Local_env None) (\<lambda>base.
     bind (git_or_500 base) (\<lambda>_.
     bind (run_git git [''worktree'', ''add'', ''--detach'', c_worktree c, strip (g_out base)] In_clone Local_env None) (\<lambda>added.
     bind (git_or_500 added) (\<lambda>_.
     let diff0 = (case f_diff (c_proposal c) of None \<Rightarrow> [] | Some x \<Rightarrow> x);
         diff = (if ends_with [CHR 0x0A] diff0 then diff0 else diff0 @ [CHR 0x0A]);
         strip_arg = ''-p'' @ digits (strip_level diff)
     in
     bind (run_git git [''apply'', ''--check'', strip_arg, ''-''] In_worktree Local_env (Some diff)) (\<lambda>check.
     if strip diff = [] \<or> g_code check \<noteq> 0 then raise (OpenPrError 409 ''diff_does_not_apply'') else
     bind (run_git git [''apply'', ''--numstat'', ''-z'', strip_arg, ''-''] In_worktree Local_env (Some diff)) (\<lambda>numstat.
     bind (git_or_500 numstat) (\<lambda>_.
     let paths = parse_numstat_z (g_out numstat) in
     bind (run_git git [''apply'', strip_arg, ''-''] In_worktree Local_env (Some diff)) (\<lambda>applied.
     bind (git_or_500 applied) (\<lambda>_.
     bind (run_git git ([''--literal-pathspecs'', ''add'', ''-A'', ''--''] @ paths) In_worktree Local_env None) (\<lambda>staged.
     bind (git_or_500 staged) (\<lambda>_.
     bind (run_git git [''diff'', ''--cached'', ''--quiet''] In_worktree Local_env None) (\<lambda>changed.
     if g_code changed = 0 then raise (OpenPrError 409 ''diff_does_not_apply'') else
     bind (run_git git [''-c'', ''commit.gpgsign=false'', ''commit'', ''--no-verify'', ''-q'', ''-F'', ''-'']
             In_worktree Commit_env (Some (commit_message c))) (\<lambda>committed.
     bind (git_or_500 committed) (\<lambda>_.
     bind (run_git git [''rev-parse'', ''HEAD''] In_worktree Local_env None) (\<lambda>head.
     bind (git_or_500 head) (\<lambda>_. ret (strip (g_out head)))))))))))))))))))"

definition push :: "'w git \<Rightarrow> call \<Rightarrow> ('w, unit) step" where
  "push git c =
     (let target = ''refs/heads/'' @ c_branch c in
      case assert_push_allowed target (c_default_branch c) of
        Some msg \<Rightarrow> raise (OtherError ''PermissionError'')
      | None \<Rightarrow>
          bind (run_git git [''push'', c_canonical c, ''HEAD:'' @ target] In_worktree Remote_env None) (\<lambda>r.
            if g_code r = 0 then ret ()
            else if list_ex (\<lambda>x. sublist x (redact (Some (g_err r)) (Some (c_token c))))
                      [''non-fast-forward'', ''(fetch first)'', ''(already exists)'']
            then raise (OpenPrError 409 ''branch_exists'')
            else raise (OpenPrError 502 ''github_error'')))"

definition run_claimed ::
  "'w git \<Rightarrow> 'w github \<Rightarrow> (report \<Rightarrow> fix_proposal \<Rightarrow> string) \<Rightarrow> call \<Rightarrow> ('w, answer) step" where
  "run_claimed git gh render c s =
     (let proposals = fix_proposals_for_report (r_id (c_report c)) (e_db s) in
      case github_call (gh_find_pr gh (c_branch c)) s of
        (Inl e, s1) \<Rightarrow> (Inl (gh_lift e), s1)
      | (Inr (Some pr), s1) \<Rightarrow> record_existing_pr gh c proposals pr s1
      | (Inr None, s1) \<Rightarrow>
          bind (remote_branch_tip git c) (\<lambda>tip.
            case tip of
              Some sha \<Rightarrow>
                (case find (\<lambda>p. f_pushed_sha p = Some sha) proposals of
                   None \<Rightarrow> raise (OpenPrError 409 ''branch_exists'')
                 | Some pusher \<Rightarrow>
                     if c_requested c \<noteq> None \<and> c_requested c \<noteq> Some (f_id pusher)
                     then raise (OpenPrError 409 ''branch_exists'')
                     else create_pr_step gh render c proposals pusher sha)
            | None \<Rightarrow>
                bind (build_commit git c) (\<lambda>sha s2.
                  bind (push git c) (\<lambda>_. create_pr_step gh render c proposals (c_proposal c) sha)
                    (s2\<lparr>e_db := fix_proposal_record_push_intent (f_id (c_proposal c)) sha (c_branch c) (e_db s2)\<rparr>))) s1)"

section \<open>The endpoint's operation\<close>

text \<open>The checks before the claim, which mutate nothing: an early answer, or what the call will use.\<close>

definition open_pr_checks ::
  "settings \<Rightarrow> (string \<Rightarrow> bool) \<Rightarrow> string \<Rightarrow> string \<Rightarrow> string option \<Rightarrow> 'w env
   \<Rightarrow> open_error + (answer + call)" where
  "open_pr_checks st has_git web_base rid requested_id s =
     (let d = e_db s in
      case report_get rid d of
        None \<Rightarrow> Inl (OpenPrError 404 ''report_not_found'')
      | Some report \<Rightarrow>
          let requested = (case requested_id of None \<Rightarrow> None | Some fid \<Rightarrow> fix_proposal_of_report rid fid d) in
          if requested_id \<noteq> None \<and> requested = None then Inl (OpenPrError 404 ''proposal_not_found'')
          else (case recorded_pull_request rid d of
            Some recorded \<Rightarrow> map_sum id Inl (recorded_answer recorded requested_id)
          | None \<Rightarrow>
            (case fix_proposals_for_report rid d of
               [] \<Rightarrow> Inl (OpenPrError 409 ''no_proposal'')
             | newest # _ \<Rightarrow>
                let proposal = (case requested of Some f \<Rightarrow> f | None \<Rightarrow> newest) in
                if e_active s rid \<noteq> None then Inl (OpenPrError 409 ''in_progress'')
                else if r_status report \<noteq> FIX_PROPOSED \<and> r_status report \<noteq> FIX_APPROVED
                then Inl (OpenPrError 409 ''wrong_status'')
                else (case github_token_value st of
                  None \<Rightarrow> Inl (OpenPrError 503 ''github_not_configured'')
                | Some token \<Rightarrow>
                  (case project_get (r_project_id report) d of
                     None \<Rightarrow> Inl (OpenPrError 400 ''not_github'')
                   | Some p \<Rightarrow>
                     (case parse_github_slug (p_repo_url p) of
                        None \<Rightarrow> Inl (OpenPrError 400 ''not_github'')
                      | Some (owner, repo) \<Rightarrow>
                        if \<not> str_set (p_repo_path p) \<or> \<not> has_git (the (p_repo_path p))
                        then Inl (OpenPrError 400 ''not_cloned'')
                        else let default_branch =
                               (if str_set (p_default_branch p) then the (p_default_branch p) else ''main'') in
                        if \<not> SAFE_BRANCH default_branch \<or> sublist ''..'' default_branch
                        then Inl (OpenPrError 400 ''bad_default_branch'')
                        else if \<not> SAFE_ID rid \<or> \<not> SAFE_ID (p_id p) then Inl (OpenPrError 400 ''bad_id'')
                        else Inr (Inr
                          \<lparr>c_report = report, c_project = p, c_owner = owner, c_repo = repo, c_token = token,
                           c_canonical = canonical_url web_base owner repo,
                           c_default_branch = default_branch, c_claim_token = [],
                           c_requested = requested_id, c_proposal = proposal,
                           c_worktree = []\<rparr>)))))))"

text \<open>The claim: taken from \<open>fix_proposed\<close>, or an abandoned one adopted.\<close>

definition take_claim :: "call \<Rightarrow> string \<Rightarrow> db \<Rightarrow> bool \<times> db" where
  "take_claim c token d =
     (if r_status (c_report c) = FIX_APPROVED
      then adopt_claim (r_id (c_report c)) (r_claim_token (c_report c)) token d
      else try_claim_report (r_id (c_report c)) FIX_PROPOSED FIX_APPROVED (Some token) d)"

definition hold_claim ::
  "'w git \<Rightarrow> 'w github \<Rightarrow> (report \<Rightarrow> fix_proposal \<Rightarrow> string) \<Rightarrow> (string \<Rightarrow> 'w \<Rightarrow> bool)
   \<Rightarrow> (string \<Rightarrow> 'w \<Rightarrow> 'w) \<Rightarrow> call \<Rightarrow> ('w, answer) step" where
  "hold_claim git gh render exists rmtree c s =
     (let rid = r_id (c_report c);
          inner = (\<lambda>s0. case bind (cleanup git exists rmtree c) (\<lambda>_. run_claimed git gh render c) s0 of
                     (r, s1) \<Rightarrow> (case cleanup git exists rmtree c s1 of (_, s2) \<Rightarrow> (r, s2)));
          (r, s1) = inner (s\<lparr>e_finalized := False\<rparr>);
          s2 = (if \<not> e_finalized s1
                then s1\<lparr>e_db := snd (release_claim rid (c_claim_token c) (e_db s1))\<rparr> else s1);
          s3 = (if e_active s2 rid = Some (c_claim_token c)
                then s2\<lparr>e_active := (e_active s2)(rid := None)\<rparr> else s2)
      in (r, s3))"

text \<open>
  \<open>worktree\<close> is \<open>_worktree_path\<close>: resolving the path asks the file system, and it raises (\<open>None\<close>)
  when the resolved path is not under the worktree root.  It is called after the claim and before
  the \<open>try\<close> block.
\<close>

definition open_pull_request ::
  "settings \<Rightarrow> 'w git \<Rightarrow> 'w github \<Rightarrow> (report \<Rightarrow> fix_proposal \<Rightarrow> string) \<Rightarrow> (string \<Rightarrow> 'w \<Rightarrow> bool)
   \<Rightarrow> (string \<Rightarrow> 'w \<Rightarrow> 'w) \<Rightarrow> (string \<Rightarrow> bool) \<Rightarrow> string \<Rightarrow> (string \<Rightarrow> string \<Rightarrow> string option)
   \<Rightarrow> string \<Rightarrow> string option \<Rightarrow> ('w, answer) step" where
  "open_pull_request st git gh render exists rmtree has_git web_base worktree rid requested_id s =
     (case open_pr_checks st has_git web_base rid requested_id s of
        Inl e \<Rightarrow> (Inl e, s)
      | Inr (Inl a) \<Rightarrow> (Inr a, s)
      | Inr (Inr c0) \<Rightarrow>
          (let (token, d1) = new_id (e_db s); (won, d2) = take_claim c0 token d1; s1 = s\<lparr>e_db := d2\<rparr>;
               s2 = s1\<lparr>e_active := (e_active s1)(rid \<mapsto> token)\<rparr>
           in if \<not> won then
                (if (case report_get rid d2 of None \<Rightarrow> False | Some r \<Rightarrow> r_status r = FIX_APPROVED)
                 then (Inl (OpenPrError 409 ''in_progress''), s1)
                 else (Inl (OpenPrError 409 ''wrong_status''), s1))
              else (case worktree (p_id (c_project c0)) rid of
                      None \<Rightarrow> (Inl (OtherError ''RuntimeError''), s2)
                    | Some path \<Rightarrow>
                        hold_claim git gh render exists rmtree
                          (c0\<lparr>c_claim_token := token, c_worktree := path\<rparr>) s2)))"

end
