(* ===== verification/Open_Pr_Safety.thy ===== *)
theory Open_Pr_Safety
  imports Open_Pr
begin

text \<open>
  What one open-pr call guarantees whatever git and GitHub do: the claim is given back, only
  allowed git commands run, and an answer means that the pull request is recorded.
\<close>

section \<open>Reasoning about steps\<close>

text \<open>
  \<open>spec P m Q\<close>: run in a state with \<open>P\<close>, the step establishes \<open>Q\<close> when it returns and keeps
  \<open>P\<close> when it raises.
\<close>

definition spec :: "('w env \<Rightarrow> bool) \<Rightarrow> ('w, 'a) step \<Rightarrow> ('a \<Rightarrow> 'w env \<Rightarrow> bool) \<Rightarrow> bool" where
  "spec P m Q \<longleftrightarrow> (\<forall>s. P s \<longrightarrow> (case m s of (Inr x, s1) \<Rightarrow> Q x s1 | (Inl e, s1) \<Rightarrow> P s1))"

lemma spec_ret: "(\<And>s. P s \<Longrightarrow> Q x s) \<Longrightarrow> spec P (ret x) Q"
  by (simp add: spec_def ret_def)

lemma spec_raise: "spec P (raise e) Q"
  by (simp add: spec_def raise_def)

lemma spec_bind:
  assumes "spec P m (\<lambda>_. P)" and "\<And>x. spec P (f x) Q"
  shows "spec P (bind m f) Q"
  unfolding spec_def
proof (intro allI impI)
  fix s assume "P s"
  then have 1: "case m s of (Inr x, s1) \<Rightarrow> P s1 | (Inl e, s1) \<Rightarrow> P s1"
    using assms(1) by (simp add: spec_def)
  obtain r s1 where m: "m s = (r, s1)" by fastforce
  show "case bind m f s of (Inr x, s1) \<Rightarrow> Q x s1 | (Inl e, s1) \<Rightarrow> P s1"
  proof (cases r)
    case (Inl e)
    then show ?thesis using 1 m by (simp add: bind_def)
  next
    case (Inr x)
    then show ?thesis using 1 m assms(2)[of x] by (simp add: bind_def spec_def)
  qed
qed

lemma spec_if: "(c \<Longrightarrow> spec P m Q) \<Longrightarrow> (\<not> c \<Longrightarrow> spec P n Q) \<Longrightarrow> spec P (if c then m else n) Q"
  by simp

lemma spec_last:
  assumes "spec P m R" and "\<And>x s. R x s \<Longrightarrow> Q (g x) s"
  shows "spec P (bind m (\<lambda>x. ret (g x))) Q"
  using assms unfolding spec_def bind_def ret_def by (fastforce split: prod.splits sum.splits)

lemma spec_here:
  "spec P m Q \<Longrightarrow> P s \<Longrightarrow> (case m s of (Inr x, s1) \<Rightarrow> Q x s1 | (Inl e, s1) \<Rightarrow> P s1)"
  by (simp add: spec_def)

section \<open>The invariant of a call\<close>

text \<open>
  Allowed git commands: the credential goes only with three exact commands to the canonical remote,
  the only push is of \<open>HEAD\<close> to the report's own branch, without force, and the only ref deleted is
  the report's own base ref.
\<close>

definition allowed_git :: "string \<Rightarrow> string \<Rightarrow> string \<Rightarrow> string \<Rightarrow> git_call \<Rightarrow> bool" where
  "allowed_git url branch default_branch base_ref g \<longleftrightarrow>
     (if g_env g = Remote_env \<or> hd (g_args g) \<in> {''ls-remote'', ''fetch'', ''push''}
      then g_args g \<in> {[''ls-remote'', url, ''refs/heads/'' @ branch],
             [''fetch'', ''--no-tags'', ''--no-write-fetch-head'', url,
              ''refs/heads/'' @ default_branch @ '':'' @ base_ref]}
           \<or> (g_args g = [''push'', url, ''HEAD:refs/heads/'' @ branch] \<and> branch \<noteq> default_branch)
      else hd (g_args g) \<noteq> ''update-ref'' \<or> g_args g = [''update-ref'', ''-d'', base_ref])"

definition allowed :: "call \<Rightarrow> git_call \<Rightarrow> bool" where
  "allowed c = allowed_git (c_canonical c) (c_branch c) (c_default_branch c) (c_base_ref c)"

lemma allowed_simps [simp]:
  "allowed c \<lparr>g_args = args, g_cwd = cwd, g_env = envk, g_input = inp\<rparr>
     = allowed_git (c_canonical c) (c_branch c) (c_default_branch c) (c_base_ref c)
         \<lparr>g_args = args, g_cwd = cwd, g_env = envk, g_input = inp\<rparr>"
  by (simp add: allowed_def)

text \<open>The claim is held until the call is finalized, and then the pull request is recorded.\<close>

definition claim_state :: "call \<Rightarrow> 'w env \<Rightarrow> bool" where
  "claim_state c s \<longleftrightarrow> (\<exists>r. report_get (r_id (c_report c)) (e_db s) = Some r
     \<and> r_status r = (if e_finalized s then FIX_COMMITTED else FIX_APPROVED)
     \<and> r_claim_token r = (if e_finalized s then None else Some (c_claim_token c)))"

definition call_inv :: "call \<Rightarrow> (string \<rightharpoonup> string) \<Rightarrow> git_call list \<Rightarrow> 'w env \<Rightarrow> bool" where
  "call_inv c act log0 s \<longleftrightarrow> ids_ok (e_db s) \<and> proposals_ok (e_db s) \<and> claim_state c s \<and> e_active s = act
     \<and> (\<exists>gs. e_log s = log0 @ gs \<and> list_all (allowed c) gs)"

lemma call_inv_world:
  fixes s :: "'w env"
  shows "call_inv c act log0 (s\<lparr>e_world := w\<rparr>) = call_inv c act log0 s"
  by (simp add: call_inv_def claim_state_def)

lemma call_inv_db:
  assumes "same_tables (e_db s) d"
  shows "call_inv c act log0 (s\<lparr>e_db := d\<rparr>) = call_inv c act log0 s"
proof -
  have "report_get x d = report_get x (e_db s)" for x
    using assms by (simp add: same_tables_def report_get_find)
  then show ?thesis
    using assms by (simp add: call_inv_def claim_state_def same_tables_def ids_ok_def proposals_ok_def)
qed

lemma spec_run_git:
  fixes git :: "'w git"
  assumes "allowed c \<lparr>g_args = args, g_cwd = cwd, g_env = envk, g_input = inp\<rparr>"
  shows "spec (call_inv c act log0) (run_git git args cwd envk inp) (\<lambda>_. call_inv c act log0)"
  unfolding spec_def
proof (intro allI impI)
  fix s :: "'w env" assume I: "call_inv c act log0 s"
  let ?g = "\<lparr>g_args = args, g_cwd = cwd, g_env = envk, g_input = inp\<rparr>"
  obtain r w where g: "git ?g (e_world s) = (r, w)" by fastforce
  from I obtain gs where gs: "e_log s = log0 @ gs" "list_all (allowed c) gs" by (auto simp: call_inv_def)
  have "call_inv c act log0 (s\<lparr>e_world := w, e_log := e_log s @ [?g]\<rparr>)"
    using I gs assms by (auto simp: call_inv_def claim_state_def simp del: allowed_simps intro!: exI[where x = "gs @ [?g]"])
  then show "case run_git git args cwd envk inp s of (Inr x, s1) \<Rightarrow> call_inv c act log0 s1
      | (Inl e, s1) \<Rightarrow> call_inv c act log0 s1"
    by (cases r) (simp_all add: run_git_def g Let_def)
qed

lemma github_call_keeps:
  "github_call f s = (r, s1) \<Longrightarrow> call_inv c act log0 s \<Longrightarrow> call_inv c act log0 s1"
  by (auto simp: github_call_def call_inv_world split: prod.splits)

text \<open>A recorded pull request, and an answer that reports it.\<close>

definition has_pr :: "string \<Rightarrow> fix_proposal \<Rightarrow> db \<Rightarrow> bool" where
  "has_pr rid f d \<longleftrightarrow> proposal_get (f_id f) d = Some f \<and> f_bug_report_id f = rid \<and> f_pr_url f \<noteq> None"

definition answered :: "string \<Rightarrow> answer \<Rightarrow> db \<Rightarrow> bool" where
  "answered rid a d \<longleftrightarrow> (\<exists>f. has_pr rid f d \<and> an_proposal a = f_id f \<and> an_pr_url a = f_pr_url f
     \<and> an_pr_number a = f_pr_number f)"

lemma answer_for_answered: "has_pr rid f d \<Longrightarrow> answered rid (answer_for n f b) d"
  and answer_409_answered: "has_pr rid f d \<Longrightarrow> answered rid ((answer_for n f b)\<lparr>an_status := m\<rparr>) d"
  by (auto simp: answered_def answer_for_def)

lemma of_report_get:
  assumes "proposals_ok d" and "fix_proposal_of_report rid fid d = Some f"
  shows "proposal_get fid d = Some f \<and> f_id f = fid"
proof -
  have "f \<in> set (filter (\<lambda>f. f_id f = fid \<and> f_bug_report_id f = rid) (fix_proposals d))"
    using fetchone_in[OF assms(2)[unfolded fix_proposal_of_report_def]] .
  then show ?thesis using assms(1) by (simp add: proposal_get_def proposals_ok_def find_key_Some)
qed

lemma spec_record_pr:
  "spec (call_inv c act log0) (record_pr c fid pr sha)
     (\<lambda>f s. call_inv c act log0 s \<and> e_finalized s \<and> has_pr (r_id (c_report c)) f (e_db s))"
  unfolding spec_def
proof (intro allI impI)
  fix s :: "'w env" assume I: "call_inv c act log0 s"
  then have ok: "ids_ok (e_db s)" "proposals_ok (e_db s)" by (simp_all add: call_inv_def)
  let ?rid = "r_id (c_report c)" and ?t = "c_claim_token c"
  obtain res d where rec: "record_pull_request ?rid fid ?t (pr_html_url pr) (pr_num pr) sha (c_branch c) (e_db s)
      = (res, d)" by fastforce
  show "case record_pr c fid pr sha s of
      (Inr f, s1) \<Rightarrow> call_inv c act log0 s1 \<and> e_finalized s1 \<and> has_pr ?rid f (e_db s1)
    | (Inl e, s1) \<Rightarrow> call_inv c act log0 s1"
  proof (cases "owns_proposal ?rid fid (e_db s) \<and> holds_claim ?rid ?t (e_db s)")
    case False
    then have same: "same_tables (e_db s) d" and "\<exists>e. res = Inl e"
      using record_pull_request_cases[OF ok, of ?rid fid ?t "pr_html_url pr" "pr_num pr" sha "c_branch c"] rec
      by (simp_all split: if_splits)
    then obtain e where e: "res = Inl e" by blast
    show ?thesis using call_inv_db[OF same] I by (cases e) (simp_all add: record_pr_def rec e)
  next
    case True
    then obtain r f where rf: "report_get ?rid (e_db s) = Some r" "proposal_get fid (e_db s) = Some f"
      by (auto simp: owns_proposal_def holds_claim_def split: option.splits)
    have res: "res = Inr ()"
      using True record_pull_request_cases[OF ok, of ?rid fid ?t "pr_html_url pr" "pr_num pr" sha "c_branch c"] rec
      by simp
    have d: "d = snd (record_pull_request ?rid fid ?t (pr_html_url pr) (pr_num pr) sha (c_branch c) (e_db s))"
      by (simp add: rec)
    note rows = recorded_rows[OF ok conjunct1[OF True] conjunct2[OF True] rf d]
    have fb: "f_bug_report_id f = ?rid" using True rf by (simp add: owns_proposal_def)
    have I1: "call_inv c act log0 (s\<lparr>e_db := d, e_finalized := True\<rparr>)"
      using I rows by (simp add: call_inv_def claim_state_def)
    show ?thesis
    proof (cases "fix_proposal_of_report ?rid fid d")
      case None
      then show ?thesis using I1 by (simp add: record_pr_def rec res)
    next
      case (Some g)
      from of_report_get[OF rows(4) Some] have g: "proposal_get fid d = Some g" "f_id g = fid" by simp_all
      then have "has_pr ?rid g d" using rows(2)[of fid] fb by (auto simp: has_pr_def pr_proposal_def)
      then show ?thesis using I1 by (simp add: record_pr_def rec res Some)
    qed
  qed
qed

section \<open>The steps keep it\<close>

text \<open>A step that reads its state to choose how to begin.\<close>

lemma spec_bind_choice:
  assumes "spec P m (\<lambda>_. P)" and "spec P n (\<lambda>_. P)" and "\<And>x. spec P (k x) Q"
  shows "spec P (\<lambda>s. bind (if r \<or> q s then m else n) k s) Q"
  using spec_bind[of P m k Q, OF assms(1,3)] spec_bind[of P n k Q, OF assms(2,3)]
  by (auto simp: spec_def)

lemma spec_git_or_500: "spec (call_inv c act log0) (git_or_500 r) (\<lambda>_. call_inv c act log0)"
  by (simp add: git_or_500_def spec_raise spec_ret)

lemmas git_steps = spec_bind spec_if spec_run_git spec_git_or_500 spec_raise spec_ret

lemma spec_drop_tree:
  fixes git :: "'w git"
  shows "spec (call_inv c act log0)
     (bind (run_git git [''worktree'', ''prune''] In_clone Local_env None) (\<lambda>_ s1.
        if exists p (e_world s1) then (Inr (), s1\<lparr>e_world := rmtree p (e_world s1)\<rparr>) else (Inr (), s1)))
     (\<lambda>_. call_inv c act log0)"
proof (rule spec_bind)
  show "spec (call_inv c act log0) (run_git git [''worktree'', ''prune''] In_clone Local_env None)
      (\<lambda>_. call_inv c act log0)"
    by (rule spec_run_git) (simp add: allowed_git_def)
qed (simp add: spec_def call_inv_world)

lemma spec_cleanup:
  fixes git :: "'w git"
  shows "spec (call_inv c act log0) (cleanup git exists rmtree c) (\<lambda>_. call_inv c act log0)"
  unfolding cleanup_def Let_def
  by (intro spec_bind_choice git_steps spec_drop_tree) (simp_all add: allowed_git_def)

lemma spec_remote_branch_tip:
  fixes git :: "'w git"
  shows "spec (call_inv c act log0) (remote_branch_tip git c) (\<lambda>_. call_inv c act log0)"
  unfolding remote_branch_tip_def by (intro git_steps) (simp_all add: allowed_git_def)

lemma spec_build_commit:
  fixes git :: "'w git"
  shows "spec (call_inv c act log0) (build_commit git c) (\<lambda>_. call_inv c act log0)"
  unfolding build_commit_def Let_def by (intro git_steps) (simp_all add: allowed_git_def)

lemma push_guard_default:
  "assert_push_allowed (''refs/heads/'' @ b) def = None \<Longrightarrow> b \<noteq> def"
  by (auto simp: assert_push_allowed_def)

lemma spec_push:
  fixes git :: "'w git"
  shows "spec (call_inv c act log0) (push git c) (\<lambda>_. call_inv c act log0)"
proof (cases "assert_push_allowed (''refs/heads/'' @ c_branch c) (c_default_branch c)")
  case None
  then have "c_branch c \<noteq> c_default_branch c" by (rule push_guard_default)
  then show ?thesis unfolding push_def Let_def None option.case
    by (intro git_steps) (simp_all add: allowed_git_def)
qed (simp add: push_def spec_raise)

section \<open>The whole call\<close>

definition answered_inv :: "call \<Rightarrow> (string \<rightharpoonup> string) \<Rightarrow> git_call list \<Rightarrow> answer \<Rightarrow> 'w env \<Rightarrow> bool" where
  "answered_inv c act log0 a s \<longleftrightarrow>
     call_inv c act log0 s \<and> e_finalized s \<and> answered (r_id (c_report c)) a (e_db s)"

lemma spec_recorded_answer:
  "spec (call_inv c act log0) (bind (record_pr c fid pr sha) (\<lambda>f. ret (answer_for n f b)))
     (answered_inv c act log0)"
  by (rule spec_last[OF spec_record_pr]) (simp add: answered_inv_def answer_for_answered)

lemma spec_recorded_409:
  "spec (call_inv c act log0)
     (bind (record_pr c fid pr sha) (\<lambda>f. ret ((answer_for n f b)\<lparr>an_status := m\<rparr>))) (answered_inv c act log0)"
  by (rule spec_last[OF spec_record_pr]) (simp add: answered_inv_def answer_409_answered)

lemma spec_record_existing_pr:
  fixes gh :: "'w github"
  shows "spec (call_inv c act log0) (record_existing_pr gh c ps pr) (answered_inv c act log0)"
  unfolding spec_def
proof (intro allI impI)
  fix s :: "'w env" assume I: "call_inv c act log0 s"
  obtain r s1 where g: "github_call (gh_pr_commits gh (pr_num pr)) s = (r, s1)" by fastforce
  have I1: "call_inv c act log0 s1" by (rule github_call_keeps[OF g I])
  have step: "spec (call_inv c act log0) (bind (record_pr c owner pr None)
      (\<lambda>recorded. if c_requested c \<noteq> None \<and> c_requested c \<noteq> Some owner
         then ret ((answer_for 200 recorded False)\<lparr>an_status := 409\<rparr>)
         else ret (answer_for 200 recorded False))) (answered_inv c act log0)" for owner
  proof (cases "c_requested c \<noteq> None \<and> c_requested c \<noteq> Some owner")
    case True
    show ?thesis unfolding if_P[OF True] by (rule spec_recorded_409)
  next
    case False
    show ?thesis unfolding if_not_P[OF False] by (rule spec_recorded_answer)
  qed
  show "case record_existing_pr gh c ps pr s of (Inr x, s1) \<Rightarrow> answered_inv c act log0 x s1
      | (Inl e, s1) \<Rightarrow> call_inv c act log0 s1"
    using I1 spec_here[OF step I1]
    by (cases r) (simp_all add: record_existing_pr_def g split: option.split)
qed

lemma spec_create_pr_step:
  fixes gh :: "'w github"
  shows "spec (call_inv c act log0) (create_pr_step gh render c ps f sha) (answered_inv c act log0)"
  unfolding spec_def
proof (intro allI impI)
  fix s :: "'w env" assume I: "call_inv c act log0 s"
  obtain r s1 where g: "github_call (gh_create_pr gh (pr_title c) (cap_body (render (c_report c) f)) (c_branch c)
      (c_default_branch c)) s = (r, s1)" by fastforce
  obtain r2 s2 where g2: "github_call (gh_find_pr gh (c_branch c)) s1 = (r2, s2)" by fastforce
  have I1: "call_inv c act log0 s1" by (rule github_call_keeps[OF g I])
  have I2: "call_inv c act log0 s2" by (rule github_call_keeps[OF g2 I1])
  show "case create_pr_step gh render c ps f sha s of (Inr x, s1) \<Rightarrow> answered_inv c act log0 x s1
      | (Inl e, s1) \<Rightarrow> call_inv c act log0 s1"
  proof (cases r)
    case (Inr pr)
    show ?thesis using spec_here[OF spec_recorded_answer I1] by (simp add: create_pr_step_def g Inr)
  next
    case (Inl e)
    then show ?thesis
    proof (cases "e = PrAlreadyExists \<and> (\<exists>pr. r2 = Inr (Some pr))")
      case True
      then obtain pr where pr: "e = PrAlreadyExists" "r2 = Inr (Some pr)" by blast
      show ?thesis using spec_here[OF spec_record_existing_pr I2]
        by (simp add: create_pr_step_def g g2 Inl pr)
    next
      case False
      then show ?thesis using I1 I2
        by (cases e; cases r2) (auto simp: create_pr_step_def g g2 Inl split: option.split)
    qed
  qed
qed

lemma spec_push_intent:
  assumes "spec (call_inv c act log0) m Q"
  shows "spec (call_inv c act log0) (\<lambda>s. m (s\<lparr>e_db := fix_proposal_record_push_intent fid sha br (e_db s)\<rparr>)) Q"
proof -
  have "call_inv c act log0 (s\<lparr>e_db := fix_proposal_record_push_intent fid sha br (e_db s)\<rparr>)"
    if "call_inv c act log0 s" for s :: "'a env"
    using that
    by (simp add: call_inv_def claim_state_def fix_proposal_record_push_intent_def case_prod_beta Let_def
        ids_ok_def proposals_ok_def report_get_find)
  then show ?thesis using assms by (simp add: spec_def)
qed

lemma spec_run_claimed:
  fixes gh :: "'w github" and git :: "'w git"
  shows "spec (call_inv c act log0) (run_claimed git gh render c) (answered_inv c act log0)"
  unfolding spec_def
proof (intro allI impI)
  fix s :: "'w env" assume I: "call_inv c act log0 s"
  let ?ps = "fix_proposals_for_report (r_id (c_report c)) (e_db s)"
  obtain r s1 where g: "github_call (gh_find_pr gh (c_branch c)) s = (r, s1)" by fastforce
  have I1: "call_inv c act log0 s1" by (rule github_call_keeps[OF g I])
  have fresh: "spec (call_inv c act log0)
      (bind (build_commit git c) (\<lambda>sha s2.
         bind (push git c) (\<lambda>_. create_pr_step gh render c ?ps (c_proposal c) sha)
           (s2\<lparr>e_db := fix_proposal_record_push_intent (f_id (c_proposal c)) sha (c_branch c) (e_db s2)\<rparr>)))
      (answered_inv c act log0)"
    by (intro spec_bind[OF spec_build_commit] spec_push_intent spec_bind[OF spec_push] spec_create_pr_step)
  have "spec (call_inv c act log0) (bind (remote_branch_tip git c) (\<lambda>tip.
      case tip of
        Some sha \<Rightarrow>
          (case find (\<lambda>p. f_pushed_sha p = Some sha) ?ps of
             None \<Rightarrow> raise (OpenPrError 409 ''branch_exists'')
           | Some pusher \<Rightarrow>
               if c_requested c \<noteq> None \<and> c_requested c \<noteq> Some (f_id pusher)
               then raise (OpenPrError 409 ''branch_exists'')
               else create_pr_step gh render c ?ps pusher sha)
      | None \<Rightarrow>
          bind (build_commit git c) (\<lambda>sha s2.
            bind (push git c) (\<lambda>_. create_pr_step gh render c ?ps (c_proposal c) sha)
              (s2\<lparr>e_db := fix_proposal_record_push_intent (f_id (c_proposal c)) sha (c_branch c) (e_db s2)\<rparr>))))
      (answered_inv c act log0)"
    by (rule spec_bind[OF spec_remote_branch_tip])
      (simp add: fresh spec_raise spec_create_pr_step split: option.split)
  note fresh_run = spec_here[OF this I1]
  show "case run_claimed git gh render c s of (Inr x, s1) \<Rightarrow> answered_inv c act log0 x s1
      | (Inl e, s1) \<Rightarrow> call_inv c act log0 s1"
  proof (cases r)
    case (Inl e)
    then show ?thesis using I1 by (simp add: run_claimed_def Let_def g)
  next
    case (Inr found)
    then show ?thesis using fresh_run spec_here[OF spec_record_existing_pr I1]
      by (cases found) (simp_all add: run_claimed_def Let_def g)
  qed
qed

lemma cleanup_db:
  fixes git :: "'w git"
  assumes "cleanup git exists rmtree c s = (r, s1)"
  shows "e_db s1 = e_db s \<and> e_finalized s1 = e_finalized s"
proof -
  let ?P = "\<lambda>t :: 'w env. e_db t = e_db s \<and> e_finalized t = e_finalized s"
  have run: "spec ?P (run_git git args cwd envk inp) (\<lambda>_. ?P)" for args cwd envk inp
    by (simp add: spec_def run_git_def Let_def case_prod_beta split: option.split)
  have prune: "spec ?P (bind (run_git git [''worktree'', ''prune''] In_clone Local_env None) (\<lambda>_ s1.
        if exists p (e_world s1) then (Inr (), s1\<lparr>e_world := rmtree p (e_world s1)\<rparr>) else (Inr (), s1)))
     (\<lambda>_. ?P)" for p
    by (rule spec_bind[OF run]) (simp add: spec_def)
  have "spec ?P (cleanup git exists rmtree c) (\<lambda>_. ?P)"
    unfolding cleanup_def Let_def
    by (intro spec_bind_choice spec_bind spec_if run prune spec_ret) simp_all
  from spec_here[OF this, of s] assms show ?thesis by (cases r) simp_all
qed

text \<open>Holding the claim: cleanup before and after, and the claim given back unless recorded.\<close>

lemma hold_claim_ends:
  fixes gh :: "'w github" and git :: "'w git"
  assumes "ids_ok (e_db s)" and "proposals_ok (e_db s)"
    and "holds_claim (r_id (c_report c)) (c_claim_token c) (e_db s)"
    and "e_active s (r_id (c_report c)) = Some (c_claim_token c)"
    and "hold_claim git gh render exists rmtree c s = (res, s')"
  shows "e_active s' = (e_active s)(r_id (c_report c) := None)"
    and "\<exists>gs. e_log s' = e_log s @ gs \<and> list_all (allowed c) gs"
    and "\<exists>r. report_get (r_id (c_report c)) (e_db s') = Some r \<and> r_claim_token r = None
       \<and> (r_status r = FIX_COMMITTED \<or> (r_status r = FIX_PROPOSED \<and> (\<exists>e. res = Inl e)))"
    and "res = Inr a \<Longrightarrow> answered (r_id (c_report c)) a (e_db s')"
proof -
  let ?rid = "r_id (c_report c)" and ?I = "call_inv c (e_active s) (e_log s)"
  let ?s0 = "s\<lparr>e_finalized := False\<rparr>"
  have I0: "?I ?s0"
    using assms(1-3) by (auto simp: call_inv_def claim_state_def holds_claim_def split: option.splits)
  have body: "spec ?I (bind (cleanup git exists rmtree c) (\<lambda>_. run_claimed git gh render c))
      (answered_inv c (e_active s) (e_log s))"
    by (rule spec_bind[OF spec_cleanup spec_run_claimed])
  obtain r1 s1 where b: "bind (cleanup git exists rmtree c) (\<lambda>_. run_claimed git gh render c) ?s0 = (r1, s1)"
    by fastforce
  obtain r2 s2 where k: "cleanup git exists rmtree c s1 = (r2, s2)" by fastforce
  have I1: "?I s1" using spec_here[OF body I0] b by (cases r1) (simp_all add: answered_inv_def)
  have I2: "?I s2"
    using spec_here[OF spec_cleanup I1, of git exists rmtree] unfolding k by (cases r2) simp_all
  note keep = cleanup_db[OF k]
  have ans: "r1 = Inr a \<Longrightarrow> e_finalized s2 \<and> answered ?rid a (e_db s2)" for a
    using spec_here[OF body I0] b keep by (simp add: answered_inv_def)
  let ?s3 = "if \<not> e_finalized s2 then s2\<lparr>e_db := snd (release_claim ?rid (c_claim_token c) (e_db s2))\<rparr> else s2"
  have act: "e_active ?s3 ?rid = Some (c_claim_token c)" "e_active ?s3 = e_active s" "e_log ?s3 = e_log s2"
    using I2 assms(4) by (simp_all add: call_inv_def)
  then have out: "res = r1" "s' = ?s3\<lparr>e_active := (e_active s)(?rid := None)\<rparr>"
    using assms(5) by (simp_all add: hold_claim_def Let_def b k)
  show "e_active s' = (e_active s)(r_id (c_report c) := None)" by (simp add: out)
  show "\<exists>gs. e_log s' = e_log s @ gs \<and> list_all (allowed c) gs"
    using I2 act by (simp add: out call_inv_def)
  obtain r where r: "report_get ?rid (e_db s2) = Some r"
      "r_status r = (if e_finalized s2 then FIX_COMMITTED else FIX_APPROVED)"
      "r_claim_token r = (if e_finalized s2 then None else Some (c_claim_token c))"
    using I2 by (auto simp: call_inv_def claim_state_def)
  have failed: "\<not> e_finalized s2 \<Longrightarrow> \<exists>e. res = Inl e" using ans by (cases r1) (auto simp: out)
  show "\<exists>r. report_get (r_id (c_report c)) (e_db s') = Some r \<and> r_claim_token r = None
       \<and> (r_status r = FIX_COMMITTED \<or> (r_status r = FIX_PROPOSED \<and> (\<exists>e. res = Inl e)))"
  proof (cases "e_finalized s2")
    case True
    then show ?thesis using r by (simp add: out)
  next
    case False
    then show ?thesis using r failed by (simp add: out release_get)
  qed
  show "answered ?rid a (e_db s')" if "res = Inr a"
    using ans[of a] that by (simp add: out)
qed

section \<open>The checks and the claim\<close>

lemma report_get_id: "report_get rid d = Some r \<Longrightarrow> r_id r = rid"
  by (auto simp: report_get_find find_Some_iff)

lemma recorded_answer_cases [simp]:
  "map_sum id Inl (recorded_answer f req) \<noteq> Inr (Inr c)"
  "map_sum id Inl (recorded_answer f req) = Inr (Inl a) \<longleftrightarrow>
     (req = None \<or> req = Some (f_id f)) \<and> a = answer_for 200 f False"
  by (auto simp: recorded_answer_def)

lemma checks_call:
  assumes "open_pr_checks st has_git web_base rid req s = Inr (Inr c)"
  shows "report_get rid (e_db s) = Some (c_report c)" and "r_id (c_report c) = rid"
    and "r_status (c_report c) = FIX_PROPOSED \<or> r_status (c_report c) = FIX_APPROVED"
    and "project_get (r_project_id (c_report c)) (e_db s) = Some (c_project c)"
    and "parse_github_slug (p_repo_url (c_project c)) = Some (c_owner c, c_repo c)"
    and "c_canonical c = canonical_url web_base (c_owner c) (c_repo c)"
    and "c_default_branch c = (if str_set (p_default_branch (c_project c))
           then the (p_default_branch (c_project c)) else ''main'')"
    and "e_active s rid = None" and "recorded_pull_request rid (e_db s) = None"
    and "github_token_value st \<noteq> None"
  using assms report_get_id[of rid "e_db s"]
  by (auto simp: open_pr_checks_def Let_def split: option.splits list.splits if_splits prod.splits)

lemma recorded_pr_in:
  "recorded_pull_request rid d = Some f \<Longrightarrow> f \<in> set (fix_proposals d) \<and> f_bug_report_id f = rid \<and> f_pr_url f \<noteq> None"
  unfolding recorded_pull_request_def using fetchone_in by fastforce

lemma checks_answer:
  assumes "proposals_ok (e_db s)" and "open_pr_checks st has_git web_base rid req s = Inr (Inl a)"
  shows "answered rid a (e_db s)" and "recorded_pull_request rid (e_db s) \<noteq> None"
proof -
  obtain f where f: "recorded_pull_request rid (e_db s) = Some f" "a = answer_for 200 f False"
    using assms(2)
    by (auto simp: open_pr_checks_def Let_def split: option.splits list.splits if_splits prod.splits)
  have "has_pr rid f (e_db s)"
    using recorded_pr_in[OF f(1)] assms(1) by (simp add: has_pr_def proposal_get_def proposals_ok_def find_key_Some)
  then show "answered rid a (e_db s)" by (simp add: f(2) answer_for_answered)
  show "recorded_pull_request rid (e_db s) \<noteq> None" using f by simp
qed

lemma take_claim_wins:
  assumes "ids_ok d" and "report_get (r_id (c_report c)) d = Some (c_report c)"
    and "r_status (c_report c) = FIX_PROPOSED \<or> r_status (c_report c) = FIX_APPROVED"
    and "take_claim c token (snd (new_id d)) = (won, d')"
  shows "won" and "holds_claim (r_id (c_report c)) token d'" and "ids_ok d'"
    and "fix_proposals d' = fix_proposals d"
proof -
  have get: "report_get x (snd (new_id d)) = report_get x d" for x by (simp add: new_id_def report_get_find)
  have ok: "ids_ok (snd (new_id d))" using assms(1) by (simp add: new_id_def ids_ok_def)
  have tables: "fix_proposals (snd (new_id d)) = fix_proposals d" by (simp add: new_id_def)
  consider "r_status (c_report c) = FIX_APPROVED" | "r_status (c_report c) = FIX_PROPOSED"
    using assms(3) by blast
  then have "won \<and> holds_claim (r_id (c_report c)) token d' \<and> ids_ok d' \<and> fix_proposals d' = fix_proposals d"
  proof cases
    case 1
    then have t: "adopt_claim (r_id (c_report c)) (r_claim_token (c_report c)) token (snd (new_id d)) = (won, d')"
      using assms(4) by (simp add: take_claim_def)
    show ?thesis
      using 1 assms(2) ok adopt_won[OF ok, of "r_id (c_report c)" "r_claim_token (c_report c)" token]
        adopt_get[of "r_id (c_report c)" "r_id (c_report c)" "r_claim_token (c_report c)" token "snd (new_id d)"]
        adopt_ids[of "r_id (c_report c)" "r_claim_token (c_report c)" token "snd (new_id d)"] t tables
      by (auto simp: get holds_claim_def proposals_ok_def adopt_claim_def case_prod_beta Let_def)
  next
    case 2
    then have t: "try_claim_report (r_id (c_report c)) FIX_PROPOSED FIX_APPROVED (Some token) (snd (new_id d)) = (won, d')"
      using assms(4) by (simp add: take_claim_def)
    show ?thesis
      using 2 assms(2) ok try_claim_won[OF ok, of "r_id (c_report c)" FIX_PROPOSED FIX_APPROVED "Some token"]
        try_claim_get[of "r_id (c_report c)" "r_id (c_report c)" FIX_PROPOSED FIX_APPROVED "Some token" "snd (new_id d)"]
        try_claim_ids[of "r_id (c_report c)" FIX_PROPOSED FIX_APPROVED "Some token" "snd (new_id d)"] t tables
      by (auto simp: get holds_claim_def proposals_ok_def try_claim_eq case_prod_beta Let_def)
  qed
  then show "won" "holds_claim (r_id (c_report c)) token d'" "ids_ok d'" "fix_proposals d' = fix_proposals d"
    by simp_all
qed

text \<open>A call ends in one of three ways: before the claim, at the worktree path, or after holding it.\<close>

lemma open_pr_cases:
  assumes "ids_ok (e_db s)" and "proposals_ok (e_db s)"
    and "open_pull_request st git gh render exists rmtree has_git web_base worktree rid req s = (res, s')"
  obtains (early) "s' = s" "\<And>c. open_pr_checks st has_git web_base rid req s \<noteq> Inr (Inr c)"
      "\<And>a. res = Inr a \<Longrightarrow> answered rid a (e_db s)"
    | (claimed) c d token where
      "open_pr_checks st has_git web_base rid req s = Inr (Inr c)"
      "holds_claim rid token d" "ids_ok d" "fix_proposals d = fix_proposals (e_db s)" "e_active s rid = None"
      "(res, s') = (case worktree (p_id (c_project c)) rid of
          None \<Rightarrow> (Inl (OtherError ''RuntimeError''), s\<lparr>e_db := d, e_active := (e_active s)(rid \<mapsto> token)\<rparr>)
        | Some path \<Rightarrow> hold_claim git gh render exists rmtree (c\<lparr>c_claim_token := token, c_worktree := path\<rparr>)
            (s\<lparr>e_db := d, e_active := (e_active s)(rid \<mapsto> token)\<rparr>))"
proof (cases "open_pr_checks st has_git web_base rid req s")
  case (Inl e)
  then show ?thesis using assms(3) by (intro early) (simp_all add: open_pull_request_def)
next
  case (Inr x)
  show ?thesis
  proof (cases x)
    case (Inl a)
    then show ?thesis
      using assms(3) Inr checks_answer(1)[OF assms(2)] by (intro early) (auto simp: open_pull_request_def)
  next
    case c: (Inr c)
    have ch: "open_pr_checks st has_git web_base rid req s = Inr (Inr c)" using Inr c by simp
    note facts = checks_call[OF ch]
    obtain token d0 where ni: "new_id (e_db s) = (token, d0)" by fastforce
    obtain won d where t: "take_claim c token d0 = (won, d)" by fastforce
    have g: "report_get (r_id (c_report c)) (e_db s) = Some (c_report c)" using facts(1,2) by simp
    have t': "take_claim c token (snd (new_id (e_db s))) = (won, d)" by (simp add: ni t)
    note w = take_claim_wins[OF assms(1) g facts(3) t']
    have "(res, s') = (case worktree (p_id (c_project c)) rid of
          None \<Rightarrow> (Inl (OtherError ''RuntimeError''), s\<lparr>e_db := d, e_active := (e_active s)(rid \<mapsto> token)\<rparr>)
        | Some path \<Rightarrow> hold_claim git gh render exists rmtree (c\<lparr>c_claim_token := token, c_worktree := path\<rparr>)
            (s\<lparr>e_db := d, e_active := (e_active s)(rid \<mapsto> token)\<rparr>))"
      using assms(3) w(1) t ni by (cases "worktree (p_id (c_project c)) rid") (simp_all add: open_pull_request_def ch)
    then show ?thesis using claimed[OF ch] w facts(2,8) by simp
  qed
qed

section \<open>Properties\<close>

text \<open>A small instance: every git command fails, GitHub knows no pull request.\<close>

definition demo_env :: "unit env" where
  "demo_env = \<lparr>e_db = init_db\<lparr>
       projects := [(blank_project ''p'' 1)\<lparr>p_repo_url := ''https://github.com/o/r'', p_repo_path := Some ''/c''\<rparr>],
       reports := [(blank_report ''r'' ''p'' 2)\<lparr>r_status := FIX_PROPOSED\<rparr>],
       fix_proposals := [blank_proposal ''f'' ''r'' 3]\<rparr>,
     e_world = (), e_log = [], e_active = (\<lambda>_. None), e_finalized = False\<rparr>"

definition demo_git :: "unit git" where
  "demo_git g w = (Some \<lparr>g_code = 1, g_out = [], g_err = []\<rparr>, w)"

definition demo_github :: "unit github" where
  "demo_github = \<lparr>gh_find_pr = (\<lambda>_ w. (Inr None, w)), gh_pr_commits = (\<lambda>_ w. (Inr [], w)),
     gh_create_pr = (\<lambda>_ _ _ _ w. (Inl GitHubError, w))\<rparr>"

definition demo_run :: "(string \<Rightarrow> string \<Rightarrow> string option) \<Rightarrow> (open_error + answer) \<times> unit env" where
  "demo_run worktree = open_pull_request (default_settings\<lparr>github_token := Some ''tok''\<rparr>) demo_git demo_github
     (\<lambda>_ _. ''body'') (\<lambda>_ _. False) (\<lambda>_ w. w) (\<lambda>_. True) ''https://github.com'' worktree ''r'' None demo_env"

lemma demo_oks: "ids_ok (e_db demo_env)" "proposals_ok (e_db demo_env)"
  by (simp_all add: demo_env_def ids_ok_def proposals_ok_def)

text \<open>
  C25.  An open-pr call gives its claim back.  Whatever git and GitHub answer, including errors and
  timeouts at any step, a call either changes nothing, or ends with the process's table of running
  calls as it was and the report out of \<open>fix_approved\<close> without a token: in \<open>fix_committed\<close> when a
  pull request was recorded, else back in \<open>fix_proposed\<close> and the caller gets an error.  Required:
  the worktree path lies under the worktree root.
\<close>

theorem open_pr_gives_the_claim_back:
  assumes "ids_ok (e_db s)" and "proposals_ok (e_db s)" and "\<And>pid. worktree pid rid \<noteq> None"
    and "(res, s') = open_pull_request st git gh render exists rmtree has_git web_base worktree rid req s"
  shows "s' = s \<or> (e_active s rid = None \<and> e_active s' = e_active s
    \<and> (\<exists>r. report_get rid (e_db s') = Some r \<and> r_claim_token r = None
         \<and> (r_status r = FIX_COMMITTED \<or> (r_status r = FIX_PROPOSED \<and> (\<exists>e. res = Inl e)))))"
  using assms(1,2) assms(4)[symmetric]
proof (cases rule: open_pr_cases)
  case (claimed c d token)
  obtain path where p: "worktree (p_id (c_project c)) rid = Some path" using assms(3) by blast
  note id = checks_call(2)[OF claimed(1)]
  have "hold_claim git gh render exists rmtree (c\<lparr>c_claim_token := token, c_worktree := path\<rparr>)
      (s\<lparr>e_db := d, e_active := (e_active s)(rid \<mapsto> token)\<rparr>) = (res, s')"
    using claimed(6) p by simp
  from hold_claim_ends(1,3)[OF _ _ _ _ this] claimed(2-5) assms(2) id
  show ?thesis by (simp add: proposals_ok_def fun_upd_idem)
qed simp

theorem open_pr_gives_the_claim_back_witness:
  "let (res, s') = demo_run (\<lambda>_ _. Some ''/w'') in
     res = Inl (OpenPrError 502 ''github_error'') \<and> e_active s' ''r'' = None
     \<and> map_option r_claim_token (report_get ''r'' (e_db s')) = Some None"
proof -
  have run: "fst (demo_run (\<lambda>_ _. Some ''/w'')) = Inl (OpenPrError 502 ''github_error'')"
      "length (e_log (snd (demo_run (\<lambda>_ _. Some ''/w'')))) \<noteq> 0"
    by code_simp+
  have "e_log demo_env = []" by (simp add: demo_env_def)
  then show ?thesis
    using open_pr_gives_the_claim_back[OF demo_oks _ prod.collapse, of "\<lambda>_ _. Some ''/w''" "''r''"
        "default_settings\<lparr>github_token := Some ''tok''\<rparr>" demo_git demo_github "\<lambda>_ _. ''body''"
        "\<lambda>_ _. False" "\<lambda>_ w. w" "\<lambda>_. True" "''https://github.com''" None] run
    unfolding demo_run_def by (auto simp: case_prod_beta)
qed

text \<open>
  C26.  What one call may do with git.  Every command logged is allowed for the report's own
  repository: the credential is only in the environment of listing the report's branch, fetching
  the default branch into the report's base ref, and pushing \<open>HEAD\<close> to \<open>fix/bugalizer-<report>\<close>, each
  with the canonical GitHub URL as the remote; the push carries no force and never targets the
  default branch; no ref but the report's base ref is deleted.
\<close>

theorem open_pr_git_is_confined:
  assumes "ids_ok (e_db s)" and "proposals_ok (e_db s)"
    and "report_get rid (e_db s) = Some r" and "project_get (r_project_id r) (e_db s) = Some p"
    and "parse_github_slug (p_repo_url p) = Some (owner, repo)"
    and "(res, s') = open_pull_request st git gh render exists rmtree has_git web_base worktree rid req s"
  shows "\<exists>gs. e_log s' = e_log s @ gs \<and> list_all (allowed_git (canonical_url web_base owner repo) (branch_for rid)
      (if str_set (p_default_branch p) then the (p_default_branch p) else ''main'')
      (''refs/bugalizer/base/'' @ rid)) gs"
  using assms(1,2) assms(6)[symmetric]
proof (cases rule: open_pr_cases)
  case (claimed c d token)
  note facts = checks_call[OF claimed(1)]
  have rp: "c_report c = r" "c_project c = p" "c_owner c = owner" "c_repo c = repo"
    using facts(1,4,5) assms(3-5) by simp_all
  show ?thesis
  proof (cases "worktree (p_id (c_project c)) rid")
    case None
    then show ?thesis using claimed(6) by simp
  next
    case (Some path)
    let ?c = "c\<lparr>c_claim_token := token, c_worktree := path\<rparr>"
    have "hold_claim git gh render exists rmtree ?c
        (s\<lparr>e_db := d, e_active := (e_active s)(rid \<mapsto> token)\<rparr>) = (res, s')"
      using claimed(6) Some by simp
    from hold_claim_ends(2)[OF _ _ _ _ this] claimed(2-5) assms(2) facts(2)
    have "\<exists>gs. e_log s' = e_log s @ gs \<and> list_all (allowed ?c) gs" by (simp add: proposals_ok_def)
    moreover have "allowed ?c = allowed_git (canonical_url web_base owner repo) (branch_for rid)
        (if str_set (p_default_branch p) then the (p_default_branch p) else ''main'') (''refs/bugalizer/base/'' @ rid)"
      using facts(6,7) rp report_get_id[OF assms(3)] by (simp add: allowed_def c_branch_def c_base_ref_def)
    ultimately show ?thesis by (simp only:)
  qed
qed simp

theorem open_pr_git_is_confined_witness:
  "list_all (allowed_git ''https://github.com/o/r.git'' ''fix/bugalizer-r'' ''main'' ''refs/bugalizer/base/r'')
     (e_log (snd (demo_run (\<lambda>_ _. Some ''/w''))))"
proof -
  let ?p = "(blank_project ''p'' 1)\<lparr>p_repo_url := ''https://github.com/o/r'', p_repo_path := Some ''/c''\<rparr>"
  let ?r = "(blank_report ''r'' ''p'' 2)\<lparr>r_status := FIX_PROPOSED\<rparr>"
  have g: "report_get ''r'' (e_db demo_env) = Some ?r" "project_get (r_project_id ?r) (e_db demo_env) = Some ?p"
    by (simp_all add: demo_env_def report_get_def project_get_def blank_report_def blank_project_def)
  have slug: "parse_github_slug (p_repo_url ?p) = Some (''o'', ''r'')" by (simp add: blank_project_def) code_simp
  have u: "canonical_url ''https://github.com'' ''o'' ''r'' = ''https://github.com/o/r.git''" by code_simp
  have "e_log demo_env = []" by (simp add: demo_env_def)
  then show ?thesis
    using open_pr_git_is_confined[OF demo_oks g slug prod.collapse, of "default_settings\<lparr>github_token := Some ''tok''\<rparr>"
        demo_git demo_github "\<lambda>_ _. ''body''" "\<lambda>_ _. False" "\<lambda>_ w. w" "\<lambda>_. True" "''https://github.com''"
        "\<lambda>_ _. Some ''/w''" None]
    unfolding demo_run_def by (simp add: u blank_project_def branch_for_def BRANCH_PREFIX_def)
qed



text \<open>
  A worktree path outside the root keeps the claim for good.  The path is resolved between
  the claim and the \<open>try\<close> block that gives it back, so a call that fails there leaves the report in
  \<open>fix_approved\<close> under its token and the call's entry in the table of running calls, and every later
  call for the report is refused as \<open>in_progress\<close>, until the process restarts.
\<close>

theorem open_pr_escaped_worktree_keeps_claim:
  assumes "ids_ok (e_db s)" and "proposals_ok (e_db s)" and "\<And>pid. worktree pid rid = None"
    and "open_pr_checks st has_git web_base rid req s = Inr (Inr c)"
    and "(res, s') = open_pull_request st git gh render exists rmtree has_git web_base worktree rid req s"
  shows "res = Inl (OtherError ''RuntimeError'') \<and> (\<exists>token. holds_claim rid token (e_db s'))
    \<and> open_pull_request st2 git2 gh2 render2 exists2 rmtree2 has_git2 web_base2 worktree2 rid None s'
      = (Inl (OpenPrError 409 ''in_progress''), s')"
  using assms(1,2) assms(5)[symmetric]
proof (cases rule: open_pr_cases)
  case early
  from early(2)[of c] assms(4) show ?thesis by simp
next
  case (claimed c' d token)
  note facts = checks_call[OF claimed(1)]
  have out: "res = Inl (OtherError ''RuntimeError'')"
      "s' = s\<lparr>e_db := d, e_active := (e_active s)(rid \<mapsto> token)\<rparr>"
    using claimed(6) assms(3) by simp_all
  obtain r where r: "report_get rid d = Some r"
    using claimed(2) by (auto simp: holds_claim_def split: option.splits)
  have rec: "recorded_pull_request rid d = None" using facts(9) claimed(4) by (simp add: recorded_pull_request_def)
  have "fix_proposals_for_report rid (e_db s) \<noteq> []"
    using claimed(1) by (auto simp: open_pr_checks_def Let_def split: option.splits list.splits if_splits)
  then obtain f fs where "fix_proposals_for_report rid d = f # fs"
    using claimed(4) by (cases "fix_proposals_for_report rid d") (simp_all add: fix_proposals_for_report_def)
  then have "open_pr_checks st2 has_git2 web_base2 rid None s' = Inl (OpenPrError 409 ''in_progress'')"
    by (simp add: open_pr_checks_def Let_def out r rec)
  then show ?thesis using out claimed(2) by (auto simp: open_pull_request_def)
qed

theorem open_pr_escaped_worktree_keeps_claim_witness:
  "fst (demo_run (\<lambda>_ _. None)) = Inl (OtherError ''RuntimeError'')"
proof -
  let ?st = "default_settings\<lparr>github_token := Some ''tok''\<rparr>"
  have "case open_pr_checks ?st (\<lambda>_. True) ''https://github.com'' ''r'' None demo_env of
      Inr (Inr c) \<Rightarrow> True | Inr (Inl a) \<Rightarrow> False | Inl e \<Rightarrow> False"
    by code_simp
  then obtain c where "open_pr_checks ?st (\<lambda>_. True) ''https://github.com'' ''r'' None demo_env = Inr (Inr c)"
    by (auto split: sum.splits)
  from open_pr_escaped_worktree_keeps_claim[OF demo_oks _ this prod.collapse, of "\<lambda>_ _. None"]
  show ?thesis unfolding demo_run_def by auto
qed

end
