(* ===== verification/Reports_Api.thy ===== *)
theory Reports_Api
  imports Eligibility Open_Pr
begin

text \<open>
  The state-changing operations of \<open>api/reports.py\<close>, with the preconditions the triage sync shares
  with the endpoints.  A refusal is an HTTP status with its detail text; \<open>running\<close> is
  \<open>_active_claims\<close>.  Request validation by the framework and the JSON shape of answers are left out.
\<close>

section \<open>Shared preconditions\<close>

type_synonym refusal = "(nat \<times> string) option"

definition check_local_analysis :: "report \<Rightarrow> refusal" where
  "check_local_analysis r =
     (if r_status r \<noteq> TRIAGED \<and> r_status r \<noteq> CLARIFICATION_NEEDED
      then Some (409, ''Report is in status '' @ status_value (r_status r)
        @ ''; manual local analysis requires triaged or clarification_needed'')
      else None)"

text \<open>The freshness rule: a known head equal to the localization's commit.\<close>

definition loc_sha :: "analysis \<Rightarrow> json option" where
  "loc_sha a = (case a_result a of None \<Rightarrow> None | Some j \<Rightarrow> if is_obj j then jget ''repo_sha'' j else None)"

definition sha_fresh :: "analysis \<Rightarrow> project option \<Rightarrow> bool" where
  "sha_fresh a p =
     (case p of None \<Rightarrow> False
      | Some pr \<Rightarrow> str_set (p_head_sha pr) \<and> loc_sha a = map_option JStr (p_head_sha pr))"

definition check_cloud_analysis :: "report \<Rightarrow> project option \<Rightarrow> db \<Rightarrow> refusal" where
  "check_cloud_analysis r p d =
     (if r_status r \<noteq> TRIAGED
      then Some (409, ''Report is in status '' @ status_value (r_status r)
        @ ''; cloud analysis requires triaged (run local analysis first)'')
      else (case latest_completed_localization (r_id r) d of
              None \<Rightarrow> Some (409, ''No completed localization; run local analysis first'')
            | Some loc \<Rightarrow> if \<not> sha_fresh loc p
                then Some (409, ''Localization is stale; re-run local analysis first'') else None))"

definition check_status_transition :: "report \<Rightarrow> bug_status \<Rightarrow> refusal" where
  "check_status_transition r target =
     (if r_status r \<in> set TERMINAL_STATUSES
      then Some (409, ''Cannot transition from terminal status '' @ status_value (r_status r))
      else if \<not> validate_transition (r_status r) target True
      then Some (409, ''Invalid transition: '' @ status_value (r_status r) @ '' to '' @ status_value target)
      else None)"

section \<open>Endpoints\<close>

definition not_found :: "(nat \<times> string)" where
  "not_found = (404, ''Bug report not found'')"

text \<open>\<open>PATCH /reports/{id}/status\<close>: the previous and the new status.\<close>

definition update_report_status ::
  "string \<Rightarrow> bug_status \<Rightarrow> string option \<Rightarrow> db \<Rightarrow> ((nat \<times> string) + (bug_status \<times> bug_status)) \<times> db" where
  "update_report_status rid target reason d =
     (case report_get rid d of
        None \<Rightarrow> (Inl not_found, d)
      | Some row \<Rightarrow>
          (case check_status_transition row target of
             Some e \<Rightarrow> (Inl e, d)
           | None \<Rightarrow>
               (case report_update_status rid target reason (Some (r_status row)) d of
                  (None, d1) \<Rightarrow> (Inl (409, ''Report status changed during the update; re-read and retry''), d1)
                | (Some _, d1) \<Rightarrow> (Inr (r_status row, target), d1))))"

text \<open>\<open>PATCH /reports/{id}/analysis_mode\<close>.\<close>

definition update_analysis_mode ::
  "string \<Rightarrow> analysis_mode \<Rightarrow> db \<Rightarrow> ((nat \<times> string) + report option) \<times> db" where
  "update_analysis_mode rid mode d =
     (case report_get rid d of
        None \<Rightarrow> (Inl not_found, d)
      | Some _ \<Rightarrow> (case report_update_fields rid [RF_mode mode] d of (r, d1) \<Rightarrow> (Inr r, d1)))"

text \<open>\<open>POST /reports/{id}/analyze\<close>: the background task it starts, with where its model comes from.\<close>

definition fix_source :: "project option \<Rightarrow> string" where
  "fix_source p =
     (case p of None \<Rightarrow> ''global''
      | Some pr \<Rightarrow> if str_set (p_fix_llm_provider pr) \<or> str_set (p_fix_llm_model pr) then ''project'' else ''global'')"

datatype background_task = Local_task string | Fix_task string "llm_override option"

definition analyze_report ::
  "string \<Rightarrow> analysis_tier \<Rightarrow> llm_override option \<Rightarrow> db
   \<Rightarrow> (nat \<times> string) + (background_task \<times> string option)" where
  "analyze_report rid tier llm d =
     (case report_get rid d of
        None \<Rightarrow> Inl not_found
      | Some row \<Rightarrow>
          (case (case llm of None \<Rightarrow> None
             | Some ov \<Rightarrow>
                 if tier \<noteq> CLOUD then Some (422, ''llm override is accepted with tier cloud only'')
                 else if ov_key_ref ov \<noteq> None \<and> \<not> has_key ov
                 then Some (422, ''llm.key_ref requires llm.api_key'')
                 else if ov_key_ref ov \<noteq> None \<and> ov_api_key ov \<noteq> None \<and> ov_key_ref ov = ov_api_key ov
                 then Some (422, ''llm.key_ref must not be the api_key value'') else None) of
             Some e \<Rightarrow> Inl e
           | None \<Rightarrow>
               if tier = LOCAL then
                 (case check_local_analysis row of Some e \<Rightarrow> Inl e | None \<Rightarrow> Inr (Local_task rid, None))
               else
                 (let p = project_get (r_project_id row) d in
                  case check_cloud_analysis row p d of
                    Some e \<Rightarrow> Inl e
                  | None \<Rightarrow>
                      (case llm of
                         Some ov \<Rightarrow>
                           if str_set (ov_provider ov) \<or> str_set (ov_model ov) \<or> has_key ov
                           then Inr (Fix_task rid (Some ov), Some ''request'')
                           else Inr (Fix_task rid None, Some (fix_source p))
                       | None \<Rightarrow> Inr (Fix_task rid None, Some (fix_source p))))))"

text \<open>\<open>DELETE /reports/{id}\<close>.\<close>

definition delete_report :: "(string \<rightharpoonup> string) \<Rightarrow> string \<Rightarrow> db \<Rightarrow> (nat \<times> string) option \<times> db" where
  "delete_report running rid d =
     (case report_get rid d of
        None \<Rightarrow> (Some not_found, d)
      | Some row \<Rightarrow>
          if r_resolution_reason row = Some ''deleted'' then (Some not_found, d)
          else if running rid \<noteq> None
          then (Some (409, ''An open-pr request for this report is running''), d)
          else (case report_delete rid (Some (r_status row)) (Some (r_claim_token row)) d of
                  (True, d1) \<Rightarrow> (None, d1)
                | (False, d1) \<Rightarrow> (Some (409, ''Report changed during the delete; re-read and retry''), d1)))"

section \<open>Lemmas\<close>

lemma transition_checked:
  "check_status_transition r t = None \<longleftrightarrow>
     r_status r \<notin> set TERMINAL_STATUSES \<and> validate_transition (r_status r) t True"
  by (simp add: check_status_transition_def)

lemma checked_not_claimed: "check_status_transition r t = None \<Longrightarrow> r_status r \<noteq> FIX_APPROVED"
  using gated_source[of "r_status r" t] by (auto simp: transition_checked CLAIM_STATUSES_def)

lemma holds_claim_iff:
  "holds_claim rid token d \<longleftrightarrow> (\<exists>r. report_get rid d = Some r \<and> r_status r = FIX_APPROVED \<and> r_claim_token r = Some token)"
  by (auto simp: holds_claim_def split: option.splits)

lemma status_patch_keeps_claims:
  assumes "holds_claim rid' token d"
  shows "holds_claim rid' token (snd (update_report_status rid target reason d))"
proof (cases "report_get rid d")
  case (Some row)
  show ?thesis
  proof (cases "check_status_transition row target")
    case None
    then have "r_status row \<noteq> FIX_APPROVED" by (rule checked_not_claimed)
    then have "holds_claim rid' token (snd (report_update_status rid target reason (Some (r_status row)) d))"
      using assms Some by (auto simp: holds_claim_iff update_status_get)
    then show ?thesis using Some None
      by (simp add: update_report_status_def case_prod_beta split: option.split)
  qed (simp add: update_report_status_def Some assms)
qed (simp add: update_report_status_def assms)

lemma mode_patch_keeps_claims:
  assumes "holds_claim rid' token d"
  shows "holds_claim rid' token (snd (update_analysis_mode rid mode d))"
  using assms
  by (auto simp: update_analysis_mode_def case_prod_beta holds_claim_iff update_fields_get split: option.split)

lemma delete_keeps_running_claims:
  assumes "holds_claim rid' token d" and "running rid' \<noteq> None"
  shows "holds_claim rid' token (snd (delete_report running rid d))"
proof (cases "rid = rid'")
  case True
  then show ?thesis using assms by (simp add: delete_report_def split: option.split)
next
  case False
  have "report_get rid' (snd (report_delete rid e t d)) = report_get rid' d" for e t
    using False by (simp add: delete_get)
  then have "holds_claim rid' token (snd (report_delete rid e t d))" for e t
    using assms(1) by (simp add: holds_claim_iff)
  then show ?thesis
    using assms(1) by (auto simp: delete_report_def split: option.split prod.split bool.split) (metis snd_conv)+
qed

text \<open>A status change that went by the rules.\<close>

definition status_moved :: "string \<Rightarrow> bug_status \<Rightarrow> bug_status \<Rightarrow> db \<Rightarrow> db \<Rightarrow> bool" where
  "status_moved rid cur target d d' \<longleftrightarrow>
     target \<in> set (VALID_TRANSITIONS cur) \<and> target \<in> set CURRENT_PHASE_TARGETS
     \<and> cur \<notin> set TERMINAL_STATUSES \<and> cur \<notin> set CLAIM_STATUSES
     \<and> map_option r_status (report_get rid d) = Some cur
     \<and> map_option r_status (report_get rid d') = Some target
     \<and> (\<forall>x. x = rid \<or> report_get x d' = report_get x d)"

lemma status_patch_moved:
  "case update_report_status rid target reason d of
     (Inl e, d') \<Rightarrow> True | (Inr (cur, tgt), d') \<Rightarrow> tgt = target \<and> status_moved rid cur target d d'"
proof (cases "report_get rid d")
  case (Some row)
  show ?thesis
  proof (cases "check_status_transition row target")
    case None
    then have "r_status row \<notin> set TERMINAL_STATUSES" "validate_transition (r_status row) target True"
      by (simp_all add: transition_checked)
    moreover have "status_moved rid (r_status row) target d
        (snd (report_update_status rid target reason (Some (r_status row)) d))"
      using calculation gated_source[OF calculation(2)] gated_target[OF calculation(2)] valid_is_listed[OF calculation(2)]
        Some by (simp add: status_moved_def update_status_get)
    ultimately show ?thesis
      using Some None by (auto simp: update_report_status_def split: option.split prod.split)
  qed (simp add: update_report_status_def Some)
qed (simp add: update_report_status_def)

section \<open>Properties\<close>



end
