(* ===== verification/Llm.thy ===== *)
theory Llm
  imports Config Schema
begin

text \<open>
  \<open>llm/client.py\<close>: which provider and model a stage runs on, and the request \<open>complete\<close> hands to
  the \<open>litellm\<close> library.  The library is an argument of the definitions that call a model: it answers
  a request with a response or raises, and changes an arbitrary world.
\<close>

section \<open>Exceptions\<close>

text \<open>The type's name and the message; \<open>FixProposalError\<close>'s flag is in its own theory.\<close>

datatype exn = Exn (exn_type: string) (exn_message: string)

section \<open>Provider and model of a stage\<close>

definition or_else :: "string option \<Rightarrow> string \<Rightarrow> string" where
  "or_else x y = (case x of None \<Rightarrow> y | Some s \<Rightarrow> if s \<noteq> [] then s else y)"

definition resolve_local_llm :: "settings \<Rightarrow> project option \<Rightarrow> string \<Rightarrow> string \<times> string" where
  "resolve_local_llm st p stage =
     (let default_model = (if stage = ''triage'' then default_triage_model st else default_localize_model st)
      in case p of None \<Rightarrow> (''ollama'', default_model)
         | Some pr \<Rightarrow> (or_else (p_llm_provider pr) ''ollama'', or_else (p_llm_model pr) default_model))"

definition resolve_fix_llm :: "settings \<Rightarrow> project option \<Rightarrow> string \<times> string" where
  "resolve_fix_llm st p =
     (case p of None \<Rightarrow> (fix_provider st, default_fix_model st)
      | Some pr \<Rightarrow> (or_else (p_fix_llm_provider pr) (fix_provider st),
                     or_else (p_fix_llm_model pr) (default_fix_model st)))"

section \<open>One completion\<close>

record llm_request =
  q_model :: string
  q_messages :: string
  q_api_base :: "string option"
  q_api_key :: "string option"

record llm_reply =
  y_content :: "string option"
  y_usage :: "(int \<times> int) option"

record llm_response =
  l_content :: string
  l_prompt_tokens :: int
  l_completion_tokens :: int
  l_model :: string
  l_provider :: string

type_synonym 'w litellm = "llm_request \<Rightarrow> 'w \<Rightarrow> (exn + llm_reply) \<times> 'w"

definition prefixed :: "string \<Rightarrow> string \<Rightarrow> string" where
  "prefixed p m = (if starts_with p m then m else p @ m)"

definition missing_key_message :: string where
  "missing_key_message = ''anthropic provider selected but BUGALIZER_ANTHROPIC_API_KEY is not set. ''
     @ ''Set the env var or pass api_key= explicitly.''"

definition complete_request ::
  "settings \<Rightarrow> string option \<Rightarrow> string \<Rightarrow> string option \<Rightarrow> string \<Rightarrow> string option \<Rightarrow> exn + llm_request" where
  "complete_request st model messages api_base provider api_key =
     (if provider = ''ollama'' then
        Inr \<lparr>q_model = prefixed ''ollama/'' (case model of None \<Rightarrow> default_triage_model st | Some m \<Rightarrow> m),
             q_messages = messages, q_api_base = Some (or_else api_base (ollama_host st)), q_api_key = None\<rparr>
      else if provider = ''anthropic'' then
        (let key = or_else api_key (anthropic_api_key st) in
         if key = [] then Inl (Exn ''RuntimeError'' missing_key_message)
         else Inr \<lparr>q_model = prefixed ''anthropic/'' (case model of None \<Rightarrow> default_fix_model st | Some m \<Rightarrow> m),
                   q_messages = messages, q_api_base = None, q_api_key = Some key\<rparr>)
      else (case model of
              None \<Rightarrow> Inl (Exn ''ValueError'' (''provider requires an explicit litellm model string: '' @ provider))
            | Some m \<Rightarrow> Inr \<lparr>q_model = m, q_messages = messages, q_api_base = None,
                q_api_key = (if str_set api_key then api_key else None)\<rparr>))"

definition complete ::
  "settings \<Rightarrow> 'w litellm \<Rightarrow> string option \<Rightarrow> string \<Rightarrow> string option \<Rightarrow> string \<Rightarrow> string option \<Rightarrow> 'w
   \<Rightarrow> (exn + llm_response) \<times> 'w" where
  "complete st ll model messages api_base provider api_key w =
     (case complete_request st model messages api_base provider api_key of
        Inl e \<Rightarrow> (Inl e, w)
      | Inr q \<Rightarrow>
          (case ll q w of
             (Inl e, w1) \<Rightarrow> (Inl e, w1)
           | (Inr y, w1) \<Rightarrow>
               (Inr \<lparr>l_content = (case y_content y of None \<Rightarrow> [] | Some c \<Rightarrow> c),
                     l_prompt_tokens = (case y_usage y of None \<Rightarrow> 0 | Some (a, b) \<Rightarrow> a),
                     l_completion_tokens = (case y_usage y of None \<Rightarrow> 0 | Some (a, b) \<Rightarrow> b),
                     l_model = q_model q, l_provider = provider\<rparr>, w1)))"

section \<open>Lemmas\<close>

lemma or_else_cases: "or_else x y = (if str_set x then the x else y)"
  by (cases x) (auto simp: or_else_def)

lemma request_key_cases:
  "complete_request st model messages base provider key = Inr q \<Longrightarrow>
   q_api_key q = (if provider = ''ollama'' then None
     else if str_set key then key
     else if provider = ''anthropic'' then Some (anthropic_api_key st) else None)"
  by (auto simp: complete_request_def Let_def or_else_cases str_set_iff split: if_splits option.splits)

section \<open>Properties\<close>

text \<open>
  Which key reaches which provider.  A request to the local provider carries no key at all.
  Any other request that names a key carries exactly that key, never the environment's; without
  one, the environment's Anthropic key goes only to the \<open>anthropic\<close> provider, is never empty, and
  the call raises before any request when there is none.  The project's local provider and model
  never influence a fix request.
\<close>

theorem keys_reach_only_their_provider:
  "(case complete_request st model messages base provider key of
      Inl e \<Rightarrow> (provider = ''anthropic'' \<and> \<not> str_set key \<and> anthropic_api_key st = [])
        \<or> (provider \<notin> {''anthropic'', ''ollama''} \<and> model = None)
    | Inr q \<Rightarrow>
        (if provider = ''ollama'' then q_api_key q = None
         else if str_set key then q_api_key q = key
         else if provider = ''anthropic'' then q_api_key q = Some (anthropic_api_key st) \<and> anthropic_api_key st \<noteq> []
         else q_api_key q = None))
   \<and> resolve_fix_llm st (Some (p\<lparr>p_llm_provider := x, p_llm_model := y\<rparr>)) = resolve_fix_llm st (Some p)"
  by (cases "str_set key") (auto simp: complete_request_def Let_def or_else_cases str_set_iff resolve_fix_llm_def
      split: option.splits)

end
