(* ===== verification/Fix_Text.thy ===== *)
theory Fix_Text
  imports Scrub Llm Reports_Api
begin

text \<open>
  The text handling of \<open>pipeline/fix_proposer.py\<close> and the candidate paths of
  \<open>pipeline/localizer.py\<close>: error text without secrets, the JSON of a model's answer, the checks a
  proposal passes, the candidate files of a localization and which of them may be read.  Parsing a
  JSON text is an argument (\<open>loads\<close> for a whole text, \<open>raw_decode\<close> for the value at its start), as
  are Python's \<open>str\<close> of a value that is no string and \<open>float\<close> of a text.  Paths are POSIX paths.
\<close>

section \<open>Error text\<close>

definition key_char :: "char \<Rightarrow> bool" where
  "key_char c \<longleftrightarrow> is_upper c \<or> is_lower c \<or> is_digit c \<or> c = CHR ''_'' \<or> c = CHR ''-''"

definition bearer_char :: "char \<Rightarrow> bool" where
  "bearer_char c \<longleftrightarrow> key_char c \<or> c = CHR ''.''"

definition run_length :: "(char \<Rightarrow> bool) \<Rightarrow> string \<Rightarrow> nat" where
  "run_length P s = length (takeWhile P s)"

text \<open>The length of the match of \<open>_KEY_SHAPES\<close> at the start of a text.\<close>

definition key_shape_at :: "string \<Rightarrow> nat option" where
  "key_shape_at s =
     (if starts_with ''sk-ant-'' s \<and> run_length key_char (drop 7 s) \<ge> 8
      then Some (7 + run_length key_char (drop 7 s))
      else if starts_with ''sk-'' s \<and> run_length key_char (drop 3 s) \<ge> 8
      then Some (3 + run_length key_char (drop 3 s))
      else if starts_with ''Bearer'' s then
        (let n = run_length is_space (drop 6 s); m = run_length bearer_char (drop (6 + n) s)
         in if n \<ge> 1 \<and> m \<ge> 8 then Some (6 + n + m) else None)
      else None)"

lemma key_shape_pos: "key_shape_at s = Some n \<Longrightarrow> n > 0"
  by (auto simp: key_shape_at_def Let_def split: if_splits)

function key_shapes_sub :: "string \<Rightarrow> string" where
  "key_shapes_sub [] = []"
| "key_shapes_sub (c # s) =
     (case key_shape_at (c # s) of
        Some n \<Rightarrow> ''[redacted]'' @ key_shapes_sub (drop n (c # s))
      | None \<Rightarrow> c # key_shapes_sub s)"
  by pat_completeness auto
termination by (relation "measure length") (auto dest: key_shape_pos)

text \<open>\<open>_safe_error_text\<close>.\<close>

definition safe_error_text :: "exn \<Rightarrow> string list \<Rightarrow> string" where
  "safe_error_text e secrets =
     key_shapes_sub (fold (\<lambda>secret text. if secret \<noteq> [] then replace_all secret ''[redacted]'' text else text)
       secrets (exn_type e @ '': '' @ exn_message e))"

definition to_upper :: "char \<Rightarrow> char" where
  "to_upper c = (if is_lower c then char_of (of_char c - 32 :: nat) else c)"

definition classify_llm_error :: "exn \<Rightarrow> bool" where
  "classify_llm_error e =
     (if exn_type e \<in> {''AuthenticationError'', ''PermissionDeniedError'', ''PermissionError'',
           ''BadRequestError'', ''NotFoundError'', ''InvalidRequestError''} then True
      else if exn_type e = ''RuntimeError'' \<and> sublist ''API_KEY'' (map to_upper (exn_message e)) then True
      else False)"

section \<open>The model's answer\<close>

text \<open>
  What a fix attempt can raise: a deferral, a \<open>FixProposalError\<close> (permanent by default), or any
  other exception.
\<close>

datatype fix_exn = Fix_defer string | Fix_error string bool | Fix_other exn

definition strip_fences :: "string \<Rightarrow> string" where
  "strip_fences text =
     (if starts_with ''```'' text then
        (let t1 = drop 3 text; t2 = (if starts_with ''json'' t1 then drop 4 t1 else t1); t3 = lstrip t2
         in if ends_with ''```'' (rstrip t3) then rstrip (take (length (rstrip t3) - 3) t3) else t3)
      else text)"

text \<open>The walk over the opening braces of a text, on the rest of the text at each.\<close>

fun scan_braces :: "(string \<Rightarrow> json option) \<Rightarrow> string \<Rightarrow> json option" where
  "scan_braces raw_decode [] = None"
| "scan_braces raw_decode (c # s) =
     (if c = CHR ''{'' then
        (case raw_decode (c # s) of
           Some obj \<Rightarrow> if is_obj obj then Some obj else scan_braces raw_decode s
         | None \<Rightarrow> scan_braces raw_decode s)
      else scan_braces raw_decode s)"

definition extract_json :: "(string \<Rightarrow> json option) \<Rightarrow> (string \<Rightarrow> json option) \<Rightarrow> string \<Rightarrow> fix_exn + json" where
  "extract_json loads raw_decode content =
     (let text = strip_fences (strip content) in
      case loads text of
        Some j \<Rightarrow> Inr j
      | None \<Rightarrow>
          if CHR ''{'' \<notin> set text then Inl (Fix_error ''No JSON object found in LLM response'' True)
          else (case scan_braces raw_decode text of
                  Some obj \<Rightarrow> Inr obj
                | None \<Rightarrow> Inl (Fix_error ''Extracted candidate JSON is malformed'' True)))"

text \<open>\<open>line.count("@@")\<close>: occurrences that do not overlap.\<close>

fun count_at_pairs :: "string \<Rightarrow> nat" where
  "count_at_pairs (x # y # s) =
     (if x = CHR ''@'' \<and> y = CHR ''@'' then Suc (count_at_pairs s) else count_at_pairs (y # s))"
| "count_at_pairs _ = 0"

fun diff_scan :: "bool \<Rightarrow> bool \<Rightarrow> bool \<Rightarrow> string list \<Rightarrow> bool" where
  "diff_scan has_minus has_plus has_hunk [] = False"
| "diff_scan has_minus has_plus has_hunk (line # lines) =
     (let m = has_minus \<or> starts_with ''--- '' line;
          p = has_plus \<or> (\<not> starts_with ''--- '' line \<and> starts_with ''+++ '' line);
          h = has_hunk \<or> (\<not> starts_with ''--- '' line \<and> \<not> starts_with ''+++ '' line
                \<and> starts_with ''@@'' line \<and> count_at_pairs line \<ge> 2)
      in if m \<and> p \<and> h then True else diff_scan m p h lines)"

definition looks_like_unified_diff :: "string \<Rightarrow> bool" where
  "looks_like_unified_diff diff = diff_scan False False False (splitlines diff)"

section \<open>The proposal\<close>

text \<open>\<open>key in payload\<close> of any JSON value; \<open>None\<close> is the \<open>TypeError\<close> of a value that is no container.\<close>

fun py_in :: "string \<Rightarrow> json \<Rightarrow> bool option" where
  "py_in key (JObj kvs) = Some (key \<in> fst ` set kvs)"
| "py_in key (JArr xs) = Some (JStr key \<in> set xs)"
| "py_in key (JStr s) = Some (sublist key s)"
| "py_in key j = None"

fun check_keys :: "json \<Rightarrow> string list \<Rightarrow> fix_exn option" where
  "check_keys payload [] = None"
| "check_keys payload (key # keys) =
     (case py_in key payload of
        None \<Rightarrow> Some (Fix_other (Exn ''TypeError'' ''argument is not iterable''))
      | Some False \<Rightarrow> Some (Fix_error (''Missing required key in proposal: '' @ key) True)
      | Some True \<Rightarrow> check_keys payload keys)"

definition required_keys :: "string list" where
  "required_keys = [''root_cause'', ''explanation'', ''diff'', ''confidence'', ''files_changed'']"

record validated =
  v_root_cause :: string
  v_explanation :: string
  v_diff :: string
  v_confidence :: pyfloat
  v_files :: "string list"

text \<open>\<open>float(v)\<close>: a value, the \<open>TypeError\<close> or \<open>ValueError\<close> the code catches, or \<open>OverflowError\<close>.\<close>

definition float_limit :: int where
  "float_limit = 2 ^ 1024 - 2 ^ 970"

fun py_float :: "(string \<Rightarrow> pyfloat option) \<Rightarrow> json \<Rightarrow> fix_exn + pyfloat" where
  "py_float parse (JFloat x) = Inr x"
| "py_float parse (JInt i) =
     (if \<bar>i\<bar> \<ge> float_limit then Inl (Fix_other (Exn ''OverflowError'' ''int too large to convert to float''))
      else Inr (Fin (of_int i)))"
| "py_float parse (JBool b) = Inr (Fin (if b then 1 else 0))"
| "py_float parse (JStr s) =
     (case parse s of None \<Rightarrow> Inl (Fix_error ''confidence must be a float'' True) | Some x \<Rightarrow> Inr x)"
| "py_float parse j = Inl (Fix_error ''confidence must be a float'' True)"

fun in_unit :: "pyfloat \<Rightarrow> bool" where
  "in_unit (Fin r) = (0 \<le> r \<and> r \<le> 1)"
| "in_unit x = False"

fun string_of_json :: "json \<Rightarrow> string option" where
  "string_of_json (JStr s) = Some s"
| "string_of_json j = None"

fun all_strings :: "json list \<Rightarrow> string list option" where
  "all_strings [] = Some []"
| "all_strings (j # js) =
     (case (string_of_json j, all_strings js) of (Some s, Some ss) \<Rightarrow> Some (s # ss) | (x, y) \<Rightarrow> None)"

definition py_str :: "(json \<Rightarrow> string) \<Rightarrow> json \<Rightarrow> string" where
  "py_str str_of j = (case j of JStr s \<Rightarrow> s | x \<Rightarrow> str_of x)"

definition validate_proposal ::
  "(json \<Rightarrow> string) \<Rightarrow> (string \<Rightarrow> pyfloat option) \<Rightarrow> json \<Rightarrow> fix_exn + validated" where
  "validate_proposal str_of parse_float payload =
     (case check_keys payload required_keys of
        Some e \<Rightarrow> Inl e
      | None \<Rightarrow>
          if \<not> is_obj payload then Inl (Fix_other (Exn ''TypeError'' ''indices must be integers''))
          else
            (let field = (\<lambda>k. the (jget k payload));
                 root_cause = strip (py_str str_of (field ''root_cause''));
                 explanation = strip (py_str str_of (field ''explanation''));
                 diff = py_str str_of (field ''diff'')
             in if strip diff = [] then Inl (Fix_error ''Proposal diff is empty'' True)
                else if \<not> looks_like_unified_diff diff
                then Inl (Fix_error ''Proposal diff is not a unified diff'' True)
                else bindE (py_float parse_float (field ''confidence'')) (\<lambda>confidence.
                  if \<not> in_unit confidence then Inl (Fix_error ''confidence must be in [0.0, 1.0]'' True)
                  else (case (case field ''files_changed'' of JArr xs \<Rightarrow> all_strings xs | _ \<Rightarrow> None) of
                          None \<Rightarrow> Inl (Fix_error ''files_changed must be a list of strings'' True)
                        | Some files \<Rightarrow>
                            Inr \<lparr>v_root_cause = root_cause, v_explanation = explanation, v_diff = diff,
                                 v_confidence = confidence, v_files = files\<rparr>))))"

section \<open>Candidate files\<close>

text \<open>\<open>for x in v or []\<close> of a JSON value.\<close>

fun iterate :: "json option \<Rightarrow> fix_exn + json list" where
  "iterate None = Inr []"
| "iterate (Some (JArr xs)) = Inr xs"
| "iterate (Some (JStr s)) = Inr (map (\<lambda>c. JStr [c]) s)"
| "iterate (Some (JObj kvs)) = Inr (map (\<lambda>(k, v). JStr k) kvs)"
| "iterate (Some j) = (if truthy j then Inl (Fix_other (Exn ''TypeError'' ''object is not iterable'')) else Inr [])"

definition get_or :: "string \<Rightarrow> string \<Rightarrow> (string \<times> json) list \<Rightarrow> json option" where
  "get_or k1 k2 kvs = (if opt_truthy (map_of kvs k1) then map_of kvs k1 else map_of kvs k2)"

fun candidate_entry :: "string \<Rightarrow> string \<Rightarrow> json \<Rightarrow> json option" where
  "candidate_entry k1 k2 (JObj kvs) =
     (if opt_truthy (get_or k1 k2 kvs)
      then Some (JObj ((''path'', the (get_or k1 k2 kvs)) # filter (\<lambda>(k, v). k \<noteq> k1 \<and> k \<noteq> k2) kvs))
      else None)"
| "candidate_entry k1 k2 j = None"

definition entries_of :: "string \<Rightarrow> string \<Rightarrow> json list \<Rightarrow> json list" where
  "entries_of k1 k2 items = List.map_filter (candidate_entry k1 k2) items"

definition collect_candidate_files :: "json option \<Rightarrow> fix_exn + json list" where
  "collect_candidate_files result =
     (case result of
        Some (JObj r) \<Rightarrow>
          (let sub = (\<lambda>k. case map_of r k of Some (JObj kvs) \<Rightarrow> kvs | _ \<Rightarrow> []) in
           bindE (iterate (map_of (sub ''pass2'') ''localizations'')) (\<lambda>locs.
             let out = entries_of ''file'' ''path'' locs in
             if out \<noteq> [] then Inr out
             else bindE (iterate (map_of (sub ''pass1'') ''candidate_files'')) (\<lambda>cands.
               Inr (entries_of ''path'' ''file'' cands))))
      | _ \<Rightarrow> Inr [])"

text \<open>POSIX \<open>os.path\<close>.\<close>

definition isabs :: "string \<Rightarrow> bool" where
  "isabs p = starts_with ''/'' p"

definition path_join :: "string \<Rightarrow> string \<Rightarrow> string" where
  "path_join a b = (if isabs b then b else if a = [] \<or> ends_with ''/'' a then a @ b else a @ ''/'' @ b)"

fun norm_step :: "bool \<Rightarrow> string list \<Rightarrow> string \<Rightarrow> string list" where
  "norm_step slash acc seg =
     (if seg = [] \<or> seg = ''.'' then acc
      else if seg \<noteq> ''..'' \<or> (\<not> slash \<and> acc = []) \<or> (acc \<noteq> [] \<and> hd acc = ''..'') then seg # acc
      else tl acc)"

declare norm_step.simps [simp del]

text \<open>The components are kept in reverse, so the last one is at the head.\<close>

definition norm_comps :: "string \<Rightarrow> string list" where
  "norm_comps p = rev (foldl (norm_step (isabs p)) [] (split_on (CHR ''/'') p))"

definition initial_slashes :: "string \<Rightarrow> string" where
  "initial_slashes p =
     (if \<not> isabs p then [] else if starts_with ''//'' p \<and> \<not> starts_with ''///'' p then ''//'' else ''/'')"

definition normpath :: "string \<Rightarrow> string" where
  "normpath p =
     (let path = initial_slashes p @ join_with ''/'' (norm_comps p) in if path = [] then ''.'' else path)"

definition validate_candidate_path :: "string \<Rightarrow> string \<Rightarrow> string option" where
  "validate_candidate_path repo_path fpath =
     (if fpath = [] \<or> isabs fpath then None
      else if ''..'' \<in> set (split_on (CHR ''/'') (map (\<lambda>c. if c = CHR 0x5C then CHR ''/'' else c) fpath)) then None
      else (let full_path = normpath (path_join repo_path fpath); repo_root = normpath repo_path
            in if \<not> starts_with (repo_root @ ''/'') full_path \<and> full_path \<noteq> repo_root then None
               else Some full_path))"

text \<open>\<open>xs[:n]\<close> and \<open>f.read(n)\<close>.\<close>

definition py_take :: "int \<Rightarrow> 'a list \<Rightarrow> 'a list" where
  "py_take n xs = take (nat (if n < 0 then int (length xs) + n else n)) xs"

definition read_chars :: "int \<Rightarrow> string \<Rightarrow> string" where
  "read_chars n s = (if n < 0 then s else take (nat n) s)"

definition put_assoc :: "'k \<Rightarrow> 'v \<Rightarrow> ('k \<times> 'v) list \<Rightarrow> ('k \<times> 'v) list" where
  "put_assoc k v kvs =
     (if k \<in> fst ` set kvs then map (\<lambda>(k', w). if k' = k then (k', v) else (k', w)) kvs else kvs @ [(k, v)])"

fun read_files :: "(string \<Rightarrow> string option) \<Rightarrow> string \<Rightarrow> int \<Rightarrow> json list \<Rightarrow> (string \<times> string) list
   \<Rightarrow> fix_exn + (string \<times> string) list" where
  "read_files read repo max_chars [] acc = Inr acc"
| "read_files read repo max_chars (entry # entries) acc =
     (if \<not> is_obj entry then Inl (Fix_other (Exn ''AttributeError'' ''no attribute get'')) else
      case (case jget ''path'' entry of None \<Rightarrow> JStr [] | Some j \<Rightarrow> j) of
        JStr fpath \<Rightarrow>
          (case validate_candidate_path repo fpath of
             None \<Rightarrow> read_files read repo max_chars entries acc
           | Some full_path \<Rightarrow>
               if CHR 0x00 \<in> set full_path then Inl (Fix_other (Exn ''ValueError'' ''embedded null byte''))
               else (case read full_path of
                       None \<Rightarrow> read_files read repo max_chars entries acc
                     | Some content \<Rightarrow>
                         read_files read repo max_chars entries (put_assoc fpath (read_chars max_chars content) acc)))
      | j \<Rightarrow> if truthy j then Inl (Fix_other (Exn ''TypeError'' ''expected str, bytes or os.PathLike object''))
             else read_files read repo max_chars entries acc)"

text \<open>The file system answers for a full path its text, or that it cannot be read.\<close>

definition read_candidate_files ::
  "(string \<Rightarrow> string option) \<Rightarrow> string \<Rightarrow> json list \<Rightarrow> int \<Rightarrow> int \<Rightarrow> fix_exn + (string \<times> string) list" where
  "read_candidate_files read repo candidates max_files max_chars =
     read_files read repo max_chars (py_take max_files candidates) []"

text \<open>The cap on the whole bundle.\<close>

fun cap_bundle :: "int \<Rightarrow> int \<Rightarrow> (string \<times> string) list \<Rightarrow> (string \<times> string) list" where
  "cap_bundle limit used [] = []"
| "cap_bundle limit used ((path, content) # files) =
     (let remaining = limit - used in
      if remaining \<le> 0 then []
      else (let clipped = take (nat remaining) content
            in (path, clipped) # cap_bundle limit (used + int (length clipped)) files))"

section \<open>Lemmas\<close>

lemma key_shapes_step:
  "(\<exists>k t. key_shapes_sub (c # s) = k @ ''[redacted]'' @ key_shapes_sub t \<and> prefix k (c # s) \<and> suffix t s)
   \<or> key_shapes_sub (c # s) = c # key_shapes_sub s"
proof (cases "key_shape_at (c # s)")
  case (Some n)
  then have "key_shapes_sub (c # s) = [] @ ''[redacted]'' @ key_shapes_sub (drop n (c # s))" by simp
  moreover have "suffix (drop n (c # s)) s" by (rule suffix_drop_Cons[OF key_shape_pos[OF Some]])
  ultimately show ?thesis by (metis Nil_prefix)
qed simp

interpretation key_shapes: scrubber "''[redacted]''" word_free key_shapes_sub
  by unfold_locales (simp, rule key_shapes_step)

lemma scrub_all_keeps_absent:
  assumes "word_free p"
    and "sublist p (fold (\<lambda>secret out. if secret \<noteq> [] then replace_all secret ''[redacted]'' out else out) secrets out)"
  shows "sublist p out"
  using assms(2)
proof (induction secrets arbitrary: out)
  case (Cons x secrets)
  have "sublist p (if x \<noteq> [] then replace_all x ''[redacted]'' out else out)"
    by (rule Cons.IH) (use Cons.prems in \<open>simp only: fold_simps\<close>)
  then show ?case using bracket_replace.absent_kept[OF assms(1), of x out] by (simp split: if_splits)
qed simp

lemma scrub_all_removes:
  assumes "secret \<in> set secrets" and "word_free secret"
  shows "\<not> sublist secret (fold (\<lambda>secret out. if secret \<noteq> [] then replace_all secret ''[redacted]'' out else out) secrets out)"
  using assms(1)
proof (induction secrets arbitrary: out)
  case (Cons x secrets)
  have ne: "secret \<noteq> []" using assms(2) by (simp add: word_free_def)
  show ?case
  proof (cases "x = secret")
    case True
    then show ?thesis
      using scrub_all_keeps_absent[OF assms(2), of secrets] brackets.replace_all_removes[OF assms(2)] ne by auto
  next
    case False
    then show ?thesis using Cons by simp
  qed
qed simp

text \<open>What \<open>_looks_like_unified_diff\<close> says it checks: three kinds of lines, in any order.\<close>

definition unified_diff_lines :: "string list \<Rightarrow> bool" where
  "unified_diff_lines lines \<longleftrightarrow>
     list_ex (starts_with ''--- '') lines \<and> list_ex (starts_with ''+++ '') lines
     \<and> list_ex (\<lambda>l. starts_with ''@@'' l \<and> count_at_pairs l \<ge> 2) lines"

lemma header_kinds:
  "starts_with ''+++ '' l \<Longrightarrow> \<not> starts_with ''--- '' l"
  "starts_with ''@@'' l \<Longrightarrow> \<not> starts_with ''--- '' l \<and> \<not> starts_with ''+++ '' l"
  by (cases l; auto simp: starts_with_iff)+

lemma diff_scan_reference:
  "\<not> (m \<and> p \<and> h) \<Longrightarrow> diff_scan m p h lines \<longleftrightarrow>
     (m \<or> list_ex (starts_with ''--- '') lines) \<and> (p \<or> list_ex (starts_with ''+++ '') lines)
     \<and> (h \<or> list_ex (\<lambda>l. starts_with ''@@'' l \<and> count_at_pairs l \<ge> 2) lines)"
proof (induction lines arbitrary: m p h)
  case (Cons l lines)
  let ?m = "m \<or> starts_with ''--- '' l"
  let ?p = "p \<or> starts_with ''+++ '' l"
  let ?h = "h \<or> (starts_with ''@@'' l \<and> count_at_pairs l \<ge> 2)"
  have step: "diff_scan m p h (l # lines) = (if ?m \<and> ?p \<and> ?h then True else diff_scan ?m ?p ?h lines)"
    using header_kinds[of l]
    by (cases "starts_with ''--- '' l"; cases "starts_with ''+++ '' l"; cases "starts_with ''@@'' l") (auto simp: Let_def)
  show ?case
  proof (cases "?m \<and> ?p \<and> ?h")
    case True
    then show ?thesis unfolding step by auto
  next
    case False
    then show ?thesis unfolding step using Cons.IH[OF False] by auto
  qed
qed auto

text \<open>Joining a path without parent components only appends its own components.\<close>

definition clean_comps :: "string \<Rightarrow> string list" where
  "clean_comps p = filter (\<lambda>c. c \<noteq> [] \<and> c \<noteq> ''.'') (split_on (CHR ''/'') p)"

lemma split_on_app: "split_on c (a @ c # b) = split_on c a @ split_on c b"
proof (induction a)
  case (Cons x a)
  then show ?case using split_on_nonempty[of c a] by (auto split: list.split)
qed simp

lemma split_on_trailing: "split_on c (a @ [c]) = split_on c a @ [[]]"
  using split_on_app[of c a "[]"] by simp

lemma norm_clean:
  "''..'' \<notin> set comps \<Longrightarrow>
   foldl (norm_step slash) acc comps = rev (filter (\<lambda>c. c \<noteq> [] \<and> c \<noteq> ''.'') comps) @ acc"
  by (induction comps arbitrary: acc) (auto simp: norm_step.simps)

lemma split_join_comps:
  assumes "repo \<noteq> []" and "\<not> isabs f"
  shows "foldl (norm_step slash) [] (split_on (CHR ''/'') (path_join repo f))
    = foldl (norm_step slash) (foldl (norm_step slash) [] (split_on (CHR ''/'') repo)) (split_on (CHR ''/'') f)"
proof (cases "ends_with ''/'' repo")
  case True
  then obtain r where r: "repo = r @ ''/''"
    by (metis ends_with_def rev_append rev_rev_ident starts_with_iff rev_singleton_conv)
  then show ?thesis using assms
    by (simp add: path_join_def True split_on_app split_on_trailing norm_step.simps)
next
  case False
  then show ?thesis using assms by (simp add: path_join_def split_on_app)
qed

lemma join_slashes:
  assumes "repo \<noteq> []" and "\<not> isabs f"
  shows "isabs (path_join repo f) = isabs repo \<and> initial_slashes (path_join repo f) = initial_slashes repo"
proof -
  obtain x r where x: "repo = x # r" using assms(1) by (cases repo) auto
  show ?thesis
  proof (cases r)
    case Nil
    then show ?thesis using assms(2) x
      by (cases f) (auto simp: path_join_def initial_slashes_def isabs_def starts_with_def ends_with_def)
  next
    case (Cons y r2)
    then show ?thesis using assms(2) x
      by (cases r2; cases f) (auto simp: path_join_def initial_slashes_def isabs_def starts_with_def ends_with_def)
  qed
qed

lemma norm_comps_join:
  assumes "repo \<noteq> []" and "\<not> isabs f" and "''..'' \<notin> set (split_on (CHR ''/'') f)"
  shows "norm_comps (path_join repo f) = norm_comps repo @ clean_comps f"
  using assms
  by (simp add: norm_comps_def split_join_comps join_slashes norm_clean clean_comps_def)

lemma split_on_map:
  "g c = c \<Longrightarrow> split_on c (map g s) = concat (map (\<lambda>w. split_on c (map g w)) (split_on c s))"
proof (induction s)
  case (Cons x s)
  obtain w ws where w: "split_on c s = w # ws" using split_on_nonempty[of c s] by (cases "split_on c s") auto
  obtain u us where u: "split_on c (map g w) = u # us"
    using split_on_nonempty[of c "map g w"] by (cases "split_on c (map g w)") auto
  show ?case using Cons w u by (cases "x = c"; cases "g x = c") simp_all
qed simp

lemma no_parent_slash:
  assumes "''..'' \<notin> set (split_on (CHR ''/'') (map (\<lambda>c. if c = CHR 0x5C then CHR ''/'' else c) f))"
  shows "''..'' \<notin> set (split_on (CHR ''/'') f)"
proof
  let ?g = "\<lambda>c. if c = CHR 0x5C then CHR ''/'' else c"
  assume "''..'' \<in> set (split_on (CHR ''/'') f)"
  moreover have "split_on (CHR ''/'') (map ?g ''..'') = [''..'']" by simp
  ultimately have "''..'' \<in> set (split_on (CHR ''/'') (map ?g f))"
    by (subst split_on_map) force+
  with assms show False by blast
qed

lemma looks_like_reference: "looks_like_unified_diff diff \<longleftrightarrow> unified_diff_lines (splitlines diff)"
  by (simp add: looks_like_unified_diff_def unified_diff_lines_def diff_scan_reference)

lemma all_strings_map: "all_strings js = Some ss \<Longrightarrow> js = map JStr ss"
proof (induction js arbitrary: ss)
  case (Cons j js)
  then show ?case by (cases j) (auto split: option.splits)
qed simp

lemma check_keys_cases:
  "case check_keys payload keys of None \<Rightarrow> True | Some (Fix_error m p) \<Rightarrow> p
     | Some (Fix_other e) \<Rightarrow> \<not> is_obj payload \<and> \<not> classify_llm_error e | Some (Fix_defer m) \<Rightarrow> False"
proof (induction keys)
  case (Cons k keys)
  then show ?case by (cases payload) (auto simp: classify_llm_error_def split: bool.split)
qed simp

lemma py_float_cases:
  "case py_float parse j of Inr x \<Rightarrow> True | Inl (Fix_error m p) \<Rightarrow> p
     | Inl (Fix_other e) \<Rightarrow> (\<exists>i. j = JInt i \<and> float_limit \<le> \<bar>i\<bar>) \<and> \<not> classify_llm_error e
     | Inl (Fix_defer m) \<Rightarrow> False"
  by (cases j) (auto simp: classify_llm_error_def split: option.split)

lemma validate_cases:
  "case validate_proposal str_of parse_float payload of
     Inr v \<Rightarrow> is_obj payload \<and> map_option (py_str str_of) (jget ''diff'' payload) = Some (v_diff v)
       \<and> strip (v_diff v) \<noteq> [] \<and> unified_diff_lines (splitlines (v_diff v)) \<and> in_unit (v_confidence v)
       \<and> jget ''files_changed'' payload = Some (JArr (map JStr (v_files v)))
   | Inl (Fix_error m perm) \<Rightarrow> perm
   | Inl (Fix_other e) \<Rightarrow> \<not> classify_llm_error e
       \<and> (if is_obj payload then \<exists>i. jget ''confidence'' payload = Some (JInt i) \<and> float_limit \<le> \<bar>i\<bar> else True)
   | Inl (Fix_defer m) \<Rightarrow> False"
proof (cases "check_keys payload required_keys")
  case (Some e)
  then show ?thesis using check_keys_cases[of payload required_keys]
    by (auto simp: validate_proposal_def split: fix_exn.splits)
next
  case None
  show ?thesis
  proof (cases payload)
    case (JObj kvs)
    have keys: "key \<in> set required_keys \<Longrightarrow> \<exists>j. map_of kvs key = Some j" for key
    proof -
      have "check_keys (JObj kvs) ks = None \<Longrightarrow> key \<in> set ks \<Longrightarrow> key \<in> fst ` set kvs" for ks
        by (induction ks) (auto split: bool.splits)
      then show "key \<in> set required_keys \<Longrightarrow> \<exists>j. map_of kvs key = Some j"
        using None JObj by (metis domD dom_map_of_conv_image_fst)
    qed
    obtain d c f where f: "map_of kvs ''diff'' = Some d" "map_of kvs ''confidence'' = Some c"
        "map_of kvs ''files_changed'' = Some f"
      using keys by (fastforce simp: required_keys_def)
    show ?thesis
      using None py_float_cases[of c parse_float]
      by (auto simp: validate_proposal_def JObj f Let_def bindE_def looks_like_reference 
          split: sum.splits fix_exn.splits json.splits option.splits dest!: all_strings_map)
  qed (use None in \<open>simp_all add: validate_proposal_def classify_llm_error_def\<close>)
qed

section \<open>Properties\<close>

text \<open>
  C17.  Error text never carries a secret.  Whatever an exception says, however often and wherever
  it repeats a key it was handed, the text that is logged and stored contains that key nowhere:
  replacing other secrets and the key-shaped parts afterwards cannot put it back together.  The key
  must hold no bracket and be no part of the word \<open>redacted\<close>.
\<close>

theorem error_text_hides_secrets:
  assumes "secret \<in> set secrets" and "secret \<noteq> []" and "CHR ''['' \<notin> set secret" and "CHR '']'' \<notin> set secret"
    and "\<not> sublist secret ''redacted''"
  shows "\<not> sublist secret (safe_error_text e secrets)"
proof -
  have ok: "word_free secret" using assms(2-5) unfolding word_free_def by blast
  show ?thesis
    unfolding safe_error_text_def
    using key_shapes.absent_kept[OF ok] scrub_all_removes[OF assms(1) ok] by blast
qed

theorem error_text_hides_secrets_witness:
  "\<not> sublist ''sk1'' (safe_error_text (Exn ''AuthenticationError'' ''bad key sk1 for sksk11'') [''sk1''])"
proof -
  have "\<not> sublist ''sk1'' ''redacted''" by code_simp
  from error_text_hides_secrets[OF _ _ _ _ this] show ?thesis by simp
qed

text \<open>
  The early-exit scan for a unified diff is the check its documentation states: there is a
  line with a \<open>---\<close> header, one with a \<open>+++\<close> header and one with a hunk header of two \<open>@@\<close>, in any
  order and anywhere in the text.
\<close>

theorem diff_scan_is_the_documented_check:
  "looks_like_unified_diff diff \<longleftrightarrow> unified_diff_lines (splitlines diff)"
  by (rule looks_like_reference)




end
