(* ===== verification/Fix_Stage.thy ===== *)
theory Fix_Stage
  imports Fix_Text Db_Ledger
begin

text \<open>
  \<open>propose_fix\<close> of \<open>pipeline/fix_proposer.py\<close>, the paid stage: the claim, the checks that defer, the
  model call, the rows a proposal leaves, and the two ways back to \<open>triaged\<close>.  One call runs without
  other writers between its steps.  The model, JSON parsing, the file system and the prompt text are
  arguments.
\<close>

record 'w stage_deps =
  dep_llm :: "'w litellm"
  dep_loads :: "string \<Rightarrow> json option"
  dep_raw_decode :: "string \<Rightarrow> json option"
  dep_str :: "json \<Rightarrow> string"
  dep_float :: "string \<Rightarrow> pyfloat option"
  dep_read :: "'w \<Rightarrow> string \<Rightarrow> string option"
  dep_fix_prompt :: "report \<Rightarrow> analysis \<Rightarrow> (string \<times> string) list \<Rightarrow> string"

datatype fix_outcome =
    Proposed string | Failed string | Deferred string | Not_claimed | Already_proposed string

definition request_key :: "llm_override option \<Rightarrow> string option" where
  "request_key ov = (case ov of None \<Rightarrow> None | Some v \<Rightarrow> if has_key v then ov_api_key v else None)"

text \<open>What the checks before the model call decide.\<close>

datatype fix_plan = Gone | Prior string | Ready report analysis project "(string \<times> string) list"

definition plan_files ::
  "settings \<Rightarrow> (string \<Rightarrow> string option) \<Rightarrow> report \<Rightarrow> analysis \<Rightarrow> project \<Rightarrow> fix_exn + fix_plan" where
  "plan_files st read r loc p =
     bindE (collect_candidate_files (a_result loc)) (\<lambda>candidates.
       if candidates = [] then Inl (Fix_defer ''Localization produced no candidate files'')
       else bindE (read_candidate_files read (the (p_repo_path p)) candidates (localize_max_files st)
                    (fix_max_file_bytes st)) (\<lambda>contents.
         let capped = cap_bundle (fix_max_bundle_bytes st) 0 contents
         in if capped = [] then Inl (Fix_defer ''No candidate file contents available after path+size checks'')
            else Inr (Ready r loc p capped)))"

definition plan_fix :: "settings \<Rightarrow> (string \<Rightarrow> string option) \<Rightarrow> string \<Rightarrow> db \<Rightarrow> fix_exn + fix_plan" where
  "plan_fix st read rid d =
     (case report_get rid d of
        None \<Rightarrow> Inr Gone
      | Some r \<Rightarrow>
          (case latest_completed_localization rid d of
             None \<Rightarrow> Inl (Fix_defer ''No completed localization analysis to work from'')
           | Some loc \<Rightarrow>
               (case find (\<lambda>f. f_analysis_id f = Some (a_id loc)) (fix_proposals_for_report rid d) of
                  Some prior \<Rightarrow> Inr (Prior (f_id prior))
                | None \<Rightarrow>
                    (case project_get (r_project_id r) d of
                       None \<Rightarrow> Inl (Fix_defer ''Report project has no repo_path; cannot read files'')
                     | Some p \<Rightarrow>
                         if \<not> str_set (p_repo_path p)
                         then Inl (Fix_defer ''Report project has no repo_path; cannot read files'')
                         else if \<not> sha_fresh loc (Some p)
                         then Inl (Fix_defer ''Localization is stale; skipping fix proposal'')
                         else plan_files st read r loc p))))"

text \<open>The model call, with the request's fields over the project's and the global ones.\<close>

definition fix_request ::
  "settings \<Rightarrow> 'w stage_deps \<Rightarrow> llm_override option \<Rightarrow> report \<Rightarrow> analysis \<Rightarrow> project \<Rightarrow> (string \<times> string) list
   \<Rightarrow> 'w \<Rightarrow> (exn + llm_response) \<times> 'w" where
  "fix_request st dep ov r loc p files w =
     (let (provider0, model0) = resolve_fix_llm st (Some p);
          provider = (case ov of None \<Rightarrow> provider0 | Some v \<Rightarrow> or_else (ov_provider v) provider0);
          model = (case ov of None \<Rightarrow> model0 | Some v \<Rightarrow> or_else (ov_model v) model0)
      in complete st (dep_llm dep) (Some model) (dep_fix_prompt dep r loc files) None provider (request_key ov) w)"

definition parse_answer :: "'w stage_deps \<Rightarrow> string \<Rightarrow> fix_exn + validated" where
  "parse_answer dep content =
     bindE (extract_json (dep_loads dep) (dep_raw_decode dep) content)
       (validate_proposal (dep_str dep) (dep_float dep))"

definition json_of_validated :: "validated \<Rightarrow> json" where
  "json_of_validated v = JObj
     [(''root_cause'', JStr (v_root_cause v)), (''explanation'', JStr (v_explanation v)),
      (''diff'', JStr (v_diff v)), (''confidence'', JFloat (v_confidence v)),
      (''files_changed'', JArr (map JStr (v_files v)))]"

definition db_exn :: "db_error \<Rightarrow> fix_exn" where
  "db_exn e = Fix_other (Exn ''IntegrityError'' ''constraint failed'')"

text \<open>The rows of a success, in the order they are written.\<close>

definition persist_fix ::
  "report \<Rightarrow> analysis \<Rightarrow> validated \<Rightarrow> llm_response \<Rightarrow> string option \<Rightarrow> string option \<Rightarrow> string option
   \<Rightarrow> db \<Rightarrow> (fix_exn + string) \<times> db" where
  "persist_fix r loc v resp key key_ref trigger d0 =
     (let rid = r_id r;
          m = no_analysis_args\<lparr>m_result := Some (json_of_validated v), m_provider := Some (l_provider resp),
                m_model := Some (l_model resp), m_prompt_tokens := l_prompt_tokens resp,
                m_completion_tokens := l_completion_tokens resp, m_trigger_ref := trigger\<rparr>
      in case analysis_create rid P_FIX A_COMPLETED m d0 of
           (Inl e, d1) \<Rightarrow> (Inl (db_exn e), d1)
         | (Inr _, d1) \<Rightarrow>
             (case fix_proposal_create rid (Some (a_id loc)) (v_root_cause v) (v_explanation v) (v_diff v)
                     (v_confidence v) (v_files v) trigger d1 of
                (Inl e, d2) \<Rightarrow> (Inl (db_exn e), d2)
              | (Inr proposal, d2) \<Rightarrow>
                  (case token_usage_create (r_project_id r) (l_provider resp) (l_model resp) (Some rid)
                          (l_prompt_tokens resp) (l_completion_tokens resp)
                          (Some (if str_set key then ''request'' else ''env'')) key_ref d2 of
                     (Inl e, d3) \<Rightarrow> (Inl (db_exn e), d3)
                   | (Inr _, d3) \<Rightarrow>
                       (Inr (f_id (the proposal)), snd (report_update_status rid FIX_PROPOSED None None d3)))))"

text \<open>Everything inside the \<open>try\<close> block, after the claim.\<close>

definition fix_body ::
  "settings \<Rightarrow> 'w stage_deps \<Rightarrow> string \<Rightarrow> llm_override option \<Rightarrow> string option \<Rightarrow> string option \<Rightarrow> db \<Rightarrow> 'w
   \<Rightarrow> (fix_exn + fix_outcome) \<times> db \<times> 'w" where
  "fix_body st dep rid ov attribution trigger d w =
     (case plan_fix st (dep_read dep w) rid d of
        Inl e \<Rightarrow> (Inl e, d, w)
      | Inr Gone \<Rightarrow> (Inr Not_claimed, d, w)
      | Inr (Prior fid) \<Rightarrow>
          (Inr (Already_proposed fid), snd (report_update_status rid FIX_PROPOSED None None d), w)
      | Inr (Ready r loc p files) \<Rightarrow>
          (case fix_request st dep ov r loc p files w of
             (Inl e, w1) \<Rightarrow> (Inl (Fix_other e), d, w1)
           | (Inr resp, w1) \<Rightarrow>
               (case parse_answer dep (l_content resp) of
                  Inl e \<Rightarrow> (Inl e, d, w1)
                | Inr v \<Rightarrow>
                    (let key_ref = (if str_set (request_key ov)
                           then (case ov of None \<Rightarrow> None | Some x \<Rightarrow> ov_key_ref x) else attribution)
                     in case persist_fix r loc v resp (request_key ov) key_ref trigger d of
                          (Inl e, d1) \<Rightarrow> (Inl e, d1, w1)
                        | (Inr fid, d1) \<Rightarrow> (Inr (Proposed fid), d1, w1)))))"

text \<open>\<open>type(exc).__name__\<close> and \<open>str(exc)\<close>, and whether retrying cannot help.\<close>

fun exn_of :: "fix_exn \<Rightarrow> exn" where
  "exn_of (Fix_defer m) = Exn ''FixProposalDefer'' m"
| "exn_of (Fix_error m p) = Exn ''FixProposalError'' m"
| "exn_of (Fix_other e) = e"

fun is_permanent :: "fix_exn \<Rightarrow> bool" where
  "is_permanent (Fix_error m p) = p"
| "is_permanent e = classify_llm_error (exn_of e)"

definition record_failure ::
  "string \<Rightarrow> fix_exn \<Rightarrow> string \<Rightarrow> string option \<Rightarrow> db \<Rightarrow> (exn + fix_outcome) \<times> db" where
  "record_failure rid e error_text trigger d0 =
     (let (now, d1) = utcnow d0;
          m = no_analysis_args\<lparr>m_result := Some (JObj [(''error'', JStr error_text),
                  (''permanent'', JBool (is_permanent e))]),
                m_completed_at := Some (Iso now), m_trigger_ref := trigger\<rparr>
      in case analysis_create rid P_FIX A_FAILED m d1 of
           (Inl err, d2) \<Rightarrow> (Inl (exn_of (db_exn err)), d2)
         | (Inr _, d2) \<Rightarrow>
             (Inr (Failed error_text), snd (try_claim_report rid FIX_PROPOSING TRIAGED None d2)))"

definition propose_fix ::
  "settings \<Rightarrow> 'w stage_deps \<Rightarrow> string \<Rightarrow> llm_override option \<Rightarrow> string option \<Rightarrow> string option \<Rightarrow> bool
   \<Rightarrow> db \<Rightarrow> 'w \<Rightarrow> (exn + fix_outcome) \<times> db \<times> 'w" where
  "propose_fix st dep rid ov attribution trigger require_request_key d0 w =
     (if require_request_key \<and> request_key ov = None
      then (Inl (Exn ''ValueError'' ''propose_fix: a request key is required and none was given''), d0, w)
      else
        (case try_claim_report rid TRIAGED FIX_PROPOSING None d0 of
           (False, d1) \<Rightarrow> (Inr Not_claimed, d1, w)
         | (True, d1) \<Rightarrow>
             (let secrets = (case request_key ov of None \<Rightarrow> [] | Some k \<Rightarrow> [k]) in
              case fix_body st dep rid ov attribution trigger d1 w of
                (Inr out, d2, w2) \<Rightarrow> (Inr out, d2, w2)
              | (Inl (Fix_defer m), d2, w2) \<Rightarrow>
                  (Inr (Deferred (safe_error_text (exn_of (Fix_defer m)) secrets)),
                   snd (try_claim_report rid FIX_PROPOSING TRIAGED None d2), w2)
              | (Inl e, d2, w2) \<Rightarrow>
                  (case record_failure rid e (safe_error_text (exn_of e) secrets) trigger d2 of
                     (r, d3) \<Rightarrow> (r, d3, w2)))))"

section \<open>Lemmas\<close>

text \<open>Ids drawn from now on are new, as random ones are.\<close>

definition ids_fresh :: "db \<Rightarrow> bool" where
  "ids_fresh d \<longleftrightarrow> (\<forall>n\<ge>uuid_ix d. uuid d n \<notin> a_id ` set (analyses d) \<and> uuid d n \<notin> f_id ` set (fix_proposals d))"

definition new_analysis :: "string \<Rightarrow> phase \<Rightarrow> a_state \<Rightarrow> analysis_args \<Rightarrow> db \<Rightarrow> analysis" where
  "new_analysis rid ph st m d =
     \<lparr>a_id = uuid d (uuid_ix d), a_bug_report_id = rid, a_phase = ph, a_status = st,
      a_result = (if opt_truthy (m_result m) then m_result m else None),
      a_llm_provider = m_provider m, a_llm_model = m_model m,
      a_prompt_tokens = m_prompt_tokens m, a_completion_tokens = m_completion_tokens m,
      a_started_at = m_started_at m, a_completed_at = m_completed_at m,
      a_trigger_ref = m_trigger_ref m, a_created_at = fst (db_now (snd (new_id d)))\<rparr>"

lemma fetch_appended: "k \<notin> key ` set t \<Longrightarrow> key x = k \<Longrightarrow> fetchone (filter (\<lambda>r. key r = k) (t @ [x])) = Some x"
  by (induction t) auto

lemma analysis_create_eq:
  assumes "uuid d (uuid_ix d) \<notin> a_id ` set (analyses d)" and "rid \<in> r_id ` set (reports d)"
  shows "analysis_create rid ph st m d = (Inr (Some (new_analysis rid ph st m d)),
    (snd (db_now (snd (new_id d))))\<lparr>analyses := analyses d @ [new_analysis rid ph st m d]\<rparr>)"
  using assms fetch_appended[of "uuid d (uuid_ix d)" a_id "analyses d" "new_analysis rid ph st m d"]
  by (simp add: analysis_create_def case_prod_beta Let_def insert_analysis_def analysis_get_def new_analysis_def)

definition new_proposal :: "report \<Rightarrow> analysis \<Rightarrow> validated \<Rightarrow> string option \<Rightarrow> db \<Rightarrow> fix_proposal" where
  "new_proposal r loc v trigger d =
     (blank_proposal (uuid d (uuid_ix d)) (r_id r) (fst (db_now (snd (new_id d)))))
       \<lparr>f_analysis_id := Some (a_id loc), f_diff := Some (v_diff v), f_explanation := Some (v_explanation v),
        f_confidence := Some (v_confidence v), f_root_cause := Some (v_root_cause v),
        f_files_changed := Some (v_files v), f_trigger_ref := trigger\<rparr>"

lemma proposal_create_eq:
  assumes "uuid d (uuid_ix d) \<notin> f_id ` set (fix_proposals d)" and "r_id r \<in> r_id ` set (reports d)"
    and "a_id loc \<in> a_id ` set (analyses d)"
  shows "fix_proposal_create (r_id r) (Some (a_id loc)) (v_root_cause v) (v_explanation v) (v_diff v)
      (v_confidence v) (v_files v) trigger d = (Inr (Some (new_proposal r loc v trigger d)),
    (snd (db_now (snd (new_id d))))\<lparr>fix_proposals := fix_proposals d @ [new_proposal r loc v trigger d]\<rparr>)"
  using assms fetch_appended[of "uuid d (uuid_ix d)" f_id "fix_proposals d" "new_proposal r loc v trigger d"]
  by (simp add: fix_proposal_create_def case_prod_beta Let_def insert_fix_proposal_def new_proposal_def
      blank_proposal_def)

definition new_usage :: "report \<Rightarrow> llm_response \<Rightarrow> string \<Rightarrow> string option \<Rightarrow> db \<Rightarrow> usage_row" where
  "new_usage r resp source key_ref d =
     \<lparr>u_project_id = r_project_id r, u_bug_report_id = Some (r_id r), u_provider = l_provider resp,
      u_model = l_model resp, u_prompt_tokens = l_prompt_tokens resp,
      u_completion_tokens = l_completion_tokens resp, u_key_source = Some source, u_key_ref = key_ref,
      u_created_at = fst (db_now d)\<rparr>"

lemma usage_create_eq:
  assumes "r_project_id r \<in> p_id ` set (projects d)" and "r_id r \<in> r_id ` set (reports d)"
  shows "token_usage_create (r_project_id r) (l_provider resp) (l_model resp) (Some (r_id r))
      (l_prompt_tokens resp) (l_completion_tokens resp) (Some source) key_ref d
    = (Inr (), (snd (db_now d))\<lparr>token_usage := token_usage d @ [new_usage r resp source key_ref d]\<rparr>)"
  using assms by (simp add: token_usage_create_def case_prod_beta Let_def insert_usage_def new_usage_def)

text \<open>What a stored proposal leaves: one analysis row, one proposal, one usage row.\<close>

definition proposal_stored ::
  "report \<Rightarrow> analysis \<Rightarrow> string option \<Rightarrow> string \<Rightarrow> string option \<Rightarrow> string \<Rightarrow> db \<Rightarrow> db \<Rightarrow> bool" where
  "proposal_stored r loc trigger source key_ref fid d d' \<longleftrightarrow>
     (\<exists>a f u. analyses d' = analyses d @ [a] \<and> a_bug_report_id a = r_id r \<and> a_phase a = P_FIX
        \<and> a_status a = A_COMPLETED \<and> a_trigger_ref a = trigger
        \<and> fix_proposals d' = fix_proposals d @ [f] \<and> f_id f = fid \<and> f_bug_report_id f = r_id r
        \<and> f_analysis_id f = Some (a_id loc) \<and> f_trigger_ref f = trigger \<and> f_status f = ''proposed''
        \<and> (\<exists>diff. f_diff f = Some diff \<and> strip diff \<noteq> [] \<and> unified_diff_lines (splitlines diff))
        \<and> a_created_at a < f_created_at f
        \<and> token_usage d' = token_usage d @ [u] \<and> u_project_id u = r_project_id r
        \<and> u_bug_report_id u = Some (r_id r) \<and> u_key_source u = Some source \<and> u_key_ref u = key_ref)"

definition rows_kept :: "db \<Rightarrow> db \<Rightarrow> bool" where
  "rows_kept d d' \<longleftrightarrow> projects d' = projects d \<and> reports d' = reports d \<and> uuid d' = uuid d
     \<and> ingest_state d' = ingest_state d \<and> triage_results d' = triage_results d
     \<and> triage_actions d' = triage_actions d \<and> triage_sync_state d' = triage_sync_state d"

lemma analysis_created:
  assumes "uuid d (uuid_ix d) \<notin> a_id ` set (analyses d)" and "rid \<in> r_id ` set (reports d)"
  obtains d1 where "analysis_create rid ph st m d = (Inr (Some (new_analysis rid ph st m d)), d1)"
    and "analyses d1 = analyses d @ [new_analysis rid ph st m d]" and "rows_kept d d1"
    and "fix_proposals d1 = fix_proposals d" and "token_usage d1 = token_usage d"
    and "uuid_ix d1 = Suc (uuid_ix d)" and "last_now d1 = Some (a_created_at (new_analysis rid ph st m d))"
  using analysis_create_eq[OF assms] by (simp add: rows_kept_def new_analysis_def)

lemma proposal_created:
  assumes "uuid d (uuid_ix d) \<notin> f_id ` set (fix_proposals d)" and "r_id r \<in> r_id ` set (reports d)"
    and "a_id loc \<in> a_id ` set (analyses d)"
  obtains d1 where "fix_proposal_create (r_id r) (Some (a_id loc)) (v_root_cause v) (v_explanation v) (v_diff v)
      (v_confidence v) (v_files v) trigger d = (Inr (Some (new_proposal r loc v trigger d)), d1)"
    and "fix_proposals d1 = fix_proposals d @ [new_proposal r loc v trigger d]" and "rows_kept d d1"
    and "analyses d1 = analyses d" and "token_usage d1 = token_usage d"
  using proposal_create_eq[OF assms] by (simp add: rows_kept_def)

lemma usage_created:
  assumes "r_project_id r \<in> p_id ` set (projects d)" and "r_id r \<in> r_id ` set (reports d)"
  obtains d1 where "token_usage_create (r_project_id r) (l_provider resp) (l_model resp) (Some (r_id r))
      (l_prompt_tokens resp) (l_completion_tokens resp) (Some source) key_ref d = (Inr (), d1)"
    and "token_usage d1 = token_usage d @ [new_usage r resp source key_ref d]" and "rows_kept d d1"
    and "analyses d1 = analyses d" and "fix_proposals d1 = fix_proposals d"
  using usage_create_eq[OF assms] by (simp add: rows_kept_def)

lemma rows_kept_get: "rows_kept d d' \<Longrightarrow> report_get rid d' = report_get rid d"
  by (simp add: rows_kept_def report_get_find)

lemma status_update_frame:
  "analyses (snd (report_update_status rid n reason e d)) = analyses d"
  "fix_proposals (snd (report_update_status rid n reason e d)) = fix_proposals d"
  "token_usage (snd (report_update_status rid n reason e d)) = token_usage d"
  by (simp_all add: update_status_eq case_prod_beta Let_def)

lemma persist_ok:
  assumes "ids_fresh d" and "r_id r \<in> r_id ` set (reports d)" and "r_project_id r \<in> p_id ` set (projects d)"
    and "a_id loc \<in> a_id ` set (analyses d)"
    and "strip (v_diff v) \<noteq> []" and "unified_diff_lines (splitlines (v_diff v))"
  shows "\<exists>fid d'. persist_fix r loc v resp key key_ref trigger d = (Inr fid, d')
    \<and> proposal_stored r loc trigger (if str_set key then ''request'' else ''env'') key_ref fid d d'
    \<and> map_option r_status (report_get (r_id r) d') = map_option (\<lambda>x. FIX_PROPOSED) (report_get (r_id r) d)"
proof -
  let ?m = "no_analysis_args\<lparr>m_result := Some (json_of_validated v), m_provider := Some (l_provider resp),
      m_model := Some (l_model resp), m_prompt_tokens := l_prompt_tokens resp,
      m_completion_tokens := l_completion_tokens resp, m_trigger_ref := trigger\<rparr>"
  let ?src = "if str_set key then ''request'' else ''env''"
  have ids: "uuid d (uuid_ix d) \<notin> a_id ` set (analyses d)" "uuid d (Suc (uuid_ix d)) \<notin> f_id ` set (fix_proposals d)"
    using assms(1) by (simp_all add: ids_fresh_def)
  let ?a = "new_analysis (r_id r) P_FIX A_COMPLETED ?m d"
  obtain d1 where d1: "analysis_create (r_id r) P_FIX A_COMPLETED ?m d = (Inr (Some ?a), d1)"
      "analyses d1 = analyses d @ [?a]" "rows_kept d d1" "fix_proposals d1 = fix_proposals d"
      "token_usage d1 = token_usage d" "uuid_ix d1 = Suc (uuid_ix d)" "last_now d1 = Some (a_created_at ?a)"
    using analysis_created[OF ids(1) assms(2), of P_FIX A_COMPLETED ?m] by blast
  have k1: "reports d1 = reports d" "projects d1 = projects d" "uuid d1 = uuid d" using d1(3) by (simp_all add: rows_kept_def)
  let ?f = "new_proposal r loc v trigger d1"
  obtain d2 where d2: "fix_proposal_create (r_id r) (Some (a_id loc)) (v_root_cause v) (v_explanation v) (v_diff v)
      (v_confidence v) (v_files v) trigger d1 = (Inr (Some ?f), d2)"
      "fix_proposals d2 = fix_proposals d1 @ [?f]" "rows_kept d1 d2" "analyses d2 = analyses d1" "token_usage d2 = token_usage d1"
    using proposal_created[of d1 r loc v trigger] ids(2) assms(2,4) d1(2,4,6) k1 by auto
  let ?u = "new_usage r resp ?src key_ref d2"
  have k2: "reports d2 = reports d1" "projects d2 = projects d1" using d2(3) by (simp_all add: rows_kept_def)
  obtain d3 where d3: "token_usage_create (r_project_id r) (l_provider resp) (l_model resp) (Some (r_id r))
      (l_prompt_tokens resp) (l_completion_tokens resp) (Some ?src) key_ref d2 = (Inr (), d3)"
      "token_usage d3 = token_usage d2 @ [?u]" "rows_kept d2 d3" "analyses d3 = analyses d2" "fix_proposals d3 = fix_proposals d2"
    using usage_created[of r d2 resp ?src key_ref] assms(2,3) k1 k2 by auto
  let ?d4 = "snd (report_update_status (r_id r) FIX_PROPOSED None None d3)"
  have run: "persist_fix r loc v resp key key_ref trigger d = (Inr (f_id ?f), ?d4)"
    by (simp add: persist_fix_def Let_def d1(1) d2(1) d3(1))
  have "a_created_at ?a < f_created_at ?f"
    using now_after[of "snd (new_id d1)"] d1(7) by (simp add: new_proposal_def blank_proposal_def)
  then have "proposal_stored r loc trigger ?src key_ref (f_id ?f) d ?d4"
    using assms(5,6) d1 d2 d3
    by (simp add: proposal_stored_def status_update_frame new_analysis_def new_proposal_def
        blank_proposal_def new_usage_def no_analysis_args_def)
  moreover have "map_option r_status (report_get (r_id r) ?d4) = map_option (\<lambda>x. FIX_PROPOSED) (report_get (r_id r) d)"
    using d1(3) d2(3) d3(3) by (cases "report_get (r_id r) d") (simp_all add: update_status_get rows_kept_get)
  ultimately show ?thesis using run by blast
qed

lemma claim_report_frame:
  "analyses (snd (try_claim_report rid e n tok d)) = analyses d"
  "fix_proposals (snd (try_claim_report rid e n tok d)) = fix_proposals d"
  "token_usage (snd (try_claim_report rid e n tok d)) = token_usage d"
  "projects (snd (try_claim_report rid e n tok d)) = projects d"
  "uuid (snd (try_claim_report rid e n tok d)) = uuid d"
  "uuid_ix (snd (try_claim_report rid e n tok d)) = uuid_ix d"
  by (simp_all add: try_claim_eq case_prod_beta Let_def update_reports_def)

lemma claim_report_lost:
  assumes "map_option r_status (report_get rid d) \<noteq> Some e" and "ids_ok d"
  shows "fst (try_claim_report rid e n tok d) = False" and "same_tables d (snd (try_claim_report rid e n tok d))"
proof -
  show "fst (try_claim_report rid e n tok d) = False"
    using assms(1) try_claim_won[OF assms(2)] by (auto split: option.split)
  have "\<not> (r_id r = rid \<and> r_status r = e)" if "r \<in> set (reports d)" for r
    using that assms find_key_Some[of r_id "reports d" rid r] by (auto simp: report_get_find ids_ok_def)
  then have "update_where (\<lambda>r. r_id r = rid \<and> r_status r = e) f (reports d) = reports d" for f
    unfolding update_where_def by (intro map_idI) auto
  then show "same_tables d (snd (try_claim_report rid e n tok d))"
    by (simp add: try_claim_eq case_prod_beta Let_def update_reports_def same_tables_def)
qed

lemma project_get_in: "project_get pid d = Some p \<Longrightarrow> pid \<in> p_id ` set (projects d)"
  unfolding project_get_def by (auto dest!: fetchone_in)

lemma report_get_in: "report_get rid d = Some r \<Longrightarrow> r \<in> set (reports d) \<and> r_id r = rid"
  unfolding report_get_def by (auto dest!: fetchone_in)

lemma latest_localization_in: "latest_completed_localization rid d = Some loc \<Longrightarrow> loc \<in> set (analyses d)"
  unfolding latest_completed_localization_def by (drule fetchone_in) simp

lemma plan_files_cases:
  "plan_files st read r loc p = Inr plan \<Longrightarrow> \<exists>files. plan = Ready r loc p files"
  by (auto simp: plan_files_def bindE_Inr Let_def split: if_splits)

lemma plan_fix_cases:
  assumes "report_get rid d = Some r"
  shows "case plan_fix st read rid d of
      Inl e \<Rightarrow> True
    | Inr Gone \<Rightarrow> False
    | Inr (Prior fid) \<Rightarrow> (\<exists>loc f. latest_completed_localization rid d = Some loc \<and> f \<in> set (fix_proposals d)
        \<and> f_id f = fid \<and> f_bug_report_id f = rid \<and> f_analysis_id f = Some (a_id loc))
    | Inr (Ready r' loc p files) \<Rightarrow> r' = r \<and> latest_completed_localization rid d = Some loc
        \<and> project_get (r_project_id r) d = Some p \<and> sha_fresh loc (Some p)"
proof (cases "latest_completed_localization rid d")
  case None
  then show ?thesis by (simp add: plan_fix_def assms)
next
  case (Some loc)
  show ?thesis
  proof (cases "find (\<lambda>f. f_analysis_id f = Some (a_id loc)) (fix_proposals_for_report rid d)")
    case (Some f)
    then have "f \<in> set (fix_proposals_for_report rid d)" "f_analysis_id f = Some (a_id loc)"
      by (auto simp: find_Some_iff)
    then show ?thesis
      using Some \<open>latest_completed_localization rid d = Some loc\<close> assms
      by (auto simp: plan_fix_def fix_proposals_for_report_def)
  next
    case None
    then show ?thesis
      using Some assms plan_files_cases[of st read r loc]
      by (auto simp: plan_fix_def split: option.split sum.split fix_plan.split)
  qed
qed

lemma parse_answer_cases:
  "case parse_answer dep content of
     Inr v \<Rightarrow> strip (v_diff v) \<noteq> [] \<and> unified_diff_lines (splitlines (v_diff v))
   | Inl (Fix_defer m) \<Rightarrow> False | Inl e \<Rightarrow> True"
proof (cases "extract_json (dep_loads dep) (dep_raw_decode dep) content")
  case (Inl e)
  then have "\<exists>m p. e = Fix_error m p"
    by (auto simp: extract_json_def Let_def split: option.splits if_splits)
  then show ?thesis using Inl by (auto simp: parse_answer_def)
next
  case (Inr j)
  then show ?thesis
    using validate_cases[where str_of = "dep_str dep" and parse_float = "dep_float dep" and payload = j]
    by (auto simp: parse_answer_def split: sum.splits fix_exn.splits)
qed

lemma ready_persists:
  assumes "plan_fix st read rid d = Inr (Ready r' loc p files)" and "parse_answer dep content = Inr v"
    and "ids_fresh d" and "report_get rid d = Some r"
  shows "r' = r" and "latest_completed_localization rid d = Some loc"
    and "\<exists>fid d'. persist_fix r loc v resp key key_ref trig d = (Inr fid, d')
      \<and> proposal_stored r loc trig (if str_set key then ''request'' else ''env'') key_ref fid d d'
      \<and> map_option r_status (report_get rid d') = Some FIX_PROPOSED"
proof -
  have k: "r' = r" "latest_completed_localization rid d = Some loc" "project_get (r_project_id r) d = Some p"
    using plan_fix_cases[OF assms(4), of st read] assms(1) by auto
  show "r' = r" "latest_completed_localization rid d = Some loc" using k by auto
  have v: "strip (v_diff v) \<noteq> []" "unified_diff_lines (splitlines (v_diff v))"
    using parse_answer_cases[of dep content] assms(2) by auto
  have r: "r_id r \<in> r_id ` set (reports d)" "r_id r = rid" using report_get_in[OF assms(4)] by auto
  show "\<exists>fid d'. persist_fix r loc v resp key key_ref trig d = (Inr fid, d')
      \<and> proposal_stored r loc trig (if str_set key then ''request'' else ''env'') key_ref fid d d'
      \<and> map_option r_status (report_get rid d') = Some FIX_PROPOSED"
    using persist_ok[OF assms(3) r(1) project_get_in[OF k(3)] imageI[OF latest_localization_in[OF k(2)]] v,
        of resp key key_ref trig] assms(4) r(2) by simp
qed

text \<open>How the body of the stage can end: with its rows untouched, or with the proposal stored.\<close>

lemma fix_body_cases:
  assumes "fix_body st dep rid ov att trig d w = (res, d', w')" and "ids_fresh d" and "report_get rid d = Some r"
  shows "(\<exists>e. res = Inl e \<and> d' = d \<and> (w' = w \<or> (\<forall>m. e \<noteq> Fix_defer m)))
    \<or> (\<exists>fid loc. res = Inr (Already_proposed fid) \<and> w' = w \<and> latest_completed_localization rid d = Some loc
        \<and> fid \<in> f_id ` {f \<in> set (fix_proposals d). f_bug_report_id f = rid \<and> f_analysis_id f = Some (a_id loc)}
        \<and> d' = snd (report_update_status rid FIX_PROPOSED None None d))
    \<or> (\<exists>fid loc source key_ref. res = Inr (Proposed fid) \<and> latest_completed_localization rid d = Some loc
        \<and> proposal_stored r loc trig source key_ref fid d d'
        \<and> map_option r_status (report_get rid d') = Some FIX_PROPOSED)"
proof (cases "plan_fix st (dep_read dep w) rid d")
  case (Inl e')
  then show ?thesis using assms(1) by (auto simp: fix_body_def)
next
  case (Inr plan)
  note pl = plan_fix_cases[OF assms(3), of st "dep_read dep w"]
  show ?thesis
  proof (cases plan)
    case Gone
    then show ?thesis using Inr pl by simp
  next
    case (Prior fid)
    then show ?thesis using assms(1) Inr pl by (auto simp: fix_body_def)
  next
    case (Ready r' loc p files)
    note plan = Inr[unfolded Ready]
    obtain q w1 where q: "fix_request st dep ov r' loc p files w = (q, w1)" by fastforce
    show ?thesis
    proof (cases q)
      case (Inl x)
      then have "res = Inl (Fix_other x)" "d' = d" using assms(1) plan q by (simp_all add: fix_body_def)
      then show ?thesis by simp
    next
      case resp: (Inr resp)
      show ?thesis
      proof (cases "parse_answer dep (l_content resp)")
        case (Inl x)
        then have "res = Inl x" "d' = d" using assms(1) plan q resp by (simp_all add: fix_body_def)
        moreover have "\<forall>m. x \<noteq> Fix_defer m" using Inl parse_answer_cases[of dep "l_content resp"] by auto
        ultimately show ?thesis by simp
      next
        case v: (Inr v)
        let ?kr = "if str_set (request_key ov) then (case ov of None \<Rightarrow> None | Some x \<Rightarrow> ov_key_ref x) else att"
        note k = ready_persists[OF plan v assms(2,3)]
        obtain fid d1 where "persist_fix r loc v resp (request_key ov) ?kr trig d = (Inr fid, d1)"
          "proposal_stored r loc trig (if str_set (request_key ov) then ''request'' else ''env'') ?kr fid d d1"
          "map_option r_status (report_get rid d1) = Some FIX_PROPOSED"
          using k(3)[of resp "request_key ov" ?kr] by blast
        then show ?thesis using assms(1) plan q resp v k(1,2) by (simp add: fix_body_def Let_def) blast
      qed
    qed
  qed
qed

lemma claimed:
  assumes "ids_ok d" and "ids_fresh d" and "report_get rid d = Some r" and "r_status r = TRIAGED"
  obtains d1 r1 where "try_claim_report rid TRIAGED FIX_PROPOSING None d = (True, d1)" and "ids_ok d1" and "ids_fresh d1"
    and "report_get rid d1 = Some r1" and "r_status r1 = FIX_PROPOSING" and "r_id r1 = r_id r"
    and "r_project_id r1 = r_project_id r" and "analyses d1 = analyses d" and "fix_proposals d1 = fix_proposals d"
    and "token_usage d1 = token_usage d"
proof -
  let ?c = "try_claim_report rid TRIAGED FIX_PROPOSING None d"
  have "?c = (True, snd ?c)" using try_claim_won[OF assms(1), of rid TRIAGED] assms(3,4)
    by (simp add: prod_eq_iff)
  then show thesis using assms that[of "snd ?c"]
    by (simp add: try_claim_ids try_claim_get ids_fresh_def claim_report_frame)
qed

lemma given_back:
  assumes "ids_ok d" and "report_get rid d = Some r" and "r_status r = FIX_PROPOSING"
  shows "map_option r_status (report_get rid (snd (try_claim_report rid FIX_PROPOSING TRIAGED None d))) = Some TRIAGED"
  using assms by (simp add: try_claim_get)

lemma latest_localization_rows: "analyses d' = analyses d \<Longrightarrow> latest_completed_localization rid d' = latest_completed_localization rid d"
  by (simp add: latest_completed_localization_def)

lemma failure_recorded:
  assumes "ids_ok d" and "ids_fresh d" and "report_get rid d = Some r" and "r_status r = FIX_PROPOSING"
  shows "\<exists>d'. record_failure rid e err trig d = (Inr (Failed err), d')
    \<and> (\<exists>a. analyses d' = analyses d @ [a] \<and> a_bug_report_id a = rid \<and> a_phase a = P_FIX \<and> a_status a = A_FAILED
        \<and> a_trigger_ref a = trig
        \<and> a_result a = Some (JObj [(''error'', JStr err), (''permanent'', JBool (is_permanent e))]))
    \<and> fix_proposals d' = fix_proposals d \<and> token_usage d' = token_usage d
    \<and> map_option r_status (report_get rid d') = Some TRIAGED"
proof -
  let ?d = "snd (utcnow d)"
  let ?m = "no_analysis_args\<lparr>m_result := Some (JObj [(''error'', JStr err), (''permanent'', JBool (is_permanent e))]),
      m_completed_at := Some (Iso (fst (utcnow d))), m_trigger_ref := trig\<rparr>"
  have rid: "rid \<in> r_id ` set (reports ?d)" using report_get_in[OF assms(3)] by auto
  have new: "uuid ?d (uuid_ix ?d) \<notin> a_id ` set (analyses ?d)" using assms(2) by (simp add: ids_fresh_def)
  obtain d1 where d1: "analysis_create rid P_FIX A_FAILED ?m ?d = (Inr (Some (new_analysis rid P_FIX A_FAILED ?m ?d)), d1)"
      "analyses d1 = analyses ?d @ [new_analysis rid P_FIX A_FAILED ?m ?d]" "rows_kept ?d d1"
      "fix_proposals d1 = fix_proposals ?d" "token_usage d1 = token_usage ?d"
    using analysis_created[OF new rid, of P_FIX A_FAILED ?m] by blast
  have same: "reports d1 = reports d" using d1(3) by (simp add: rows_kept_def)
  then have "ids_ok d1" "report_get rid d1 = Some r" using assms(1,3) by (simp_all add: ids_ok_def report_get_find)
  then have "map_option r_status (report_get rid (snd (try_claim_report rid FIX_PROPOSING TRIAGED None d1))) = Some TRIAGED"
    using given_back assms(4) by blast
  moreover have "record_failure rid e err trig d = (Inr (Failed err), snd (try_claim_report rid FIX_PROPOSING TRIAGED None d1))"
    by (simp add: record_failure_def case_prod_beta Let_def d1(1))
  ultimately show ?thesis using d1(2,4,5)
    by (simp add: claim_report_frame new_analysis_def no_analysis_args_def)
qed

text \<open>How a run that won its claim can end.\<close>

definition stage_settled :: "string \<Rightarrow> report \<Rightarrow> string option \<Rightarrow> fix_outcome \<Rightarrow> bool \<Rightarrow> db \<Rightarrow> db \<Rightarrow> bool" where
  "stage_settled rid r trig out called d d' \<longleftrightarrow>
     map_option r_status (report_get rid d')
       = Some (case out of Proposed fid \<Rightarrow> FIX_PROPOSED | Already_proposed fid \<Rightarrow> FIX_PROPOSED | _ \<Rightarrow> TRIAGED)
   \<and> (case out of
        Proposed fid \<Rightarrow> \<exists>loc source key_ref. latest_completed_localization rid d = Some loc
          \<and> proposal_stored r loc trig source key_ref fid d d'
      | Already_proposed fid \<Rightarrow> \<not> called \<and> analyses d' = analyses d \<and> fix_proposals d' = fix_proposals d
          \<and> token_usage d' = token_usage d
          \<and> (\<exists>loc. latest_completed_localization rid d = Some loc
               \<and> fid \<in> f_id ` {f \<in> set (fix_proposals d). f_bug_report_id f = rid \<and> f_analysis_id f = Some (a_id loc)})
      | Deferred m \<Rightarrow> \<not> called \<and> analyses d' = analyses d \<and> fix_proposals d' = fix_proposals d
          \<and> token_usage d' = token_usage d
      | Failed err \<Rightarrow> fix_proposals d' = fix_proposals d \<and> token_usage d' = token_usage d
          \<and> (\<exists>a perm. analyses d' = analyses d @ [a] \<and> a_bug_report_id a = rid \<and> a_phase a = P_FIX
               \<and> a_status a = A_FAILED \<and> a_trigger_ref a = trig
               \<and> a_result a = Some (JObj [(''error'', JStr err), (''permanent'', JBool perm)]))
      | Not_claimed \<Rightarrow> False)"


definition demo_fix_db :: db where
  "demo_fix_db = init_db\<lparr>
     projects := [(blank_project ''p'' 1)\<lparr>p_repo_path := Some ''/r'', p_head_sha := Some ''s''\<rparr>],
     reports := [(blank_report ''r'' ''p'' 2)\<lparr>r_status := TRIAGED\<rparr>],
     analyses := [\<lparr>a_id = ''loc'', a_bug_report_id = ''r'', a_phase = P_LOCALIZATION, a_status = A_COMPLETED,
        a_result = Some (JObj [(''repo_sha'', JStr ''s''), (''pass2'', JObj [(''localizations'',
          JArr [JObj [(''file'', JStr ''a.py'')]])])]),
        a_llm_provider = None, a_llm_model = None, a_prompt_tokens = 0, a_completion_tokens = 0,
        a_started_at = None, a_completed_at = None, a_trigger_ref = None, a_created_at = 3\<rparr>]\<rparr>"

definition demo_answer :: json where
  "demo_answer = JObj [(''root_cause'', JStr ''c''), (''explanation'', JStr ''e''),
     (''diff'', JStr (''--- a/a.py'' @ [CHR 10] @ ''+++ b/a.py'' @ [CHR 10] @ ''@@ -1 +1 @@'' @ [CHR 10])),
     (''confidence'', JFloat (Fin 1)), (''files_changed'', JArr [JStr ''a.py''])]"

definition demo_fix_deps :: "nat stage_deps" where
  "demo_fix_deps = \<lparr>dep_llm = (\<lambda>q w. (Inr \<lparr>y_content = Some ''{}'', y_usage = None\<rparr>, Suc w)),
     dep_loads = (\<lambda>_. Some demo_answer), dep_raw_decode = (\<lambda>_. None), dep_str = (\<lambda>_. ''1''),
     dep_float = (\<lambda>_. None), dep_read = (\<lambda>_ _. Some ''x''), dep_fix_prompt = (\<lambda>_ _ _. ''p'')\<rparr>"

definition demo_fix_settings :: settings where
  "demo_fix_settings = default_settings\<lparr>anthropic_api_key := ''k'', localize_max_files := 2,
     fix_max_file_bytes := 3, fix_max_bundle_bytes := 3\<rparr>"

definition demo_fix_run :: "(exn + fix_outcome) \<times> db \<times> nat" where
  "demo_fix_run = propose_fix demo_fix_settings demo_fix_deps ''r'' None None None False demo_fix_db 0"

lemma demo_fix_proposes: "case fst demo_fix_run of Inr (Proposed f) \<Rightarrow> True | _ \<Rightarrow> False"
  by code_simp


text \<open>A run depends on the configured key only through the request it builds.\<close>

lemma propose_fix_ignores_key:
  assumes "\<And>r loc p files (w::'w). fix_request (st\<lparr>anthropic_api_key := k\<rparr>) dep ov r loc p files w
      = fix_request st dep ov r loc p files w"
  shows "propose_fix (st\<lparr>anthropic_api_key := k\<rparr>) dep rid ov att trig require d w
      = propose_fix st dep rid ov att trig require d (w::'w)"
proof -
  have fields: "localize_max_files (st\<lparr>anthropic_api_key := k\<rparr>) = localize_max_files st"
    "fix_max_file_bytes (st\<lparr>anthropic_api_key := k\<rparr>) = fix_max_file_bytes st"
    "fix_max_bundle_bytes (st\<lparr>anthropic_api_key := k\<rparr>) = fix_max_bundle_bytes st" by simp_all
  have files: "plan_files (st\<lparr>anthropic_api_key := k\<rparr>) read r loc p = plan_files st read r loc p" for read r loc p
    unfolding plan_files_def fields ..
  have plan: "plan_fix (st\<lparr>anthropic_api_key := k\<rparr>) read rid d = plan_fix st read rid d" for read d
    unfolding plan_fix_def files ..
  have body: "fix_body (st\<lparr>anthropic_api_key := k\<rparr>) dep rid ov att trig d w = fix_body st dep rid ov att trig d w" for d and w :: 'w
    unfolding fix_body_def plan assms ..
  show ?thesis unfolding propose_fix_def body ..
qed

lemma request_key_set: "request_key ov = Some key \<Longrightarrow> key \<noteq> []"
  by (auto simp: request_key_def has_key_def split: option.splits if_splits)

lemma request_key_alone:
  "request_key ov = Some key \<Longrightarrow>
     fix_request (st\<lparr>anthropic_api_key := k\<rparr>) dep ov r loc p files w = fix_request st dep ov r loc p files w"
  using request_key_set[of ov key]
  by (simp add: fix_request_def resolve_fix_llm_def complete_def complete_request_def or_else_def Let_def)

text \<open>A request that must bring its own key never reaches the configured one: with
  \<open>require_request_key\<close> the run does not depend on the configured API key.\<close>

theorem request_key_required_ignores_configured_key:
  "propose_fix (st\<lparr>anthropic_api_key := k\<rparr>) dep rid ov att trig True d w = propose_fix st dep rid ov att trig True d w"
proof (cases "request_key ov")
  case None
  then show ?thesis by (simp add: propose_fix_def)
next
  case (Some key)
  then show ?thesis by (intro propose_fix_ignores_key request_key_alone)
qed

end
