(* ===== verification/Repo.thy ===== *)
theory Repo
  imports Open_Pr
begin

text \<open>
  \<open>git_ops/repo.py\<close>: clones, pulls and the head commit.  Running git is an argument: it answers a
  command in a directory with an exit code and output, or raises (\<open>Inl\<close>).
\<close>

type_synonym 'w repo_git = "string list \<Rightarrow> string option \<Rightarrow> 'w \<Rightarrow> (string + git_result) \<times> 'w"

definition valid_url :: "string \<Rightarrow> bool" where
  "valid_url url \<longleftrightarrow> starts_with ''https://'' url \<or> starts_with ''git@'' url"

text \<open>A command that must exit with 0.\<close>

definition git_ok :: "'w repo_git \<Rightarrow> string list \<Rightarrow> string option \<Rightarrow> 'w \<Rightarrow> (string + string) \<times> 'w" where
  "git_ok git args cwd w =
     (case git args cwd w of
        (Inl e, w1) \<Rightarrow> (Inl e, w1)
      | (Inr r, w1) \<Rightarrow> (if g_code r \<noteq> 0 then Inl ''RuntimeError'' else Inr (g_out r), w1))"

definition pull_repo :: "'w repo_git \<Rightarrow> string \<Rightarrow> 'w \<Rightarrow> (string + unit) \<times> 'w" where
  "pull_repo git path w = (case git_ok git [''pull''] (Some path) w of (r, w1) \<Rightarrow> (map_sum id (\<lambda>_. ()) r, w1))"

definition get_head_sha :: "'w repo_git \<Rightarrow> string \<Rightarrow> 'w \<Rightarrow> (string + string) \<times> 'w" where
  "get_head_sha git path w =
     (case git_ok git [''rev-parse'', ''HEAD''] (Some path) w of (r, w1) \<Rightarrow> (map_sum id strip r, w1))"

definition clone_repo ::
  "'w repo_git \<Rightarrow> (string \<Rightarrow> 'w \<Rightarrow> bool) \<Rightarrow> (string \<Rightarrow> 'w \<Rightarrow> 'w) \<Rightarrow> string \<Rightarrow> string \<Rightarrow> string \<Rightarrow> 'w
   \<Rightarrow> (string + string) \<times> 'w" where
  "clone_repo git is_clone make_parent url target branch w =
     (if \<not> valid_url url then (Inl ''ValueError'', w)
      else if is_clone target w then
        (case pull_repo git target w of (Inl e, w1) \<Rightarrow> (Inl e, w1) | (Inr _, w1) \<Rightarrow> (Inr target, w1))
      else
        (case git_ok git [''clone'', ''--branch'', branch, ''--single-branch'', url, target] None (make_parent target w) of
           (Inl e, w1) \<Rightarrow> (Inl e, w1) | (Inr _, w1) \<Rightarrow> (Inr target, w1)))"

text \<open>\<open>os.path.splitext(f)[1]\<close>: from the last dot of the last component, when something other than
  dots stands before it.\<close>

definition splitext :: "string \<Rightarrow> string" where
  "splitext f =
     (let base = last (split_on (CHR ''/'') f); ext = rev (takeWhile (\<lambda>c. c \<noteq> CHR ''.'') (rev base));
          stem = take (length base - length ext - 1) base
      in if CHR ''.'' \<notin> set base \<or> list_all (\<lambda>c. c = CHR ''.'') stem then [] else CHR ''.'' # ext)"

definition SKIP_DIRS :: "string list" where
  "SKIP_DIRS = [''node_modules/'', ''vendor/'', ''.git/'', ''__pycache__/'', ''dist/'', ''build/'']"

fun contains :: "string \<Rightarrow> string \<Rightarrow> bool" where
  "contains p [] = (p = [])"
| "contains p (c # s) = (starts_with p (c # s) \<or> contains p s)"

definition skipped :: "string \<Rightarrow> bool" where
  "skipped f \<longleftrightarrow> list_ex (\<lambda>d. starts_with d f \<or> contains (CHR ''/'' # d) f) SKIP_DIRS"

definition list_files :: "'w repo_git \<Rightarrow> string \<Rightarrow> string list \<Rightarrow> 'w \<Rightarrow> (string + string list) \<times> 'w" where
  "list_files git path extensions w =
     (case git_ok git [''ls-files''] (Some path) w of
        (Inl e, w1) \<Rightarrow> (Inl e, w1)
      | (Inr out, w1) \<Rightarrow>
          (let files = filter (\<lambda>f. f \<noteq> []) (split_on (CHR 0x0A) (strip out));
               kept = (if extensions = [] then files else filter (\<lambda>f. splitext f \<in> set extensions) files)
           in (Inr (filter (\<lambda>f. \<not> skipped f) kept), w1)))"

end
