(* ===== verification/Local_Stages.thy ===== *)
theory Local_Stages
  imports Fix_Stage Repo
begin

text \<open>
  The local stages: \<open>pipeline/triage.py\<close>, \<open>pipeline/localizer.py\<close> and the claims around them in
  \<open>pipeline/orchestrator.py\<close>.  One call runs without other writers between its steps.  The model, JSON
  parsing, prompts, the repo map and the file system are arguments.
\<close>

record 'w local_deps =
  lc_llm :: "'w litellm"
  lc_loads :: "string \<Rightarrow> json option"
  lc_num_text :: "json \<Rightarrow> string"
  lc_read :: "'w \<Rightarrow> string \<Rightarrow> string option"
  lc_triage_prompt :: "report \<Rightarrow> string"
  lc_localize_prompt :: "report \<Rightarrow> string \<Rightarrow> json option \<Rightarrow> string"
  lc_confirm_prompt :: "report \<Rightarrow> (string \<times> string) list \<Rightarrow> json option \<Rightarrow> string"
  lc_git :: "'w repo_git"
  lc_repo_map :: "string \<Rightarrow> string option \<Rightarrow> string \<Rightarrow> 'w \<Rightarrow> (exn + string) \<times> 'w"

text \<open>The JSON of an answer, code fences removed line by line.\<close>

definition unfence :: "string \<Rightarrow> string" where
  "unfence content =
     (let s = strip content in
      if starts_with ''```'' s
      then join_with [CHR 0x0A] (filter (\<lambda>l. \<not> starts_with ''```'' (strip l)) (split_on (CHR 0x0A) s))
      else s)"

definition parse_json_response :: "'w local_deps \<Rightarrow> string \<Rightarrow> exn + json" where
  "parse_json_response dep content =
     (case lc_loads dep (unfence content) of
        None \<Rightarrow> Inl (Exn ''JSONDecodeError'' ''Expecting value'') | Some j \<Rightarrow> Inr j)"

section \<open>Triage\<close>

text \<open>A value bound to a TEXT column: numbers become their text, lists and objects cannot be bound.\<close>

definition bind_text :: "'w local_deps \<Rightarrow> json \<Rightarrow> exn + string option" where
  "bind_text dep j =
     (case j of
        JNull \<Rightarrow> Inr None
      | JStr s \<Rightarrow> Inr (Some s)
      | JInt i \<Rightarrow> if - (2 ^ 63) \<le> i \<and> i < 2 ^ 63 then Inr (Some (lc_num_text dep j))
                  else Inl (Exn ''OverflowError'' ''Python int too large to convert to SQLite INTEGER'')
      | JArr xs \<Rightarrow> Inl (Exn ''ProgrammingError'' ''type list is not supported'')
      | JObj kvs \<Rightarrow> Inl (Exn ''ProgrammingError'' ''type dict is not supported'')
      | _ \<Rightarrow> Inr (Some (lc_num_text dep j)))"

definition triage_fields :: "'w local_deps \<Rightarrow> json \<Rightarrow> exn + report_field list" where
  "triage_fields dep j =
     bindE (if opt_truthy (jget ''severity'' j)
            then map_sum id (\<lambda>v. [RF_severity v]) (bind_text dep (the (jget ''severity'' j))) else Inr []) (\<lambda>severity.
     bindE (if opt_truthy (jget ''feature_area'' j)
            then map_sum id (\<lambda>v. [RF_feature_area v]) (bind_text dep (the (jget ''feature_area'' j))) else Inr []) (\<lambda>area.
       Inr (severity @ area)))"

definition completed_fields :: "json \<Rightarrow> llm_response \<Rightarrow> int \<Rightarrow> int \<Rightarrow> stamp \<Rightarrow> analysis_field list" where
  "completed_fields j resp prompt completion now =
     [AF_status A_COMPLETED, AF_result j, AF_provider (l_provider resp), AF_model (l_model resp),
      AF_prompt_tokens prompt, AF_completion_tokens completion, AF_completed_at (Iso now)]"

text \<open>The writes after the model's answer.  An answer that is no object raises at its first use, a
  list already when it is bound to the row.\<close>

definition triage_rows ::
  "'w local_deps \<Rightarrow> report \<Rightarrow> string \<Rightarrow> llm_response \<Rightarrow> json \<Rightarrow> db \<Rightarrow> (exn + unit) \<times> db" where
  "triage_rows dep r aid resp j d0 =
     (let (now, d1) = utcnow d0 in
      case j of JArr xs \<Rightarrow> (Inl (Exn ''ProgrammingError'' ''type list is not supported''), d1)
      | _ \<Rightarrow>
        (let d2 = snd (analysis_update aid
                   (completed_fields j resp (l_prompt_tokens resp) (l_completion_tokens resp) now) d1) in
         if \<not> is_obj j then (Inl (Exn ''AttributeError'' ''no attribute get''), d2)
         else (case triage_fields dep j of
             Inl e \<Rightarrow> (Inl e, d2)
           | Inr updates \<Rightarrow>
               (let d3 = (if updates = [] then d2 else snd (report_update_fields (r_id r) updates d2)) in
                case token_usage_create (r_project_id r) (l_provider resp) (l_model resp) (Some (r_id r))
                       (l_prompt_tokens resp) (l_completion_tokens resp) None None d3 of
                  (Inl e, d4) \<Rightarrow> (Inl (exn_of (db_exn e)), d4)
                | (Inr _, d4) \<Rightarrow> (Inr (), d4)))))"

definition triage_writes ::
  "'w local_deps \<Rightarrow> report \<Rightarrow> string \<Rightarrow> llm_response \<Rightarrow> json \<Rightarrow> db \<Rightarrow> (exn + unit) \<times> db" where
  "triage_writes dep r aid resp j d0 =
     (case triage_rows dep r aid resp j d0 of
        (Inl e, d1) \<Rightarrow> (Inl e, d1)
      | (Inr _, d1) \<Rightarrow>
          (Inr (), snd (report_update_status (r_id r)
             (if opt_truthy (jget ''needs_clarification'' j) then CLARIFICATION_NEEDED else TRIAGED) None None d1)))"

definition running_row :: "phase \<Rightarrow> string option \<Rightarrow> string \<Rightarrow> db \<Rightarrow> (db_error + analysis option) \<times> db" where
  "running_row ph trigger rid d0 =
     (let (now, d1) = utcnow d0
      in analysis_create rid ph A_RUNNING
           (no_analysis_args\<lparr>m_started_at := Some (Iso now), m_trigger_ref := trigger\<rparr>) d1)"

definition fail_row :: "string \<Rightarrow> exn \<Rightarrow> db \<Rightarrow> db" where
  "fail_row aid e d0 =
     (let (now, d1) = utcnow d0
      in snd (analysis_update aid [AF_status A_FAILED, AF_result (JObj [(''error'', JStr (exn_message e))]),
                AF_completed_at (Iso now)] d1))"

definition triage_body ::
  "settings \<Rightarrow> 'w local_deps \<Rightarrow> report \<Rightarrow> string \<Rightarrow> string \<Rightarrow> string \<Rightarrow> db \<Rightarrow> 'w \<Rightarrow> (exn + json) \<times> db \<times> 'w" where
  "triage_body st dep r aid provider model d w =
     (case complete st (lc_llm dep) (Some model) (lc_triage_prompt dep r) None provider None w of
        (Inl e, w1) \<Rightarrow> (Inl e, d, w1)
      | (Inr resp, w1) \<Rightarrow>
          (case parse_json_response dep (l_content resp) of
             Inl e \<Rightarrow> (Inl e, d, w1)
           | Inr j \<Rightarrow> (case triage_writes dep r aid resp j d of (res, d1) \<Rightarrow> (map_sum id (\<lambda>_. j) res, d1, w1))))"

definition triage_report ::
  "settings \<Rightarrow> 'w local_deps \<Rightarrow> report \<Rightarrow> string option \<Rightarrow> string option \<Rightarrow> string option \<Rightarrow> db \<Rightarrow> 'w
   \<Rightarrow> (exn + json) \<times> db \<times> 'w" where
  "triage_report st dep r model0 provider0 trigger d0 w =
     (let (provider, model) =
            (if model0 = None \<or> provider0 = None
             then (case resolve_local_llm st (project_get (r_project_id r) d0) ''triage'' of
                     (p, m) \<Rightarrow> (or_else provider0 p, or_else model0 m))
             else (the provider0, the model0))
      in case running_row P_TRIAGE trigger (r_id r) d0 of
           (Inl e, d1) \<Rightarrow> (Inl (exn_of (db_exn e)), d1, w)
         | (Inr row, d1) \<Rightarrow>
             (case triage_body st dep r (a_id (the row)) provider model d1 w of
                (Inr j, d2, w1) \<Rightarrow> (Inr j, d2, w1)
              | (Inl e, d2, w1) \<Rightarrow>
                  (Inl e, snd (report_update_status (r_id r) TRIAGED None None (fail_row (a_id (the row)) e d2)), w1)))"

section \<open>Localization\<close>

text \<open>\<open>confidence >= threshold\<close>, for whatever the model wrote.\<close>

definition at_least :: "rat \<Rightarrow> json \<Rightarrow> exn + bool" where
  "at_least t j =
     (case j of
        JInt i \<Rightarrow> Inr (t \<le> of_int i)
      | JBool b \<Rightarrow> Inr (t \<le> (if b then 1 else 0))
      | JFloat (Fin q) \<Rightarrow> Inr (t \<le> q)
      | JFloat PInf \<Rightarrow> Inr True
      | JFloat _ \<Rightarrow> Inr False
      | _ \<Rightarrow> Inl (Exn ''TypeError'' ''not supported between these types''))"

text \<open>\<open>candidate_files[:max_files]\<close> of a truthy value, iterated with \<open>.get\<close>.\<close>

definition read_candidates :: "settings \<Rightarrow> (string \<Rightarrow> string option) \<Rightarrow> string \<Rightarrow> json \<Rightarrow> exn + (string \<times> string) list" where
  "read_candidates st read repo files =
     (case files of
        JArr entries \<Rightarrow>
          map_sum exn_of id (read_candidate_files read repo entries (localize_max_files st) (localize_max_file_chars st))
      | JStr s \<Rightarrow> if py_take (localize_max_files st) s = [] then Inr []
                  else Inl (Exn ''AttributeError'' ''no attribute get'')
      | _ \<Rightarrow> Inl (Exn ''TypeError'' ''cannot be sliced''))"

definition usage_of ::
  "report \<Rightarrow> llm_response \<Rightarrow> db \<Rightarrow> (exn + unit) \<times> db" where
  "usage_of r resp d =
     (case token_usage_create (r_project_id r) (l_provider resp) (l_model resp) (Some (r_id r))
             (l_prompt_tokens resp) (l_completion_tokens resp) None None d of
        (Inl e, d1) \<Rightarrow> (Inl (exn_of (db_exn e)), d1)
      | (Inr _, d1) \<Rightarrow> (Inr (), d1))"

text \<open>One model call: its JSON, with its usage row written.\<close>

definition ask ::
  "settings \<Rightarrow> 'w local_deps \<Rightarrow> report \<Rightarrow> string \<Rightarrow> string \<Rightarrow> string \<Rightarrow> db \<Rightarrow> 'w
   \<Rightarrow> (exn + json \<times> llm_response) \<times> db \<times> 'w" where
  "ask st dep r provider model prompt d w =
     (case complete st (lc_llm dep) (Some model) prompt None provider None w of
        (Inl e, w1) \<Rightarrow> (Inl e, d, w1)
      | (Inr resp, w1) \<Rightarrow>
          (case parse_json_response dep (l_content resp) of
             Inl e \<Rightarrow> (Inl e, d, w1)
           | Inr j \<Rightarrow> (case usage_of r resp d of (res, d1) \<Rightarrow> (map_sum id (\<lambda>_. (j, resp)) res, d1, w1))))"

definition second_pass ::
  "settings \<Rightarrow> 'w local_deps \<Rightarrow> report \<Rightarrow> string \<Rightarrow> string \<Rightarrow> string \<Rightarrow> json option \<Rightarrow> json \<Rightarrow> db \<Rightarrow> 'w
   \<Rightarrow> (exn + (json \<times> llm_response) option) \<times> db \<times> 'w" where
  "second_pass st dep r repo provider model summary pass1 d w =
     (let confidence = (case jget ''confidence'' pass1 of None \<Rightarrow> JInt 0 | Some j \<Rightarrow> j);
          files = (case jget ''candidate_files'' pass1 of None \<Rightarrow> JArr [] | Some j \<Rightarrow> j)
      in if \<not> is_obj pass1 then (Inl (Exn ''AttributeError'' ''no attribute get''), d, w)
         else case at_least (localize_confidence_threshold st) confidence of
           Inl e \<Rightarrow> (Inl e, d, w)
         | Inr sure \<Rightarrow>
             if \<not> (sure \<and> truthy files) then (Inr None, d, w)
             else (case read_candidates st (lc_read dep w) repo files of
                 Inl e \<Rightarrow> (Inl e, d, w)
               | Inr contents \<Rightarrow>
                   if contents = [] then (Inr None, d, w)
                   else (case ask st dep r provider model (lc_confirm_prompt dep r contents summary) d w of
                           (res, d1, w1) \<Rightarrow> (map_sum id Some res, d1, w1))))"

definition localize_body ::
  "settings \<Rightarrow> 'w local_deps \<Rightarrow> report \<Rightarrow> string \<Rightarrow> string \<Rightarrow> string \<Rightarrow> string \<Rightarrow> string \<Rightarrow> string \<Rightarrow> json option
   \<Rightarrow> db \<Rightarrow> 'w \<Rightarrow> (exn + unit) \<times> db \<times> 'w" where
  "localize_body st dep r aid repo_map sha repo provider model summary d w =
     (case ask st dep r provider model (lc_localize_prompt dep r repo_map summary) d w of
        (Inl e, d1, w1) \<Rightarrow> (Inl e, d1, w1)
      | (Inr (pass1, resp), d1, w1) \<Rightarrow>
          (case second_pass st dep r repo provider model summary pass1 d1 w1 of
             (Inl e, d2, w2) \<Rightarrow> (Inl e, d2, w2)
           | (Inr pass2, d2, w2) \<Rightarrow>
               (let j = JObj [(''pass1'', pass1), (''pass2'', case pass2 of None \<Rightarrow> JNull | Some (j2, _) \<Rightarrow> j2),
                              (''repo_sha'', JStr sha)];
                    more = (\<lambda>f. case pass2 of None \<Rightarrow> 0 | Some (_, resp2) \<Rightarrow> f resp2);
                    (now, d3) = utcnow d2
                in (Inr (), snd (analysis_update aid
                      (completed_fields j resp (l_prompt_tokens resp + more l_prompt_tokens)
                         (l_completion_tokens resp + more l_completion_tokens) now) d3), w2))))"

definition localize_report ::
  "settings \<Rightarrow> 'w local_deps \<Rightarrow> report \<Rightarrow> string \<Rightarrow> string \<Rightarrow> string \<Rightarrow> string \<Rightarrow> string \<Rightarrow> json option \<Rightarrow> string option
   \<Rightarrow> db \<Rightarrow> 'w \<Rightarrow> (exn + unit) \<times> db \<times> 'w" where
  "localize_report st dep r repo_map sha repo model provider summary trigger d0 w =
     (case running_row P_LOCALIZATION trigger (r_id r) d0 of
        (Inl e, d1) \<Rightarrow> (Inl (exn_of (db_exn e)), d1, w)
      | (Inr row, d1) \<Rightarrow>
          (case localize_body st dep r (a_id (the row)) repo_map sha repo provider model summary d1 w of
             (Inr _, d2, w1) \<Rightarrow> (Inr (), d2, w1)
           | (Inl e, d2, w1) \<Rightarrow> (Inl e, fail_row (a_id (the row)) e d2, w1)))"

section \<open>The orchestrator\<close>

datatype local_outcome = COMPLETED | FAILED | NOT_CLAIMED | NO_REPO | ALREADY_FRESH | TRIAGE_ONLY

definition process_triaged ::
  "settings \<Rightarrow> 'w local_deps \<Rightarrow> string \<Rightarrow> (string \<times> string) option \<Rightarrow> string option \<Rightarrow> db \<Rightarrow> 'w \<Rightarrow> bool \<times> db \<times> 'w" where
  "process_triaged st dep rid llm trigger d0 w =
     (case try_claim_report rid TRIAGED ANALYZING None d0 of
        (False, d1) \<Rightarrow> (False, d1, w)
      | (True, d1) \<Rightarrow>
          (case report_get rid d1 of
             None \<Rightarrow> (False, d1, w)
           | Some r \<Rightarrow>
               (case triage_report st dep r (map_option snd llm) (map_option fst llm) trigger d1 w of
                  (res, d2, w1) \<Rightarrow> (True, d2, w1))))"

definition triaged_again :: "string \<Rightarrow> db \<Rightarrow> db" where
  "triaged_again rid d = snd (report_update_status rid TRIAGED None None d)"

definition already_localized :: "string \<Rightarrow> string \<Rightarrow> db \<Rightarrow> bool" where
  "already_localized rid sha d =
     list_ex (\<lambda>a. a_status a = A_COMPLETED \<and> opt_truthy (a_result a) \<and> loc_sha a = Some (JStr sha))
       (analyses_for_report rid (Some P_LOCALIZATION) d)"

definition triage_summary :: "string \<Rightarrow> db \<Rightarrow> exn + json option" where
  "triage_summary rid d =
     (case find (\<lambda>a. a_status a = A_COMPLETED \<and> opt_truthy (a_result a)) (analyses_for_report rid (Some P_TRIAGE) d) of
        None \<Rightarrow> Inr None
      | Some a \<Rightarrow> (case a_result a of
            Some (JObj kvs) \<Rightarrow> Inr (map_of kvs ''summary'')
          | _ \<Rightarrow> Inl (Exn ''AttributeError'' ''no attribute get'')))"

text \<open>Inside the \<open>try\<close>: the head commit, the repo map, and the stage.  \<open>None\<close> is a fresh localization.\<close>

definition localization_body ::
  "settings \<Rightarrow> 'w local_deps \<Rightarrow> report \<Rightarrow> project \<Rightarrow> (string \<times> string) option \<Rightarrow> string option \<Rightarrow> db \<Rightarrow> 'w
   \<Rightarrow> (exn + local_outcome) \<times> db \<times> 'w" where
  "localization_body st dep r p llm trigger d0 w =
     (let repo = the (p_repo_path p) in
      case get_head_sha (lc_git dep) repo w of
        (Inl e, w1) \<Rightarrow> (Inl (Exn e []), d0, w1)
      | (Inr sha, w1) \<Rightarrow>
          (let d1 = snd (project_update (p_id p) [PF_head_sha (Some sha)] d0) in
           if already_localized (r_id r) sha d1 then (Inr ALREADY_FRESH, d1, w1)
           else (case lc_repo_map dep (p_id p) (p_default_branch p) repo w1 of
               (Inl e, w2) \<Rightarrow> (Inl e, d1, w2)
             | (Inr repo_map, w2) \<Rightarrow>
                 (case triage_summary (r_id r) d1 of
                    Inl e \<Rightarrow> (Inl e, d1, w2)
                  | Inr summary \<Rightarrow>
                      (let (provider, model) = (case llm of Some pin \<Rightarrow> pin
                                                | None \<Rightarrow> resolve_local_llm st (Some p) ''localize'')
                       in case localize_report st dep r repo_map sha repo model provider summary trigger d1 w2 of
                            (res, d2, w3) \<Rightarrow> (map_sum id (\<lambda>_. COMPLETED) res, d2, w3))))))"

definition process_localization ::
  "settings \<Rightarrow> 'w local_deps \<Rightarrow> string \<Rightarrow> (string \<times> string) option \<Rightarrow> string option \<Rightarrow> db \<Rightarrow> 'w
   \<Rightarrow> local_outcome \<times> db \<times> 'w" where
  "process_localization st dep rid llm trigger d0 w =
     (case try_claim_report rid TRIAGED ANALYZING None d0 of
        (False, d1) \<Rightarrow> (NOT_CLAIMED, d1, w)
      | (True, d1) \<Rightarrow>
          (case report_get rid d1 of
             None \<Rightarrow> (NOT_CLAIMED, d1, w)
           | Some r \<Rightarrow>
               (case project_get (r_project_id r) d1 of
                  None \<Rightarrow> (NO_REPO, triaged_again rid d1, w)
                | Some p \<Rightarrow>
                    if \<not> str_set (p_repo_path p) then (NO_REPO, triaged_again rid d1, w)
                    else (case localization_body st dep r p llm trigger d1 w of
                            (Inr out, d2, w1) \<Rightarrow> (out, triaged_again rid d2, w1)
                          | (Inl e, d2, w1) \<Rightarrow> (FAILED, triaged_again rid d2, w1)))))"

definition run_local_analysis ::
  "settings \<Rightarrow> 'w local_deps \<Rightarrow> string \<Rightarrow> (string \<times> string) option \<Rightarrow> (string \<times> string) option \<Rightarrow> string option
   \<Rightarrow> db \<Rightarrow> 'w \<Rightarrow> local_outcome \<times> db \<times> 'w" where
  "run_local_analysis st dep rid triage_llm localize_llm trigger d0 w =
     (case report_get rid d0 of
        None \<Rightarrow> (NOT_CLAIMED, d0, w)
      | Some r \<Rightarrow>
          (let d1 = (if r_status r = CLARIFICATION_NEEDED
                     then (case try_claim_report rid CLARIFICATION_NEEDED ANALYZING None d0 of
                             (True, d) \<Rightarrow> triaged_again rid d | (False, d) \<Rightarrow> d)
                     else d0);
               has_triage = list_ex (\<lambda>a. a_status a = A_COMPLETED) (analyses_for_report rid (Some P_TRIAGE) d1);
               (triaged_now, d2, w2) = (if has_triage then (False, d1, w)
                                        else process_triaged st dep rid triage_llm trigger d1 w);
               (out, d3, w3) = process_localization st dep rid localize_llm trigger d2 w2
           in (if out = NOT_CLAIMED \<and> triaged_now then TRIAGE_ONLY else out, d3, w3)))"

end
