(* ===== verification/Local_Safety.thy ===== *)
theory Local_Safety
  imports Local_Stages
begin

text \<open>
  What the local stages leave behind: the report given back, exactly one row per attempt, and a
  localization that opens the cloud stage.
\<close>

section \<open>Frames\<close>

text \<open>A step that only adds usage rows and reads the clock.\<close>

definition quiet :: "db \<Rightarrow> db \<Rightarrow> bool" where
  "quiet d d' \<longleftrightarrow> rows_kept d d' \<and> analyses d' = analyses d \<and> fix_proposals d' = fix_proposals d
     \<and> uuid_ix d' = uuid_ix d"

lemma quiet_refl [simp]: "quiet d d"
  by (simp add: quiet_def rows_kept_def)

lemma quiet_trans: "quiet d d1 \<Longrightarrow> quiet d1 d2 \<Longrightarrow> quiet d d2"
  by (simp add: quiet_def rows_kept_def)

lemma quiet_usage: "quiet d (snd (token_usage_create pid prov m rid p c src key_ref d))"
  by (simp add: token_usage_create_def insert_usage_def case_prod_beta Let_def quiet_def rows_kept_def)

lemma quiet_ask: "ask st dep r provider model prompt d w = (res, d', w') \<Longrightarrow> quiet d d'"
  using quiet_usage[of d "r_project_id r" _ _ "Some (r_id r)"]
  by (auto simp: ask_def usage_of_def case_prod_beta split: prod.splits sum.splits)

lemma quiet_second_pass: "second_pass st dep r repo provider model summary pass1 d w = (res, d', w') \<Longrightarrow> quiet d d'"
  using quiet_ask by (fastforce simp: second_pass_def Let_def split: if_splits sum.splits prod.splits)

lemma analysis_update_rows:
  "analyses (snd (analysis_update aid args d)) = update_where (\<lambda>a. a_id a = aid) (fold set_analysis_field args) (analyses d)"
  "projects (snd (analysis_update aid args d)) = projects d" "reports (snd (analysis_update aid args d)) = reports d"
  "uuid (snd (analysis_update aid args d)) = uuid d" "token_usage (snd (analysis_update aid args d)) = token_usage d"
  "ingest_state (snd (analysis_update aid args d)) = ingest_state d"
  "triage_results (snd (analysis_update aid args d)) = triage_results d"
  "triage_actions (snd (analysis_update aid args d)) = triage_actions d"
  "triage_sync_state (snd (analysis_update aid args d)) = triage_sync_state d"
  "fix_proposals (snd (analysis_update aid args d)) = fix_proposals d"
  "uuid_ix (snd (analysis_update aid args d)) = uuid_ix d" "last_now (snd (analysis_update aid args d)) = last_now d"
  by (simp_all add: analysis_update_def Let_def)

lemma update_last_row:
  assumes "aid \<notin> a_id ` set xs" and "a_id a = aid"
  shows "update_where (\<lambda>x. a_id x = aid) f (xs @ [a]) = xs @ [f a]"
proof -
  have "map (\<lambda>x. if a_id x = aid then f x else x) xs = xs" using assms(1) by (intro map_idI) auto
  then show ?thesis using assms(2) by (simp add: update_where_def)
qed

section \<open>The localization stage\<close>

text \<open>One attempt leaves one row, newer than every row before it, and no claim on the report.\<close>

definition attempt_row :: "phase \<Rightarrow> string \<Rightarrow> string option \<Rightarrow> db \<Rightarrow> db \<Rightarrow> analysis \<Rightarrow> bool" where
  "attempt_row ph rid trigger d d' a \<longleftrightarrow>
     analyses d' = analyses d @ [a] \<and> a_bug_report_id a = rid \<and> a_phase a = ph \<and> a_trigger_ref a = trigger
     \<and> (\<forall>t. last_now d = Some t \<longrightarrow> t < a_created_at a)"

lemma running_row_created:
  assumes "uuid d (uuid_ix d) \<notin> a_id ` set (analyses d)" and "rid \<in> r_id ` set (reports d)"
  obtains d1 a where "running_row ph trigger rid d = (Inr (Some a), d1)" and "attempt_row ph rid trigger d d1 a"
    and "a_id a = uuid d (uuid_ix d)" and "a_status a = A_RUNNING" and "rows_kept d d1"
    and "fix_proposals d1 = fix_proposals d" and "uuid_ix d1 = Suc (uuid_ix d)" and "last_now d1 = Some (a_created_at a)"
proof -
  let ?d = "snd (utcnow d)" and ?m = "no_analysis_args\<lparr>m_started_at := Some (Iso (fst (utcnow d))), m_trigger_ref := trigger\<rparr>"
  let ?a = "new_analysis rid ph A_RUNNING ?m ?d"
  obtain d1 where d1: "analysis_create rid ph A_RUNNING ?m ?d = (Inr (Some ?a), d1)"
      "analyses d1 = analyses ?d @ [?a]" "rows_kept ?d d1" "fix_proposals d1 = fix_proposals ?d" "uuid_ix d1 = Suc (uuid_ix ?d)"
      "last_now d1 = Some (a_created_at ?a)"
    using analysis_created[of ?d rid ph A_RUNNING ?m] assms by auto
  have "t < a_created_at ?a" if "last_now d = Some t" for t
    using now_after[of "snd (new_id ?d)" t] that by (simp add: new_analysis_def)
  then have "attempt_row ph rid trigger d d1 ?a"
    using d1(2) by (simp add: attempt_row_def new_analysis_def no_analysis_args_def)
  moreover have "running_row ph trigger rid d = (Inr (Some ?a), d1)"
    using d1(1) by (simp add: running_row_def case_prod_beta)
  moreover have "rows_kept d d1" using d1(3) by (simp add: rows_kept_def)
  ultimately show thesis using that d1(4,5,6) by (simp add: new_analysis_def)
qed

lemma finished_row:
  assumes "attempt_row ph rid trigger d d1 a" and "a_id a \<notin> a_id ` set (analyses d)" and "analyses d2 = analyses d1"
  shows "attempt_row ph rid trigger d (snd (analysis_update (a_id a) args d2)) (fold set_analysis_field args a)"
proof -
  have keep: "a_bug_report_id (fold set_analysis_field args x) = a_bug_report_id x
    \<and> a_phase (fold set_analysis_field args x) = a_phase x \<and> a_trigger_ref (fold set_analysis_field args x) = a_trigger_ref x
    \<and> a_created_at (fold set_analysis_field args x) = a_created_at x" for x
  proof (induction args arbitrary: x)
    case (Cons u args)
    then show ?case by (cases u) simp_all
  qed simp
  show ?thesis using assms(1-3) keep[of a]
    by (simp add: attempt_row_def analysis_update_rows update_last_row)
qed

lemma localize_body_cases:
  assumes "localize_body st dep r aid repo_map sha repo provider model summary d w = (res, d', w')"
  shows "\<exists>d2. quiet d d2 \<and> (case res of
      Inl e \<Rightarrow> d' = d2
    | Inr _ \<Rightarrow> \<exists>pass1 pass2 resp p c now. d' = snd (analysis_update aid
        (completed_fields (JObj [(''pass1'', pass1), (''pass2'', pass2), (''repo_sha'', JStr sha)]) resp p c now) d2))"
proof -
  obtain q d1 w1 where q: "ask st dep r provider model (lc_localize_prompt dep r repo_map summary) d w = (q, d1, w1)"
    by (metis prod_cases3)
  note q1 = quiet_ask[OF q]
  show ?thesis
  proof (cases q)
    case (Inl e)
    then show ?thesis using assms q q1 by (auto simp: localize_body_def)
  next
    case (Inr x)
    obtain pass1 resp where x: "x = (pass1, resp)" by fastforce
    obtain z d2 w2 where z: "second_pass st dep r repo provider model summary pass1 d1 w1 = (z, d2, w2)" by (metis prod_cases3)
    note q2 = quiet_trans[OF q1 quiet_second_pass[OF z]]
    have q3: "quiet d (snd (utcnow d2))" using q2 by (simp add: quiet_def rows_kept_def)
    show ?thesis
    proof (cases z)
      case (Inl e)
      then show ?thesis using assms q Inr x z q2 by (auto simp: localize_body_def)
    next
      case z2: (Inr pass2)
      have "res = Inr () \<and> (\<exists>pass1 pass2 resp p c now. d' = snd (analysis_update aid
          (completed_fields (JObj [(''pass1'', pass1), (''pass2'', pass2), (''repo_sha'', JStr sha)]) resp p c now)
          (snd (utcnow d2))))"
        using assms q Inr x z z2 unfolding localize_body_def Let_def case_prod_beta by simp blast
      then show ?thesis using q3 by (intro exI[of _ "snd (utcnow d2)"] conjI) simp_all
    qed
  qed
qed

lemma localize_report_leaves:
  assumes "localize_report st dep r repo_map sha repo model provider summary trigger d w = (res, d', w')"
    and "ids_fresh d" and "r_id r \<in> r_id ` set (reports d)"
  shows "rows_kept d d' \<and> fix_proposals d' = fix_proposals d
    \<and> (\<exists>a. attempt_row P_LOCALIZATION (r_id r) trigger d d' a
        \<and> (case res of Inr _ \<Rightarrow> a_status a = A_COMPLETED \<and> loc_sha a = Some (JStr sha) | Inl e \<Rightarrow> a_status a = A_FAILED))"
proof -
  have new: "uuid d (uuid_ix d) \<notin> a_id ` set (analyses d)" using assms(2) by (simp add: ids_fresh_def)
  obtain d1 a where d1: "running_row P_LOCALIZATION trigger (r_id r) d = (Inr (Some a), d1)"
    "attempt_row P_LOCALIZATION (r_id r) trigger d d1 a" "a_id a = uuid d (uuid_ix d)" "a_status a = A_RUNNING"
    "rows_kept d d1" "fix_proposals d1 = fix_proposals d" "uuid_ix d1 = Suc (uuid_ix d)"
    by (rule running_row_created[OF new assms(3)])
  obtain q d2 w2 where q: "localize_body st dep r (a_id a) repo_map sha repo provider model summary d1 w = (q, d2, w2)"
    by (metis prod_cases3)
  obtain d3 where d3: "quiet d1 d3" "case q of Inl e \<Rightarrow> d2 = d3
    | Inr _ \<Rightarrow> \<exists>pass1 pass2 resp p c now. d2 = snd (analysis_update (a_id a)
        (completed_fields (JObj [(''pass1'', pass1), (''pass2'', pass2), (''repo_sha'', JStr sha)]) resp p c now) d3)"
    using localize_body_cases[OF q] by blast
  have fin: "attempt_row P_LOCALIZATION (r_id r) trigger d (snd (analysis_update (a_id a) args d4)) (fold set_analysis_field args a)"
    if "analyses d4 = analyses d1" for args d4
    using finished_row[OF d1(2) _ that] new d1(3) by simp
  show ?thesis
  proof (cases q)
    case (Inl e)
    have d2: "d2 = d3" using d3(2) Inl by simp
    let ?args = "[AF_status A_FAILED, AF_result (JObj [(''error'', JStr (exn_message e))]), AF_completed_at (Iso (fst (utcnow d3)))]"
    have "d' = snd (analysis_update (a_id a) ?args (snd (utcnow d3)))" "res = Inl e"
      using assms(1) d1(1) q[unfolded Inl] d2 by (simp_all add: localize_report_def fail_row_def case_prod_beta)
    then show ?thesis using fin[of "snd (utcnow d3)" ?args] d1(5,6) d3(1)
      by (intro conjI exI[of _ "fold set_analysis_field ?args a"])
         (simp_all add: quiet_def rows_kept_def analysis_update_rows)
  next
    case (Inr u)
    then obtain pass1 pass2 resp p c now where d2: "d2 = snd (analysis_update (a_id a)
        (completed_fields (JObj [(''pass1'', pass1), (''pass2'', pass2), (''repo_sha'', JStr sha)]) resp p c now) d3)"
      using d3(2) by auto
    let ?args = "completed_fields (JObj [(''pass1'', pass1), (''pass2'', pass2), (''repo_sha'', JStr sha)]) resp p c now"
    have "d' = snd (analysis_update (a_id a) ?args d3)" "res = Inr ()"
      using assms(1) d1(1) q d2 Inr by (simp_all add: localize_report_def)
    then show ?thesis using fin[of d3 ?args] d1(5,6) d3(1)
      by (intro conjI exI[of _ "fold set_analysis_field ?args a"])
         (simp_all add: quiet_def rows_kept_def analysis_update_rows completed_fields_def loc_sha_def)
  qed
qed

lemma project_update_frame:
  "reports (snd (project_update pid args d)) = reports d" "analyses (snd (project_update pid args d)) = analyses d"
  "fix_proposals (snd (project_update pid args d)) = fix_proposals d"
  "token_usage (snd (project_update pid args d)) = token_usage d"
  "uuid (snd (project_update pid args d)) = uuid d" "uuid_ix (snd (project_update pid args d)) = uuid_ix d"
  by (simp_all add: project_update_def case_prod_beta Let_def split: option.split)

lemma project_update_clock:
  "case last_now d of None \<Rightarrow> True | Some t \<Rightarrow> \<exists>t'. last_now (snd (project_update pid args d)) = Some t' \<and> t \<le> t'"
  using now_after[of d] by (auto simp: project_update_def case_prod_beta Let_def split: option.split dest: less_imp_le)

text \<open>What the part of the stage inside its \<open>try\<close> block leaves.\<close>

definition localized :: "string \<Rightarrow> string option \<Rightarrow> project \<Rightarrow> db \<Rightarrow> db \<Rightarrow> analysis \<Rightarrow> bool" where
  "localized rid trigger p d d' a \<longleftrightarrow> attempt_row P_LOCALIZATION rid trigger d d' a \<and> a_status a = A_COMPLETED
     \<and> (\<exists>sha. loc_sha a = Some (JStr sha) \<and> map_option p_head_sha (project_get (p_id p) d') = Some (Some sha))"

lemma localization_body_cases:
  assumes "localization_body st dep r p llm trigger d w = (res, d', w')" and "ids_fresh d"
    and "r_id r \<in> r_id ` set (reports d)" and "project_get (p_id p) d = Some p"
  shows "reports d' = reports d \<and> fix_proposals d' = fix_proposals d \<and> (case res of
      Inl e \<Rightarrow> analyses d' = analyses d
        \<or> (\<exists>a. attempt_row P_LOCALIZATION (r_id r) trigger d d' a \<and> a_status a = A_FAILED)
    | Inr out \<Rightarrow> if out = COMPLETED then \<exists>a. localized (r_id r) trigger p d d' a
        else out = ALREADY_FRESH \<and> analyses d' = analyses d)"
proof (cases "get_head_sha (lc_git dep) (the (p_repo_path p)) w")
  case (Pair h w1)
  show ?thesis
  proof (cases h)
    case (Inl e)
    then show ?thesis using assms(1) Pair by (auto simp: localization_body_def)
  next
    case (Inr sha)
    let ?d = "snd (project_update (p_id p) [PF_head_sha (Some sha)] d)"
    note u = project_update_frame[of "p_id p" "[PF_head_sha (Some sha)]" d]
    have head: "map_option p_head_sha (project_get (p_id p) ?d) = Some (Some sha)"
      using project_update_get[OF assms(4), of "p_id p"] by simp
    have later: "t < a_created_at a" if "attempt_row P_LOCALIZATION (r_id r) trigger ?d x a" "last_now d = Some t" for x a t
      using project_update_clock[where d = d and pid = "p_id p" and args = "[PF_head_sha (Some sha)]"] that by (fastforce simp: attempt_row_def)
    show ?thesis
    proof (cases "already_localized (r_id r) sha ?d")
      case True
      then show ?thesis using assms(1) Pair Inr u by (auto simp: localization_body_def Let_def)
    next
      case False
      obtain m w2 where m: "lc_repo_map dep (p_id p) (p_default_branch p) (the (p_repo_path p)) w1 = (m, w2)" by fastforce
      show ?thesis
      proof (cases "\<exists>rm summary. m = Inr rm \<and> triage_summary (r_id r) ?d = Inr summary")
        case False
        then have "res \<in> range Inl \<and> d' = ?d" using assms(1) Pair Inr m \<open>\<not> already_localized (r_id r) sha ?d\<close>
          by (auto simp: localization_body_def Let_def split: sum.splits)
        then show ?thesis using u by auto
      next
        case True
        then obtain rm summary where rm: "m = Inr rm" "triage_summary (r_id r) ?d = Inr summary" by blast
        obtain provider model where pm: "(case llm of Some pin \<Rightarrow> pin | None \<Rightarrow> resolve_local_llm st (Some p) ''localize'') = (provider, model)"
          by fastforce
        obtain q d2 w3 where q: "localize_report st dep r rm sha (the (p_repo_path p)) model provider summary trigger ?d w2 = (q, d2, w3)"
          by (metis prod_cases3)
        have "ids_fresh ?d" "r_id r \<in> r_id ` set (reports ?d)" using assms(2,3) u by (simp_all add: ids_fresh_def)
        note left = localize_report_leaves[OF q this]
        have res: "res = map_sum id (\<lambda>_. COMPLETED) q" "d' = d2"
          using assms(1) Pair Inr m rm pm q \<open>\<not> already_localized (r_id r) sha ?d\<close>
          by (simp_all add: localization_body_def Let_def)
        obtain a where a: "attempt_row P_LOCALIZATION (r_id r) trigger ?d d2 a"
          "case q of Inr _ \<Rightarrow> a_status a = A_COMPLETED \<and> loc_sha a = Some (JStr sha) | Inl e \<Rightarrow> a_status a = A_FAILED"
          using left by blast
        have row: "attempt_row P_LOCALIZATION (r_id r) trigger d d2 a" 
          unfolding attempt_row_def using later[OF a(1)] a(1)[unfolded attempt_row_def] u(2) by auto
        have hd: "map_option p_head_sha (project_get (p_id p) d2) = Some (Some sha)"
          using left head by (simp add: rows_kept_def project_get_def)
        have kept: "reports d' = reports d" "fix_proposals d' = fix_proposals d"
          using left u res(2) by (simp_all add: rows_kept_def)
        show ?thesis
        proof (cases q)
          case (Inl e)
          then show ?thesis using kept row res a(2) by (intro conjI) auto
        next
          case (Inr x)
          then have "localized (r_id r) trigger p d d' a" using row hd a(2) res(2) by (simp add: localized_def)
          then show ?thesis using kept res(1) Inr by auto
        qed
      qed
    qed
  qed
qed

section \<open>Claims\<close>

lemma triaged_again_frame:
  "analyses (triaged_again rid d) = analyses d" "fix_proposals (triaged_again rid d) = fix_proposals d"
  "token_usage (triaged_again rid d) = token_usage d" "projects (triaged_again rid d) = projects d"
  "last_now d \<le> last_now (triaged_again rid d)" "uuid (triaged_again rid d) = uuid d" "uuid_ix (triaged_again rid d) = uuid_ix d"
  using now_after[of d]
  by (auto simp: triaged_again_def update_status_eq case_prod_beta Let_def update_reports_def less_eq_option_def
      split: option.split dest: less_imp_le)

lemma triaged_again_status:
  "report_get rid d = Some r \<Longrightarrow>
     map_option (\<lambda>x. (r_status x, r_project_id x)) (report_get rid (triaged_again rid d)) = Some (TRIAGED, r_project_id r)"
  by (simp add: triaged_again_def update_status_get)

lemma claimed_for_analysis:
  assumes "ids_ok d" and "report_get rid d = Some r" and "r_status r = e"
  obtains d1 r1 where "try_claim_report rid e n None d = (True, d1)" and "ids_ok d1"
    and "ids_fresh d1 = ids_fresh d" and "report_get rid d1 = Some r1" and "r_status r1 = n" and "r_id r1 = rid"
    and "r_project_id r1 = r_project_id r" and "analyses d1 = analyses d" and "fix_proposals d1 = fix_proposals d"
    and "token_usage d1 = token_usage d" and "projects d1 = projects d" and "last_now d \<le> last_now d1"
    and "map r_id (reports d1) = map r_id (reports d)"
proof -
  let ?c = "try_claim_report rid e n None d"
  have "?c = (True, snd ?c)" using try_claim_won[OF assms(1), of rid e] assms(2,3) by (simp add: prod_eq_iff)
  moreover have "last_now d \<le> last_now (snd ?c)" "map r_id (reports (snd ?c)) = map r_id (reports d)"
    using now_after[of d]
    by (auto simp: try_claim_eq case_prod_beta Let_def update_reports_def less_eq_option_def map_key_update_where
        split: option.split dest: less_imp_le)
  ultimately show thesis using assms that[of "snd ?c"] report_get_in[OF assms(2)]
    by (simp add: try_claim_ids try_claim_get ids_fresh_def claim_report_frame)
qed

lemma project_get_id': "project_get pid d = Some p \<Longrightarrow> p_id p = pid"
  by (auto simp: project_get_find find_Some_iff)

text \<open>How a localization that won its claim ends.\<close>

definition localization_settled ::
  "string \<Rightarrow> report \<Rightarrow> string option \<Rightarrow> local_outcome \<Rightarrow> bool \<Rightarrow> db \<Rightarrow> db \<Rightarrow> bool" where
  "localization_settled rid r trigger out called d d' \<longleftrightarrow>
     map_option (\<lambda>x. (r_status x, r_project_id x)) (report_get rid d') = Some (TRIAGED, r_project_id r)
   \<and> fix_proposals d' = fix_proposals d
   \<and> (case out of
        COMPLETED \<Rightarrow> \<exists>p a. project_get (r_project_id r) d = Some p \<and> localized rid trigger p d d' a
      | FAILED \<Rightarrow> analyses d' = analyses d
          \<or> (\<exists>a. attempt_row P_LOCALIZATION rid trigger d d' a \<and> a_status a = A_FAILED)
      | ALREADY_FRESH \<Rightarrow> analyses d' = analyses d
      | NO_REPO \<Rightarrow> analyses d' = analyses d \<and> \<not> called
      | _ \<Rightarrow> False)"

lemma attempt_later: "attempt_row ph rid trigger d1 d' a \<Longrightarrow> analyses d1 = analyses d \<Longrightarrow> last_now d \<le> last_now d1
    \<Longrightarrow> attempt_row ph rid trigger d d' a"
  by (cases "last_now d1") (auto simp: attempt_row_def less_eq_option_def split: option.splits)

lemma attempt_frame: "attempt_row ph rid trigger d d1 a \<Longrightarrow> analyses d' = analyses d1 \<Longrightarrow> attempt_row ph rid trigger d d' a"
  by (simp add: attempt_row_def)

lemma localization_settles:
  assumes "ids_ok d" and "ids_fresh d" and "report_get rid d = Some r"
    and "process_localization st dep rid llm trigger d w = (out, d', w')"
  shows "if r_status r = TRIAGED then localization_settled rid r trigger out (w' \<noteq> w) d d'
    else out = NOT_CLAIMED \<and> same_tables d d' \<and> w' = w"
proof (cases "r_status r = TRIAGED")
  case False
  then have "map_option r_status (report_get rid d) \<noteq> Some TRIAGED" using assms(3) by simp
  from claim_report_lost[OF this assms(1), of ANALYZING None] show ?thesis
    using assms(4) False by (auto simp: process_localization_def case_prod_beta split: if_splits)
next
  case True
  obtain d1 r1 where c: "try_claim_report rid TRIAGED ANALYZING None d = (True, d1)" "ids_ok d1" "ids_fresh d1 = ids_fresh d"
    "report_get rid d1 = Some r1" "r_status r1 = ANALYZING" "r_id r1 = rid" "r_project_id r1 = r_project_id r"
    "analyses d1 = analyses d" "fix_proposals d1 = fix_proposals d" "token_usage d1 = token_usage d"
    "projects d1 = projects d" "last_now d \<le> last_now d1" "map r_id (reports d1) = map r_id (reports d)"
    using claimed_for_analysis[OF assms(1,3) True] by blast
  have pg: "project_get pid d1 = project_get pid d" for pid using c(11) by (simp add: project_get_def)
  have gb: "map_option (\<lambda>x. (r_status x, r_project_id x)) (report_get rid (triaged_again rid x)) = Some (TRIAGED, r_project_id r)" if "reports x = reports d1" for x
    using triaged_again_status[of rid x r1] c(4,7) that by (simp add: report_get_find)
  show ?thesis
  proof (cases "\<exists>p. project_get (r_project_id r) d = Some p \<and> str_set (p_repo_path p)")
    case False
    then have "out = NO_REPO \<and> d' = triaged_again rid d1 \<and> w' = w"
      using assms(4) c(1,4,7) pg by (auto simp: process_localization_def split: option.splits)
    then show ?thesis using True gb[of d1] c(8,9) by (simp add: localization_settled_def triaged_again_frame)
  next
    case has: True
    then obtain p where p: "project_get (r_project_id r) d = Some p" "str_set (p_repo_path p)" by blast
    obtain q d2 w2 where q: "localization_body st dep r1 p llm trigger d1 w = (q, d2, w2)" by (metis prod_cases3)
    have run: "out = (case q of Inr x \<Rightarrow> x | Inl e \<Rightarrow> FAILED)" "d' = triaged_again rid d2"
      using assms(4) c(1,4,7) p pg q by (simp_all add: process_localization_def split: sum.splits)
    have rin: "r_id r1 \<in> r_id ` set (reports d1)" using report_get_in[OF c(4)] by auto
    have pin: "project_get (p_id p) d1 = Some p" using p(1) pg project_get_id'[OF p(1)] by simp
    have fr: "ids_fresh d1" using c(3) assms(2) by simp
    note b = localization_body_cases[OF q fr rin pin, unfolded c(6), THEN conjunct1]
      localization_body_cases[OF q fr rin pin, unfolded c(6), THEN conjunct2, THEN conjunct1]
      localization_body_cases[OF q fr rin pin, unfolded c(6), THEN conjunct2, THEN conjunct2]
    note st = gb[OF b(1)]
    have carried: "attempt_row P_LOCALIZATION rid trigger d d' a" if "attempt_row P_LOCALIZATION rid trigger d1 d2 a" for a
      using attempt_frame[OF attempt_later[OF that c(8,12)], of d'] run(2) by (simp add: triaged_again_frame)
    have "case out of
        COMPLETED \<Rightarrow> \<exists>p a. project_get (r_project_id r) d = Some p \<and> localized rid trigger p d d' a
      | FAILED \<Rightarrow> analyses d' = analyses d \<or> (\<exists>a. attempt_row P_LOCALIZATION rid trigger d d' a \<and> a_status a = A_FAILED)
      | ALREADY_FRESH \<Rightarrow> analyses d' = analyses d | NO_REPO \<Rightarrow> analyses d' = analyses d \<and> \<not> (w' \<noteq> w) | _ \<Rightarrow> False"
    proof (cases q)
      case (Inl e)
      then show ?thesis using run b(3) carried c(8) by (auto simp: triaged_again_frame)
    next
      case (Inr x)
      show ?thesis
      proof (cases "x = COMPLETED")
        case True
        then obtain a where "localized rid trigger p d1 d2 a" using b(3) Inr by auto
        then have "localized rid trigger p d d' a"
          using carried run(2) by (simp add: localized_def triaged_again_frame project_get_def)
        then show ?thesis using p(1) run(1) Inr True by auto
      next
        case False
        then show ?thesis using run b(3) Inr c(8) by (simp add: triaged_again_frame)
      qed
    qed
    moreover have "map_option (\<lambda>x. (r_status x, r_project_id x)) (report_get rid d') = Some (TRIAGED, r_project_id r)"
      "fix_proposals d' = fix_proposals d"
      using st run(2) b(2) c(9) by (simp_all add: triaged_again_frame)
    ultimately show ?thesis unfolding if_P[OF True] localization_settled_def by blast
  qed
qed

section \<open>Triage before localization\<close>

text \<open>Steps that keep the ids and times of the rows, and the project of every report.\<close>

definition gentle :: "db \<Rightarrow> db \<Rightarrow> bool" where
  "gentle d d' \<longleftrightarrow> projects d' = projects d \<and> fix_proposals d' = fix_proposals d \<and> uuid d' = uuid d
     \<and> uuid_ix d \<le> uuid_ix d' \<and> last_now d \<le> last_now d'
     \<and> map (\<lambda>r. (r_id r, r_project_id r)) (reports d') = map (\<lambda>r. (r_id r, r_project_id r)) (reports d)
     \<and> map (\<lambda>a. (a_id a, a_created_at a)) (analyses d') = map (\<lambda>a. (a_id a, a_created_at a)) (analyses d)"

lemma gentle_trans: "gentle d d1 \<Longrightarrow> gentle d1 d2 \<Longrightarrow> gentle d d2"
  by (auto simp: gentle_def)

lemma gentle_refl [simp]: "gentle d d"
  by (simp add: gentle_def)

lemma now_later: "last_now d \<le> Some (fst (db_now d))"
  using now_after[of d] by (cases "last_now d") (auto dest: less_imp_le)

lemma gentle_utcnow [simp]: "gentle d (snd (utcnow d))"
  by (simp add: gentle_def)

lemma gentle_usage: "gentle d (snd (token_usage_create pid prov m rid p c src key_ref d))"
  by (simp add: token_usage_create_def insert_usage_def case_prod_beta Let_def gentle_def now_later)

lemma gentle_analysis_update: "gentle d (snd (analysis_update aid args d))"
proof -
  have "(a_id (fold set_analysis_field args x), a_created_at (fold set_analysis_field args x)) = (a_id x, a_created_at x)" for x
  proof (induction args arbitrary: x)
    case (Cons u args)
    then show ?case by (cases u) simp_all
  qed simp
  then show ?thesis by (simp add: gentle_def analysis_update_rows Prelude.map_update_where)
qed

lemma gentle_status: "gentle d (snd (report_update_status rid n reason e d))"
  by (simp add: gentle_def update_status_eq case_prod_beta Let_def now_later Prelude.map_update_where status_update_frame update_reports_def)

lemma gentle_update_fields: "gentle d (snd (report_update_fields rid args d))"
proof -
  have "(r_id (fold set_report_field args x), r_project_id (fold set_report_field args x)) = (r_id x, r_project_id x)" for x
  proof (induction args arbitrary: x)
    case (Cons u args)
    then show ?case by (cases u) simp_all
  qed simp
  then show ?thesis
    by (simp add: gentle_def report_update_fields_def case_prod_beta Let_def now_later Prelude.map_update_where update_reports_def)
qed

lemmas gentle_steps = gentle_trans[OF _ gentle_usage] gentle_trans[OF _ gentle_analysis_update]
  gentle_trans[OF _ gentle_status] gentle_trans[OF _ gentle_update_fields] gentle_trans[OF _ gentle_utcnow]

lemma gentle_triage_rows: "gentle d (snd (triage_rows dep r aid resp j d))"
  unfolding triage_rows_def Let_def case_prod_beta
  by (auto split: json.split sum.split intro!: gentle_steps gentle_analysis_update)

lemma gentle_same_ids: "gentle d d' \<Longrightarrow> map r_id (reports d') = map r_id (reports d)"
proof -
  assume "gentle d d'"
  then have "map fst (map (\<lambda>r. (r_id r, r_project_id r)) (reports d')) = map fst (map (\<lambda>r. (r_id r, r_project_id r)) (reports d))"
    by (simp only: gentle_def)
  then show ?thesis by (simp add: comp_def)
qed

lemma gentle_report:
  assumes "gentle d d'" and "report_get rid d = Some r"
  obtains r' where "report_get rid d' = Some r'"
proof -
  have "report_get rid d' \<noteq> None"
    using assms gentle_same_ids[OF assms(1)] find_key_None[of r_id rid "reports d"] find_key_None[of r_id rid "reports d'"]
    by (metis list.set_map option.distinct(1) report_get_find)
  then show thesis using that by auto
qed

text \<open>A triage run that won its claim: one row, and the report \<open>triaged\<close> or waiting for clarification.\<close>

lemma triage_report_leaves:
  assumes "triage_report st dep r model provider trigger d w = (res, d', w')"
    and "ids_fresh d" and "report_get rid d = Some r"
  shows "map_option r_status (report_get rid d') \<in> {Some TRIAGED, Some CLARIFICATION_NEEDED}
    \<and> (\<exists>d1 a. attempt_row P_TRIAGE rid trigger d d1 a \<and> rows_kept d d1 \<and> fix_proposals d1 = fix_proposals d
        \<and> uuid_ix d1 = Suc (uuid_ix d) \<and> a_id a = uuid d (uuid_ix d) \<and> last_now d1 = Some (a_created_at a) \<and> gentle d1 d')"
proof -
  have rid: "r_id r = rid" "r_id r \<in> r_id ` set (reports d)" using report_get_in[OF assms(3)] by auto
  have new: "uuid d (uuid_ix d) \<notin> a_id ` set (analyses d)" using assms(2) by (simp add: ids_fresh_def)
  obtain d1 a where d1: "running_row P_TRIAGE trigger (r_id r) d = (Inr (Some a), d1)"
    "attempt_row P_TRIAGE (r_id r) trigger d d1 a" "a_id a = uuid d (uuid_ix d)" "a_status a = A_RUNNING" "rows_kept d d1"
    "fix_proposals d1 = fix_proposals d" "uuid_ix d1 = Suc (uuid_ix d)" "last_now d1 = Some (a_created_at a)"
    by (rule running_row_created[OF new rid(2)])
  obtain pr m where pm: "(if model = None \<or> provider = None
      then (case resolve_local_llm st (project_get (r_project_id r) d) ''triage'' of
              (p, m) \<Rightarrow> (or_else provider p, or_else model m))
      else (the provider, the model)) = (pr, m)" by fastforce
  obtain q d2 w2 where q: "triage_body st dep r (a_id a) pr m d1 w = (q, d2, w2)" by (metis prod_cases3)
  have "\<exists>d3 s. gentle d1 d3 \<and> s \<in> {TRIAGED, CLARIFICATION_NEEDED} \<and> (case q of Inl e \<Rightarrow> d2 = d3
      | Inr _ \<Rightarrow> d2 = snd (report_update_status rid s None None d3))"
  proof (cases "\<exists>resp j w'. complete st (lc_llm dep) (Some m) (lc_triage_prompt dep r) None pr None w = (Inr resp, w')
      \<and> parse_json_response dep (l_content resp) = Inr j")
    case False
    then have "q \<in> range Inl \<and> d2 = d1" using q
      by (cases "complete st (lc_llm dep) (Some m) (lc_triage_prompt dep r) None pr None w")
         (auto simp: triage_body_def image_iff eq_commute[of "Inl _" "parse_json_response _ _"] split: sum.splits)
    then show ?thesis by (auto intro: exI[of _ d1])
  next
    case True
    then obtain resp j w3 where resp: "complete st (lc_llm dep) (Some m) (lc_triage_prompt dep r) None pr None w = (Inr resp, w3)"
      "parse_json_response dep (l_content resp) = Inr j" by blast
    let ?t = "triage_rows dep r (a_id a) resp j d1"
    obtain tr d3 where tr: "?t = (tr, d3)" by fastforce
    have "gentle d1 d3" using gentle_triage_rows[of d1 dep r "a_id a" resp j] tr by simp
    moreover have "case q of Inl e \<Rightarrow> d2 = d3
      | Inr _ \<Rightarrow> d2 = snd (report_update_status rid (if opt_truthy (jget ''needs_clarification'' j)
          then CLARIFICATION_NEEDED else TRIAGED) None None d3)"
      using q resp tr rid(1) by (cases tr; cases q) (auto simp: triage_body_def triage_writes_def)
    ultimately show ?thesis by (intro exI[of _ d3] exI[of _ "if opt_truthy (jget ''needs_clarification'' j)
          then CLARIFICATION_NEEDED else TRIAGED"]) simp
  qed
  then obtain d3 s where d3: "gentle d1 d3" "s \<in> {TRIAGED, CLARIFICATION_NEEDED}"
    "case q of Inl e \<Rightarrow> d2 = d3 | Inr _ \<Rightarrow> d2 = snd (report_update_status rid s None None d3)" by blast
  have "\<exists>d4 s. gentle d1 d4 \<and> s \<in> {TRIAGED, CLARIFICATION_NEEDED} \<and> d' = snd (report_update_status rid s None None d4)"
  proof (cases q)
    case (Inl e)
    have "d2 = d3" using d3(3) Inl by simp
    then have "d' = snd (report_update_status rid TRIAGED None None (fail_row (a_id a) e d3))"
      using assms(1) d1(1) q[unfolded Inl] rid(1) unfolding triage_report_def Let_def pm by simp
    moreover have "gentle d1 (fail_row (a_id a) e d3)"
      using d3(1) by (auto simp: fail_row_def case_prod_beta intro: gentle_steps)
    ultimately show ?thesis by blast
  next
    case (Inr j)
    have "d2 = snd (report_update_status rid s None None d3)" using d3(3) Inr by simp
    then have "d' = snd (report_update_status rid s None None d3)"
      using assms(1) d1(1) q[unfolded Inr] unfolding triage_report_def Let_def pm by simp
    then show ?thesis using d3(1,2) by blast
  qed
  then obtain d4 s4 where d4: "gentle d1 d4" "s4 \<in> {TRIAGED, CLARIFICATION_NEEDED}" "d' = snd (report_update_status rid s4 None None d4)"
    by blast
  have "report_get rid d1 = Some r" using d1(5) assms(3) rows_kept_get by metis
  then obtain r4 where "report_get rid d4 = Some r4" using gentle_report[OF d4(1)] by blast
  then have "map_option r_status (report_get rid d') \<in> {Some TRIAGED, Some CLARIFICATION_NEEDED}"
    using d4(2,3) by (auto simp: update_status_get)
  moreover have "gentle d1 d'" using gentle_trans[OF d4(1) gentle_status] d4(3) by simp
  ultimately show ?thesis using d1 rid(1) by blast
qed

section \<open>The whole local analysis\<close>

definition rows_dated :: "db \<Rightarrow> bool" where
  "rows_dated d \<longleftrightarrow> (\<forall>a\<in>set (analyses d). Some (a_created_at a) \<le> last_now d)"

definition steady :: "db \<Rightarrow> bool" where
  "steady d \<longleftrightarrow> ids_ok d \<and> ids_fresh d \<and> rows_dated d"

lemma gentle_rows: "gentle d d' \<Longrightarrow> g ` set (analyses d') = g ` set (analyses d)"
  if "\<And>a. g a = h (a_id a, a_created_at a)"
proof -
  assume "gentle d d'"
  then have "map h (map (\<lambda>a. (a_id a, a_created_at a)) (analyses d')) = map h (map (\<lambda>a. (a_id a, a_created_at a)) (analyses d))"
    by (simp only: gentle_def)
  moreover have "g = (\<lambda>a. h (a_id a, a_created_at a))" using that by (rule ext)
  ultimately have "map g (analyses d') = map g (analyses d)" by (simp add: comp_def)
  then show ?thesis by (metis list.set_map)
qed

lemma gentle_steady: "gentle d d' \<Longrightarrow> steady d \<Longrightarrow> steady d'"
proof -
  assume g: "gentle d d'" and s: "steady d"
  have ids: "a_id ` set (analyses d') = a_id ` set (analyses d)" by (rule gentle_rows[of a_id fst, OF _ g]) simp
  have dates: "a_created_at ` set (analyses d') = a_created_at ` set (analyses d)"
    by (rule gentle_rows[of a_created_at snd, OF _ g]) simp
  have "Some t \<le> last_now d'" if "t \<in> a_created_at ` set (analyses d')" for t
    using that dates s g by (auto simp: steady_def rows_dated_def gentle_def intro: order_trans)
  then have "rows_dated d'" by (simp add: rows_dated_def)
  moreover have "ids_ok d'" using gentle_same_ids[OF g] s by (simp add: steady_def ids_ok_def)
  moreover have "ids_fresh d'" using s g ids by (simp add: steady_def ids_fresh_def gentle_def)
  ultimately show ?thesis by (simp add: steady_def)
qed

lemma attempt_steady:
  assumes "attempt_row ph rid trigger d d1 a" and "rows_kept d d1" and "fix_proposals d1 = fix_proposals d"
    and "uuid_ix d1 = Suc (uuid_ix d)" and "a_id a = uuid d (uuid_ix d)" and "last_now d1 = Some (a_created_at a)"
    and "inj (uuid d)" and "steady d"
  shows "steady d1"
proof -
  have "ids_ok d1" using assms(2,8) by (simp add: steady_def ids_ok_def rows_kept_def)
  moreover have "ids_fresh d1"
    using assms by (auto simp: steady_def ids_fresh_def rows_kept_def attempt_row_def dest: injD)
  moreover have "Some (a_created_at x) \<le> last_now d1" if "x \<in> set (analyses d1)" for x
  proof (cases "x = a")
    case False
    then have "Some (a_created_at x) \<le> last_now d" using that assms(1,8) by (simp add: attempt_row_def steady_def rows_dated_def)
    then show ?thesis using assms(1,6) by (cases "last_now d") (auto simp: attempt_row_def)
  qed (simp add: assms(6))
  ultimately show ?thesis by (simp add: steady_def rows_dated_def)
qed

lemma gentle_claim: "gentle d (snd (try_claim_report rid e n None d))"
  by (simp add: gentle_def try_claim_eq case_prod_beta Let_def now_later Prelude.map_update_where update_reports_def)

lemma gentle_report_project:
  assumes "gentle d d'" and "ids_ok d" and "report_get rid d = Some r" and "report_get rid d' = Some r'"
  shows "r_project_id r' = r_project_id r"
proof -
  have "(rid, r_project_id r') \<in> set (map (\<lambda>r. (r_id r, r_project_id r)) (reports d'))"
    using report_get_in[OF assms(4)] by force
  then have "(rid, r_project_id r') \<in> set (map (\<lambda>r. (r_id r, r_project_id r)) (reports d))"
    using assms(1) by (simp only: gentle_def)
  then obtain x where "x \<in> set (reports d)" "r_id x = rid" "r_project_id x = r_project_id r'" by auto
  moreover have "x = r" using calculation report_get_in[OF assms(3)] assms(2) by (auto simp: ids_ok_def distinct_map inj_on_def)
  ultimately show ?thesis by simp
qed

lemma newest_localization:
  assumes "localized rid trigger p d d' a" and "rows_dated d"
  shows "latest_completed_localization rid d' = Some a"
proof -
  have a: "analyses d' = analyses d @ [a]" "a_bug_report_id a = rid" "a_phase a = P_LOCALIZATION" "a_status a = A_COMPLETED"
    "\<forall>t. last_now d = Some t \<longrightarrow> t < a_created_at a" using assms(1) by (auto simp: localized_def attempt_row_def)
  have newer: "a_created_at x < a_created_at a" if "x \<in> set (analyses d)" for x
    using that assms(2) a(5) by (cases "last_now d") (fastforce simp: rows_dated_def)+
  let ?L = "filter (\<lambda>a. a_bug_report_id a = rid \<and> a_phase a = P_LOCALIZATION \<and> a_status a = A_COMPLETED) (analyses d')"
  have in_L: "a \<in> set ?L" using a by simp
  then obtain x where x: "fetchone (order_desc a_created_at ?L) = Some x"
    using fetchone_None[of "order_desc a_created_at ?L"] set_order_desc[of a_created_at ?L] by fastforce
  have "x \<in> set (analyses d')" using fetchone_in[OF x] by (simp add: set_order_desc)
  moreover have "a_created_at a \<le> a_created_at x" by (rule fetchone_order_desc_max[OF x in_L])
  ultimately have "x \<in> set (analyses d) \<union> {a}" "x \<notin> set (analyses d)" using newer[of x] a(1) by (auto dest: leD)
  then have "x = a" by simp
  then show ?thesis using x by (simp add: latest_completed_localization_def)
qed

lemma unlocked:
  assumes "localized rid trigger p d d' a" and "rows_dated d" and "report_get rid d' = Some r"
    and "r_status r = TRIAGED" and "project_get (r_project_id r) d' = Some p'" and "p_id p = r_project_id r"
  shows "check_cloud_analysis r (Some p') d' = (if str_set (p_head_sha p') then None
    else Some (409, ''Localization is stale; re-run local analysis first''))"
proof -
  obtain sha where "loc_sha a = Some (JStr sha)" "p_head_sha p' = Some sha"
    using assms(1,5,6) by (auto simp: localized_def)
  then show ?thesis using newest_localization[OF assms(1,2)] assms(4) report_get_in[OF assms(3)]
    by (simp add: check_cloud_analysis_def sha_fresh_def)
qed

text \<open>The way to the localization claim: the report is \<open>triaged\<close>, or triage asked for clarification.\<close>

lemma before_localization:
  assumes "steady d" and "inj (uuid d)" and "report_get rid d = Some r" and "r_status r = TRIAGED"
    and "process_triaged st dep rid llm trigger d w = (did, d', w')"
  shows "did \<and> steady d' \<and> fix_proposals d' = fix_proposals d
    \<and> (\<exists>r'. report_get rid d' = Some r' \<and> r_project_id r' = r_project_id r \<and> r_status r' \<in> {TRIAGED, CLARIFICATION_NEEDED})"
proof -
  have ids: "ids_ok d" "ids_fresh d" using assms(1) by (simp_all add: steady_def)
  obtain d1 r1 where c: "try_claim_report rid TRIAGED ANALYZING None d = (True, d1)" "ids_ok d1" "ids_fresh d1 = ids_fresh d"
    "report_get rid d1 = Some r1" "r_project_id r1 = r_project_id r"
    using claimed_for_analysis[OF ids(1) assms(3,4)] by metis
  have g1: "gentle d d1" using gentle_claim[of d rid TRIAGED ANALYZING] c(1) by simp
  have s1: "steady d1" by (rule gentle_steady[OF g1 assms(1)])
  obtain q d2 w2 where q: "triage_report st dep r1 (map_option snd llm) (map_option fst llm) trigger d1 w = (q, d2, w2)"
    by (metis prod_cases3)
  have run: "did" "d' = d2" using assms(5) c(1,4) q by (simp_all add: process_triaged_def)
  from triage_report_leaves[OF q _ c(4)] c(3) ids(2) obtain d3 a where
    st: "map_option r_status (report_get rid d2) \<in> {Some TRIAGED, Some CLARIFICATION_NEEDED}"
    and d3: "attempt_row P_TRIAGE rid trigger d1 d3 a" "rows_kept d1 d3" "fix_proposals d3 = fix_proposals d1"
      "uuid_ix d3 = Suc (uuid_ix d1)" "a_id a = uuid d1 (uuid_ix d1)" "last_now d3 = Some (a_created_at a)" "gentle d3 d2"
    by blast
  have "inj (uuid d1)" using assms(2) g1 by (simp add: gentle_def)
  then have "steady d2" using gentle_steady[OF d3(7) attempt_steady[OF d3(1-6) _ s1]] by simp
  moreover have "fix_proposals d2 = fix_proposals d" using d3(3,7) g1 by (simp add: gentle_def)
  moreover obtain r2 where r2: "report_get rid d2 = Some r2" using st by (cases "report_get rid d2") auto
  moreover have "report_get rid d3 = Some r1" using d3(2) c(4) rows_kept_get by metis
  moreover have "ids_ok d3" using d3(2) c(2) by (simp add: ids_ok_def rows_kept_def)
  ultimately show ?thesis using run st c(5) gentle_report_project[OF d3(7)] by auto
qed

lemma into_triaged:
  assumes "steady d" and "inj (uuid d)" and "report_get rid d = Some r" and "r_status r \<in> {TRIAGED, CLARIFICATION_NEEDED}"
  obtains d1 r1 where "steady d1" and "inj (uuid d1)" and "report_get rid d1 = Some r1" and "r_status r1 = TRIAGED"
    and "r_project_id r1 = r_project_id r" and "fix_proposals d1 = fix_proposals d"
    and "d1 = (if r_status r = CLARIFICATION_NEEDED
      then (case try_claim_report rid CLARIFICATION_NEEDED ANALYZING None d of
              (True, d) \<Rightarrow> triaged_again rid d | (False, d) \<Rightarrow> d) else d)"
proof (cases "r_status r = CLARIFICATION_NEEDED")
  case False
  then show thesis using that[of d r] assms by simp
next
  case True
  have "ids_ok d" using assms(1) by (simp add: steady_def)
  then obtain d0 r0 where c: "try_claim_report rid CLARIFICATION_NEEDED ANALYZING None d = (True, d0)"
    "report_get rid d0 = Some r0" "r_project_id r0 = r_project_id r"
    using claimed_for_analysis[OF _ assms(3) True] by metis
  have g: "gentle d (triaged_again rid d0)"
    unfolding triaged_again_def
    using gentle_trans[OF gentle_claim[of d rid CLARIFICATION_NEEDED ANALYZING] gentle_status] c(1) by simp
  obtain r1 where r1: "report_get rid (triaged_again rid d0) = Some r1" "r_status r1 = TRIAGED" "r_project_id r1 = r_project_id r"
    using triaged_again_status[OF c(2)] c(3) by auto
  have keep: "uuid (triaged_again rid d0) = uuid d" "fix_proposals (triaged_again rid d0) = fix_proposals d"
    using g by (simp_all add: gentle_def)
  show thesis
    by (rule that[OF gentle_steady[OF g assms(1)] _ r1(1,2,3) keep(2)]) (simp_all add: keep(1) assms(2) True c(1))
qed

definition demo_local_deps :: "(string + git_result) \<Rightarrow> nat local_deps" where
  "demo_local_deps head = \<lparr>lc_llm = (\<lambda>q w. (Inr \<lparr>y_content = Some ''{}'', y_usage = None\<rparr>, Suc w)),
     lc_loads = (\<lambda>_. Some (JObj [(''confidence'', JInt 0)])), lc_num_text = (\<lambda>_. ''1''), lc_read = (\<lambda>_ _. None),
     lc_triage_prompt = (\<lambda>_. ''t''), lc_localize_prompt = (\<lambda>_ _ _. ''l''), lc_confirm_prompt = (\<lambda>_ _ _. ''c''),
     lc_git = (\<lambda>_ _ w. (head, w)), lc_repo_map = (\<lambda>_ _ _ w. (Inr ''map'', w))\<rparr>"

definition demo_report :: report where
  "demo_report = (blank_report ''r'' ''p'' 2)\<lparr>r_status := CLARIFICATION_NEEDED\<rparr>"

definition demo_project :: project where
  "demo_project = (blank_project ''p'' 1)\<lparr>p_repo_path := Some ''/r''\<rparr>"

definition demo_local_db :: "report \<Rightarrow> db" where
  "demo_local_db r = init_db\<lparr>projects := [demo_project], reports := [r]\<rparr>"

lemma demo_local_ok:
  "steady (demo_local_db r)" "inj (uuid (demo_local_db r))" "ids_ok (demo_local_db r)" "ids_fresh (demo_local_db r)"
  "report_get (r_id r) (demo_local_db r) = Some r" "project_get ''p'' (demo_local_db r) = Some demo_project"
  by (simp_all add: steady_def demo_local_db_def init_db_def ids_ok_def ids_fresh_def rows_dated_def inj_def
      report_get_def project_get_def demo_project_def blank_project_def)

definition demo_local_run :: "local_outcome \<times> db \<times> nat" where
  "demo_local_run = run_local_analysis default_settings
     (demo_local_deps (Inr \<lparr>g_code = 0, g_out = ''abc'', g_err = []\<rparr>)) ''r'' None None None (demo_local_db demo_report) 0"

lemma demo_local_completes: "fst demo_local_run = COMPLETED"
  by code_simp

text \<open>C8. Local analysis opens the cloud stage.  On a \<open>triaged\<close> or \<open>clarification_needed\<close> report the run
  always claims the report and always gives it back: \<open>triaged\<close>, or \<open>clarification_needed\<close> when
  triage asked for it and no localization ran.  It never writes a fix proposal.  When it
  reports a written localization, the preconditions of the cloud analysis hold at once,
  unless git named no head commit.\<close>

theorem local_analysis_opens_cloud_stage:
  assumes "steady d" and "inj (uuid d)" and "report_get rid d = Some r"
    and "r_status r \<in> {TRIAGED, CLARIFICATION_NEEDED}"
    and "run_local_analysis st dep rid triage_llm localize_llm trigger d w = (out, d', w')"
  shows "out \<noteq> NOT_CLAIMED \<and> fix_proposals d' = fix_proposals d
    \<and> (\<exists>r'. report_get rid d' = Some r' \<and> r_project_id r' = r_project_id r
        \<and> r_status r' = (if out = TRIAGE_ONLY then CLARIFICATION_NEEDED else TRIAGED)
        \<and> (if out = COMPLETED
           then \<exists>p. project_get (r_project_id r) d' = Some p \<and> check_cloud_analysis r' (Some p) d'
             = (if str_set (p_head_sha p) then None else Some (409, ''Localization is stale; re-run local analysis first''))
           else True))"
proof -
  obtain d1 r1 where d1: "steady d1" "inj (uuid d1)" "report_get rid d1 = Some r1" "r_status r1 = TRIAGED"
      "r_project_id r1 = r_project_id r" "fix_proposals d1 = fix_proposals d"
    and into: "d1 = (if r_status r = CLARIFICATION_NEEDED
      then (case try_claim_report rid CLARIFICATION_NEEDED ANALYZING None d of
              (True, d) \<Rightarrow> triaged_again rid d | (False, d) \<Rightarrow> d) else d)"
    by (rule into_triaged[OF assms(1-4)])
  obtain did d2 w2 where t: "(if list_ex (\<lambda>a. a_status a = A_COMPLETED) (analyses_for_report rid (Some P_TRIAGE) d1)
      then (False, d1, w) else process_triaged st dep rid triage_llm trigger d1 w) = (did, d2, w2)"
    by (metis prod_cases3)
  have "steady d2 \<and> fix_proposals d2 = fix_proposals d \<and> (\<exists>r2. report_get rid d2 = Some r2 \<and> r_project_id r2 = r_project_id r
      \<and> r_status r2 \<in> {TRIAGED, CLARIFICATION_NEEDED} \<and> (did \<or> r_status r2 = TRIAGED))"
    using t d1 before_localization[OF d1(1-4), of st dep triage_llm trigger w did d2 w2]
    by (auto split: if_splits)
  then obtain r2 where d2: "steady d2" "fix_proposals d2 = fix_proposals d" "report_get rid d2 = Some r2"
    "r_project_id r2 = r_project_id r" "r_status r2 \<in> {TRIAGED, CLARIFICATION_NEEDED}" "did \<or> r_status r2 = TRIAGED" by blast
  obtain q d3 w3 where q: "process_localization st dep rid localize_llm trigger d2 w2 = (q, d3, w3)" by (metis prod_cases3)
  have run: "out = (if q = NOT_CLAIMED \<and> did then TRIAGE_ONLY else q)" "d' = d3"
    using assms(5) unfolding run_local_analysis_def assms(3) option.case Let_def into[symmetric] t prod.case q
    by auto
  note settled = localization_settles[OF _ _ d2(3) q]
  have ids: "ids_ok d2" "ids_fresh d2" using d2(1) by (simp_all add: steady_def)
  show ?thesis
  proof (cases "r_status r2 = TRIAGED")
    case False
    then have "q = NOT_CLAIMED" "same_tables d2 d3" using settled[OF ids] by auto
    moreover have "report_get rid d3 = Some r2" using calculation(2) d2(3) by (simp add: same_tables_def report_get_def)
    ultimately show ?thesis using run d2 False by (auto simp: same_tables_def)
  next
    case True
    then have s: "localization_settled rid r2 trigger q (w3 \<noteq> w2) d2 d3" using settled[OF ids] by simp
    then obtain r3 where r3: "report_get rid d3 = Some r3" "r_status r3 = TRIAGED" "r_project_id r3 = r_project_id r"
      "fix_proposals d3 = fix_proposals d"
      using d2(2,4) by (auto simp: localization_settled_def)
    have q': "q \<noteq> NOT_CLAIMED" "q \<noteq> TRIAGE_ONLY" using s by (auto simp: localization_settled_def)
    have "\<exists>p. project_get (r_project_id r) d3 = Some p \<and> check_cloud_analysis r3 (Some p) d3
        = (if str_set (p_head_sha p) then None else Some (409, ''Localization is stale; re-run local analysis first''))"
      if "q = COMPLETED"
    proof -
      have s': "localization_settled rid r2 trigger COMPLETED (w3 \<noteq> w2) d2 d3" using s that by simp
      obtain p a where a: "project_get (r_project_id r2) d2 = Some p" "localized rid trigger p d2 d3 a"
        using s' by (auto simp: localization_settled_def)
      have pid: "p_id p = r_project_id r3" using project_get_id'[OF a(1)] d2(4) r3(3) by simp
      obtain p3 where p3: "project_get (r_project_id r3) d3 = Some p3" using a(2) pid by (auto simp: localized_def)
      show ?thesis using unlocked[OF a(2) _ r3(1,2) p3 pid] p3 r3(3) d2(1) by (auto simp: steady_def)
    qed
    then show ?thesis using run q' r3 by auto
  qed
qed

theorem local_analysis_opens_cloud_stage_witness:
  "\<exists>r' p. report_get ''r'' (fst (snd demo_local_run)) = Some r' \<and> r_status r' = TRIAGED
    \<and> project_get ''p'' (fst (snd demo_local_run)) = Some p \<and> check_cloud_analysis r' (Some p) (fst (snd demo_local_run))
      = (if str_set (p_head_sha p) then None else Some (409, ''Localization is stale; re-run local analysis first''))"
proof -
  have r: "r_status demo_report \<in> {TRIAGED, CLARIFICATION_NEEDED}" "r_id demo_report = ''r''" "r_project_id demo_report = ''p''"
    by (simp_all add: demo_report_def blank_report_def)
  have run: "run_local_analysis default_settings (demo_local_deps (Inr \<lparr>g_code = 0, g_out = ''abc'', g_err = []\<rparr>))
      ''r'' None None None (demo_local_db demo_report) 0 = (COMPLETED, fst (snd demo_local_run), snd (snd demo_local_run))"
    using demo_local_completes unfolding demo_local_run_def by (metis prod.collapse)
  from local_analysis_opens_cloud_stage[OF demo_local_ok(1,2) demo_local_ok(5)[of demo_report, unfolded r(2)] r(1) run,
      unfolded r(3)]
  obtain r' p where "report_get ''r'' (fst (snd demo_local_run)) = Some r'" "r_status r' = TRIAGED"
    "project_get ''p'' (fst (snd demo_local_run)) = Some p" "check_cloud_analysis r' (Some p) (fst (snd demo_local_run))
      = (if str_set (p_head_sha p) then None else Some (409, ''Localization is stale; re-run local analysis first''))"
    by auto
  then show ?thesis by blast
qed

text \<open>A localization that cannot read the head commit is not counted.  The report is given back as
  \<open>triaged\<close> with outcome \<open>failed\<close>, but no row records the attempt, so the dispatch gate decides about it
  exactly as before: neither \<open>max_localize_retries\<close> nor the retry delay applies.\<close>

theorem head_failure_is_not_counted:
  assumes "ids_ok d" and "ids_fresh d" and "report_get rid d = Some r" and "r_status r = TRIAGED"
    and "project_get (r_project_id r) d = Some p" and "p_repo_path p = Some path" and "path \<noteq> []"
    and "lc_git dep [''rev-parse'', ''HEAD''] (Some path) w = (Inl e, w1)"
  shows "case process_localization st dep rid llm trigger d w of (out, d', w') \<Rightarrow>
    out = FAILED \<and> map_option r_status (report_get rid d') = Some TRIAGED
    \<and> (\<forall>st now x. localization_check st now d' x = localization_check st now d x)"
proof -
  obtain d1 r1 where c: "try_claim_report rid TRIAGED ANALYZING None d = (True, d1)" "report_get rid d1 = Some r1"
    "r_project_id r1 = r_project_id r" "analyses d1 = analyses d" "projects d1 = projects d"
    using claimed_for_analysis[OF assms(1,3,4)] by metis
  have "project_get (r_project_id r1) d1 = Some p" using c(3,5) assms(5) by (simp add: project_get_def)
  moreover have "localization_body st dep r1 p llm trigger d1 w = (Inl (Exn e []), d1, w1)"
    using assms(6,8) by (simp add: localization_body_def get_head_sha_def git_ok_def)
  ultimately have run: "process_localization st dep rid llm trigger d w = (FAILED, triaged_again rid d1, w1)"
    using c(1,2) assms(6,7) by (simp add: process_localization_def)
  have "localization_check st now (triaged_again rid d1) x = localization_check st now d x" for st now x
    unfolding localization_check_def analyses_for_report_def latest_completed_localization_def
      project_of_def triaged_again_frame c(4,5) ..
  then show ?thesis using run triaged_again_status[OF c(2)] by (cases "report_get rid (triaged_again rid d1)") auto
qed

theorem head_failure_is_not_counted_witness:
  "case process_localization default_settings (demo_local_deps (Inl ''TimeoutExpired'')) ''r'' None None
      (demo_local_db (blank_report ''r'' ''p'' 2\<lparr>r_status := TRIAGED\<rparr>)) 0 of
    (out, d', w') \<Rightarrow> out = FAILED \<and> map_option r_status (report_get ''r'' d') = Some TRIAGED
      \<and> (\<forall>st now x. localization_check st now d' x
          = localization_check st now (demo_local_db (blank_report ''r'' ''p'' 2\<lparr>r_status := TRIAGED\<rparr>)) x)"
proof -
  let ?r = "blank_report ''r'' ''p'' 2\<lparr>r_status := TRIAGED\<rparr>"
  have r: "r_status ?r = TRIAGED" "r_id ?r = ''r''" "r_project_id ?r = ''p''" by (simp_all add: blank_report_def)
  have p: "p_repo_path demo_project = Some ''/r''" "''/r'' \<noteq> []" by (simp_all add: demo_project_def)
  have pr: "project_get (r_project_id ?r) (demo_local_db ?r) = Some demo_project" using demo_local_ok(6) r(3) by simp
  have git: "lc_git (demo_local_deps (Inl ''TimeoutExpired'')) [''rev-parse'', ''HEAD''] (Some ''/r'') 0 = (Inl ''TimeoutExpired'', 0)"
    by (simp add: demo_local_deps_def)
  show ?thesis
    by (rule head_failure_is_not_counted[OF demo_local_ok(3,4) demo_local_ok(5)[of ?r, unfolded r(2)] r(1) pr p git])
qed

end
