(* ===== verification/Intake.thy ===== *)
theory Intake
  imports Local_Safety
begin

text \<open>
  Stage 1 and the queue worker: \<open>pipeline/validator.py\<close>, \<open>process_submitted\<close> of
  \<open>pipeline/orchestrator.py\<close> and the dispatch of \<open>queue/worker.py\<close>.  \<open>SequenceMatcher.ratio\<close>,
  \<open>str.lower\<close> and the regular expressions that extract data from a description are arguments; what
  they extract is stored and decides nothing.
\<close>

record text_deps =
  tx_ratio :: "string \<Rightarrow> string \<Rightarrow> rat"
  tx_lower :: "string \<Rightarrow> string"
  tx_extract :: "string \<Rightarrow> json"

section \<open>Duplicates\<close>

definition report_text :: "text_deps \<Rightarrow> string \<Rightarrow> string \<Rightarrow> string" where
  "report_text tx title description = tx_lower tx (title @ [CHR 0x0A] @ description)"

definition score :: "text_deps \<Rightarrow> string \<Rightarrow> string \<Rightarrow> report \<Rightarrow> rat" where
  "score tx title description r =
     tx_ratio tx (report_text tx title description) (report_text tx (r_title r) (r_description r))"

fun best_match ::
  "text_deps \<Rightarrow> rat \<Rightarrow> string \<Rightarrow> string \<Rightarrow> string option \<Rightarrow> report list \<Rightarrow> report option \<times> rat \<Rightarrow> report option \<times> rat" where
  "best_match tx threshold title description exclude [] best = best"
| "best_match tx threshold title description exclude (r # rs) (best, best_score) =
     (if str_set exclude \<and> exclude = Some (r_id r)
      then best_match tx threshold title description exclude rs (best, best_score)
      else if r_status r = DUPLICATE \<or> r_status r = REJECTED
      then best_match tx threshold title description exclude rs (best, best_score)
      else (let s = score tx title description r in
            if threshold \<le> s \<and> best_score < s
            then best_match tx threshold title description exclude rs (Some r, s)
            else best_match tx threshold title description exclude rs (best, best_score)))"

definition find_duplicate ::
  "settings \<Rightarrow> text_deps \<Rightarrow> string \<Rightarrow> string \<Rightarrow> string \<Rightarrow> string option \<Rightarrow> db \<Rightarrow> report option" where
  "find_duplicate st tx title description pid exclude d =
     fst (best_match tx (duplicate_threshold st) title description exclude
            (report_list (Some pid) None False None 0 ''desc'' d) (None, 0))"

definition validate_report :: "settings \<Rightarrow> text_deps \<Rightarrow> report \<Rightarrow> db \<Rightarrow> string option \<times> json" where
  "validate_report st tx r d =
     (let duplicate = map_option r_id
            (find_duplicate st tx (r_title r) (r_description r) (r_project_id r) (Some (r_id r)) d)
      in (duplicate, JObj [(''extracted_data'', tx_extract tx (r_description r)),
            (''duplicate_of'', case duplicate of None \<Rightarrow> JNull | Some x \<Rightarrow> JStr x),
            (''validation_passed'', JBool (duplicate = None))]))"

section \<open>Stage 1\<close>

definition process_submitted :: "settings \<Rightarrow> text_deps \<Rightarrow> string \<Rightarrow> db \<Rightarrow> db" where
  "process_submitted st tx rid d0 =
     (case try_claim_report rid SUBMITTED VALIDATING None d0 of
        (False, d1) \<Rightarrow> d1
      | (True, d1) \<Rightarrow>
          (case report_get rid d1 of
             None \<Rightarrow> d1
           | Some r \<Rightarrow>
               (let (now, d2) = utcnow d1;
                    (duplicate, j) = validate_report st tx r d2;
                    (later, d3) = utcnow d2
                in case analysis_create rid P_VALIDATION A_COMPLETED
                       (no_analysis_args\<lparr>m_result := Some j, m_started_at := Some (Iso now),
                          m_completed_at := Some (Iso later)\<rparr>) d3 of
                     (Inl e, d4) \<Rightarrow> snd (try_claim_report rid VALIDATING SUBMITTED None d4)
                   | (Inr _, d4) \<Rightarrow>
                       (if str_set duplicate
                        then snd (report_update_status rid DUPLICATE (Some (''duplicate_of:'' @ the duplicate)) None d4)
                        else snd (report_update_status rid TRIAGED None None d4)))))"

section \<open>The queue worker\<close>

datatype job = Validate_job string | Triage_job string | Localize_job string | Fix_job string

text \<open>One poll cycle's tasks, in the order they are created; a query that raises ends the cycle, the
  tasks created before it keep running.\<close>

definition poll_jobs :: "settings \<Rightarrow> db \<Rightarrow> job list \<times> db" where
  "poll_jobs st d0 =
     (let early = map (\<lambda>r. Validate_job (r_id r)) (submitted_reports d0);
          (triage, d1) = triage_eligible_reports st d0
      in case triage of
           Inl e \<Rightarrow> (early, d1)
         | Inr ts \<Rightarrow>
             (let jobs1 = early @ map (\<lambda>r. Triage_job (r_id r)) ts;
                  (loc, d2) = localization_eligible_reports st d1
              in case loc of
                   Inl e \<Rightarrow> (jobs1, d2)
                 | Inr ls \<Rightarrow>
                     (let jobs2 = jobs1 @ map (\<lambda>r. Localize_job (r_id r)) ls
                      in if auto_fix_enabled st
                         then (case reports_eligible_for_fix st d2 of
                                 (fs, d3) \<Rightarrow> (jobs2 @ map (\<lambda>r. Fix_job (r_id r)) fs, d3))
                         else (jobs2, d2))))"

section \<open>Lemmas\<close>

definition candidate :: "text_deps \<Rightarrow> rat \<Rightarrow> string \<Rightarrow> string \<Rightarrow> string option \<Rightarrow> report \<Rightarrow> bool" where
  "candidate tx threshold title description exclude r \<longleftrightarrow> \<not> (str_set exclude \<and> exclude = Some (r_id r))
     \<and> r_status r \<noteq> DUPLICATE \<and> r_status r \<noteq> REJECTED \<and> threshold \<le> score tx title description r"

lemma best_match_spec:
  "best_match tx th ti de ex rs (b, s) = (b', s') \<Longrightarrow>
     s \<le> s' \<and> (\<forall>y\<in>set rs. candidate tx th ti de ex y \<longrightarrow> score tx ti de y \<le> s')
     \<and> ((b' = b \<and> s' = s) \<or> (\<exists>x\<in>set rs. b' = Some x \<and> candidate tx th ti de ex x \<and> score tx ti de x = s' \<and> s < s'))"
proof (induction rs arbitrary: b s)
  case (Cons r rs)
  show ?case
  proof (cases "candidate tx th ti de ex r \<and> s < score tx ti de r")
    case True
    then have "best_match tx th ti de ex rs (Some r, score tx ti de r) = (b', s')"
      using Cons.prems by (auto simp: candidate_def Let_def split: if_splits)
    from Cons.IH[OF this] show ?thesis using True by fastforce
  next
    case False
    then have "best_match tx th ti de ex rs (b, s) = (b', s')"
      using Cons.prems by (auto simp: candidate_def Let_def split: if_splits)
    from Cons.IH[OF this] show ?thesis using False by fastforce
  qed
qed simp

lemma report_list_set: "set (report_list pid status False None 0 ''desc'' d) = {r \<in> set (reports d). report_filter pid status False r}"
  by (simp add: report_list_def set_order_desc)

text \<open>The reports a submitted one can be a duplicate of.\<close>

definition rivals :: "settings \<Rightarrow> text_deps \<Rightarrow> report \<Rightarrow> db \<Rightarrow> report set" where
  "rivals st tx r d = {x \<in> set (reports d). not_deleted x \<and> r_project_id x = r_project_id r \<and> r_id x \<noteq> r_id r
     \<and> r_status x \<noteq> DUPLICATE \<and> r_status x \<noteq> REJECTED
     \<and> duplicate_threshold st \<le> score tx (r_title r) (r_description r) x \<and> 0 < score tx (r_title r) (r_description r) x}"

lemma find_duplicate_spec:
  assumes "r_project_id r \<noteq> []" and "r_id r \<noteq> []"
  shows "case find_duplicate st tx (r_title r) (r_description r) (r_project_id r) (Some (r_id r)) d of
      None \<Rightarrow> rivals st tx r d = {}
    | Some x \<Rightarrow> x \<in> rivals st tx r d
        \<and> (\<forall>y\<in>rivals st tx r d. score tx (r_title r) (r_description r) y \<le> score tx (r_title r) (r_description r) x)"
proof -
  let ?L = "report_list (Some (r_project_id r)) None False None 0 ''desc'' d"
  obtain b s where b: "best_match tx (duplicate_threshold st) (r_title r) (r_description r) (Some (r_id r)) ?L (None, 0) = (b, s)"
    by fastforce
  have rv: "y \<in> rivals st tx r d \<longleftrightarrow> y \<in> set ?L \<and> candidate tx (duplicate_threshold st) (r_title r) (r_description r) (Some (r_id r)) y
      \<and> 0 < score tx (r_title r) (r_description r) y" for y
    using assms by (auto simp: rivals_def report_list_set report_filter_def candidate_def)
  from best_match_spec[OF b] rv show ?thesis
    by (cases b) (auto simp: find_duplicate_def b)
qed

lemma created_row:
  "case analysis_create rid ph s m d of (res, d1) \<Rightarrow> reports d1 = reports d \<and> (rid \<in> r_id ` set (reports d) \<longrightarrow> ids_fresh d \<longrightarrow>
     (\<exists>a. res = Inr (Some a) \<and> analyses d1 = analyses d @ [a] \<and> a_bug_report_id a = rid \<and> a_phase a = ph \<and> a_status a = s))"
proof -
  have "reports (snd (analysis_create rid ph s m d)) = reports d"
    by (simp add: analysis_create_def insert_analysis_def case_prod_beta Let_def split: sum.split)
  moreover have "\<exists>a. fst (analysis_create rid ph s m d) = Inr (Some a) \<and> analyses (snd (analysis_create rid ph s m d)) = analyses d @ [a]
      \<and> a_bug_report_id a = rid \<and> a_phase a = ph \<and> a_status a = s" if "rid \<in> r_id ` set (reports d)" "ids_fresh d"
    using analysis_create_eq[of d rid ph s m] that by (simp add: ids_fresh_def new_analysis_def)
  ultimately show ?thesis by (simp add: case_prod_beta)
qed

lemma find_duplicate_reports: "reports d' = reports d \<Longrightarrow> find_duplicate st tx ti de pid ex d' = find_duplicate st tx ti de pid ex d"
  by (simp add: find_duplicate_def report_list_def)

lemma rivals_self:
  assumes "reports d1 = update_where (\<lambda>x. r_id x = rid \<and> r_status x = e) f (reports d)" and "\<And>x. r_id (f x) = r_id x"
    and "r_id r1 = rid" and "r_id r = rid" and "r_project_id r1 = r_project_id r" and "r_title r1 = r_title r"
    and "r_description r1 = r_description r"
  shows "rivals st tx r1 d1 = rivals st tx r d"
proof -
  have "x \<in> set (reports d1) \<longleftrightarrow> x \<in> set (reports d)" if "r_id x \<noteq> rid" for x
    using that assms(2) unfolding assms(1) update_where_def by (auto simp: image_iff)
  then show ?thesis using assms(3-7) by (auto simp: rivals_def score_def)
qed

text \<open>One run of stage 1 on a submitted report.\<close>

lemma submitted_run:
  assumes "ids_ok d" and "ids_fresh d" and "report_get rid d = Some r" and "r_status r = SUBMITTED"
    and "\<forall>x\<in>set (reports d). r_id x \<noteq> []" and "r_project_id r \<noteq> []"
  obtains d4 a duplicate where "process_submitted st tx rid d
      = (case duplicate of Some x \<Rightarrow> snd (report_update_status rid DUPLICATE (Some (''duplicate_of:'' @ r_id x)) None d4)
         | None \<Rightarrow> snd (report_update_status rid TRIAGED None None d4))"
    and "analyses d4 = analyses d @ [a]" and "a_bug_report_id a = rid" and "a_phase a = P_VALIDATION" and "a_status a = A_COMPLETED"
    and "case duplicate of None \<Rightarrow> rivals st tx r d = {} | Some x \<Rightarrow> x \<in> rivals st tx r d
      \<and> (\<forall>y\<in>rivals st tx r d. score tx (r_title r) (r_description r) y \<le> score tx (r_title r) (r_description r) x)"
    and "\<forall>x. report_get x d4 = (if x = rid then map_option (\<lambda>r. r\<lparr>r_status := VALIDATING, r_updated_at := fst (db_now d)\<rparr>) (report_get rid d)
      else report_get x d)"
proof -
  let ?c = "try_claim_report rid SUBMITTED VALIDATING None d"
  let ?r1 = "r\<lparr>r_status := VALIDATING, r_updated_at := fst (db_now d)\<rparr>"
  have c: "?c = (True, snd ?c)" using try_claim_won[OF assms(1), of rid SUBMITTED] assms(3,4) by (simp add: prod_eq_iff)
  have g: "report_get x (snd ?c) = (if x = rid then Some ?r1 else report_get x d)" for x
    using assms(3,4) by (simp add: try_claim_get)
  let ?d2 = "snd (utcnow (snd ?c))" let ?d3 = "snd (utcnow ?d2)"
  let ?dup = "find_duplicate st tx (r_title ?r1) (r_description ?r1) (r_project_id ?r1) (Some (r_id ?r1)) ?d2"
  let ?m = "no_analysis_args\<lparr>m_result := Some (snd (validate_report st tx ?r1 ?d2)), m_started_at := Some (Iso (fst (utcnow (snd ?c)))),
      m_completed_at := Some (Iso (fst (utcnow ?d2)))\<rparr>"
  have rid: "r_id r = rid" "r \<in> set (reports d)" using report_get_in[OF assms(3)] by auto
  have reps: "reports ?d3 = reports (snd ?c)" by simp
  have "rid \<in> r_id ` set (reports ?d3)" using report_get_in[of rid "snd ?c" ?r1] g[of rid]
    by (auto intro!: rev_image_eqI)
  moreover have "ids_fresh ?d3" using assms(2) by (simp add: ids_fresh_def claim_report_frame)
  ultimately obtain a d4 where a: "analysis_create rid P_VALIDATION A_COMPLETED ?m ?d3 = (Inr (Some a), d4)" "reports d4 = reports ?d3"
      "analyses d4 = analyses ?d3 @ [a]" "a_bug_report_id a = rid" "a_phase a = P_VALIDATION" "a_status a = A_COMPLETED"
    using created_row[where rid = rid and ph = P_VALIDATION and s = A_COMPLETED and m = ?m and d = ?d3] by (auto split: prod.splits)
  have rv: "rivals st tx ?r1 (snd ?c) = rivals st tx r d"
    by (rule rivals_self[where rid = rid and e = SUBMITTED
        and f = "\<lambda>r. r\<lparr>r_status := VALIDATING, r_updated_at := fst (db_now d)\<rparr>"])
       (simp_all add: rid try_claim_eq case_prod_beta Let_def update_reports_def)
  have named_r1: "r_project_id ?r1 \<noteq> []" "r_id ?r1 \<noteq> []" using assms(5,6) rid by auto
  have dup: "case ?dup of None \<Rightarrow> rivals st tx r d = {} | Some x \<Rightarrow> x \<in> rivals st tx r d
      \<and> (\<forall>y\<in>rivals st tx r d. score tx (r_title r) (r_description r) y \<le> score tx (r_title r) (r_description r) x)"
  proof -
    have "find_duplicate st tx (r_title ?r1) (r_description ?r1) (r_project_id ?r1) (Some (r_id ?r1)) (snd ?c) = ?dup"
      by (rule find_duplicate_reports) simp
    note spec = find_duplicate_spec[OF named_r1, of st tx "snd ?c", unfolded this rv]
    show ?thesis using spec by (cases ?dup) simp_all
  qed
  have named: "r_id x \<noteq> []" if "x \<in> rivals st tx r d" for x using that assms(5) by (auto simp: rivals_def)
  have run: "process_submitted st tx rid d
      = (case ?dup of Some x \<Rightarrow> snd (report_update_status rid DUPLICATE (Some (''duplicate_of:'' @ r_id x)) None d4)
         | None \<Rightarrow> snd (report_update_status rid TRIAGED None None d4))"
  proof -
    have v: "fst (validate_report st tx ?r1 ?d2) = map_option r_id ?dup" by (simp add: validate_report_def Let_def)
    have "process_submitted st tx rid d = (if str_set (fst (validate_report st tx ?r1 ?d2))
        then snd (report_update_status rid DUPLICATE (Some (''duplicate_of:'' @ the (fst (validate_report st tx ?r1 ?d2)))) None d4)
        else snd (report_update_status rid TRIAGED None None d4))"
      unfolding process_submitted_def by (subst c) (simp add: g a(1) Let_def case_prod_beta)
    note this[unfolded v]
    then show ?thesis using dup named by (cases ?dup) auto
  qed
  have an: "analyses ?d3 = analyses d" by (simp add: claim_report_frame)
  have get: "report_get x d4 = report_get x (snd ?c)" for x using a(2) by (simp add: report_get_find)
  show thesis
    by (rule that[OF run _ a(4-6)]) (use a(3) an dup get g assms(3) in \<open>auto split: option.splits\<close>)
qed

section \<open>Properties\<close>

text \<open>Which report each duplicate points at.\<close>

definition duplicate_of :: "db \<Rightarrow> (string \<times> string) set" where
  "duplicate_of d = {(x, y). \<exists>r. report_get x d = Some r \<and> r_status r = DUPLICATE
     \<and> r_resolution_reason r = Some (''duplicate_of:'' @ y)}"

definition demo_tx :: text_deps where
  "demo_tx = \<lparr>tx_ratio = (\<lambda>_ _. 1), tx_lower = (\<lambda>s. s), tx_extract = (\<lambda>_. JNull)\<rparr>"

definition demo_intake_db :: db where
  "demo_intake_db = init_db\<lparr>reports := [blank_report ''a'' ''p'' 2, blank_report ''b'' ''p'' 3]\<rparr>"

lemma demo_intake_ok:
  "ids_ok demo_intake_db" "ids_fresh demo_intake_db" "\<forall>x\<in>set (reports demo_intake_db). r_id x \<noteq> []"
  "report_get ''a'' demo_intake_db = Some (blank_report ''a'' ''p'' 2)" "duplicate_of demo_intake_db = {}"
  by (auto simp: demo_intake_db_def init_db_def ids_ok_def ids_fresh_def report_get_def blank_report_def duplicate_of_def
      split: if_splits)

text \<open>Stage 1 decides duplicates exactly.  A submitted report becomes a \<open>duplicate\<close> iff some other live
  report of its project, itself neither duplicate nor rejected, scores at least the threshold (and above
  zero); the reason then names such a report with the best score.  Otherwise it is \<open>triaged\<close>.  Either
  way exactly one completed validation row is added, whatever the similarity measure.\<close>

theorem stage_one_decides_duplicates:
  assumes "ids_ok d" and "ids_fresh d" and "report_get rid d = Some r" and "r_status r = SUBMITTED"
    and "\<forall>x\<in>set (reports d). r_id x \<noteq> []" and "r_project_id r \<noteq> []"
  shows "\<exists>a r'. analyses (process_submitted st tx rid d) = analyses d @ [a]
    \<and> a_bug_report_id a = rid \<and> a_phase a = P_VALIDATION \<and> a_status a = A_COMPLETED
    \<and> report_get rid (process_submitted st tx rid d) = Some r'
    \<and> (if rivals st tx r d = {} then r_status r' = TRIAGED \<and> r_resolution_reason r' = r_resolution_reason r
       else \<exists>x\<in>rivals st tx r d. r_status r' = DUPLICATE \<and> r_resolution_reason r' = Some (''duplicate_of:'' @ r_id x)
         \<and> (\<forall>y\<in>rivals st tx r d. score tx (r_title r) (r_description r) y \<le> score tx (r_title r) (r_description r) x))"
proof -
  obtain d4 a dup where s: "process_submitted st tx rid d
      = (case dup of Some x \<Rightarrow> snd (report_update_status rid DUPLICATE (Some (''duplicate_of:'' @ r_id x)) None d4)
         | None \<Rightarrow> snd (report_update_status rid TRIAGED None None d4))"
    "analyses d4 = analyses d @ [a]" "a_bug_report_id a = rid" "a_phase a = P_VALIDATION" "a_status a = A_COMPLETED"
    "case dup of None \<Rightarrow> rivals st tx r d = {} | Some x \<Rightarrow> x \<in> rivals st tx r d
      \<and> (\<forall>y\<in>rivals st tx r d. score tx (r_title r) (r_description r) y \<le> score tx (r_title r) (r_description r) x)"
    "\<forall>x. report_get x d4 = (if x = rid then map_option (\<lambda>r. r\<lparr>r_status := VALIDATING, r_updated_at := fst (db_now d)\<rparr>) (report_get rid d)
      else report_get x d)"
    by (rule submitted_run[OF assms, of st tx])
  show ?thesis
  proof (cases dup)
    case None
    then show ?thesis using s assms(3) by (simp add: status_update_frame update_status_get)
  next
    case (Some x)
    then have "rivals st tx r d \<noteq> {}" using s(6) by auto
    then show ?thesis using s assms(3) Some by (simp add: status_update_frame update_status_get) blast
  qed
qed

theorem stage_one_decides_duplicates_witness:
  "\<exists>r' y. report_get ''a'' (process_submitted default_settings demo_tx ''a'' demo_intake_db) = Some r'
     \<and> r_status r' = DUPLICATE \<and> r_resolution_reason r' = Some (''duplicate_of:'' @ y)"
proof -
  let ?r = "blank_report ''a'' ''p'' 2"
  have r: "r_status ?r = SUBMITTED" "r_project_id ?r \<noteq> []" by (simp_all add: blank_report_def)
  have "blank_report ''b'' ''p'' 3 \<in> rivals default_settings demo_tx ?r demo_intake_db"
    by (simp add: rivals_def demo_intake_db_def blank_report_def score_def demo_tx_def default_settings_def not_deleted_def)
  then have ne: "rivals default_settings demo_tx ?r demo_intake_db \<noteq> {}" by auto
  from stage_one_decides_duplicates[OF demo_intake_ok(1,2,4) r(1) demo_intake_ok(3) r(2), of default_settings demo_tx,
      unfolded if_not_P[OF ne]]
  show ?thesis by blast
qed

text \<open>A run touches no other report, and a new edge leads to another report that is no duplicate.\<close>

lemma submitted_edges:
  assumes "ids_ok d" and "d' = process_submitted st tx rid d"
  shows "ids_ok d' \<and> (\<forall>z. z \<noteq> rid \<longrightarrow> report_get z d' = report_get z d)
    \<and> (\<forall>y. (rid, y) \<in> duplicate_of d' \<longrightarrow> (rid, y) \<in> duplicate_of d \<or> (y \<noteq> rid \<and> y \<notin> Domain (duplicate_of d)))"
proof -
  let ?c = "try_claim_report rid SUBMITTED VALIDATING None d"
  show ?thesis
  proof (cases "map_option r_status (report_get rid d) = Some SUBMITTED")
    case False
    have "fst ?c = False" "same_tables d (snd ?c)" using claim_report_lost[OF False assms(1)] by blast+
    then have "d' = snd ?c" using assms(2) by (cases ?c) (simp add: process_submitted_def)
    then have "report_get z d' = report_get z d" "ids_ok d'" for z
      using \<open>same_tables d (snd ?c)\<close> assms(1) by (simp_all add: same_tables_def report_get_def ids_ok_def)
    then show ?thesis by (simp add: duplicate_of_def)
  next
    case True
    then obtain r where r: "report_get rid d = Some r" "r_status r = SUBMITTED" by auto
    let ?r1 = "r\<lparr>r_status := VALIDATING, r_updated_at := fst (db_now d)\<rparr>"
    let ?d2 = "snd (utcnow (snd ?c))"
    have c: "?c = (True, snd ?c)" using try_claim_won[OF assms(1), of rid SUBMITTED] r by (simp add: prod_eq_iff)
    have g: "report_get x (snd ?c) = (if x = rid then Some ?r1 else report_get x d)" for x
      using r by (simp add: try_claim_get)
    have rid: "r_id r = rid" using report_get_in[OF r(1)] by auto
    let ?v = "validate_report st tx ?r1 ?d2"
    let ?m = "no_analysis_args\<lparr>m_result := Some (snd ?v), m_started_at := Some (Iso (fst (utcnow (snd ?c)))),
        m_completed_at := Some (Iso (fst (utcnow ?d2)))\<rparr>"
    obtain res d4 where a: "analysis_create rid P_VALIDATION A_COMPLETED ?m (snd (utcnow ?d2)) = (res, d4)" by fastforce
    have "reports d4 = reports (snd ?c)"
      using created_row[where rid = rid and ph = P_VALIDATION and s = A_COMPLETED and m = ?m and d = "snd (utcnow ?d2)"] a by simp
    then have get: "report_get x d4 = (if x = rid then Some ?r1 else report_get x d)" and ids: "ids_ok d4" for x
      using g[of x] assms(1) try_claim_ids[of rid SUBMITTED VALIDATING None d] by (simp_all add: report_get_find ids_ok_def)
    have run: "d' = (case res of Inl e \<Rightarrow> snd (try_claim_report rid VALIDATING SUBMITTED None d4)
        | Inr _ \<Rightarrow> if str_set (fst ?v) then snd (report_update_status rid DUPLICATE (Some (''duplicate_of:'' @ the (fst ?v))) None d4)
          else snd (report_update_status rid TRIAGED None None d4))"
      unfolding assms(2) process_submitted_def by (subst c) (simp add: g a Let_def case_prod_beta split: sum.split)
    have frame: "ids_ok d' \<and> (\<forall>z. z \<noteq> rid \<longrightarrow> report_get z d' = report_get z d)"
      using run get ids by (cases res) (simp_all add: try_claim_ids try_claim_get update_status_ids update_status_get)
    have "y \<noteq> rid \<and> y \<notin> Domain (duplicate_of d)" if y: "(rid, y) \<in> duplicate_of d'" for y
    proof -
      have v: "fst ?v = Some y \<and> y \<noteq> []"
        using y run get by (cases res) (auto simp: duplicate_of_def try_claim_get update_status_get str_set_iff split: if_splits)
      then obtain x where x: "find_duplicate st tx (r_title ?r1) (r_description ?r1) (r_project_id ?r1) (Some (r_id ?r1)) ?d2 = Some x"
        "r_id x = y" by (auto simp: validate_report_def Let_def)
      obtain s where s: "best_match tx (duplicate_threshold st) (r_title ?r1) (r_description ?r1) (Some (r_id ?r1))
          (report_list (Some (r_project_id ?r1)) None False None 0 ''desc'' ?d2) (None, 0) = (Some x, s)"
        using x(1) unfolding find_duplicate_def by (metis prod.collapse)
      then have xin: "x \<in> set (reports (snd ?c))" "candidate tx (duplicate_threshold st) (r_title ?r1) (r_description ?r1) (Some (r_id ?r1)) x"
        using best_match_spec[OF s] by (auto simp: report_list_set)
      have "y \<noteq> rid" using xin(2) x(2) v rid by (auto simp: candidate_def)
      moreover have "report_get y (snd ?c) = Some x"
        using find_key_Some[of r_id "reports (snd ?c)" y x] xin(1) x(2) assms(1) try_claim_ids[of rid SUBMITTED VALIDATING None d]
        by (simp add: report_get_find ids_ok_def)
      ultimately have "report_get y d = Some x" using g by simp
      then show ?thesis using \<open>y \<noteq> rid\<close> xin(2) by (auto simp: duplicate_of_def candidate_def)
    qed
    then show ?thesis using frame by blast
  qed
qed

lemma duplicate_unique: "(x, y) \<in> duplicate_of d \<Longrightarrow> (x, z) \<in> duplicate_of d \<Longrightarrow> y = z"
  by (auto simp: duplicate_of_def)

lemma submitted_acyclic:
  assumes "ids_ok d" and "acyclic (duplicate_of d)"
  shows "ids_ok (process_submitted st tx rid d) \<and> acyclic (duplicate_of (process_submitted st tx rid d))"
proof -
  let ?d = "process_submitted st tx rid d"
  note e = submitted_edges[OF assms(1) refl, of st tx rid]
  have sub: "(x, y) \<in> duplicate_of d" if "(x, y) \<in> duplicate_of ?d" "x \<noteq> rid" for x y
    using that e by (auto simp: duplicate_of_def)
  show ?thesis
  proof (cases "duplicate_of ?d \<subseteq> duplicate_of d")
    case True
    then show ?thesis using e assms(2) acyclic_subset by blast
  next
    case False
    then obtain y where y: "(rid, y) \<in> duplicate_of ?d" "(rid, y) \<notin> duplicate_of d" using sub by auto
    then have new: "y \<noteq> rid" "y \<notin> Domain (duplicate_of d)" using e by blast+
    have "(y, rid) \<notin> (duplicate_of d)\<^sup>*"
      using new by (metis Domain.DomainI converse_rtranclE)
    then have "acyclic (insert (rid, y) (duplicate_of d))" using assms(2) by (simp add: acyclic_insert)
    moreover have "duplicate_of ?d \<subseteq> insert (rid, y) (duplicate_of d)" 
    proof (rule subsetI)
      fix z assume z: "z \<in> duplicate_of ?d"
      obtain a b where ab: "z = (a, b)" by fastforce
      show "z \<in> insert (rid, y) (duplicate_of d)"
      proof (cases "a = rid")
        case True
        then have "b = y" using duplicate_unique[OF _ y(1)] z ab by simp
        then show ?thesis using ab True by simp
      qed (use sub z ab in auto)
    qed
    ultimately show ?thesis using e acyclic_subset by blast
  qed
qed

text \<open>C13. Duplicates never form a cycle.  Runs of stage 1, on any reports in any order and with any
  similarity measure, keep the duplicate-of relation acyclic, so following it from a duplicate always ends
  at a report that is none.\<close>

theorem duplicates_never_form_a_cycle:
  assumes "ids_ok d" and "acyclic (duplicate_of d)"
  shows "acyclic (duplicate_of (fold (process_submitted st tx) rids d))"
proof -
  have "ids_ok (fold (process_submitted st tx) rids d) \<and> acyclic (duplicate_of (fold (process_submitted st tx) rids d))"
    using assms by (induction rids arbitrary: d) (simp_all add: submitted_acyclic)
  then show ?thesis by blast
qed

theorem duplicates_never_form_a_cycle_witness:
  "acyclic (duplicate_of (fold (process_submitted default_settings demo_tx) [''a'', ''b''] demo_intake_db))"
  by (rule duplicates_never_form_a_cycle[OF demo_intake_ok(1)]) (simp add: demo_intake_ok(5) acyclic_def)

end
