(* ===== verification/Actions.thy ===== *)
theory Actions
  imports Fix_Stage Open_Pr
begin

text \<open>
  \<open>sync/actions.py\<close>: what an admin action from sonicgrid may do and how its outcome is computed.
  A listed action is a JSON object, so every \<open>.get\<close> on a value that is no object raises, as in the
  code.  \<open>str.casefold\<close> is an argument; the model, git and GitHub are those of the fix and open-pr
  stages.
\<close>

section \<open>Kinds and outcomes\<close>

definition KINDS :: "string list" where
  "KINDS = [''analyze_local'', ''analyze_cloud'', ''fix_and_open_pr'', ''open_pr'', ''set_mode'', ''close'', ''reopen'']"

definition PAID_KINDS :: "string list" where
  "PAID_KINDS = [''analyze_cloud'', ''fix_and_open_pr'']"

definition LLM_KINDS :: "string list" where
  "LLM_KINDS = [''analyze_local'', ''analyze_cloud'', ''fix_and_open_pr'']"

definition OPEN_PR_REFUSED :: "string list" where
  "OPEN_PR_REFUSED =
     [''report_not_found'', ''proposal_not_found'', ''no_proposal'', ''wrong_status'',
      ''github_not_configured'', ''not_github'', ''not_cloned'', ''bad_default_branch'',
      ''bad_id'', ''pr_exists'', ''pr_unattributed'', ''diff_does_not_apply'', ''branch_exists'']"

definition ALLOWLIST_REFUSAL :: string where
  "ALLOWLIST_REFUSAL = ''Cloud analysis from sonicgrid is limited to allowlisted users ''
     @ ''(BUGALIZER_SONICGRID_CLOUD_USERS). Local analysis is available to every admin.''"

definition USER_KEYS_OFF_REFUSAL :: string where
  "USER_KEYS_OFF_REFUSAL = ''Per-user keys are not enabled on Bugalizer yet; nothing ran.''"

definition LEGACY_REFUSAL :: string where
  "LEGACY_REFUSAL = ''Requested before per-user keys; request again.''"

definition NO_PIN_REFUSAL :: string where
  "NO_PIN_REFUSAL = ''Requested without a model pin; request again.''"

definition REQUESTER :: string where "REQUESTER = ''requester''"
definition REQUESTER_PROVIDER :: string where "REQUESTER_PROVIDER = ''anthropic''"

definition reopen_refusal :: "bug_status \<Rightarrow> string" where
  "reopen_refusal s = ''Only a closed report can be reopened; this one is '' @ status_value s"

definition clip :: "string option \<Rightarrow> string option" where
  "clip = map_option (take 2000)"

definition is_paid :: "string \<Rightarrow> bool" where
  "is_paid provider \<longleftrightarrow> map lower (strip provider) \<noteq> ''ollama''"

record result =
  rs_outcome :: string
  rs_message :: "string option"
  rs_steps :: "json option"
  rs_proposal_id :: "string option"
  rs_pr_url :: "string option"

definition Result :: "string \<Rightarrow> string option \<Rightarrow> json option \<Rightarrow> result" where
  "Result outcome message steps =
     \<lparr>rs_outcome = outcome, rs_message = message, rs_steps = steps, rs_proposal_id = None, rs_pr_url = None\<rparr>"

text \<open>A step is a JSON object; its entries that are \<open>None\<close> are left out.\<close>

definition step_of :: "(string \<times> string option) list \<Rightarrow> json" where
  "step_of kvs = JObj (List.map_filter (\<lambda>(k, v). map_option (\<lambda>s. (k, JStr s)) v) kvs)"

definition compound_steps :: "json \<Rightarrow> json option \<Rightarrow> json" where
  "compound_steps fix pr =
     JArr [fix, (case pr of Some j \<Rightarrow> j | None \<Rightarrow> step_of [(''step'', Some ''open_pr''), (''state'', Some ''skipped'')])]"

definition fix_step :: "string \<Rightarrow> string option \<Rightarrow> json" where
  "fix_step state message = step_of [(''step'', Some ''fix''), (''state'', Some state), (''message'', message)]"

definition step_result :: "string \<Rightarrow> string \<Rightarrow> string \<Rightarrow> result" where
  "step_result kind state message =
     Result state (Some message)
       (if kind = ''fix_and_open_pr'' then Some (compound_steps (fix_step state (clip (Some message))) None) else None)"

definition refuse :: "string \<Rightarrow> string \<Rightarrow> result" where
  "refuse kind message = step_result kind ''refused'' message"

section \<open>Authorization\<close>

record authorization =
  au_refusal :: "result option"
  au_pinned :: "(string \<times> string \<times> string) list"
  au_no_auto_retry :: bool
  au_key_mode :: "string option"

definition Refused :: "result \<Rightarrow> (string \<times> string \<times> string) list \<Rightarrow> authorization" where
  "Refused r pinned = \<lparr>au_refusal = Some r, au_pinned = pinned, au_no_auto_retry = False, au_key_mode = None\<rparr>"

definition Granted :: "(string \<times> string \<times> string) list \<Rightarrow> bool \<Rightarrow> string option \<Rightarrow> authorization" where
  "Granted pinned no_retry key_mode =
     \<lparr>au_refusal = None, au_pinned = pinned, au_no_auto_retry = no_retry, au_key_mode = key_mode\<rparr>"

type_synonym jdict = "(string \<times> json) list"

text \<open>\<open>d.get(k) or {}\<close>, then used as an object.\<close>

definition or_obj :: "string \<Rightarrow> jdict \<Rightarrow> exn + jdict" where
  "or_obj k kvs =
     (case map_of kvs k of
        None \<Rightarrow> Inr []
      | Some j \<Rightarrow> if \<not> truthy j then Inr []
                  else (case j of JObj m \<Rightarrow> Inr m | _ \<Rightarrow> Inl (Exn ''AttributeError'' ''no attribute get'')))"

definition allowlisted :: "(string \<Rightarrow> string) \<Rightarrow> settings \<Rightarrow> json option \<Rightarrow> exn + bool" where
  "allowlisted casefold st email =
     (case email of
        None \<Rightarrow> Inr False
      | Some j \<Rightarrow> if \<not> truthy j then Inr False
                  else (case j of JStr e \<Rightarrow> Inr (casefold (strip e) \<in> set (sonicgrid_cloud_user_set casefold st))
                        | _ \<Rightarrow> Inl (Exn ''AttributeError'' ''no attribute strip'')))"

definition requester_pin :: "jdict \<Rightarrow> (string \<times> string) option" where
  "requester_pin params =
     (case map_of params ''llm'' of
        Some (JObj llm) \<Rightarrow>
          if map_of llm ''provider'' \<noteq> Some (JStr REQUESTER_PROVIDER) then None
          else (case map_of llm ''model'' of
                  Some (JStr m) \<Rightarrow> if strip m = [] \<or> length m > 200 then None else Some (REQUESTER_PROVIDER, m)
                | _ \<Rightarrow> None)
      | _ \<Rightarrow> None)"

definition authorize_requester ::
  "project option \<Rightarrow> report \<Rightarrow> string \<Rightarrow> jdict \<Rightarrow> jdict \<Rightarrow> db \<Rightarrow> authorization" where
  "authorize_requester p r kind consents params d =
     (if map_of params ''llm'' = None then Refused (refuse kind LEGACY_REFUSAL) []
      else case requester_pin params of
        None \<Rightarrow> Refused (refuse kind NO_PIN_REFUSAL) []
      | Some pin \<Rightarrow>
          if kind = ''fix_and_open_pr'' \<and> map_of consents ''repoWrite'' \<noteq> Some (JBool True)
          then Refused (refuse kind ''The repo-write consent was not given.'') [(''fix'', pin)]
          else if kind = ''fix_and_open_pr'' \<and> map_of consents ''cloudSpend'' \<noteq> Some (JBool True)
          then Refused (refuse kind ''The cloud-spend consent was not given.'') [(''fix'', pin)]
          else (case check_cloud_analysis r p d of
                  Some (code, why) \<Rightarrow> Refused (refuse kind why) [(''fix'', pin)]
                | None \<Rightarrow> Granted [(''fix'', pin)] True (Some REQUESTER)))"

text \<open>A paid kind with the configured models.\<close>

definition authorize_configured ::
  "(string \<Rightarrow> string) \<Rightarrow> settings \<Rightarrow> project option \<Rightarrow> report \<Rightarrow> string \<Rightarrow> json option \<Rightarrow> jdict \<Rightarrow> jdict
   \<Rightarrow> db \<Rightarrow> exn + authorization" where
  "authorize_configured casefold st p r kind email consents params d =
     (if map_of params ''llm'' \<noteq> None then Inr (Refused (refuse kind USER_KEYS_OFF_REFUSAL) [])
      else
        (let fix = resolve_fix_llm st p; paid = is_paid (fst fix); pinned = [(''fix'', fix)] in
         if kind = ''fix_and_open_pr'' \<and> map_of consents ''repoWrite'' \<noteq> Some (JBool True)
         then Inr (Refused (refuse kind ''The repo-write consent was not given.'') pinned)
         else if kind = ''fix_and_open_pr'' \<and> paid \<and> map_of consents ''cloudSpend'' \<noteq> Some (JBool True)
         then Inr (Refused (refuse kind ''The cloud-spend consent was not given.'') pinned)
         else bindE (if kind = ''analyze_cloud'' \<or> paid then allowlisted casefold st email else Inr True) (\<lambda>ok.
           Inr (if \<not> ok then Refused (refuse kind ALLOWLIST_REFUSAL) pinned
                else (case check_cloud_analysis r p d of
                        Some (code, why) \<Rightarrow> Refused (refuse kind why) pinned
                      | None \<Rightarrow> Granted pinned (kind = ''analyze_cloud'' \<or> paid) None)))))"

definition authorize_local :: "settings \<Rightarrow> project option \<Rightarrow> report \<Rightarrow> authorization" where
  "authorize_local st p r =
     (let triage = resolve_local_llm st p ''triage''; localize = resolve_local_llm st p ''localize'';
          pinned = [(''triage'', triage), (''localization'', localize)]
      in case filter is_paid [fst triage, fst localize] of
           provider # rest \<Rightarrow> Refused (refuse ''analyze_local''
             (''This project's local stages are configured for a non-local provider ('' @ provider
              @ ''); Analyze (local) from sonicgrid runs only on local models.'')) pinned
         | [] \<Rightarrow> (case check_local_analysis r of
                   Some (code, why) \<Rightarrow> Refused (refuse ''analyze_local'' why) pinned
                 | None \<Rightarrow> Granted pinned False None))"

definition mode_check :: "jdict \<Rightarrow> exn + bool" where
  "mode_check params =
     (case map_of params ''mode'' of
        None \<Rightarrow> Inr False
      | Some (JStr m) \<Rightarrow> Inr (m \<in> mode_value ` {AUTO, LOCAL_ONLY, HOLD})
      | Some (JArr xs) \<Rightarrow> Inl (Exn ''TypeError'' ''unhashable type'')
      | Some (JObj kvs) \<Rightarrow> Inl (Exn ''TypeError'' ''unhashable type'')
      | Some j \<Rightarrow> Inr False)"

definition action_params :: "jdict \<Rightarrow> jdict" where
  "action_params action = (case map_of action ''params'' of Some (JObj m) \<Rightarrow> m | _ \<Rightarrow> [])"

definition authorize ::
  "(string \<Rightarrow> string) \<Rightarrow> settings \<Rightarrow> project option \<Rightarrow> report \<Rightarrow> string \<Rightarrow> jdict \<Rightarrow> db \<Rightarrow> exn + authorization" where
  "authorize casefold st p r kind action d =
     bindE (or_obj ''requestedBy'' action) (\<lambda>user.
     bindE (or_obj ''consents'' action) (\<lambda>consents.
       if kind \<notin> set KINDS then Inr (Refused (refuse kind (''Unknown action kind '' @ kind)) [])
       else if kind = ''analyze_local'' then Inr (authorize_local st p r)
       else if kind \<in> set PAID_KINDS then
         (if sonicgrid_user_keys st then Inr (authorize_requester p r kind consents (action_params action) d)
          else authorize_configured casefold st p r kind (map_of user ''email'') consents (action_params action) d)
       else if kind = ''open_pr'' then
         Inr (if map_of consents ''repoWrite'' \<noteq> Some (JBool True)
              then Refused (refuse kind ''The repo-write consent was not given.'') [] else Granted [] False None)
       else if kind = ''set_mode'' then
         bindE (or_obj ''params'' action) (\<lambda>params. bindE (mode_check params) (\<lambda>ok.
           Inr (if ok then Granted [] False None
                else Refused (refuse kind ''params.mode must be auto, local_only or hold'') [])))
       else if kind = ''reopen'' then
         Inr (if r_status r \<noteq> CLOSED then Refused (refuse kind (reopen_refusal (r_status r))) []
              else Granted [] False None)
       else Inr (case check_status_transition r CLOSED of
                   Some (code, why) \<Rightarrow> Refused (refuse kind why) []
                 | None \<Rightarrow> Granted [] False None)))"

end
