(* ===== verification/Action_Exec.thy ===== *)
theory Action_Exec
  imports Actions Local_Safety
begin

text \<open>
  The execution half of \<open>sync/actions.py\<close>: running the stages of an action, the open-pr step, the
  inline kinds, and the evidence an action's own rows give after a crash.
\<close>

section \<open>Stage outcomes as results\<close>

fun show_nat :: "nat \<Rightarrow> string" where
  "show_nat n = (if n < 10 then [digit n] else show_nat (n div 10) @ [digit (n mod 10)])"

declare show_nat.simps [simp del]

definition show_int :: "int \<Rightarrow> string" where
  "show_int i = (if i < 0 then ''-'' @ show_nat (nat (- i)) else show_nat (nat i))"

definition pin_of :: "action_row \<Rightarrow> string \<Rightarrow> (string \<times> string) option" where
  "pin_of row stage = (case t_pinned_llm row of None \<Rightarrow> None | Some pins \<Rightarrow> map_of pins stage)"

definition attribution_ref :: "action_row \<Rightarrow> string option" where
  "attribution_ref row = (if str_set (t_requested_by_user_id row)
     then Some (take 128 (''sonicgrid:'' @ the (t_requested_by_user_id row))) else None)"

fun map_local :: "local_outcome \<Rightarrow> result" where
  "map_local COMPLETED = Result ''done'' (Some ''Local analysis finished: localization written'') None"
| "map_local FAILED = Result ''failed'' (Some ''Local analysis ran and failed; see Bugalizer for the error'') None"
| "map_local TRIAGE_ONLY = Result ''failed'' (Some ''Triage asked for clarification; no localization was produced'') None"
| "map_local ALREADY_FRESH = Result ''refused'' (Some ''Localization is already current for this commit; nothing re-run'') None"
| "map_local NO_REPO = Result ''refused'' (Some ''The project repo is not cloned on Bugalizer'') None"
| "map_local NOT_CLAIMED = Result ''refused'' (Some ''Another analysis held this report; nothing ran'') None"

definition fix_made :: "string \<Rightarrow> string \<Rightarrow> result" where
  "fix_made kind pid =
     (if kind = ''fix_and_open_pr'' then (Result ''fix_done'' None None)\<lparr>rs_proposal_id := Some pid\<rparr>
      else (Result ''done'' (Some (''Fix proposal '' @ pid @ '' made'')) None)\<lparr>rs_proposal_id := Some pid\<rparr>)"

definition map_fix :: "string \<Rightarrow> fix_outcome \<Rightarrow> result" where
  "map_fix kind out =
     (case out of
        Proposed pid \<Rightarrow> fix_made kind pid
      | Failed err \<Rightarrow> step_result kind ''failed''
          (''The fix proposal failed: '' @ (if err = [] then ''error'' else err))
      | Already_proposed pid \<Rightarrow> step_result kind ''refused''
          (''The latest localization already has fix proposal '' @ pid
           @ ''; request Open PR for it, or re-run local analysis first'')
      | Deferred err \<Rightarrow> step_result kind ''refused''
          (''The fix did not run: '' @ (if err = [] then ''precondition not met'' else err))
      | Not_claimed \<Rightarrow> step_result kind ''refused'' ''Another run held this report; nothing ran'')"

section \<open>The model part of an action\<close>

text \<open>\<open>LLMOverride(...)\<close>: the field checks of the model, which raise \<open>ValidationError\<close>.\<close>

definition key_ref_char :: "char \<Rightarrow> bool" where
  "key_ref_char c \<longleftrightarrow> is_upper c \<or> is_lower c \<or> is_digit c \<or> c \<in> set ''._:/-''"

definition bounded :: "nat \<Rightarrow> string option \<Rightarrow> bool" where
  "bounded n x = (case x of None \<Rightarrow> True | Some s \<Rightarrow> s \<noteq> [] \<and> length s \<le> n)"

definition make_override ::
  "string option \<Rightarrow> string option \<Rightarrow> string option \<Rightarrow> string option \<Rightarrow> exn + llm_override" where
  "make_override provider model api_key key_ref =
     (if bounded 50 provider \<and> bounded 200 model \<and> bounded 128 key_ref
         \<and> (case key_ref of None \<Rightarrow> True | Some s \<Rightarrow> list_all key_ref_char s)
      then Inr \<lparr>ov_provider = provider, ov_model = model, ov_api_key = api_key, ov_key_ref = key_ref\<rparr>
      else Inl (Exn ''ValidationError'' ''invalid LLMOverride''))"

definition run_fix ::
  "settings \<Rightarrow> 'w stage_deps \<Rightarrow> action_row \<Rightarrow> llm_override option \<Rightarrow> string option \<Rightarrow> bool \<Rightarrow> db \<Rightarrow> 'w
   \<Rightarrow> (exn + result) \<times> db \<times> 'w" where
  "run_fix st dep row ov attribution require d w =
     (case propose_fix st dep (t_report_id row) ov attribution (Some (t_action_id row)) require d w of
        (res, d1, w1) \<Rightarrow> (map_sum id (map_fix (t_kind row)) res, d1, w1))"

definition run_llm ::
  "settings \<Rightarrow> 'w stage_deps \<Rightarrow> 'w local_deps \<Rightarrow> action_row \<Rightarrow> string option \<Rightarrow> db \<Rightarrow> 'w
   \<Rightarrow> (exn + result) \<times> db \<times> 'w" where
  "run_llm st dep ldep row api_key d w =
     (let pin = pin_of row ''fix'' in
      if t_key_mode row = Some REQUESTER then
        (case pin of
           None \<Rightarrow> (Inr (step_result (t_kind row) ''failed'' ''invalid credential response''), d, w)
         | Some (provider, model) \<Rightarrow>
             if provider \<noteq> REQUESTER_PROVIDER \<or> \<not> str_set api_key
             then (Inr (step_result (t_kind row) ''failed'' ''invalid credential response''), d, w)
             else (case make_override (Some provider) (Some model) api_key (attribution_ref row) of
                     Inl e \<Rightarrow> (Inl e, d, w)
                   | Inr ov \<Rightarrow> run_fix st dep row (Some ov) None True d w))
      else if t_kind row = ''analyze_local'' then
        (case run_local_analysis st ldep (t_report_id row) (pin_of row ''triage'') (pin_of row ''localization'')
                (Some (t_action_id row)) d w of
           (out, d1, w1) \<Rightarrow> (Inr (map_local out), d1, w1))
      else if sonicgrid_user_keys st \<and> (case pin of None \<Rightarrow> True | Some p \<Rightarrow> is_paid (fst p))
      then (Inr (refuse (t_kind row) LEGACY_REFUSAL), d, w)
      else (case pin of
              None \<Rightarrow> run_fix st dep row None (attribution_ref row) False d w
            | Some (provider, model) \<Rightarrow>
                (case make_override (Some provider) (Some model) None None of
                   Inl e \<Rightarrow> (Inl e, d, w)
                 | Inr ov \<Rightarrow> run_fix st dep row (Some ov) (attribution_ref row) False d w)))"

section \<open>The open-pr step\<close>

record 'w pr_deps =
  pd_git :: "'w git"
  pd_github :: "'w github"
  pd_render :: "report \<Rightarrow> fix_proposal \<Rightarrow> string"
  pd_exists :: "string \<Rightarrow> 'w \<Rightarrow> bool"
  pd_rmtree :: "string \<Rightarrow> 'w \<Rightarrow> 'w"
  pd_has_git :: "string \<Rightarrow> bool"
  pd_web_base :: string
  pd_worktree :: "string \<Rightarrow> string \<Rightarrow> string option"
  pd_message :: "string \<Rightarrow> string"

record pr_attempt =
  sr_state :: "string option"
  sr_message :: "string option"
  sr_ref :: "string option"
  sr_attempts :: nat

definition call_open_pr :: "settings \<Rightarrow> 'w pr_deps \<Rightarrow> string \<Rightarrow> string option \<Rightarrow> ('w, answer) step" where
  "call_open_pr st pd = open_pull_request st (pd_git pd) (pd_github pd) (pd_render pd) (pd_exists pd)
     (pd_rmtree pd) (pd_has_git pd) (pd_web_base pd) (pd_worktree pd)"

definition pushed_note :: "string \<Rightarrow> string option \<Rightarrow> db \<Rightarrow> string" where
  "pushed_note rid pid d =
     (let proposals = fix_proposals_for_report rid d;
          target = (case find (\<lambda>f. Some (f_id f) = pid) proposals of Some f \<Rightarrow> Some f | None \<Rightarrow> fetchone proposals)
      in case target of
           Some f \<Rightarrow> if str_set (f_pushed_sha f) \<and> str_set (f_branch_name f)
                     then ''branch `'' @ the (f_branch_name f) @ ''` pushed; '' else []
         | None \<Rightarrow> [])"

definition failed_attempt :: "string \<Rightarrow> string option \<Rightarrow> nat \<Rightarrow> string \<Rightarrow> db \<Rightarrow> pr_attempt" where
  "failed_attempt rid pid attempts detail d =
     (let n = attempts + 1 in
      if n < 3 then \<lparr>sr_state = None, sr_message = None, sr_ref = None, sr_attempts = n\<rparr>
      else \<lparr>sr_state = Some ''failed'',
            sr_message = Some (pushed_note rid pid d @ ''PR creation failed after '' @ show_nat n @ '' attempts (''
              @ detail @ ''); a later Open PR request resumes from here''),
            sr_ref = None, sr_attempts = n\<rparr>)"

text \<open>The error's own text, with the recorded PR's address when it has one, is \<open>pd_message\<close>.\<close>

definition pr_step ::
  "settings \<Rightarrow> 'w pr_deps \<Rightarrow> string \<Rightarrow> string option \<Rightarrow> nat \<Rightarrow> 'w env \<Rightarrow> pr_attempt \<times> 'w env" where
  "pr_step st pd rid pid attempts s =
     (case call_open_pr st pd rid pid s of
        (Inr a, s1) \<Rightarrow>
          (\<lparr>sr_state = Some ''done'',
            sr_message = Some (''PR #'' @ (case an_pr_number a of None \<Rightarrow> ''None'' | Some n \<Rightarrow> show_int n)
              @ (if an_created a then '' opened on '' else '' already open on '') @ an_branch a),
            sr_ref = an_pr_url a, sr_attempts = attempts\<rparr>, s1)
      | (Inl (OpenPrError status code), s1) \<Rightarrow>
          (if code \<in> set OPEN_PR_REFUSED
           then (\<lparr>sr_state = Some ''refused'', sr_message = Some (code @ '': '' @ pd_message pd code), sr_ref = None,
                  sr_attempts = attempts\<rparr>, s1)
           else if code = ''in_progress''
           then (\<lparr>sr_state = None, sr_message = None, sr_ref = None, sr_attempts = attempts\<rparr>, s1)
           else (failed_attempt rid pid attempts code (e_db s1), s1))
      | (Inl (OtherError name), s1) \<Rightarrow> (failed_attempt rid pid attempts name (e_db s1), s1))"

section \<open>Inline kinds\<close>

text \<open>A mode is checked when the action is authorized; a missing one violates NOT NULL.\<close>

definition run_inline :: "action_row \<Rightarrow> db \<Rightarrow> result \<times> db" where
  "run_inline row d =
     (case report_get (t_report_id row) d of
        None \<Rightarrow> (Result ''refused'' (Some ''Bug report not found in Bugalizer'') None, d)
      | Some r \<Rightarrow>
          if t_kind row = ''set_mode'' then
            (case find (\<lambda>m. jget ''mode'' (t_params row) = Some (JStr (mode_value m))) [AUTO, LOCAL_ONLY, HOLD] of
               None \<Rightarrow> (Result ''failed'' (Some ''Could not set the mode (IntegrityError)'') None, d)
             | Some m \<Rightarrow> (Result ''done'' (Some (''Analysis mode set to '' @ mode_value m)) None,
                          snd (report_update_fields (t_report_id row) [RF_mode m] d)))
          else if r_status r = CLOSED
          then (Result ''done'' (Some ''Report closed in Bugalizer'') None, d)
          else (case check_status_transition r CLOSED of
                  Some (code, why) \<Rightarrow> (Result ''refused'' (Some why) None, d)
                | None \<Rightarrow>
                    (case report_update_status (t_report_id row) CLOSED None (Some (r_status r)) d of
                       (None, d1) \<Rightarrow> (Result ''refused''
                          (Some ''Report status changed during the update; request again'') None, d1)
                     | (Some _, d1) \<Rightarrow> (Result ''done'' (Some ''Report closed in Bugalizer'') None, d1))))"

section \<open>Recovery evidence\<close>

definition interrupted :: "analysis \<Rightarrow> bool" where
  "interrupted a \<longleftrightarrow> (case a_result a of Some j \<Rightarrow> opt_truthy (jget ''interrupted'' j) | None \<Rightarrow> False)"

definition finished_rows :: "string \<Rightarrow> db \<Rightarrow> analysis list" where
  "finished_rows aid d = filter (\<lambda>a. \<not> interrupted a) (analyses_by_trigger aid d)"

definition evidence :: "action_row \<Rightarrow> db \<Rightarrow> result option" where
  "evidence row d =
     (let aid = t_action_id row; rows = finished_rows aid d in
      if t_kind row = ''analyze_local'' then
        (if list_ex (\<lambda>a. a_phase a = P_LOCALIZATION \<and> a_status a = A_COMPLETED) rows
         then Some (map_local COMPLETED)
         else if list_ex (\<lambda>a. a_status a = A_FAILED) rows then Some (map_local FAILED) else None)
      else if t_kind row \<in> set PAID_KINDS then
        (case fix_proposals_by_trigger aid d of
           f # _ \<Rightarrow> Some (fix_made (t_kind row) (f_id f))
         | [] \<Rightarrow> if list_ex (\<lambda>a. a_phase a = P_FIX \<and> a_status a = A_FAILED) rows
                 then Some (step_result (t_kind row) ''failed'' ''The fix proposal failed; see Bugalizer for the error'')
                 else None)
      else None)"

definition stage_claim_held :: "string \<Rightarrow> db \<Rightarrow> bool" where
  "stage_claim_held rid d = (case report_get rid d of None \<Rightarrow> False
     | Some r \<Rightarrow> r_status r = ANALYZING \<or> r_status r = FIX_PROPOSING)"

definition unconfirmed_failure :: "string \<Rightarrow> result" where
  "unconfirmed_failure kind = step_result kind ''failed''
     (''dispatch could not be confirmed; not retried automatically to avoid ''
      @ ''a second cloud charge; request again'')"

end
