(* ===== verification/Action_Safety.thy ===== *)
theory Action_Safety
  imports Action_Exec
begin

text \<open>
  What an admin action may spend: the conditions under which a paid kind is granted, and which API
  key its model call can reach.
\<close>

section \<open>Authorization\<close>

lemma requester_pin_cases:
  "case requester_pin params of None \<Rightarrow> True
   | Some (p, m) \<Rightarrow> p = ''anthropic'' \<and> strip m \<noteq> [] \<and> length m \<le> 200"
  by (auto simp: requester_pin_def REQUESTER_PROVIDER_def split: option.splits json.splits)

lemma requester_granted:
  assumes "au_refusal (authorize_requester p r kind consents params d) = None"
  shows "\<exists>m. requester_pin params = Some (''anthropic'', m) \<and> strip m \<noteq> [] \<and> length m \<le> 200
    \<and> authorize_requester p r kind consents params d = Granted [(''fix'', ''anthropic'', m)] True (Some REQUESTER)
    \<and> check_cloud_analysis r p d = None
    \<and> (if kind = ''fix_and_open_pr'' then map_of consents ''repoWrite'' = Some (JBool True)
         \<and> map_of consents ''cloudSpend'' = Some (JBool True) else True)"
  using assms requester_pin_cases[of params]
  by (auto simp: authorize_requester_def Refused_def split: if_splits option.splits)

lemma configured_granted:
  assumes "authorize_configured cf st p r kind email consents params d = Inr a" and "au_refusal a = None"
  shows "map_of params ''llm'' = None \<and> check_cloud_analysis r p d = None
    \<and> a = Granted [(''fix'', resolve_fix_llm st p)] (kind = ''analyze_cloud'' \<or> is_paid (fst (resolve_fix_llm st p))) None
    \<and> (if kind = ''analyze_cloud'' \<or> is_paid (fst (resolve_fix_llm st p)) then allowlisted cf st email = Inr True else True)
    \<and> (if kind = ''fix_and_open_pr'' then map_of consents ''repoWrite'' = Some (JBool True)
         \<and> (if is_paid (fst (resolve_fix_llm st p)) then map_of consents ''cloudSpend'' = Some (JBool True) else True)
       else True)"
proof -
  let ?fix = "resolve_fix_llm st p" let ?spend = "kind = ''analyze_cloud'' \<or> is_paid (fst ?fix)"
  have no: "Inr (Refused x y) \<noteq> Inr a" for x y using assms(2) by (auto simp: Refused_def)
  have llm: "map_of params ''llm'' = None"
    using assms(1) no by (cases "map_of params ''llm''") (simp_all add: authorize_configured_def)
  have repo: "\<not> (kind = ''fix_and_open_pr'' \<and> map_of consents ''repoWrite'' \<noteq> Some (JBool True))"
    using assms(1) no llm unfolding authorize_configured_def Let_def by meson
  have cost: "\<not> (kind = ''fix_and_open_pr'' \<and> is_paid (fst ?fix) \<and> map_of consents ''cloudSpend'' \<noteq> Some (JBool True))"
    using assms(1) no llm repo unfolding authorize_configured_def Let_def by meson
  have rest: "bindE (if ?spend then allowlisted cf st email else Inr True) (\<lambda>ok.
      Inr (if \<not> ok then Refused (refuse kind ALLOWLIST_REFUSAL) [(''fix'', ?fix)]
           else (case check_cloud_analysis r p d of
                   Some (code, why) \<Rightarrow> Refused (refuse kind why) [(''fix'', ?fix)]
                 | None \<Rightarrow> Granted [(''fix'', ?fix)] ?spend None))) = Inr a"
    using assms(1) llm unfolding authorize_configured_def Let_def if_not_P[OF repo] if_not_P[OF cost] by simp
  then obtain ok where ok: "(if ?spend then allowlisted cf st email else Inr True) = Inr ok"
    "(if \<not> ok then Refused (refuse kind ALLOWLIST_REFUSAL) [(''fix'', ?fix)]
      else (case check_cloud_analysis r p d of
              Some (code, why) \<Rightarrow> Refused (refuse kind why) [(''fix'', ?fix)]
            | None \<Rightarrow> Granted [(''fix'', ?fix)] ?spend None)) = a"
    unfolding bindE_Inr by blast
  have "ok" using ok(2) no by (cases ok) auto
  moreover have "check_cloud_analysis r p d = None" using ok(2) \<open>ok\<close> no
    by (cases "check_cloud_analysis r p d") auto
  ultimately show ?thesis using llm repo cost ok by (auto split: if_splits)
qed

lemma local_granted:
  assumes "au_refusal (authorize_local st p r) = None"
  shows "au_key_mode (authorize_local st p r) = None \<and> \<not> au_no_auto_retry (authorize_local st p r)
    \<and> list_all (\<lambda>(stage, provider, model). \<not> is_paid provider) (au_pinned (authorize_local st p r))"
  using assms
  by (auto simp: authorize_local_def Refused_def Granted_def Let_def split: list.splits option.splits if_splits)

text \<open>The terms of a granted paid kind.\<close>

definition paid_terms ::
  "(string \<Rightarrow> string) \<Rightarrow> settings \<Rightarrow> project option \<Rightarrow> report \<Rightarrow> string \<Rightarrow> jdict \<Rightarrow> db \<Rightarrow> authorization \<Rightarrow> bool" where
  "paid_terms casefold st p r kind action d a \<longleftrightarrow>
     (\<exists>consents user. or_obj ''consents'' action = Inr consents \<and> or_obj ''requestedBy'' action = Inr user
        \<and> check_cloud_analysis r p d = None
        \<and> (if kind = ''fix_and_open_pr'' then map_of consents ''repoWrite'' = Some (JBool True) else True)
        \<and> (if sonicgrid_user_keys st
           then \<exists>m. requester_pin (action_params action) = Some (''anthropic'', m) \<and> strip m \<noteq> [] \<and> length m \<le> 200
             \<and> au_pinned a = [(''fix'', ''anthropic'', m)] \<and> au_no_auto_retry a \<and> au_key_mode a = Some REQUESTER
             \<and> (if kind = ''fix_and_open_pr'' then map_of consents ''cloudSpend'' = Some (JBool True) else True)
           else map_of (action_params action) ''llm'' = None \<and> au_key_mode a = None \<and> au_pinned a = [(''fix'', resolve_fix_llm st p)]
             \<and> (if kind = ''analyze_cloud'' \<or> is_paid (fst (resolve_fix_llm st p))
                then au_no_auto_retry a \<and> allowlisted casefold st (map_of user ''email'') = Inr True else True)
             \<and> (if kind = ''fix_and_open_pr'' \<and> is_paid (fst (resolve_fix_llm st p))
                then map_of consents ''cloudSpend'' = Some (JBool True) else True)))"

text \<open>C4. A paid action is granted only on its terms.  Granting \<open>analyze_cloud\<close> or \<open>fix_and_open_pr\<close>
  means the report passes the cloud preconditions and the consents asked for were given; with per-user
  keys on it is pinned to Anthropic and a non-blank model of at most 200 characters taken from the
  action, on the requester's key, and never retried; with them off it carries no model of
  its own, runs on the configured model, and if that is paid (or the kind is \<open>analyze_cloud\<close>) its
  requester is allowlisted and it is never retried.  A granted local analysis is pinned to local
  models only.\<close>

theorem paid_actions_granted_on_terms:
  "case authorize casefold st p r kind action d of Inl e \<Rightarrow> True | Inr a \<Rightarrow>
     if au_refusal a \<noteq> None then True
     else if kind = ''analyze_local'' then list_all (\<lambda>(stage, provider, model). \<not> is_paid provider) (au_pinned a)
     else if kind \<in> set PAID_KINDS then paid_terms casefold st p r kind action d a
     else True"
proof (cases "authorize casefold st p r kind action d")
  case (Inr a)
  then obtain user consents where uc: "or_obj ''requestedBy'' action = Inr user" "or_obj ''consents'' action = Inr consents"
    by (auto simp: authorize_def bindE_Inr)
  have "list_all (\<lambda>(stage, provider, model). \<not> is_paid provider) (au_pinned a)"
    if "au_refusal a = None" "kind = ''analyze_local''"
  proof -
    have "a = authorize_local st p r" using Inr uc that(2) by (simp add: authorize_def KINDS_def)
    then show ?thesis using that(1) local_granted by simp
  qed
  moreover have "paid_terms casefold st p r kind action d a"
    if nk: "au_refusal a = None" and k: "kind \<in> set PAID_KINDS"
  proof (cases "sonicgrid_user_keys st")
    case True
    then have "a = authorize_requester p r kind consents (action_params action) d"
      using Inr uc k by (auto simp: authorize_def KINDS_def PAID_KINDS_def)
    then show ?thesis using requester_granted[of p r kind consents "action_params action" d] nk True uc
      by (auto simp: Granted_def paid_terms_def)
  next
    case off: False
    then have "authorize_configured casefold st p r kind (map_of user ''email'') consents (action_params action) d = Inr a"
      using Inr uc k by (auto simp: authorize_def KINDS_def PAID_KINDS_def)
    from configured_granted[OF this nk] show ?thesis using off uc by (simp add: Granted_def paid_terms_def)
  qed
  ultimately show ?thesis using Inr by simp
qed simp

section \<open>Which key a model call can reach\<close>

lemma run_fix_ignores_key:
  assumes "request_key ov \<noteq> None \<or> (\<exists>v p. ov = Some v \<and> ov_provider v = Some p \<and> p \<noteq> [] \<and> p \<noteq> ''anthropic'')"
  shows "run_fix (st\<lparr>anthropic_api_key := k\<rparr>) dep row ov att require d w = run_fix st dep row ov att require d w"
proof -
  have req: "fix_request (st\<lparr>anthropic_api_key := k\<rparr>) dep ov r loc p files w
      = fix_request st dep ov r loc p files w" for r loc p files and w :: 'a
  proof (cases "request_key ov")
    case None
    then obtain v q where "ov = Some v" "ov_provider v = Some q" "q \<noteq> []" "q \<noteq> ''anthropic''" using assms by auto
    then show ?thesis
      by (cases "q = ''ollama''")
         (simp_all add: fix_request_def resolve_fix_llm_def complete_def complete_request_def or_else_def case_prod_beta)
  qed (rule request_key_alone)
  show ?thesis unfolding run_fix_def propose_fix_ignores_key[OF req] ..
qed

lemma made_override:
  "make_override (Some p) m key kr = Inr ov \<Longrightarrow> ov_provider ov = Some p \<and> p \<noteq> [] \<and> ov_api_key ov = key"
  by (auto simp: make_override_def bounded_def split: if_splits)

text \<open>C7. With per-user keys on, the configured Anthropic key is out of reach of every admin action of a
  paid kind: whatever its row says, its model part runs exactly as it would with any other configured key.\<close>

theorem configured_key_out_of_reach:
  "if sonicgrid_user_keys st \<and> t_kind row \<in> set PAID_KINDS
   then run_llm (st\<lparr>anthropic_api_key := k\<rparr>) dep ldep row api_key d w = run_llm st dep ldep row api_key d w
   else True"
proof -
  have "run_llm (st\<lparr>anthropic_api_key := k\<rparr>) dep ldep row api_key d w = run_llm st dep ldep row api_key d w"
    if on: "sonicgrid_user_keys st" and kind: "t_kind row \<noteq> ''analyze_local''"
  proof (cases "pin_of row ''fix''")
    case None
    then show ?thesis using on kind by (simp add: run_llm_def Let_def)
  next
    case (Some pin)
    obtain provider model where pin: "pin = (provider, model)" by fastforce
    show ?thesis
    proof (cases "t_key_mode row = Some REQUESTER")
      case True
      have "run_fix (st\<lparr>anthropic_api_key := k\<rparr>) dep row (Some ov) None True d w = run_fix st dep row (Some ov) None True d w"
        if "make_override (Some provider) (Some model) api_key kr = Inr ov" "str_set api_key" for ov kr
        using made_override[OF that(1)] that(2)
        by (intro run_fix_ignores_key) (auto simp: request_key_def has_key_def str_set_iff)
      then show ?thesis using True Some pin by (simp add: run_llm_def Let_def split: sum.split)
    next
      case False
      show ?thesis
      proof (cases "is_paid provider")
        case True
        then show ?thesis using False Some pin on kind by (simp add: run_llm_def Let_def)
      next
        case free: False
        then have p: "provider \<noteq> ''anthropic''" by (auto simp: is_paid_def strip_def lstrip_def rstrip_def is_space_def lower_def)
        have "run_fix (st\<lparr>anthropic_api_key := k\<rparr>) dep row (Some ov) att False d w = run_fix st dep row (Some ov) att False d w"
          if "make_override (Some provider) (Some model) None None = Inr ov" for ov att
          using made_override[OF that] p by (intro run_fix_ignores_key) auto
        then show ?thesis using False Some pin on kind free by (simp add: run_llm_def Let_def split: sum.split)
      qed
    qed
  qed
  moreover have "t_kind row \<noteq> ''analyze_local''" if "t_kind row \<in> set PAID_KINDS" using that by (auto simp: PAID_KINDS_def)
  ultimately show ?thesis by simp
qed

end
