(* ===== verification/Triage_Exec.thy ===== *)
theory Triage_Exec
  imports Action_Exec
begin

text \<open>
  The executing half of \<open>sync/triage_sync.py\<close>: executor slots, ledger helpers, the time bound, the
  credential exchange, and the action tasks.  A function that awaits is split where it awaits, so
  that \<open>Triage_Safety\<close> can interleave the parts; the functions here compose them in the code's order.
  The process state is \<open>sync\<close>: the database and world, the slots, the backoff counters and the
  log of calls out (which the code only writes to its log file).
\<close>

section \<open>State\<close>

text \<open>
  A task is ready, or its call (model or GitHub) has answered and the rest is still to run.  The
  ledger row it works on is the one it read when it started.
\<close>

datatype task =
    Llm_ready
  | Llm_answered action_row result
  | Pr_ready
  | Pr_answered action_row pr_attempt

record hold =
  h_report :: string
  h_llm :: bool
  h_task :: "task option"

datatype call_out = Credential_request string | Model_run string | Pr_run string

record outcome =
  oc_actions_seen :: nat
  oc_actions_started :: nat
  oc_terminals_posted :: nat
  oc_results_pushed :: nat
  oc_unresolved :: nat
  oc_error :: "string option"
  oc_consecutive_failures :: nat

definition TickOutcome :: outcome where
  "TickOutcome = \<lparr>oc_actions_seen = 0, oc_actions_started = 0, oc_terminals_posted = 0, oc_results_pushed = 0,
     oc_unresolved = 0, oc_error = None, oc_consecutive_failures = 0\<rparr>"

text \<open>\<open>sy_out\<close> is the outcome object of the tick that is running.\<close>

record 'w sync =
  sy_env :: "'w env"
  sy_holds :: "(string \<times> hold) list"
  sy_skip :: "(string \<times> nat) list"
  sy_calls :: "call_out list"
  sy_out :: outcome

datatype sg_request =
    Get_actions "string option"
  | Post_action string json
  | Put_result string string
  | Post_credential string

datatype sg_answer = Sg_timeout | Sg_error | Sg_response nat "json option"

text \<open>A route's base address and token; a body that is no JSON is \<open>None\<close>.\<close>

type_synonym 'w sonicgrid = "string \<times> string \<Rightarrow> sg_request \<Rightarrow> 'w \<Rightarrow> sg_answer \<times> 'w"

record 'w sync_deps =
  sd_stage :: "'w stage_deps"
  sd_local :: "'w local_deps"
  sd_pr :: "'w pr_deps"
  sd_http :: "'w sonicgrid"
  sd_github :: "'w http"
  sd_environ :: "string \<Rightarrow> string option"
  sd_env_file :: "string \<Rightarrow> string option option"
  sd_casefold :: "string \<Rightarrow> string"
  sd_fmt_g :: "rat \<Rightarrow> string"
  sd_str :: "json \<Rightarrow> string"
  sd_dumps :: "json \<Rightarrow> string"
  sd_loads :: "string \<Rightarrow> json option"
  sd_sha256 :: "string \<Rightarrow> string"
  sd_utf8_length :: "string \<Rightarrow> nat"
  sd_epoch_us :: "'w \<Rightarrow> int \<times> 'w"

definition sy_db :: "'w sync \<Rightarrow> db" where
  "sy_db s = e_db (sy_env s)"

definition set_db :: "db \<Rightarrow> 'w sync \<Rightarrow> 'w sync" where
  "set_db d s = s\<lparr>sy_env := (sy_env s)\<lparr>e_db := d\<rparr>\<rparr>"

definition set_world :: "'w \<Rightarrow> 'w sync \<Rightarrow> 'w sync" where
  "set_world w s = s\<lparr>sy_env := (sy_env s)\<lparr>e_world := w\<rparr>\<rparr>"

definition on_db :: "(db \<Rightarrow> 'a \<times> db) \<Rightarrow> 'w sync \<Rightarrow> 'a \<times> 'w sync" where
  "on_db f s = (case f (sy_db s) of (x, d) \<Rightarrow> (x, set_db d s))"

definition called :: "call_out \<Rightarrow> 'w sync \<Rightarrow> 'w sync" where
  "called c s = s\<lparr>sy_calls := c # sy_calls s\<rparr>"

definition count_out :: "(outcome \<Rightarrow> outcome) \<Rightarrow> 'w sync \<Rightarrow> 'w sync" where
  "count_out f s = s\<lparr>sy_out := f (sy_out s)\<rparr>"

section \<open>Slots\<close>

text \<open>A task leaves its hold when it ends, so a hold's task is a running one.\<close>

definition hold_of :: "string \<Rightarrow> 'w sync \<Rightarrow> hold option" where
  "hold_of aid s = map_of (sy_holds s) aid"

definition task_of :: "string \<Rightarrow> 'w sync \<Rightarrow> task option" where
  "task_of aid s = (case hold_of aid s of None \<Rightarrow> None | Some h \<Rightarrow> h_task h)"

definition task_running :: "string \<Rightarrow> 'w sync \<Rightarrow> bool" where
  "task_running aid s \<longleftrightarrow> task_of aid s \<noteq> None"

definition max_llm :: "settings \<Rightarrow> nat" where
  "max_llm st = nat (max 1 (triage_max_concurrent st))"

definition try_hold :: "settings \<Rightarrow> string \<Rightarrow> string \<Rightarrow> bool \<Rightarrow> 'w sync \<Rightarrow> bool \<times> 'w sync" where
  "try_hold st aid rid llm s =
     (if hold_of aid s \<noteq> None then (True, s)
      else if list_ex (\<lambda>(other, h). h_report h = rid) (sy_holds s) then (False, s)
      else if llm \<and> length (filter (\<lambda>(other, h). h_llm h) (sy_holds s)) \<ge> max_llm st then (False, s)
      else (True, s\<lparr>sy_holds := sy_holds s @ [(aid, \<lparr>h_report = rid, h_llm = llm, h_task = None\<rparr>)]\<rparr>))"

text \<open>\<open>own\<close>: the caller is the hold's own task.\<close>

definition release :: "bool \<Rightarrow> string \<Rightarrow> 'w sync \<Rightarrow> 'w sync" where
  "release own aid s =
     (if own \<or> \<not> task_running aid s then s\<lparr>sy_holds := filter (\<lambda>(k, h). k \<noteq> aid) (sy_holds s)\<rparr> else s)"

definition set_task :: "string \<Rightarrow> task \<Rightarrow> 'w sync \<Rightarrow> 'w sync" where
  "set_task aid t s =
     s\<lparr>sy_holds := map (\<lambda>(k, h). if k = aid then (k, h\<lparr>h_task := Some t\<rparr>) else (k, h)) (sy_holds s)\<rparr>"

text \<open>\<open>_holds[action_id].task = asyncio.create_task(...)\<close>.\<close>

definition spawn :: "string \<Rightarrow> task \<Rightarrow> 'w sync \<Rightarrow> (exn + unit) \<times> 'w sync" where
  "spawn aid t s =
     (if hold_of aid s = None then (Inl (Exn ''KeyError'' aid), s) else (Inr (), set_task aid t s))"

section \<open>Ledger helpers\<close>

definition row_of :: "string \<Rightarrow> 'w sync \<Rightarrow> action_row option" where
  "row_of aid s = triage_action_get aid (sy_db s)"

definition update_row :: "string \<Rightarrow> ledger_phase option \<Rightarrow> action_field list \<Rightarrow> 'w sync \<Rightarrow> bool \<times> 'w sync" where
  "update_row aid expected args = on_db (triage_action_update aid expected args)"

definition now_stamp :: "'w sync \<Rightarrow> stamp \<times> 'w sync" where
  "now_stamp = on_db utcnow"

definition terminal_body :: "action_row \<Rightarrow> json" where
  "terminal_body row =
     JObj ([(''state'', case t_outcome row of None \<Rightarrow> JNull | Some x \<Rightarrow> JStr x)]
       @ (if str_set (t_message row) then [(''message'', JStr (take 2000 (the (t_message row))))] else [])
       @ (if t_kind row = ''fix_and_open_pr''
          then [(''steps'', if opt_truthy (t_steps row) then the (t_steps row)
                 else compound_steps (step_of [(''step'', Some ''fix''), (''state'', t_outcome row)]) None)]
          else []))"

definition finish :: "string \<Rightarrow> result \<Rightarrow> ledger_phase option \<Rightarrow> 'w sync \<Rightarrow> bool \<times> 'w sync" where
  "finish aid res expected s =
     (case on_db (triage_action_finish aid (rs_outcome res) (clip (rs_message res)) (rs_steps res) expected) s of
        (finished, s1) \<Rightarrow>
          (finished,
           (if finished then (if str_set (rs_pr_url res) then snd (update_row aid None [TF_pr_url (rs_pr_url res)] s1) else s1)
            else snd (update_row aid None [TF_late_outcome (Some (rs_outcome res))] s1))))"

definition bound_us :: "settings \<Rightarrow> int" where
  "bound_us st = round_half_even (triage_action_timeout_minutes st * 60000000)"

definition timed_out :: "settings \<Rightarrow> action_row \<Rightarrow> 'w sync \<Rightarrow> bool \<times> 'w sync" where
  "timed_out st row s =
     (case t_intent_at row of
        None \<Rightarrow> (False, s)
      | Some (Malformed x) \<Rightarrow> (x \<noteq> [], s)
      | Some (Iso started) \<Rightarrow>
          (case now_stamp s of (now, s1) \<Rightarrow> (int now - int started \<ge> bound_us st, s1)))"

definition timeout_result :: "settings \<Rightarrow> 'w sync_deps \<Rightarrow> action_row \<Rightarrow> result" where
  "timeout_result st dep row =
     (let message = ''timed out after '' @ sd_fmt_g dep (triage_action_timeout_minutes st) @ '' min'' in
      if t_kind row = ''fix_and_open_pr'' then
        (case t_steps row of
           Some (JArr (first # rest)) \<Rightarrow>
             if t_phase row = FIX_DONE
             then Result ''failed'' (Some message) (Some (compound_steps first (Some (step_of
                    [(''step'', Some ''open_pr''), (''state'', Some ''failed''), (''message'', Some message)]))))
             else Result ''failed'' (Some message) (Some (compound_steps (fix_step ''failed'' (Some message)) None))
         | _ \<Rightarrow> Result ''failed'' (Some message) (Some (compound_steps (fix_step ''failed'' (Some message)) None)))
      else Result ''failed'' (Some message) None)"

definition expire_if_overdue :: "settings \<Rightarrow> 'w sync_deps \<Rightarrow> string \<Rightarrow> 'w sync \<Rightarrow> bool \<times> 'w sync" where
  "expire_if_overdue st dep aid s =
     (case row_of aid s of
        None \<Rightarrow> (True, s)
      | Some row \<Rightarrow>
          if t_phase row = FINISHED then (True, s)
          else (case timed_out st row s of
                  (True, s1) \<Rightarrow> (True, snd (finish aid (timeout_result st dep row) None s1))
                | (False, s1) \<Rightarrow> (False, s1)))"

fun expire_rows :: "settings \<Rightarrow> 'w sync_deps \<Rightarrow> action_row list \<Rightarrow> 'w sync \<Rightarrow> nat \<times> 'w sync" where
  "expire_rows st dep [] s = (0, s)"
| "expire_rows st dep (row # rows) s =
     (case timed_out st row s of
        (False, s1) \<Rightarrow> expire_rows st dep rows s1
      | (True, s1) \<Rightarrow>
          (case finish (t_action_id row) (timeout_result st dep row) None s1 of
             (finished, s2) \<Rightarrow>
               (case expire_rows st dep rows s2 of (n, s3) \<Rightarrow> (if finished then Suc n else n, s3))))"

definition expire_overdue :: "settings \<Rightarrow> 'w sync_deps \<Rightarrow> string option \<Rightarrow> 'w sync \<Rightarrow> nat \<times> 'w sync" where
  "expire_overdue st dep pid s = expire_rows st dep (triage_actions_open pid (sy_db s)) s"

section \<open>Inline kinds\<close>

definition REOPENED :: string where
  "REOPENED = ''Report reopened in Bugalizer''"

definition sync_inline :: "action_row \<Rightarrow> 'w sync \<Rightarrow> 'w sync" where
  "sync_inline row s =
     (let aid = t_action_id row in
      if t_kind row \<noteq> ''reopen''
      then (case on_db (run_inline row) s of (res, s1) \<Rightarrow> snd (finish aid res (Some DISPATCHED) s1))
      else
        (case on_db (reopen_for_action (t_report_id row) aid REOPENED) s of
           (applied, s1) \<Rightarrow>
             if applied = Reopened \<or> applied = Ledger_moved then s1
             else
               (let message = (case report_get (t_report_id row) (sy_db s1) of
                      None \<Rightarrow> ''Bug report not found in Bugalizer'' | Some r \<Rightarrow> reopen_refusal (r_status r))
                in snd (finish aid (Result ''refused'' (Some message) None) (Some DISPATCHED) s1))))"

section \<open>The requester's key\<close>

datatype key_answer = Key string | No_key result

definition credential_code :: "jdict \<Rightarrow> string" where
  "credential_code body =
     (case (if opt_truthy (map_of body ''error'') then map_of body ''error'' else map_of body ''code'') of
        Some (JStr c) \<Rightarrow>
          if c \<noteq> [] \<and> length c \<le> 40 \<and> list_all (\<lambda>x. is_lower x \<or> x = CHR ''_'') c then c else ''unknown''
      | _ \<Rightarrow> ''unknown'')"

definition json_dict :: "json option \<Rightarrow> jdict" where
  "json_dict body = (case body of Some (JObj kvs) \<Rightarrow> kvs | _ \<Rightarrow> [])"

definition credential_outcome :: "action_row \<Rightarrow> nat \<Rightarrow> json option \<Rightarrow> key_answer" where
  "credential_outcome row status body =
     (let kind = t_kind row; kvs = json_dict body; code = credential_code kvs in
      if status = 200 then
        (case map_of kvs ''apiKey'' of
           Some (JStr key) \<Rightarrow>
             if map_of kvs ''provider'' = Some (JStr REQUESTER_PROVIDER)
                \<and> map_option fst (pin_of row ''fix'') = Some REQUESTER_PROVIDER \<and> key \<noteq> []
             then Key key else No_key (step_result kind ''failed'' ''invalid credential response'')
         | _ \<Rightarrow> No_key (step_result kind ''failed'' ''invalid credential response''))
      else if status = 409 \<and> code = ''already_released''
      then No_key (step_result kind ''failed'' ''credential already used; request again'')
      else if status = 409 \<and> code = ''no_key''
      then No_key (step_result kind ''refused''
             (''No Claude API key is saved for the requester; add it in AI settings '' @ ''and request again''))
      else if status = 403
      then No_key (step_result kind ''refused'' ''The requester is no longer a sonicgrid admin'')
      else if status = 404 \<or> status = 409
      then No_key (step_result kind ''refused''
             (''Sonicgrid did not release a key for this action ('' @ (if status = 409 then code else ''not_found'') @ '')''))
      else No_key (step_result kind ''failed'' ''could not fetch your API key; request again''))"

text \<open>\<open>config.get("triage_credential_env")\<close>, \<open>None\<close> when falsy; a name that is no string raises.\<close>

definition credential_env :: "jdict option \<Rightarrow> exn + string option" where
  "credential_env config =
     (case map_of (case config of None \<Rightarrow> [] | Some kvs \<Rightarrow> kvs) ''triage_credential_env'' of
        None \<Rightarrow> Inr None
      | Some (JStr n) \<Rightarrow> Inr (if n = [] then None else Some n)
      | Some j \<Rightarrow> if truthy j then Inl (Exn ''TypeError'' ''str expected'') else Inr None)"

definition triage_token :: "'w sync_deps \<Rightarrow> string option \<Rightarrow> string" where
  "triage_token dep name =
     (case name of None \<Rightarrow> []
      | Some n \<Rightarrow> (case resolve_env_credential (sd_environ dep) (sd_env_file dep) n of None \<Rightarrow> [] | Some t \<Rightarrow> t))"

definition sg_call :: "'w sync_deps \<Rightarrow> string \<times> string \<Rightarrow> sg_request \<Rightarrow> 'w sync \<Rightarrow> sg_answer \<times> 'w sync" where
  "sg_call dep api req s =
     (case sd_http dep api req (e_world (sy_env s)) of (a, w) \<Rightarrow> (a, set_world w s))"

definition fetch_key :: "'w sync_deps \<Rightarrow> action_row \<Rightarrow> 'w sync \<Rightarrow> (exn + key_answer) \<times> 'w sync" where
  "fetch_key dep row s =
     (let kind = t_kind row; config = Option.bind (project_get (t_project_id row) (sy_db s)) p_ingest_config;
          failed = No_key (step_result kind ''failed'' ''could not fetch your API key; request again'') in
      case triage_base_url config of
        None \<Rightarrow> (Inl (Exn ''ValueError'' ''invalid URL''), s)
      | Some base \<Rightarrow>
          (case credential_env config of
             Inl e \<Rightarrow> (Inl e, s)
           | Inr name \<Rightarrow>
               (let token = triage_token dep name in
                if \<not> str_set base \<or> token = [] then (Inr failed, s)
                else (case sg_call dep (the base, token) (Post_credential (t_action_id row))
                              (called (Credential_request (t_action_id row)) s) of
                        (Sg_response status body, s1) \<Rightarrow> (Inr (credential_outcome row status body), s1)
                      | (_, s1) \<Rightarrow> (Inr failed, s1)))))"

section \<open>Tasks\<close>

definition failed_unexpectedly :: "action_row \<Rightarrow> exn \<Rightarrow> result" where
  "failed_unexpectedly row e =
     (let message = ''The analysis failed unexpectedly ('' @ exn_type e @ '')''
      in Result ''failed'' (Some message)
           (if t_kind row = ''fix_and_open_pr'' then Some (compound_steps (fix_step ''failed'' (Some message)) None) else None))"

definition model_call :: "settings \<Rightarrow> 'w sync_deps \<Rightarrow> action_row \<Rightarrow> string option \<Rightarrow> 'w sync \<Rightarrow> result \<times> 'w sync" where
  "model_call st dep row key s =
     (case run_llm st (sd_stage dep) (sd_local dep) row key (sy_db s) (e_world (sy_env s)) of
        (res, d, w) \<Rightarrow>
          ((case res of Inl e \<Rightarrow> failed_unexpectedly row e | Inr r \<Rightarrow> r),
           called (Model_run (t_action_id row)) (set_db d (set_world w s))))"

definition model_part :: "settings \<Rightarrow> 'w sync_deps \<Rightarrow> action_row \<Rightarrow> 'w sync \<Rightarrow> result \<times> 'w sync" where
  "model_part st dep row s =
     (if t_key_mode row = Some REQUESTER then
        (case fetch_key dep row s of
           (Inl e, s1) \<Rightarrow> (failed_unexpectedly row e, s1)
         | (Inr (No_key r), s1) \<Rightarrow> (r, s1)
         | (Inr (Key k), s1) \<Rightarrow> model_call st dep row (Some k) s1)
      else model_call st dep row None s)"

definition checkpoint_fix :: "string \<Rightarrow> string \<Rightarrow> ledger_phase \<Rightarrow> 'w sync \<Rightarrow> bool \<times> 'w sync" where
  "checkpoint_fix aid pid from_phase =
     update_row aid (Some from_phase)
       [TF_phase FIX_DONE, TF_fix_proposal_id (Some pid),
        TF_steps (Some (JArr [step_of [(''step'', Some ''fix''), (''state'', Some ''done''), (''ref'', Some pid),
                                       (''message'', Some ''Proposal made'')]]))]"

definition compound :: "action_row \<Rightarrow> bool" where
  "compound row \<longleftrightarrow> t_kind row = ''fix_and_open_pr''"

definition pr_phase :: "action_row \<Rightarrow> ledger_phase" where
  "pr_phase row = (if compound row then FIX_DONE else DISPATCHED)"

text \<open>\<open>_run_pr\<close> up to its call, the call, and the rest.\<close>

definition pr_begin :: "settings \<Rightarrow> 'w sync_deps \<Rightarrow> string \<Rightarrow> 'w sync \<Rightarrow> action_row option \<times> 'w sync" where
  "pr_begin st dep aid s =
     (case row_of aid s of
        None \<Rightarrow> (None, s)
      | Some row \<Rightarrow>
          if t_phase row \<noteq> pr_phase row then (None, s)
          else (case expire_if_overdue st dep aid s of
                  (True, s1) \<Rightarrow> (None, s1) | (False, s1) \<Rightarrow> (Some row, s1)))"

definition pr_call :: "settings \<Rightarrow> 'w sync_deps \<Rightarrow> action_row \<Rightarrow> 'w sync \<Rightarrow> pr_attempt \<times> 'w sync" where
  "pr_call st dep row s =
     (case pr_step st (sd_pr dep) (t_report_id row) (if compound row then t_fix_proposal_id row else None)
             (t_attempts row) (sy_env s) of
        (a, e) \<Rightarrow> (a, called (Pr_run (t_action_id row)) (s\<lparr>sy_env := e\<rparr>)))"

definition or_text :: "string option \<Rightarrow> string" where
  "or_text x = (case x of None \<Rightarrow> ''None'' | Some s \<Rightarrow> s)"

definition pr_result :: "action_row \<Rightarrow> pr_attempt \<Rightarrow> string \<Rightarrow> result" where
  "pr_result row a state =
     (if compound row then
        (let fix = (if opt_truthy (t_steps row)
               then (case t_steps row of Some (JArr (first # rest)) \<Rightarrow> first | _ \<Rightarrow> JNull)
               else fix_step ''done'' None);
             message = (if state = ''done'' then ''Fix proposed and '' @ or_text (sr_message a)
               else if state = ''refused'' then ''Fix proposed; the PR was refused: '' @ or_text (sr_message a)
               else ''Fix proposed; the PR step failed: '' @ or_text (sr_message a))
         in (Result state (Some message) (Some (compound_steps fix (Some (step_of
              [(''step'', Some ''open_pr''), (''state'', Some state), (''ref'', sr_ref a),
               (''message'', clip (sr_message a))])))))\<lparr>rs_pr_url := sr_ref a\<rparr>)
      else (Result state (if str_set (sr_ref a) then Some (or_text (sr_message a) @ '': '' @ the (sr_ref a)) else sr_message a)
              None)\<lparr>rs_pr_url := sr_ref a\<rparr>)"

definition pr_end :: "settings \<Rightarrow> 'w sync_deps \<Rightarrow> string \<Rightarrow> action_row \<Rightarrow> pr_attempt \<Rightarrow> 'w sync \<Rightarrow> 'w sync" where
  "pr_end st dep aid row a s =
     (case expire_if_overdue st dep aid s of
        (True, s1) \<Rightarrow> snd (update_row aid None
           [TF_late_outcome (Some (if str_set (sr_state a) then the (sr_state a) else ''pr_pending''))] s1)
      | (False, s1) \<Rightarrow>
          (case sr_state a of
             None \<Rightarrow> snd (update_row aid (Some (pr_phase row)) [TF_attempts (sr_attempts a)] s1)
           | Some state \<Rightarrow> snd (finish aid (pr_result row a state) (Some (pr_phase row)) s1)))"

definition run_pr :: "settings \<Rightarrow> 'w sync_deps \<Rightarrow> string \<Rightarrow> 'w sync \<Rightarrow> 'w sync" where
  "run_pr st dep aid s =
     (case pr_begin st dep aid s of
        (None, s1) \<Rightarrow> s1
      | (Some row, s1) \<Rightarrow> (case pr_call st dep row s1 of (a, s2) \<Rightarrow> pr_end st dep aid row a s2))"

definition pr_task :: "settings \<Rightarrow> 'w sync_deps \<Rightarrow> string \<Rightarrow> 'w sync \<Rightarrow> 'w sync" where
  "pr_task st dep aid s = release True aid (run_pr st dep aid s)"

text \<open>\<open>_run_task\<close> after the model part; \<open>True\<close>: the pull request step follows.\<close>

definition llm_end :: "settings \<Rightarrow> 'w sync_deps \<Rightarrow> string \<Rightarrow> result \<Rightarrow> 'w sync \<Rightarrow> bool \<times> 'w sync" where
  "llm_end st dep aid res s =
     (case expire_if_overdue st dep aid s of
        (True, s1) \<Rightarrow> (False, snd (update_row aid None [TF_late_outcome (Some (rs_outcome res))] s1))
      | (False, s1) \<Rightarrow>
          if rs_outcome res = ''fix_done'' then
            (case checkpoint_fix aid (case rs_proposal_id res of None \<Rightarrow> [] | Some p \<Rightarrow> p) DISPATCHED s1 of
               (False, s2) \<Rightarrow> (False, snd (update_row aid None [TF_late_outcome (Some ''fix_done'')] s2))
             | (True, s2) \<Rightarrow> (True, s2))
          else (False, snd (finish aid res (Some DISPATCHED) s1)))"

definition run_task :: "settings \<Rightarrow> 'w sync_deps \<Rightarrow> string \<Rightarrow> 'w sync \<Rightarrow> 'w sync" where
  "run_task st dep aid s =
     (case row_of aid s of
        None \<Rightarrow> release True aid s
      | Some row \<Rightarrow>
          (case model_part st dep row s of
             (res, s1) \<Rightarrow>
               (case llm_end st dep aid res s1 of
                  (True, s2) \<Rightarrow> release True aid (run_pr st dep aid s2)
                | (False, s2) \<Rightarrow> release True aid s2)))"

end
