(* ===== verification/Results.thy ===== *)
theory Results
  imports Reports_Api Db_Ledger
begin

text \<open>
  \<open>sync/stage.py\<close> and \<open>sync/results.py\<close>: the board lane of a report and the payload pushed to
  sonicgrid.  The number of bytes of a text in UTF-8, JSON serialization and SHA-256 are arguments.
\<close>

section \<open>The board lane\<close>

definition newest :: "phase \<Rightarrow> a_state option \<Rightarrow> analysis list \<Rightarrow> analysis option" where
  "newest ph st rows = find (\<lambda>a. a_phase a = ph \<and> (case st of None \<Rightarrow> True | Some s \<Rightarrow> a_status a = s)) rows"

definition triaged_detail ::
  "report \<Rightarrow> analysis list \<Rightarrow> fix_proposal list \<Rightarrow> project option \<Rightarrow> string" where
  "triaged_detail r rows proposals p =
     (if r_status r = CLARIFICATION_NEEDED then ''needs_clarification''
      else if r_status r = DEFERRED then ''deferred''
      else if r_analysis_mode r = HOLD then ''held''
      else
        (let localization = newest P_LOCALIZATION (Some A_COMPLETED) rows;
             loc_at = map_option a_created_at localization;
             proposal = fetchone proposals;
             fix = newest P_FIX None rows;
             fix_at = map_option a_created_at fix
         in if (case fix of None \<Rightarrow> False | Some a \<Rightarrow> a_status a = A_FAILED)
               \<and> loc_at < fix_at \<and> map_option f_created_at proposal < fix_at
            then ''fix_failed''
            else if (case proposal of None \<Rightarrow> False
                     | Some f \<Rightarrow> f_pr_state f = Some ''closed''
                         \<and> (let settled = (case f_pr_settled_at f of Some t \<Rightarrow> Some t | None \<Rightarrow> Some (f_updated_at f))
                            in loc_at \<le> settled \<and> fix_at \<le> settled))
            then ''pr_closed''
            else (case localization of
                    Some a \<Rightarrow> if sha_fresh a p then ''localized'' else ''stale''
                  | None \<Rightarrow> ''not_localized'')))"

definition stage_of ::
  "report \<Rightarrow> analysis list \<Rightarrow> fix_proposal list \<Rightarrow> project option \<Rightarrow> string \<times> string" where
  "stage_of r rows proposals p =
     (case r_status r of
        SUBMITTED \<Rightarrow> (''submitted'', ''queued'')
      | VALIDATING \<Rightarrow> (''submitted'', ''validating'')
      | ANALYZING \<Rightarrow> (''triage'', (case find (\<lambda>a. a_status a = A_RUNNING) rows of
            None \<Rightarrow> ''starting''
          | Some a \<Rightarrow> (case a_phase a of P_TRIAGE \<Rightarrow> ''triaging'' | P_LOCALIZATION \<Rightarrow> ''localizing'' | _ \<Rightarrow> ''starting'')))
      | TRIAGED \<Rightarrow> (''triaged'', triaged_detail r rows proposals p)
      | CLARIFICATION_NEEDED \<Rightarrow> (''triaged'', triaged_detail r rows proposals p)
      | DEFERRED \<Rightarrow> (''triaged'', triaged_detail r rows proposals p)
      | FIX_PROPOSING \<Rightarrow> (''fix'', ''proposing'')
      | FIX_PROPOSED \<Rightarrow> (''review'', ''fix_ready'')
      | FIX_APPROVED \<Rightarrow> (''review'', ''opening_pr'')
      | FIX_COMMITTED \<Rightarrow> (''review'', ''pr_open'')
      | REJECTED \<Rightarrow> (''completed'', ''rejected'')
      | DUPLICATE \<Rightarrow> (''completed'', ''duplicate'')
      | _ \<Rightarrow> (''completed'', (case r_resolution_reason r of None \<Rightarrow> ''closed''
          | Some x \<Rightarrow> if starts_with ''pr_merged:'' x then ''merged'' else ''closed'')))"

section \<open>Payload fields\<close>

definition text_field :: "nat \<Rightarrow> json option \<Rightarrow> string option" where
  "text_field limit v = (case v of Some (JStr s) \<Rightarrow> if s = [] then None else Some (take limit s) | _ \<Rightarrow> None)"

definition unit_field :: "json option \<Rightarrow> rat option" where
  "unit_field v =
     (case v of
        Some (JInt i) \<Rightarrow> if i < 0 \<or> 1 < i then None else Some (of_int i)
      | Some (JFloat (Fin q)) \<Rightarrow> if q < 0 \<or> 1 < q then None else Some q
      | _ \<Rightarrow> None)"

definition latest_completed :: "phase \<Rightarrow> analysis list \<Rightarrow> analysis option" where
  "latest_completed ph rows = find (\<lambda>a. a_phase a = ph \<and> a_status a = A_COMPLETED) rows"

definition model_label :: "analysis option \<Rightarrow> string option" where
  "model_label x =
     (case x of None \<Rightarrow> None
      | Some a \<Rightarrow>
          if \<not> str_set (a_llm_model a) then None
          else (let model = the (a_llm_model a) in
                Some (take 120 (case a_llm_provider a of
                    Some prov \<Rightarrow> if prov \<noteq> [] \<and> \<not> starts_with (prov @ ''/'') model then prov @ ''/'' @ model else model
                  | None \<Rightarrow> model))))"

definition fix_analysis :: "analysis list \<Rightarrow> fix_proposal option \<Rightarrow> analysis option" where
  "fix_analysis rows proposal =
     (case proposal of None \<Rightarrow> None
      | Some f \<Rightarrow> find (\<lambda>a. a_phase a = P_FIX \<and> a_status a = A_COMPLETED \<and> a_created_at a \<le> f_created_at f) rows)"

definition sub_object :: "string \<Rightarrow> analysis option \<Rightarrow> json option" where
  "sub_object k x = (case x of None \<Rightarrow> None | Some a \<Rightarrow> (case a_result a of None \<Rightarrow> None | Some j \<Rightarrow> jget k j))"

record candidate_file =
  cf_path :: string
  cf_relevance :: "rat option"
  cf_reason :: "string option"

definition either_key :: "string \<Rightarrow> string \<Rightarrow> json \<Rightarrow> json option" where
  "either_key k1 k2 j = (if opt_truthy (jget k1 j) then jget k1 j else jget k2 j)"

fun candidate_of :: "json \<Rightarrow> candidate_file option" where
  "candidate_of (JStr s) = map_option (\<lambda>p. \<lparr>cf_path = p, cf_relevance = None, cf_reason = None\<rparr>) (text_field 500 (Some (JStr s)))"
| "candidate_of (JObj kvs) =
     map_option (\<lambda>p. \<lparr>cf_path = p, cf_relevance = unit_field (map_of kvs ''relevance''),
                      cf_reason = text_field 2000 (map_of kvs ''reason'')\<rparr>)
       (text_field 500 (either_key ''path'' ''file'' (JObj kvs)))"
| "candidate_of j = None"

definition candidates_of :: "analysis option \<Rightarrow> candidate_file list option" where
  "candidates_of localization =
     (case sub_object ''pass1'' localization of
        None \<Rightarrow> None
      | Some pass1 \<Rightarrow>
          (case jget ''candidate_files'' pass1 of
             Some (JArr items) \<Rightarrow> Some (take 50 (List.map_filter candidate_of items))
           | _ \<Rightarrow> None))"

definition hypothesis_of :: "analysis option \<Rightarrow> string option" where
  "hypothesis_of localization =
     (case sub_object ''pass2'' localization of
        None \<Rightarrow> None | Some pass2 \<Rightarrow> text_field 20000 (jget ''root_cause_hypothesis'' pass2))"

definition diff_field :: "(string \<Rightarrow> nat) \<Rightarrow> string option \<Rightarrow> string option" where
  "diff_field utf8_length v = (case v of None \<Rightarrow> None
     | Some s \<Rightarrow> if s = [] \<or> 256 * 1024 < utf8_length s then None else Some s)"

definition pr_url_field :: "string option \<Rightarrow> string option" where
  "pr_url_field v = (case v of None \<Rightarrow> None
     | Some s \<Rightarrow> if starts_with ''https://'' s \<and> length s \<le> 500 then Some s else None)"

section \<open>The payload\<close>

record payload =
  pl_updated_at :: string
  pl_status :: string
  pl_summary :: "string option"
  pl_severity :: "string option"
  pl_pr_url :: "string option"
  pl_stage :: string
  pl_detail :: string
  pl_pr_state :: "string option"
  pl_mode :: string
  pl_localized :: bool
  pl_category :: "string option"
  pl_triage_confidence :: "rat option"
  pl_root_cause :: "string option"
  pl_hypothesis :: "string option"
  pl_explanation :: "string option"
  pl_candidates :: "candidate_file list option"
  pl_diff :: "string option"
  pl_fix_confidence :: "rat option"
  pl_pr :: "(int \<times> string) option"
  pl_triage_model :: "string option"
  pl_localization_model :: "string option"
  pl_fix_model :: "string option"

definition pr_field :: "fix_proposal option \<Rightarrow> (int \<times> string) option" where
  "pr_field recorded =
     (case recorded of None \<Rightarrow> None
      | Some f \<Rightarrow>
          (case f_pr_number f of None \<Rightarrow> None
           | Some n \<Rightarrow>
               (let branch = take 255 (case f_branch_name f of None \<Rightarrow> [] | Some b \<Rightarrow> b)
                in if 0 < n \<and> branch \<noteq> [] then Some (n, branch) else None)))"

definition newest_stamp :: "report \<Rightarrow> analysis list \<Rightarrow> fix_proposal list \<Rightarrow> string" where
  "newest_stamp r rows proposals =
     fold max (concat (map (\<lambda>a. [(case a_completed_at a of None \<Rightarrow> [] | Some t \<Rightarrow> text_of_time t), isoformat (a_created_at a)]) rows)
               @ map (\<lambda>f. isoformat (f_updated_at f)) proposals) (isoformat (r_updated_at r))"

definition build_payload ::
  "(string \<Rightarrow> nat) \<Rightarrow> report \<Rightarrow> analysis list \<Rightarrow> fix_proposal list \<Rightarrow> project option \<Rightarrow> payload" where
  "build_payload utf8_length r rows proposals p =
     (let triage = latest_completed P_TRIAGE rows;
          result = (\<lambda>k. case triage of None \<Rightarrow> None | Some a \<Rightarrow> (case a_result a of None \<Rightarrow> None | Some j \<Rightarrow> jget k j));
          localization = latest_completed P_LOCALIZATION rows;
          proposal = fetchone proposals;
          recorded = find (\<lambda>f. str_set (f_pr_url f)) proposals;
          (stage, detail) = stage_of r rows proposals p
      in \<lparr>pl_updated_at = newest_stamp r rows proposals,
          pl_status = status_value (r_status r),
          pl_summary = text_field 2000 (result ''summary''),
          pl_severity = (case r_severity r of None \<Rightarrow> None | Some s \<Rightarrow> if s \<in> set severities then Some s else None),
          pl_pr_url = (case recorded of None \<Rightarrow> None | Some f \<Rightarrow> pr_url_field (f_pr_url f)),
          pl_stage = stage, pl_detail = detail,
          pl_pr_state = (case recorded of None \<Rightarrow> None
            | Some f \<Rightarrow> (case f_pr_state f of None \<Rightarrow> None
                | Some s \<Rightarrow> if s \<in> set [''open'', ''merged'', ''closed''] then Some s else None)),
          pl_mode = mode_value (r_analysis_mode r),
          pl_localized = (localization \<noteq> None),
          pl_category = text_field 50 (result ''category''),
          pl_triage_confidence = unit_field (result ''confidence''),
          pl_root_cause = text_field 20000 (map_option JStr (Option.bind proposal f_root_cause)),
          pl_hypothesis = hypothesis_of localization,
          pl_explanation = text_field 20000 (map_option JStr (Option.bind proposal f_explanation)),
          pl_candidates = candidates_of localization,
          pl_diff = diff_field utf8_length (Option.bind proposal f_diff),
          pl_fix_confidence = unit_field (map_option JFloat (Option.bind proposal f_confidence)),
          pl_pr = pr_field recorded,
          pl_triage_model = model_label triage,
          pl_localization_model = model_label localization,
          pl_fix_model = model_label (fix_analysis rows proposal)\<rparr>)"

section \<open>Its JSON\<close>

definition jtext :: "string option \<Rightarrow> json" where
  "jtext v = (case v of None \<Rightarrow> JNull | Some s \<Rightarrow> JStr s)"

definition jrat :: "rat option \<Rightarrow> json" where
  "jrat v = (case v of None \<Rightarrow> JNull | Some q \<Rightarrow> JFloat (Fin q))"

definition payload_json :: "payload \<Rightarrow> (string \<times> json) list" where
  "payload_json x =
     [(''bugalizerUpdatedAt'', JStr (pl_updated_at x)),
      (''public'', JObj
        [(''pipelineStatus'', JStr (pl_status x)), (''summary'', jtext (pl_summary x)),
         (''severity'', jtext (pl_severity x)), (''prUrl'', jtext (pl_pr_url x)),
         (''stage'', JStr (pl_stage x)), (''stageDetail'', JStr (pl_detail x)),
         (''prState'', jtext (pl_pr_state x))]),
      (''admin'', JObj
        [(''analysisMode'', JStr (pl_mode x)), (''localized'', JBool (pl_localized x)),
         (''category'', jtext (pl_category x)), (''triageConfidence'', jrat (pl_triage_confidence x)),
         (''rootCause'', jtext (pl_root_cause x)), (''rootCauseHypothesis'', jtext (pl_hypothesis x)),
         (''explanation'', jtext (pl_explanation x)),
         (''candidateFiles'', case pl_candidates x of None \<Rightarrow> JNull
            | Some cs \<Rightarrow> JArr (map (\<lambda>c. JObj [(''path'', JStr (cf_path c)), (''relevance'', jrat (cf_relevance c)),
                                            (''reason'', jtext (cf_reason c))]) cs)),
         (''diff'', jtext (pl_diff x)), (''fixConfidence'', jrat (pl_fix_confidence x)),
         (''pr'', case pl_pr x of None \<Rightarrow> JNull
            | Some (n, b) \<Rightarrow> JObj [(''number'', JInt n), (''branch'', JStr b)]),
         (''triageModel'', jtext (pl_triage_model x)), (''localizationModel'', jtext (pl_localization_model x)),
         (''fixModel'', jtext (pl_fix_model x))])]"

definition canonical :: "(json \<Rightarrow> string) \<Rightarrow> (string \<times> json) list \<Rightarrow> string" where
  "canonical dumps body = dumps (JObj body)"

definition fingerprint :: "(json \<Rightarrow> string) \<Rightarrow> (string \<Rightarrow> string) \<Rightarrow> (string \<times> json) list \<Rightarrow> string" where
  "fingerprint dumps sha256 body = sha256 (canonical dumps (filter (\<lambda>(k, v). k \<noteq> ''revision'') body))"

section \<open>The push contract\<close>

text \<open>The limits sonicgrid's contract puts on every field; a field outside them is answered 400.\<close>

definition fits :: "nat \<Rightarrow> string option \<Rightarrow> bool" where
  "fits n v = (case v of None \<Rightarrow> True | Some s \<Rightarrow> s \<noteq> [] \<and> length s \<le> n)"

definition in_unit :: "rat option \<Rightarrow> bool" where
  "in_unit v = (case v of None \<Rightarrow> True | Some q \<Rightarrow> 0 \<le> q \<and> q \<le> 1)"

definition among :: "string list \<Rightarrow> string option \<Rightarrow> bool" where
  "among xs v = (case v of None \<Rightarrow> True | Some s \<Rightarrow> s \<in> set xs)"

definition lanes :: "(string \<times> string list) list" where
  "lanes =
     [(''submitted'', [''queued'', ''validating'']),
      (''triage'', [''starting'', ''triaging'', ''localizing'']),
      (''triaged'', [''needs_clarification'', ''deferred'', ''held'', ''fix_failed'', ''pr_closed'', ''localized'',
                     ''stale'', ''not_localized'']),
      (''fix'', [''proposing'']),
      (''review'', [''fix_ready'', ''opening_pr'', ''pr_open'']),
      (''completed'', [''rejected'', ''duplicate'', ''merged'', ''closed''])]"

definition candidate_fits :: "candidate_file \<Rightarrow> bool" where
  "candidate_fits c \<longleftrightarrow> fits 500 (Some (cf_path c)) \<and> in_unit (cf_relevance c) \<and> fits 2000 (cf_reason c)"

definition public_fits :: "payload \<Rightarrow> bool" where
  "public_fits x \<longleftrightarrow>
     fits 2000 (pl_summary x) \<and> among severities (pl_severity x) \<and> fits 500 (pl_pr_url x)
     \<and> among [''open'', ''merged'', ''closed''] (pl_pr_state x)
     \<and> (case map_of lanes (pl_stage x) of None \<Rightarrow> False | Some details \<Rightarrow> pl_detail x \<in> set details)"

definition admin_fits :: "(string \<Rightarrow> nat) \<Rightarrow> payload \<Rightarrow> bool" where
  "admin_fits utf8_length x \<longleftrightarrow>
     fits 50 (pl_category x) \<and> in_unit (pl_triage_confidence x) \<and> fits 20000 (pl_root_cause x)
     \<and> fits 20000 (pl_hypothesis x) \<and> fits 20000 (pl_explanation x)
     \<and> (case pl_candidates x of None \<Rightarrow> True | Some cs \<Rightarrow> length cs \<le> 50 \<and> list_all candidate_fits cs)
     \<and> (case pl_diff x of None \<Rightarrow> True | Some s \<Rightarrow> s \<noteq> [] \<and> utf8_length s \<le> 262144)
     \<and> in_unit (pl_fix_confidence x)
     \<and> (case pl_pr x of None \<Rightarrow> True | Some (n, b) \<Rightarrow> 0 < n \<and> fits 255 (Some b))
     \<and> fits 120 (pl_triage_model x) \<and> fits 120 (pl_localization_model x) \<and> fits 120 (pl_fix_model x)"

lemma text_field_fits [simp]: "0 < n \<Longrightarrow> fits n (text_field n v)"
  by (auto simp: fits_def text_field_def split: option.split json.split)

lemma fits_none: "fits n None" and in_unit_none: "in_unit None"
  by (simp_all add: fits_def in_unit_def)

lemma text_some: "text_field n v = Some s \<Longrightarrow> 0 < n \<Longrightarrow> fits n (Some s)"
  using text_field_fits[of n v] by simp

lemma unit_field_in [simp]: "in_unit (unit_field v)"
  by (auto simp: in_unit_def unit_field_def split: option.split json.split pyfloat.split)

lemma model_label_fits [simp]: "fits 120 (model_label x)"
  by (auto simp: fits_def model_label_def str_set_iff Let_def split: option.split)

lemma candidate_of_fits: "candidate_of j = Some c \<Longrightarrow> candidate_fits c"
  using text_field_fits[of 500] by (cases j) (auto simp: candidate_fits_def fits_none in_unit_none text_some)

lemma candidates_of_fit: "candidates_of x = Some cs \<Longrightarrow> length cs \<le> 50 \<and> list_all candidate_fits cs"
  by (auto simp: candidates_of_def list_all_iff List.map_filter_def candidate_of_fits
           split: option.splits json.splits dest!: in_set_takeD)

lemma triaged_detail_lane:
  "triaged_detail r rows proposals p \<in> set (the (map_of lanes ''triaged''))"
  by (simp add: triaged_detail_def lanes_def Let_def split: option.split)

lemma stage_of_lane:
  "case map_of lanes (fst (stage_of r rows proposals p)) of None \<Rightarrow> False
   | Some details \<Rightarrow> snd (stage_of r rows proposals p) \<in> set details"
  using triaged_detail_lane[of r rows proposals p]
  by (cases "r_status r") (simp_all add: stage_of_def lanes_def split: option.split phase.split)

lemma payload_public: "public_fits (build_payload u r rows proposals p)"
proof -
  have known: "among xs (case v of None \<Rightarrow> None | Some s \<Rightarrow> if s \<in> set xs then Some s else None)" for xs v
    by (simp add: among_def split: option.split)
  have link: "fits 500 (case v of None \<Rightarrow> None | Some f \<Rightarrow> pr_url_field (f_pr_url f))"
    for v :: "fix_proposal option"
    by (auto simp: fits_def pr_url_field_def starts_with_def split: option.split)
  have recorded: "among xs (case v of None \<Rightarrow> None | Some f \<Rightarrow> (case f_pr_state f of None \<Rightarrow> None
      | Some s \<Rightarrow> if s \<in> set xs then Some s else None))" for xs and v :: "fix_proposal option"
    by (simp add: among_def split: option.split)
  show ?thesis
    using stage_of_lane[of r rows proposals p]
    unfolding public_fits_def build_payload_def Let_def case_prod_beta payload.select_convs
    by (intro conjI) (assumption | rule known link recorded text_field_fits | simp only: zero_less_numeral)+
qed

lemma payload_admin: "admin_fits u (build_payload u r rows proposals p)"
proof -
  have diff: "case diff_field u v of None \<Rightarrow> True | Some s \<Rightarrow> s \<noteq> [] \<and> u s \<le> 262144" for v
    by (simp add: diff_field_def split: option.split)
  have pr: "case pr_field v of None \<Rightarrow> True | Some (n, b) \<Rightarrow> 0 < n \<and> fits 255 (Some b)" for v
    by (auto simp: pr_field_def fits_def Let_def split: option.splits)
  have hyp: "fits 20000 (hypothesis_of x)" for x
    by (simp add: hypothesis_of_def fits_none split: option.split)
  have cands: "case candidates_of x of None \<Rightarrow> True | Some cs \<Rightarrow> length cs \<le> 50 \<and> list_all candidate_fits cs" for x
    using candidates_of_fit[of x] by (simp split: option.split)
  show ?thesis
    by (simp add: admin_fits_def build_payload_def Let_def case_prod_beta diff pr hyp cands)
qed

text \<open>C14. Every payload the sync pushes keeps to sonicgrid's contract, whatever the rows hold: texts are
  non-empty and within their limits, confidences and relevances lie in 0..1, at most 50 candidate files
  each with a usable path, the diff within 256 KiB, the PR entry complete, and the board lane one of the
  six with a detail of that lane.\<close>

theorem payload_keeps_contract:
  "public_fits (build_payload u r rows proposals p) \<and> admin_fits u (build_payload u r rows proposals p)"
  by (simp add: payload_public payload_admin)

end
