(* ===== verification/Triage_Tick.thy ===== *)
theory Triage_Tick
  imports Triage_Exec Results
begin

text \<open>
  The tick of \<open>sync/triage_sync.py\<close>: the exchange with sonicgrid, claiming and recovering actions,
  posting outcomes, pushing results, following pull requests, and the backoff between ticks.
\<close>

section \<open>Routes\<close>

text \<open>\<open>_Abort\<close> ends the project's tick with its code; any other exception is an internal error.\<close>

datatype tick_error = Abort string | Raised exn

type_synonym api = "string \<times> string"

definition sg_route :: "'w sync_deps \<Rightarrow> api \<Rightarrow> sg_request \<Rightarrow> 'w sync \<Rightarrow> (tick_error + nat \<times> jdict) \<times> 'w sync" where
  "sg_route dep api req s =
     (case sg_call dep api req s of
        (Sg_timeout, s1) \<Rightarrow> (Inl (Abort ''timeout''), s1)
      | (Sg_error, s1) \<Rightarrow> (Inl (Abort ''network_error''), s1)
      | (Sg_response status body, s1) \<Rightarrow>
          ((if status = 401 then Inl (Abort ''unauthorized'')
            else if status = 503 then Inl (Abort ''source_not_configured'')
            else if 500 \<le> status \<and> status < 600 then Inl (Abort ''upstream_error'')
            else Inr (status, json_dict body)), s1))"

definition text_of :: "json option \<Rightarrow> string" where
  "text_of v = (case v of Some (JStr s) \<Rightarrow> s | _ \<Rightarrow> [])"

fun well_formed :: "json \<Rightarrow> bool" where
  "well_formed (JObj a) \<longleftrightarrow> text_of (map_of a ''id'') \<noteq> [] \<and> text_of (map_of a ''bugId'') \<noteq> []
     \<and> (case map_of a ''kind'' of Some (JStr k) \<Rightarrow> True | _ \<Rightarrow> False)
     \<and> (map_of a ''state'' = Some (JStr ''pending'') \<or> map_of a ''state'' = Some (JStr ''claimed''))"
| "well_formed _ \<longleftrightarrow> False"

definition as_dict :: "json \<Rightarrow> jdict" where
  "as_dict j = (case j of JObj a \<Rightarrow> a | _ \<Rightarrow> [])"

fun list_pages ::
  "'w sync_deps \<Rightarrow> api \<Rightarrow> nat \<Rightarrow> string option \<Rightarrow> 'w sync \<Rightarrow> (tick_error + jdict list) \<times> 'w sync" where
  "list_pages dep api 0 cursor s = (Inr [], s)"
| "list_pages dep api (Suc n) cursor s =
     (case sg_route dep api (Get_actions cursor) s of
        (Inl e, s1) \<Rightarrow> (Inl e, s1)
      | (Inr (status, body), s1) \<Rightarrow>
          if status \<noteq> 200 then (Inl (Abort (''unexpected_status:'' @ digits status)), s1)
          else (case map_of body ''actions'' of
                  Some (JArr items) \<Rightarrow>
                    (let page = map as_dict (filter well_formed items);
                         next_cursor = text_of (map_of body ''next_cursor'')
                     in if next_cursor = [] then (Inr page, s1)
                        else (case list_pages dep api n (Some next_cursor) s1 of
                                (Inl e, s2) \<Rightarrow> (Inl e, s2) | (Inr rest, s2) \<Rightarrow> (Inr (page @ rest), s2)))
                | _ \<Rightarrow> (Inl (Abort ''malformed_response''), s1)))"

definition list_actions :: "'w sync_deps \<Rightarrow> api \<Rightarrow> 'w sync \<Rightarrow> (tick_error + jdict list) \<times> 'w sync" where
  "list_actions dep api s = list_pages dep api 100 None s"

section \<open>Dispatch\<close>

definition mark_dispatched :: "string \<Rightarrow> ledger_phase \<Rightarrow> 'w sync \<Rightarrow> bool \<times> 'w sync" where
  "mark_dispatched aid from_phase s =
     (case now_stamp s of (now, s1) \<Rightarrow>
        update_row aid (Some from_phase) [TF_phase DISPATCHED, TF_dispatched_at (Some now)] s1)"

definition launch :: "action_row \<Rightarrow> 'w sync \<Rightarrow> (exn + unit) \<times> 'w sync" where
  "launch row s0 =
     (let aid = t_action_id row; s = count_out (\<lambda>o1. o1\<lparr>oc_actions_started := Suc (oc_actions_started o1)\<rparr>) s0 in
      if t_kind row \<in> set LLM_KINDS then spawn aid Llm_ready s
      else if t_kind row = ''open_pr'' then spawn aid Pr_ready s
      else (Inr (), release False aid (sync_inline row s)))"

definition dispatch :: "action_row \<Rightarrow> ledger_phase \<Rightarrow> 'w sync \<Rightarrow> (exn + unit) \<times> 'w sync" where
  "dispatch row from_phase s =
     (case mark_dispatched (t_action_id row) from_phase s of
        (False, s1) \<Rightarrow> (Inr (), release False (t_action_id row) s1)
      | (True, s1) \<Rightarrow> launch row s1)"

section \<open>Claiming\<close>

text \<open>
  \<open>_claim_and_start\<close> after its POST answered 200: authorization, then the intent in one write.
  \<open>Inr None\<close> means that nothing is left to do.
\<close>

definition claim_intent ::
  "settings \<Rightarrow> 'w sync_deps \<Rightarrow> project \<Rightarrow> string \<Rightarrow> jdict \<Rightarrow> 'w sync \<Rightarrow> (exn + action_row option) \<times> 'w sync" where
  "claim_intent st dep p aid action s =
     (case row_of aid s of
        None \<Rightarrow> (Inr None, s)
      | Some row \<Rightarrow>
          (case report_get (t_report_id row) (sy_db s) of
             None \<Rightarrow> (Inr None, s)
           | Some r \<Rightarrow>
               (case authorize (sd_casefold dep) st (Some p) r (text_of (map_of action ''kind'')) action (sy_db s) of
                  Inl e \<Rightarrow> (Inl e, s)
                | Inr auth \<Rightarrow>
                    (case au_refusal auth of
                       Some refusal \<Rightarrow> (Inr None, snd (finish aid refusal (Some RESERVED) s))
                     | None \<Rightarrow>
                         (case now_stamp s of (now, s1) \<Rightarrow>
                            (case update_row aid (Some RESERVED)
                                    [TF_phase INTENT, TF_intent_at (Some (Iso now)), TF_pinned_llm (Some (au_pinned auth)),
                                     TF_no_auto_retry (au_no_auto_retry auth), TF_key_mode (au_key_mode auth)] s1 of
                               (False, s2) \<Rightarrow> (Inr None, s2)
                             | (True, s2) \<Rightarrow> (Inr (row_of aid s2), s2)))))))"

definition claim_answered ::
  "settings \<Rightarrow> 'w sync_deps \<Rightarrow> project \<Rightarrow> jdict \<Rightarrow> nat \<Rightarrow> 'w sync \<Rightarrow> (exn + unit) \<times> 'w sync" where
  "claim_answered st dep p action status s =
     (let aid = text_of (map_of action ''id'');
          (res, s2) =
            (if status = 404 \<or> status = 409 then (Inr (), set_db (triage_action_delete_reserved aid (sy_db s)) s)
             else if status \<noteq> 200 then (Inr (), s)
             else (case claim_intent st dep p aid action s of
                     (Inl e, s1) \<Rightarrow> (Inl e, s1)
                   | (Inr None, s1) \<Rightarrow> (Inr (), s1)
                   | (Inr (Some row), s1) \<Rightarrow> dispatch row INTENT s1))
      in (res, release False aid s2))"

definition raised :: "(exn + 'a) \<times> 'w sync \<Rightarrow> (tick_error + 'a) \<times> 'w sync" where
  "raised x = (map_sum Raised id (fst x), snd x)"

definition claim_and_start ::
  "settings \<Rightarrow> 'w sync_deps \<Rightarrow> api \<Rightarrow> project \<Rightarrow> jdict \<Rightarrow> 'w sync \<Rightarrow> (tick_error + unit) \<times> 'w sync" where
  "claim_and_start st dep api p action s =
     (let aid = text_of (map_of action ''id'') in
      case sg_route dep api (Post_action aid (JObj [(''state'', JStr ''claimed'')])) s of
        (Inl e, s1) \<Rightarrow> (Inl e, release False aid s1)
      | (Inr (status, body), s1) \<Rightarrow> raised (claim_answered st dep p action status s1))"

section \<open>Recovery\<close>

definition apply_evidence :: "settings \<Rightarrow> action_row \<Rightarrow> result \<Rightarrow> 'w sync \<Rightarrow> (exn + unit) \<times> 'w sync" where
  "apply_evidence st row found s =
     (let aid = t_action_id row in
      if rs_outcome found = ''fix_done'' then
        (case checkpoint_fix aid (case rs_proposal_id found of None \<Rightarrow> [] | Some p \<Rightarrow> p) (t_phase row) s of
           (False, s1) \<Rightarrow> (Inr (), s1)
         | (True, s1) \<Rightarrow>
             (case try_hold st aid (t_report_id row) False s1 of
                (False, s2) \<Rightarrow> (Inr (), s2) | (True, s2) \<Rightarrow> spawn aid Pr_ready s2))
      else (Inr (), snd (finish aid found (Some (t_phase row)) s)))"

definition recover :: "settings \<Rightarrow> 'w sync_deps \<Rightarrow> action_row \<Rightarrow> 'w sync \<Rightarrow> (exn + unit) \<times> 'w sync" where
  "recover st dep row s0 =
     (let aid = t_action_id row; kind = t_kind row; phase = t_phase row; llm = (kind \<in> set LLM_KINDS) in
      case timed_out st row s0 of
        (True, s) \<Rightarrow> (Inr (), snd (finish aid (timeout_result st dep row) None s))
      | (False, s) \<Rightarrow>
          if phase = FIX_DONE then
            (case try_hold st aid (t_report_id row) False s of
               (True, s1) \<Rightarrow> spawn aid Pr_ready s1 | (False, s1) \<Rightarrow> (Inr (), s1))
          else if phase = DISPATCHED \<and> \<not> llm then
            (case try_hold st aid (t_report_id row) False s of
               (True, s1) \<Rightarrow> if kind = ''open_pr'' then spawn aid Pr_ready s1
                              else (Inr (), release False aid (sync_inline row s1))
             | (False, s1) \<Rightarrow> (Inr (), s1))
          else if phase = INTENT \<or> phase = DISPATCHED then
            (case evidence row (sy_db s) of
               Some found \<Rightarrow> apply_evidence st row found s
             | None \<Rightarrow>
                 if phase = DISPATCHED \<and> stage_claim_held (t_report_id row) (sy_db s) then (Inr (), s)
                 else if phase = INTENT \<and> sonicgrid_user_keys st \<and> kind \<in> set PAID_KINDS
                      \<and> t_key_mode row \<noteq> Some REQUESTER
                 then (Inr (), snd (finish aid (step_result kind ''refused'' LEGACY_REFUSAL) (Some phase) s))
                 else if t_no_auto_retry row
                 then (Inr (), snd (finish aid (unconfirmed_failure kind) (Some phase) s))
                 else (case try_hold st aid (t_report_id row) llm s of
                         (False, s1) \<Rightarrow> (Inr (), s1)
                       | (True, s1) \<Rightarrow>
                           (case dispatch row phase s1 of (res, s2) \<Rightarrow> (res, release False aid s2))))
          else (Inr (), s))"

section \<open>One listed action\<close>

text \<open>\<open>_handle\<close> up to a claiming POST; \<open>Inr True\<close>: the POST follows.\<close>

definition handle_new :: "settings \<Rightarrow> project \<Rightarrow> jdict \<Rightarrow> 'w sync \<Rightarrow> (exn + bool) \<times> 'w sync" where
  "handle_new st p action s =
     (let aid = text_of (map_of action ''id''); kind = text_of (map_of action ''kind'') in
      case report_by_external_id (p_id p) (text_of (map_of action ''bugId'')) (sy_db s) of
        None \<Rightarrow> (Inr False, count_out (\<lambda>o1. o1\<lparr>oc_unresolved := Suc (oc_unresolved o1)\<rparr>) s)
      | Some r \<Rightarrow>
          (case try_hold st aid (r_id r) (kind \<in> set LLM_KINDS) s of
             (False, s1) \<Rightarrow> (Inr False, s1)
           | (True, s1) \<Rightarrow>
               (case or_obj ''requestedBy'' action of
                  Inl e \<Rightarrow> (Inl e, s1)
                | Inr user \<Rightarrow>
                    (case on_db (triage_action_reserve aid (p_id p) (r_id r) kind (JObj (action_params action))
                            (case map_of user ''userId'' of Some (JStr u) \<Rightarrow> Some u | _ \<Rightarrow> None)) s1 of
                       (False, s2) \<Rightarrow> (Inr False, release False aid s2)
                     | (True, s2) \<Rightarrow> (Inr True, s2)))))"

definition handle_known ::
  "settings \<Rightarrow> 'w sync_deps \<Rightarrow> jdict \<Rightarrow> action_row \<Rightarrow> 'w sync \<Rightarrow> (exn + bool) \<times> 'w sync" where
  "handle_known st dep action row s =
     (let aid = text_of (map_of action ''id'') in
      if t_phase row = FINISHED \<or> task_running aid s then
        (if task_running aid s \<and> t_phase row \<noteq> FINISHED then
           (case timed_out st row s of
              (True, s1) \<Rightarrow> (Inr False, snd (finish aid (timeout_result st dep row) None s1))
            | (False, s1) \<Rightarrow> (Inr False, s1))
         else (Inr False, s))
      else if t_phase row = RESERVED then
        (case try_hold st aid (t_report_id row) (t_kind row \<in> set LLM_KINDS) s of (ok, s1) \<Rightarrow> (Inr ok, s1))
      else (case recover st dep row s of (res, s1) \<Rightarrow> (map_sum id (\<lambda>_. False) res, s1)))"

definition handle_pre ::
  "settings \<Rightarrow> 'w sync_deps \<Rightarrow> project \<Rightarrow> jdict \<Rightarrow> 'w sync \<Rightarrow> (exn + bool) \<times> 'w sync" where
  "handle_pre st dep p action s =
     (case row_of (text_of (map_of action ''id'')) s of
        None \<Rightarrow> handle_new st p action s | Some row \<Rightarrow> handle_known st dep action row s)"

definition handle ::
  "settings \<Rightarrow> 'w sync_deps \<Rightarrow> api \<Rightarrow> project \<Rightarrow> jdict \<Rightarrow> 'w sync \<Rightarrow> (tick_error + unit) \<times> 'w sync" where
  "handle st dep api p action s =
     (case handle_pre st dep p action s of
        (Inl e, s1) \<Rightarrow> (Inl (Raised e), s1)
      | (Inr False, s1) \<Rightarrow> (Inr (), s1)
      | (Inr True, s1) \<Rightarrow> claim_and_start st dep api p action s1)"

fun handle_all ::
  "settings \<Rightarrow> 'w sync_deps \<Rightarrow> api \<Rightarrow> project \<Rightarrow> jdict list \<Rightarrow> 'w sync \<Rightarrow> (tick_error + unit) \<times> 'w sync" where
  "handle_all st dep api p [] s = (Inr (), s)"
| "handle_all st dep api p (a # rest) s =
     (case handle st dep api p a s of (Inl e, s1) \<Rightarrow> (Inl e, s1) | (Inr _, s1) \<Rightarrow> handle_all st dep api p rest s1)"

section \<open>Posting outcomes\<close>

definition current_state :: "jdict \<Rightarrow> exn + json option" where
  "current_state body =
     (if opt_truthy (map_of body ''currentState'') then Inr (map_of body ''currentState'')
      else bindE (or_obj ''action'' body) (\<lambda>a. Inr (map_of a ''state'')))"

text \<open>What a terminal POST's answer writes into the row.\<close>

definition drain_answer :: "'w sync_deps \<Rightarrow> action_row \<Rightarrow> nat \<Rightarrow> json option \<Rightarrow> 'w sync \<Rightarrow> 'w sync" where
  "drain_answer dep row status current s =
     (let aid = t_action_id row in
      if status = 200
      then count_out (\<lambda>o1. o1\<lparr>oc_terminals_posted := Suc (oc_terminals_posted o1)\<rparr>)
             (snd (update_row aid None [TF_terminal_acked True] s))
      else if status = 409 \<and> (case t_outcome row of
                None \<Rightarrow> current = None \<or> current = Some JNull | Some x \<Rightarrow> current = Some (JStr x))
      then snd (update_row aid None [TF_terminal_acked True] s)
      else if status = 400 \<or> status = 404 \<or> status = 409
      then snd (update_row aid None [TF_terminal_acked True, TF_terminal_error (Some (''http_'' @ digits status
             @ (if opt_truthy current then '':'' @ sd_str dep (the current) else [])))] s)
      else s)"

fun drain_rows ::
  "'w sync_deps \<Rightarrow> api \<Rightarrow> action_row list \<Rightarrow> 'w sync \<Rightarrow> (tick_error + unit) \<times> 'w sync" where
  "drain_rows dep api [] s = (Inr (), s)"
| "drain_rows dep api (row # rows) s =
     (case sg_route dep api (Post_action (t_action_id row) (terminal_body row)) s of
        (Inl e, s1) \<Rightarrow> (Inl e, s1)
      | (Inr (status, body), s1) \<Rightarrow>
          (case current_state body of
             Inl e \<Rightarrow> (Inl (Raised e), s1)
           | Inr current \<Rightarrow> drain_rows dep api rows (drain_answer dep row status current s1)))"

definition drain :: "'w sync_deps \<Rightarrow> api \<Rightarrow> string \<Rightarrow> 'w sync \<Rightarrow> (tick_error + unit) \<times> 'w sync" where
  "drain dep api pid s = drain_rows dep api (triage_actions_unacked pid (sy_db s)) s"

section \<open>Pushing results\<close>

text \<open>A payload to push: new (with its body) or resent as stored.\<close>

record push_item =
  pu_stamp :: string
  pu_report :: report
  pu_fingerprint :: string
  pu_body :: "jdict option"
  pu_stored :: "result_row option"

definition push_candidate :: "'w sync_deps \<Rightarrow> project \<Rightarrow> db \<Rightarrow> report \<Rightarrow> push_item option" where
  "push_candidate dep p d r =
     (let core = build_payload (sd_utf8_length dep) r (analyses_for_report (r_id r) None d)
            (fix_proposals_for_report (r_id r) d) (Some p);
          body = payload_json core;
          fp = fingerprint (sd_dumps dep) (sd_sha256 dep) body;
          stored = triage_result_get (r_id r) d;
          item = \<lparr>pu_stamp = pl_updated_at core, pu_report = r, pu_fingerprint = fp, pu_body = Some body, pu_stored = stored\<rparr>
      in case stored of
           Some x \<Rightarrow>
             if s_fingerprint x = Some fp then
               (if s_acked_fingerprint x = Some fp \<or> s_failed_fingerprint x = Some fp then None
                else Some (item\<lparr>pu_body := None\<rparr>))
             else Some item
         | None \<Rightarrow> Some item)"

definition push_list :: "settings \<Rightarrow> 'w sync_deps \<Rightarrow> project \<Rightarrow> db \<Rightarrow> push_item list" where
  "push_list st dep p d =
     take (nat (max 1 (triage_push_per_tick st)))
       (order_asc pu_stamp (List.map_filter (push_candidate dep p d) (sync_reports (p_id p) d)))"

definition int_value :: "json option \<Rightarrow> int option" where
  "int_value v = (case v of Some (JInt i) \<Rightarrow> Some i | Some (JBool b) \<Rightarrow> Some (if b then 1 else 0) | _ \<Rightarrow> None)"

text \<open>The payload and its revision; a new one is staged with a revision above the last.\<close>

definition stage_payload ::
  "'w sync_deps \<Rightarrow> string \<Rightarrow> push_item \<Rightarrow> 'w sync \<Rightarrow> (exn + int \<times> string) \<times> 'w sync" where
  "stage_payload dep pid x s =
     (case pu_body x of
        Some body \<Rightarrow>
          (case sd_epoch_us dep (e_world (sy_env s)) of (us, w) \<Rightarrow>
            (let revision = max ((case pu_stored x of None \<Rightarrow> -1 | Some r \<Rightarrow> s_revision r) + 1) us;
                 payload = canonical (sd_dumps dep) ((''revision'', JInt revision) # body)
             in case on_db (triage_result_stage (r_id (pu_report x)) pid (pu_fingerprint x) revision payload)
                       (set_world w s) of
                  (Inl _, s1) \<Rightarrow> (Inl (Exn ''IntegrityError'' []), s1)
                | (Inr _, s1) \<Rightarrow> (Inr (revision, payload), s1)))
      | None \<Rightarrow>
          (case Option.bind (Option.bind (pu_stored x) s_payload) (sd_loads dep) of
             Some (JObj kvs) \<Rightarrow>
               (case int_value (map_of kvs ''revision'') of
                  None \<Rightarrow> (Inl (Exn ''ValueError'' []), s)
                | Some i \<Rightarrow> (Inr (i, canonical (sd_dumps dep) kvs), s))
           | _ \<Rightarrow> (Inl (Exn ''ValueError'' []), s)))"

definition push_answer :: "push_item \<Rightarrow> int \<Rightarrow> nat \<Rightarrow> jdict \<Rightarrow> 'w sync \<Rightarrow> 'w sync" where
  "push_answer x revision status body s0 =
     (let rid = r_id (pu_report x); (now, s) = now_stamp s0 in
      if status = 200 then
        (let bump = (case int_value (map_of body ''storedRevision'') of
               Some v \<Rightarrow> if map_of body ''applied'' = Some (JBool False) \<and> v \<ge> revision then [SF_revision v] else []
             | None \<Rightarrow> [])
         in count_out (\<lambda>o1. o1\<lparr>oc_results_pushed := Suc (oc_results_pushed o1)\<rparr>)
              (set_db (triage_result_update rid ([SF_acked (Some (pu_fingerprint x)), SF_last_status (Some 200),
                 SF_last_error None, SF_pushed_at (Some now)] @ bump) (sy_db s)) s))
      else if status = 400 \<or> status = 404 \<or> status = 413
      then set_db (triage_result_update rid [SF_failed (Some (pu_fingerprint x)), SF_last_status (Some (int status)),
             SF_last_error (Some (''http_'' @ digits status)), SF_pushed_at (Some now)] (sy_db s)) s
      else set_db (triage_result_update rid [SF_last_status (Some (int status)),
             SF_last_error (Some (''unexpected_status:'' @ digits status)), SF_pushed_at (Some now)] (sy_db s)) s)"

fun push_items ::
  "'w sync_deps \<Rightarrow> api \<Rightarrow> string \<Rightarrow> push_item list \<Rightarrow> 'w sync \<Rightarrow> (tick_error + unit) \<times> 'w sync" where
  "push_items dep api pid [] s = (Inr (), s)"
| "push_items dep api pid (x # xs) s =
     (case stage_payload dep pid x s of
        (Inl e, s1) \<Rightarrow> (Inl (Raised e), s1)
      | (Inr (revision, payload), s1) \<Rightarrow>
          (case sg_route dep api (Put_result (case r_external_id (pu_report x) of None \<Rightarrow> [] | Some b \<Rightarrow> b) payload) s1 of
             (Inl e, s2) \<Rightarrow> (Inl e, s2)
           | (Inr (status, body), s2) \<Rightarrow> push_items dep api pid xs (push_answer x revision status body s2)))"

definition push :: "settings \<Rightarrow> 'w sync_deps \<Rightarrow> api \<Rightarrow> project \<Rightarrow> 'w sync \<Rightarrow> (tick_error + unit) \<times> 'w sync" where
  "push st dep api p s = push_items dep api (p_id p) (push_list st dep p (sy_db s)) s"

section \<open>Pull request state\<close>

fun check_each :: "settings \<Rightarrow> 'w sync_deps \<Rightarrow> project \<Rightarrow> fix_proposal list \<Rightarrow> 'w sync \<Rightarrow> 'w sync" where
  "check_each st dep p [] s = s"
| "check_each st dep p (f # fs) s =
     (let number = (case f_pr_number f of None \<Rightarrow> 0 | Some n \<Rightarrow> n) in
      case read_pr_state st (sd_github dep) p number (e_world (sy_env s)) of
        (Inl code, w) \<Rightarrow>
          (let s1 = set_world w s; s2 = set_db (pr_check_record (f_id f) None (Some code) (sy_db s1)) s1
           in if code = ''rate_limited'' then s2 else check_each st dep p fs s2)
      | (Inr state, w) \<Rightarrow>
          (let s1 = set_world w s in
           check_each st dep p fs
             (if state = ''open'' then set_db (pr_check_record (f_id f) (Some ''open'') None (sy_db s1)) s1
              else snd (on_db (pr_settle (f_id f) (f_bug_report_id f) number state) s1))))"

definition check_prs :: "settings \<Rightarrow> 'w sync_deps \<Rightarrow> project \<Rightarrow> 'w sync \<Rightarrow> 'w sync" where
  "check_prs st dep p s =
     (if github_token_value st = None then s
      else (case now_stamp s of (now, s1) \<Rightarrow>
              check_each st dep p (prs_to_check (p_id p) (now - 300000000) (sy_db s1)) s1))"

section \<open>Ticks\<close>

definition usable_base :: "project \<Rightarrow> exn + string option" where
  "usable_base p = (case triage_base_url (p_ingest_config p) of None \<Rightarrow> Inl (Exn ''ValueError'' ''invalid URL'') | Some b \<Rightarrow> Inr b)"

fun any_base :: "string \<Rightarrow> string \<Rightarrow> project list \<Rightarrow> exn + bool" where
  "any_base pid base [] = Inr False"
| "any_base pid base (x # xs) =
     (if p_id x = pid then any_base pid base xs
      else bindE (usable_base x) (\<lambda>b. if b = Some base then Inr True else any_base pid base xs))"

definition duplicate_source :: "project \<Rightarrow> string \<Rightarrow> db \<Rightarrow> exn + bool" where
  "duplicate_source p base d = any_base (p_id p) base (projects_with_triage_sync d)"

definition seen :: "nat \<Rightarrow> 'w sync \<Rightarrow> 'w sync" where
  "seen n = count_out (\<lambda>o1. o1\<lparr>oc_actions_seen := n\<rparr>)"

text \<open>The exchange of one tick: drain, actions, drain, push.\<close>

definition exchange ::
  "settings \<Rightarrow> 'w sync_deps \<Rightarrow> api \<Rightarrow> project \<Rightarrow> 'w sync \<Rightarrow> (tick_error + unit) \<times> 'w sync" where
  "exchange st dep api p s =
     (case drain dep api (p_id p) s of
        (Inl e, s1) \<Rightarrow> (Inl e, s1)
      | (Inr _, s1) \<Rightarrow>
          (case list_actions dep api s1 of
             (Inl e, s2) \<Rightarrow> (Inl e, s2)
           | (Inr listed, s2) \<Rightarrow>
               (case handle_all st dep api p listed (seen (length listed) s2) of
                  (Inl e, s3) \<Rightarrow> (Inl e, s3)
                | (Inr _, s3) \<Rightarrow>
                    (case drain dep api (p_id p) s3 of
                       (Inl e, s4) \<Rightarrow> (Inl e, s4) | (Inr _, s4) \<Rightarrow> push st dep api p s4))))"

definition error_code :: "(tick_error + unit) \<Rightarrow> string option" where
  "error_code res = (case res of Inr _ \<Rightarrow> None | Inl (Abort code) \<Rightarrow> Some code | Inl (Raised e) \<Rightarrow> Some ''internal_error'')"

definition tick_body ::
  "settings \<Rightarrow> 'w sync_deps \<Rightarrow> project \<Rightarrow> string \<Rightarrow> string \<Rightarrow> 'w sync \<Rightarrow> string option \<times> 'w sync" where
  "tick_body st dep p env_name base s =
     (case duplicate_source p base (sy_db s) of
        Inl e \<Rightarrow> (Some ''internal_error'', s)
      | Inr True \<Rightarrow> (Some ''duplicate_triage_source'', s)
      | Inr False \<Rightarrow>
          (let token = triage_token dep (Some env_name) in
           if token = [] then (Some ''credential_missing'', s)
           else (case exchange st dep (base, token) p s of (res, s1) \<Rightarrow> (error_code res, s1))))"

text \<open>
  \<open>sync_project\<close> with its project lock held.  A configuration whose URL does not parse raises before
  the bookkeeping; one whose credential name is no string raises in \<open>credential_env\<close>'s place later,
  inside the guarded part.
\<close>

definition env_name_of :: "project \<Rightarrow> string option option" where
  "env_name_of p = (case credential_env (p_ingest_config p) of Inl e \<Rightarrow> None | Inr n \<Rightarrow> Some n)"

definition configured :: "project \<Rightarrow> string option \<Rightarrow> bool" where
  "configured p base \<longleftrightarrow> str_set (p_ingest_source p) \<and> env_name_of p \<noteq> Some None \<and> str_set base"

definition record_tick :: "string \<Rightarrow> string option \<Rightarrow> 'w sync \<Rightarrow> outcome \<times> 'w sync" where
  "record_tick pid err s0 =
     (let s = count_out (\<lambda>o1. o1\<lparr>oc_error := err\<rparr>) s0;
          (n, s1) = on_db (triage_sync_state_record pid err (oc_unresolved (sy_out s))) s;
          s2 = count_out (\<lambda>o1. o1\<lparr>oc_consecutive_failures := (case n of None \<Rightarrow> 0 | Some k \<Rightarrow> k)\<rparr>) s1
      in (sy_out s2, s2))"

definition sync_project ::
  "settings \<Rightarrow> 'w sync_deps \<Rightarrow> string \<Rightarrow> 'w sync \<Rightarrow> (exn + outcome) \<times> 'w sync" where
  "sync_project st dep pid s0 =
     (let s = s0\<lparr>sy_out := TickOutcome\<rparr>; unset = TickOutcome\<lparr>oc_error := Some ''not_configured''\<rparr> in
      case project_get pid (sy_db s) of
        None \<Rightarrow> (Inr unset, s)
      | Some p \<Rightarrow>
          (case usable_base p of
             Inl e \<Rightarrow> (Inl e, s)
           | Inr base \<Rightarrow>
               if \<not> configured p base then (Inr unset, s)
               else
                 (let s1 = check_prs st dep p (snd (expire_overdue st dep (Some pid) s));
                      (err, s2) = (case env_name_of p of
                          Some (Some name) \<Rightarrow> tick_body st dep p name (the base) s1
                        | _ \<Rightarrow> (Some (case duplicate_source p (the base) (sy_db s1) of
                                  Inr True \<Rightarrow> ''duplicate_triage_source'' | _ \<Rightarrow> ''internal_error''), s1));
                      (out, s3) = record_tick pid err s2
                  in (Inr out, s3))))"

definition BACKOFF_ERRORS :: "string list" where
  "BACKOFF_ERRORS = [''unauthorized'', ''source_not_configured'', ''network_error'', ''timeout'']"

definition skip_of :: "string \<Rightarrow> 'w sync \<Rightarrow> nat" where
  "skip_of pid s = (case map_of (sy_skip s) pid of None \<Rightarrow> 0 | Some n \<Rightarrow> n)"

definition set_skip :: "string \<Rightarrow> nat \<Rightarrow> 'w sync \<Rightarrow> 'w sync" where
  "set_skip pid n s = s\<lparr>sy_skip := (pid, n) # filter (\<lambda>(k, v). k \<noteq> pid) (sy_skip s)\<rparr>"

definition drop_skip :: "string \<Rightarrow> 'w sync \<Rightarrow> 'w sync" where
  "drop_skip pid s = s\<lparr>sy_skip := filter (\<lambda>(k, v). k \<noteq> pid) (sy_skip s)\<rparr>"

definition check_prs_only :: "settings \<Rightarrow> 'w sync_deps \<Rightarrow> string \<Rightarrow> 'w sync \<Rightarrow> 'w sync" where
  "check_prs_only st dep pid s =
     (case project_get pid (sy_db s) of None \<Rightarrow> s | Some p \<Rightarrow> check_prs st dep p s)"

definition tick_project :: "settings \<Rightarrow> 'w sync_deps \<Rightarrow> string \<Rightarrow> 'w sync \<Rightarrow> 'w sync" where
  "tick_project st dep pid s =
     (if 0 < skip_of pid s then check_prs_only st dep pid (set_skip pid (skip_of pid s - 1) s)
      else (case sync_project st dep pid s of
              (res, s1) \<Rightarrow>
                (let out = (case res of Inl e \<Rightarrow> TickOutcome\<lparr>oc_error := Some ''internal_error''\<rparr> | Inr o1 \<Rightarrow> o1)
                 in if (case oc_error out of None \<Rightarrow> False | Some code \<Rightarrow> code \<in> set BACKOFF_ERRORS)
                    then set_skip pid (min (2 ^ max (oc_consecutive_failures out) 1) 32) s1
                    else drop_skip pid s1)))"

definition run_tick :: "settings \<Rightarrow> 'w sync_deps \<Rightarrow> 'w sync \<Rightarrow> 'w sync" where
  "run_tick st dep s =
     (let s1 = snd (expire_overdue st dep None s)
      in fold (tick_project st dep) (map p_id (projects_with_triage_sync (sy_db s1))) s1)"

end
