(* ===== verification/Ledger_Frame.thy ===== *)
theory Ledger_Frame
  imports Action_Exec
begin

text \<open>
  The stages and the open-pr step leave the action ledger alone: whatever a model or GitHub call
  does, only \<open>triage_sync\<close> itself moves an action.
\<close>

named_theorems ledger_frame "database operations that keep the action ledger"

section \<open>Operations\<close>

lemma frame_rollback [ledger_frame]: "triage_actions (rollback_to a b) = triage_actions a"
  by (simp add: rollback_to_def)

lemma frame_reports [ledger_frame]:
  "triage_actions (snd (update_reports P f d)) = triage_actions d"
  "triage_actions (snd (update_proposals Q g d)) = triage_actions d"
  by (simp_all add: update_reports_def update_proposals_def)

lemma frame_status [ledger_frame]: "triage_actions (snd (report_update_status rid n reason e d)) = triage_actions d"
  by (simp add: report_update_status_def update_reports_def case_prod_beta Let_def split: option.split)

lemma frame_claims [ledger_frame]:
  "triage_actions (snd (try_claim_report rid e n tok d)) = triage_actions d"
  "triage_actions (snd (adopt_claim rid seen t d)) = triage_actions d"
  "triage_actions (snd (release_claim rid t d)) = triage_actions d"
  "triage_actions (snd (report_update_fields rid args d)) = triage_actions d"
  by (simp_all add: try_claim_report_def adopt_claim_def release_claim_def report_update_fields_def
      update_reports_def case_prod_beta Let_def split: option.split)

lemma frame_analysis [ledger_frame]:
  "triage_actions (snd (analysis_create rid ph st m d)) = triage_actions d"
  "triage_actions (snd (analysis_update aid args d)) = triage_actions d"
  by (simp_all add: analysis_create_def insert_analysis_def analysis_update_def case_prod_beta Let_def
      split: sum.split)

lemma frame_proposals [ledger_frame]:
  "triage_actions (snd (fix_proposal_create rid a rc ex df c fs tr d)) = triage_actions d"
  "triage_actions (fix_proposal_record_push_intent fid sha b d) = triage_actions d"
  by (simp_all add: fix_proposal_create_def insert_fix_proposal_def fix_proposal_record_push_intent_def
      update_proposals_def case_prod_beta Let_def split: sum.split)

lemma frame_usage [ledger_frame]:
  "triage_actions (snd (token_usage_create pid prov m rid p c src key_ref d)) = triage_actions d"
  by (simp add: token_usage_create_def insert_usage_def case_prod_beta Let_def)

lemma frame_record_pr [ledger_frame]:
  "triage_actions (snd (record_pull_request rid fid t url n sha b d)) = triage_actions d"
  by (simp add: record_pull_request_def record_pr_proposal_def record_pr_report_def case_prod_beta Let_def
      update_proposals_def update_reports_def ledger_frame split: option.split)

lemma frame_project [ledger_frame]: "triage_actions (snd (project_update pid args d)) = triage_actions d"
  by (simp add: project_update_def case_prod_beta Let_def split: option.split)

lemma pairD: "triage_actions (snd x) = t \<Longrightarrow> x = (a, b) \<Longrightarrow> triage_actions b = t"
  by simp

lemmas frame_pairs = frame_claims(1)[THEN pairD] frame_analysis(1)[THEN pairD] frame_proposals(1)[THEN pairD]
  frame_usage[THEN pairD]

section \<open>Stages\<close>

text \<open>A result \<open>(r, d, w)\<close> of a stage run from \<open>d0\<close>.\<close>

definition on_ledger :: "db \<Rightarrow> 'a \<times> db \<times> 'w \<Rightarrow> bool" where
  "on_ledger d0 x \<longleftrightarrow> triage_actions (fst (snd x)) = triage_actions d0"

lemma on_ledger_mk [simp]: "on_ledger d0 (r, d, w) \<longleftrightarrow> triage_actions d = triage_actions d0"
  by (simp add: on_ledger_def)

lemma on_ledger_step:
  "on_ledger d0 x \<Longrightarrow> (\<And>r d w. triage_actions d = triage_actions d0 \<Longrightarrow> on_ledger d0 (f r d w)) \<Longrightarrow>
   on_ledger d0 (case x of (r, d, w) \<Rightarrow> f r d w)"
  by (cases x) simp

lemma frame_persist [ledger_frame]:
  "triage_actions (snd (persist_fix r loc v resp key key_ref trigger d)) = triage_actions d"
proof -
  obtain x d1 where a: "analysis_create (r_id r) P_FIX A_COMPLETED
      (no_analysis_args\<lparr>m_result := Some (json_of_validated v), m_provider := Some (l_provider resp),
        m_model := Some (l_model resp), m_prompt_tokens := l_prompt_tokens resp,
        m_completion_tokens := l_completion_tokens resp, m_trigger_ref := trigger\<rparr>) d = (x, d1)" by fastforce
  obtain y d2 where b: "fix_proposal_create (r_id r) (Some (a_id loc)) (v_root_cause v) (v_explanation v) (v_diff v)
      (v_confidence v) (v_files v) trigger d1 = (y, d2)" by fastforce
  obtain z d3 where c: "token_usage_create (r_project_id r) (l_provider resp) (l_model resp) (Some (r_id r))
      (l_prompt_tokens resp) (l_completion_tokens resp) (Some (if str_set key then ''request'' else ''env'')) key_ref d2
      = (z, d3)" by fastforce
  have "triage_actions d1 = triage_actions d" "triage_actions d2 = triage_actions d1" "triage_actions d3 = triage_actions d2"
    by (rule frame_pairs(2)[OF a], rule frame_pairs(3)[OF b], rule frame_pairs(4)[OF c])
  then show ?thesis by (cases x; cases y; cases z) (simp_all add: persist_fix_def Let_def a b c ledger_frame)
qed

lemma ledger_fix_body: "on_ledger d (fix_body st dep rid ov attribution trigger d w)"
proof -
  have p: "triage_actions d1 = triage_actions d" if "persist_fix r loc v resp key key_ref trigger d = (x, d1)"
    for r loc v resp key key_ref x d1 using frame_persist[of r loc v resp key key_ref trigger d] that by simp
  show ?thesis
    by (auto simp: fix_body_def ledger_frame Let_def split: sum.split fix_plan.split prod.split dest: p)
qed

lemma frame_failure [ledger_frame]: "triage_actions (snd (record_failure rid e msg trigger d)) = triage_actions d"
proof -
  obtain x d1 where a: "analysis_create rid P_FIX A_FAILED
      (no_analysis_args\<lparr>m_result := Some (JObj [(''error'', JStr msg), (''permanent'', JBool (is_permanent e))]),
        m_completed_at := Some (Iso (fst (utcnow d))), m_trigger_ref := trigger\<rparr>) (snd (utcnow d)) = (x, d1)" by fastforce
  have "triage_actions d1 = triage_actions d" using frame_pairs(2)[OF a] by simp
  then show ?thesis by (simp add: record_failure_def case_prod_beta Let_def a ledger_frame split: sum.split)
qed

lemma ledger_propose_fix: "on_ledger d (propose_fix st dep rid ov attribution trigger require d w)"
proof (cases "require \<and> request_key ov = None")
  case True
  then show ?thesis by (simp add: propose_fix_def)
next
  case False
  obtain won d1 where c: "try_claim_report rid TRIAGED FIX_PROPOSING None d = (won, d1)" by fastforce
  obtain res d2 w2 where b: "fix_body st dep rid ov attribution trigger d1 w = (res, d2, w2)" by (metis prod_cases3)
  have k: "triage_actions d1 = triage_actions d" "triage_actions d2 = triage_actions d1"
    using frame_pairs(1)[OF c] ledger_fix_body[of d1 st dep rid ov attribution trigger w] b by simp_all
  show ?thesis
  proof (cases won)
    case lost: False
    then show ?thesis unfolding propose_fix_def if_not_P[OF False] c using k by simp
  next
    case True
    have f: "triage_actions d3 = triage_actions d" if "record_failure rid e msg trigger d2 = (x, d3)" for e msg x d3
      using frame_failure[of rid e msg trigger d2] that k by simp
    show ?thesis unfolding propose_fix_def if_not_P[OF False] c using True k f
      by (auto simp: b Let_def ledger_frame split: sum.split fix_exn.split prod.split)
  qed
qed

lemma ledger_triage_rows: "triage_actions (snd (triage_rows dep r aid resp j d)) = triage_actions d"
proof -
  have u: "triage_actions (snd (case x of Inl e \<Rightarrow> (Inl (exn_of (db_exn e)), y) | Inr z \<Rightarrow> (Inr (), y))) = triage_actions y"
    for x :: "db_error + unit" and y by (cases x) simp_all
  show ?thesis
  proof (cases "is_obj j")
    case False
    then show ?thesis
      by (cases j) (simp_all add: triage_rows_def Let_def case_prod_beta ledger_frame)
  next
    case True
    then obtain kvs where j: "j = JObj kvs" by (cases j) simp_all
    show ?thesis
      by (cases "triage_fields dep j")
         (simp_all add: triage_rows_def Let_def case_prod_beta ledger_frame u j)
  qed
qed

lemma ledger_running_row: "triage_actions (snd (running_row ph trigger rid d)) = triage_actions d"
  by (simp add: running_row_def case_prod_beta Let_def ledger_frame)

lemma ledger_fail_row [ledger_frame]: "triage_actions (fail_row aid e d) = triage_actions d"
  by (simp add: fail_row_def case_prod_beta Let_def ledger_frame)

lemma ledger_triage_body: "on_ledger d (triage_body st dep r aid provider model d w)"
proof -
  have "triage_actions (snd (triage_writes dep r aid resp j d)) = triage_actions d" for resp j
    using ledger_triage_rows[of dep r aid resp j d]
    by (auto simp: triage_writes_def ledger_frame split: prod.split sum.split)
  then have "triage_actions d1 = triage_actions d" if "triage_writes dep r aid resp j d = (x, d1)" for resp j x d1
    using that by (metis snd_conv)
  then show ?thesis by (auto simp: triage_body_def split: prod.split sum.split)
qed

lemma ledger_triage_report: "on_ledger d (triage_report st dep r model0 provider0 trigger d w)"
proof -
  obtain x d1 where a: "running_row P_TRIAGE trigger (r_id r) d = (x, d1)" by fastforce
  have k: "triage_actions d1 = triage_actions d" by (rule pairD[OF ledger_running_row a])
  have b: "triage_actions d2 = triage_actions d" if "triage_body st dep r aid provider model d1 w = (res, d2, w1)"
    for aid provider model res d2 w1
    using ledger_triage_body[of d1 st dep r aid provider model w] that k by simp
  show ?thesis
    by (auto simp: triage_report_def a k Let_def ledger_frame split: sum.split prod.split dest: b)
qed

lemma ledger_ask: "on_ledger d (ask st dep r provider model prompt d w)"
  by (auto simp: ask_def usage_of_def case_prod_beta ledger_frame split: prod.split sum.split)

lemma ledger_second_pass: "on_ledger d (second_pass st dep r repo provider model summary pass1 d w)"
proof -
  have "triage_actions d1 = triage_actions d" if "ask st dep r provider model prompt d w = (res, d1, w1)"
    for prompt res d1 w1 using ledger_ask[of d st dep r provider model prompt w] that by simp
  then show ?thesis
    by (auto simp: second_pass_def Let_def split: sum.split prod.split)
qed

lemma ledger_localize_body: "on_ledger d (localize_body st dep r aid repo_map sha repo provider model summary d w)"
proof -
  obtain x d1 w1 where a: "ask st dep r provider model (lc_localize_prompt dep r repo_map summary) d w = (x, d1, w1)"
    by (metis prod_cases3)
  have k: "triage_actions d1 = triage_actions d"
    using ledger_ask[of d st dep r provider model "lc_localize_prompt dep r repo_map summary" w] a by simp
  show ?thesis
  proof (cases x)
    case (Inl e)
    then show ?thesis using a k by (simp add: localize_body_def)
  next
    case (Inr y)
    obtain z d2 w2 where b: "second_pass st dep r repo provider model summary (fst y) d1 w1 = (z, d2, w2)"
      by (metis prod_cases3)
    have "triage_actions d2 = triage_actions d"
      using ledger_second_pass[of d1 st dep r repo provider model summary "fst y" w1] b k by simp
    then show ?thesis using a b Inr
      by (cases y; cases z) (simp_all add: localize_body_def case_prod_beta Let_def ledger_frame)
  qed
qed

lemma ledger_localize_report:
  "on_ledger d (localize_report st dep r repo_map sha repo model provider summary trigger d w)"
proof -
  obtain x d1 where a: "running_row P_LOCALIZATION trigger (r_id r) d = (x, d1)" by fastforce
  have k: "triage_actions d1 = triage_actions d" by (rule pairD[OF ledger_running_row a])
  have b: "triage_actions d2 = triage_actions d"
    if "localize_body st dep r aid repo_map sha repo provider model summary d1 w = (res, d2, w1)" for aid res d2 w1
    using ledger_localize_body[of d1 st dep r aid repo_map sha repo provider model summary w] that k by simp
  show ?thesis
    by (auto simp: localize_report_def a k ledger_frame split: sum.split prod.split dest: b)
qed

lemma ledger_localization_body: "on_ledger d (localization_body st dep r p llm trigger d w)"
proof -
  have b: "triage_actions d2 = triage_actions d1"
    if "localize_report st dep r repo_map sha repo model provider summary trigger d1 w1 = (res, d2, w2)"
    for repo_map sha repo model provider summary d1 w1 res d2 w2
    using ledger_localize_report[of d1 st dep r repo_map sha repo model provider summary trigger w1] that by simp
  show ?thesis
    by (auto simp: localization_body_def Let_def ledger_frame split: sum.split prod.split dest!: b)
qed

lemma ledger_process_localization: "on_ledger d (process_localization st dep rid llm trigger d w)"
proof -
  obtain won d1 where c: "try_claim_report rid TRIAGED ANALYZING None d = (won, d1)" by fastforce
  have k: "triage_actions d1 = triage_actions d" by (rule frame_pairs(1)[OF c])
  have b: "triage_actions d2 = triage_actions d" if "localization_body st dep r p llm trigger d1 w = (res, d2, w1)"
    for r p res d2 w1 using ledger_localization_body[of d1 st dep r p llm trigger w] that k by simp
  show ?thesis
    by (auto simp: process_localization_def c k triaged_again_def ledger_frame
        split: bool.split option.split sum.split prod.split dest: b)
qed

lemma ledger_process_triaged: "on_ledger d (process_triaged st dep rid llm trigger d w)"
proof -
  obtain won d1 where c: "try_claim_report rid TRIAGED ANALYZING None d = (won, d1)" by fastforce
  have k: "triage_actions d1 = triage_actions d" by (rule frame_pairs(1)[OF c])
  have b: "triage_actions d2 = triage_actions d" if "triage_report st dep r m p trigger d1 w = (res, d2, w1)"
    for r m p res d2 w1 using ledger_triage_report[of d1 st dep r m p trigger w] that k by simp
  show ?thesis
    by (auto simp: process_triaged_def c k split: bool.split option.split prod.split dest: b)
qed

lemma ledger_local_analysis: "on_ledger d (run_local_analysis st dep rid t l trigger d w)"
proof (cases "report_get rid d")
  case None
  then show ?thesis by (simp add: run_local_analysis_def)
next
  case (Some r)
  define d1 where "d1 = (if r_status r = CLARIFICATION_NEEDED
      then (case try_claim_report rid CLARIFICATION_NEEDED ANALYZING None d of
              (True, e) \<Rightarrow> triaged_again rid e | (False, e) \<Rightarrow> e) else d)"
  obtain x e where c: "try_claim_report rid CLARIFICATION_NEEDED ANALYZING None d = (x, e)" by fastforce
  have k1: "triage_actions d1 = triage_actions d"
    using frame_pairs(1)[OF c] by (cases x) (simp_all add: d1_def c triaged_again_def ledger_frame)
  let ?has = "list_ex (\<lambda>a. a_status a = A_COMPLETED) (analyses_for_report rid (Some P_TRIAGE) d1)"
  obtain now d2 w2 where p: "(if ?has then (False, d1, w) else process_triaged st dep rid t trigger d1 w) = (now, d2, w2)"
    by (metis prod_cases3)
  have k2: "triage_actions d2 = triage_actions d"
    using p k1 ledger_process_triaged[of d1 st dep rid t trigger w] by (cases ?has) simp_all
  obtain out d3 w3 where q: "process_localization st dep rid l trigger d2 w2 = (out, d3, w3)" by (metis prod_cases3)
  have "triage_actions d3 = triage_actions d"
    using ledger_process_localization[of d2 st dep rid l trigger w2] k2 q by simp
  then show ?thesis unfolding run_local_analysis_def Some option.case Let_def d1_def[symmetric] p case_prod_conv q by simp
qed

lemma ledger_run_llm: "on_ledger d (run_llm st dep ldep row key d w)"
proof -
  have f: "on_ledger d (run_fix st dep row ov att req d w)" for ov att req
  proof -
    obtain x d1 w1 where p: "propose_fix st dep (t_report_id row) ov att (Some (t_action_id row)) req d w = (x, d1, w1)"
      by (metis prod_cases3)
    then show ?thesis
      using ledger_propose_fix[of d st dep "t_report_id row" ov att "Some (t_action_id row)" req w]
      by (simp add: run_fix_def)
  qed
  obtain out d1 w1 where l: "run_local_analysis st ldep (t_report_id row) (pin_of row ''triage'')
      (pin_of row ''localization'') (Some (t_action_id row)) d w = (out, d1, w1)"
    by (metis prod_cases3)
  have "triage_actions d1 = triage_actions d"
    using ledger_local_analysis[of d st ldep "t_report_id row" "pin_of row ''triage''" "pin_of row ''localization''"
        "Some (t_action_id row)" w] l by simp
  then show ?thesis
    by (simp add: run_llm_def Let_def f l split: option.split prod.split sum.split)
qed

section \<open>The open-pr step\<close>

definition keeps :: "('w, 'a) step \<Rightarrow> bool" where
  "keeps m \<longleftrightarrow> (\<forall>s. triage_actions (e_db (snd (m s))) = triage_actions (e_db s))"

lemma keepsD: "keeps m \<Longrightarrow> m s = (r, s1) \<Longrightarrow> triage_actions (e_db s1) = triage_actions (e_db s)"
  by (metis keeps_def snd_conv)

lemma keeps_ret: "keeps (ret x)" and keeps_raise: "keeps (raise e)"
  by (simp_all add: keeps_def ret_def raise_def)

lemma keeps_bind: "keeps m \<Longrightarrow> (\<And>x. keeps (f x)) \<Longrightarrow> keeps (bind m f)"
  by (simp add: keeps_def bind_def split: prod.split sum.split) (metis snd_conv)

lemma keeps_if: "(c \<Longrightarrow> keeps m) \<Longrightarrow> (\<not> c \<Longrightarrow> keeps n) \<Longrightarrow> keeps (if c then m else n)"
  by simp

lemma keeps_run_git: "keeps (run_git git args cwd envk inp)"
  by (simp add: keeps_def run_git_def Let_def case_prod_beta split: option.split)

lemma keeps_git_or_500: "keeps (git_or_500 r)"
  by (simp add: git_or_500_def keeps_ret keeps_raise)

lemma keeps_github: "github_call f s = (r, s1) \<Longrightarrow> triage_actions (e_db s1) = triage_actions (e_db s)"
  by (auto simp: github_call_def split: prod.splits)

lemmas keeps_rules = keeps_ret keeps_raise keeps_bind keeps_if keeps_run_git keeps_git_or_500

lemma keeps_cleanup: "keeps (cleanup git exists rmtree c)"
proof -
  have a: "keeps (bind (run_git git [''worktree'', ''prune''] In_clone Local_env None) (\<lambda>_ s1.
      if exists (c_worktree c) (e_world s1)
      then (Inr (), s1\<lparr>e_world := rmtree (c_worktree c) (e_world s1)\<rparr>) else (Inr (), s1)))"
    by (rule keeps_bind[OF keeps_run_git]) (simp add: keeps_def)
  have b: "keeps (bind (run_git git [''show-ref'', ''--verify'', ''--quiet'', c_base_ref c] In_clone Local_env None)
      (\<lambda>r. if g_code r = 0
        then bind (run_git git [''update-ref'', ''-d'', c_base_ref c] In_clone Local_env None) (\<lambda>_. ret ()) else ret ()))"
    by (intro keeps_rules)
  have d: "keeps (\<lambda>s. bind (if P s then bind (run_git git [''worktree'', ''remove'', ''--force'', c_worktree c]
        In_clone Local_env None) (\<lambda>_. bind (run_git git [''worktree'', ''prune''] In_clone Local_env None) (\<lambda>_ s1.
          if exists (c_worktree c) (e_world s1)
          then (Inr (), s1\<lparr>e_world := rmtree (c_worktree c) (e_world s1)\<rparr>) else (Inr (), s1))) else ret ())
      (\<lambda>_. bind (run_git git [''show-ref'', ''--verify'', ''--quiet'', c_base_ref c] In_clone Local_env None)
        (\<lambda>r. if g_code r = 0
          then bind (run_git git [''update-ref'', ''-d'', c_base_ref c] In_clone Local_env None) (\<lambda>_. ret ()) else ret ())) s)"
    for P
  proof -
    have "keeps (bind (if q then bind (run_git git [''worktree'', ''remove'', ''--force'', c_worktree c]
        In_clone Local_env None) (\<lambda>_. bind (run_git git [''worktree'', ''prune''] In_clone Local_env None) (\<lambda>_ s1.
          if exists (c_worktree c) (e_world s1)
          then (Inr (), s1\<lparr>e_world := rmtree (c_worktree c) (e_world s1)\<rparr>) else (Inr (), s1))) else ret ())
      (\<lambda>_. bind (run_git git [''show-ref'', ''--verify'', ''--quiet'', c_base_ref c] In_clone Local_env None)
        (\<lambda>r. if g_code r = 0
          then bind (run_git git [''update-ref'', ''-d'', c_base_ref c] In_clone Local_env None) (\<lambda>_. ret ()) else ret ())))" for q
      by (intro keeps_rules a)
    then show ?thesis by (simp add: keeps_def)
  qed
  show ?thesis unfolding cleanup_def Let_def by (rule keeps_bind[OF keeps_run_git d])
qed

lemma keeps_record_pr: "keeps (record_pr c fid pr sha)"
proof -
  have "triage_actions d = triage_actions (e_db s)"
    if "record_pull_request rid fid t u n x b (e_db s) = (y, d)" for rid t u n x b y d and s :: "'a env"
    using frame_record_pr[of rid fid t u n x b "e_db s"] that by simp
  then show ?thesis
    by (auto simp: keeps_def record_pr_def Let_def split: prod.split sum.split db_error.split option.split)
qed

lemma keeps_existing: "keeps (record_existing_pr (gh :: 'w github) c proposals pr)"
proof -
  have k: "keeps (bind (record_pr c owner pr None :: ('w, fix_proposal) step)
      (\<lambda>recorded. if c_requested c \<noteq> None \<and> c_requested c \<noteq> Some owner
         then ret ((answer_for 200 recorded False)\<lparr>an_status := 409\<rparr>) else ret (answer_for 200 recorded False)))" for owner
    by (intro keeps_rules keeps_record_pr)
  show ?thesis
    unfolding keeps_def
  proof
    fix s :: "'w env"
    obtain r s1 where c1: "github_call (gh_pr_commits gh (pr_num pr)) s = (r, s1)" by fastforce
    have "triage_actions (e_db (snd (bind (record_pr c owner pr None)
      (\<lambda>recorded. if c_requested c \<noteq> None \<and> c_requested c \<noteq> Some owner
         then ret ((answer_for 200 recorded False)\<lparr>an_status := 409\<rparr>) else ret (answer_for 200 recorded False)) s1)))
      = triage_actions (e_db s)" for owner
      using k[of owner] keeps_github[OF c1] by (simp add: keeps_def)
    then show "triage_actions (e_db (snd (record_existing_pr gh c proposals pr s))) = triage_actions (e_db s)"
      using keeps_github[OF c1] by (simp add: record_existing_pr_def c1 split: sum.split option.split)
  qed
qed

lemma keeps_create: "keeps (create_pr_step (gh :: 'w github) render c proposals f sha)"
proof -
  have k: "keeps (bind (record_pr c (f_id f) pr (Some sha) :: ('w, fix_proposal) step) (\<lambda>recorded. ret (answer_for 201 recorded True)))" for pr
    by (intro keeps_rules keeps_record_pr)
  show ?thesis
    unfolding keeps_def create_pr_step_def
  proof
    fix s :: "'w env"
    obtain r s1 where c1: "github_call (gh_create_pr gh (pr_title c) (cap_body (render (c_report c) f)) (c_branch c)
        (c_default_branch c)) s = (r, s1)" by fastforce
    obtain r2 s2 where c2: "github_call (gh_find_pr gh (c_branch c)) s1 = (r2, s2)" by fastforce
    note g = keeps_github[OF c1] keeps_github[OF c2]
    have e: "triage_actions (e_db (snd (record_existing_pr gh c proposals x s2))) = triage_actions (e_db s)" for x
      using keeps_existing[of gh c proposals x] g by (simp add: keeps_def)
    have n: "triage_actions (e_db (snd (bind (record_pr c (f_id f) pr (Some sha))
        (\<lambda>recorded. ret (answer_for 201 recorded True)) s1))) = triage_actions (e_db s)" for pr
      using k[of pr] g by (simp add: keeps_def)
    show "triage_actions (e_db (snd (case github_call (gh_create_pr gh (pr_title c) (cap_body (render (c_report c) f))
         (c_branch c) (c_default_branch c)) s of
        (Inl PrAlreadyExists, s1) \<Rightarrow>
          (case github_call (gh_find_pr gh (c_branch c)) s1 of
             (Inl e, s2) \<Rightarrow> (Inl (gh_lift e), s2)
           | (Inr None, s2) \<Rightarrow> (Inl (OpenPrError 502 ''github_error''), s2)
           | (Inr (Some existing), s2) \<Rightarrow> record_existing_pr gh c proposals existing s2)
      | (Inl e, s1) \<Rightarrow> (Inl (gh_lift e), s1)
      | (Inr pr, s1) \<Rightarrow>
          bind (record_pr c (f_id f) pr (Some sha)) (\<lambda>recorded. ret (answer_for 201 recorded True)) s1)))
      = triage_actions (e_db s)"
      using g by (simp add: c1 c2 e n split: sum.split gh_error.split option.split)
  qed
qed

lemma keeps_build: "keeps (build_commit git c)" and keeps_push: "keeps (push git c)"
  and keeps_tip: "keeps (remote_branch_tip git c)"
  unfolding build_commit_def push_def remote_branch_tip_def Let_def
  by (intro keeps_rules) (auto simp: split: option.split intro!: keeps_rules)

lemma keeps_run_claimed: "keeps (run_claimed git (gh :: 'w github) render c)"
proof -
  have p: "keeps (\<lambda>s2 :: 'w env. bind (push git c) (\<lambda>_. create_pr_step gh render c proposals f sha)
      (s2\<lparr>e_db := fix_proposal_record_push_intent fid sha b (e_db s2)\<rparr>))" for proposals f fid sha b
    using keeps_bind[OF keeps_push[where git = git and c = c] keeps_create[of gh render c proposals f sha]]
    by (simp add: keeps_def ledger_frame)
  have t: "keeps (bind (remote_branch_tip git c) (\<lambda>tip.
            case tip of
              Some sha \<Rightarrow>
                (case find (\<lambda>p. f_pushed_sha p = Some sha) proposals of
                   None \<Rightarrow> raise (OpenPrError 409 ''branch_exists'')
                 | Some pusher \<Rightarrow>
                     if c_requested c \<noteq> None \<and> c_requested c \<noteq> Some (f_id pusher)
                     then raise (OpenPrError 409 ''branch_exists'')
                     else create_pr_step gh render c proposals pusher sha)
            | None \<Rightarrow>
                bind (build_commit git c) (\<lambda>sha s2.
                  bind (push git c) (\<lambda>_. create_pr_step gh render c proposals (c_proposal c) sha)
                    (s2\<lparr>e_db := fix_proposal_record_push_intent (f_id (c_proposal c)) sha (c_branch c) (e_db s2)\<rparr>))))"
    for proposals
    by (rule keeps_bind[OF keeps_tip])
       (auto split: option.split intro!: keeps_raise keeps_create keeps_bind[OF keeps_build p])
  show ?thesis
    unfolding keeps_def
  proof
    fix s :: "'w env"
    obtain r s1 where g: "github_call (gh_find_pr gh (c_branch c)) s = (r, s1)" by fastforce
    have e: "triage_actions (e_db (snd (record_existing_pr gh c ps x s1))) = triage_actions (e_db s)" for ps x
      using keeps_existing[of gh c ps x] keeps_github[OF g] by (simp add: keeps_def)
    show "triage_actions (e_db (snd (run_claimed git gh render c s))) = triage_actions (e_db s)"
      using keeps_github[OF g] t[of "fix_proposals_for_report (r_id (c_report c)) (e_db s)"]
      by (simp add: run_claimed_def Let_def g e keeps_def split: sum.split option.split)
  qed
qed

lemma keeps_hold_claim: "keeps (hold_claim git (gh :: 'w github) render exists rmtree c)"
  unfolding keeps_def
proof
  fix s :: "'w env"
  obtain r s1 where a: "bind (cleanup git exists rmtree c) (\<lambda>_. run_claimed git gh render c) (s\<lparr>e_finalized := False\<rparr>)
      = (r, s1)" by fastforce
  obtain r2 s2 where b: "cleanup git exists rmtree c s1 = (r2, s2)" by fastforce
  have "triage_actions (e_db s1) = triage_actions (e_db s)"
    using keepsD[OF keeps_bind[OF keeps_cleanup keeps_run_claimed] a] by simp
  moreover have "triage_actions (e_db s2) = triage_actions (e_db s1)" by (rule keepsD[OF keeps_cleanup b])
  ultimately show "triage_actions (e_db (snd (hold_claim git gh render exists rmtree c s))) = triage_actions (e_db s)"
    by (simp add: hold_claim_def Let_def a b ledger_frame)
qed

lemma keeps_open_pr:
  "keeps (open_pull_request st git (gh :: 'w github) render exists rmtree has_git web_base worktree rid requested)"
  unfolding keeps_def
proof
  fix s :: "'w env"
  let ?run = "open_pull_request st git gh render exists rmtree has_git web_base worktree rid requested s"
  show "triage_actions (e_db (snd ?run)) = triage_actions (e_db s)"
  proof (cases "open_pr_checks st has_git web_base rid requested s")
    case (Inl e)
    then show ?thesis by (simp add: open_pull_request_def)
  next
    case (Inr x)
    show ?thesis
    proof (cases x)
      case (Inl a)
      then show ?thesis using Inr by (simp add: open_pull_request_def)
    next
      case (Inr c0)
      obtain won d2 where t: "take_claim c0 (uuid (e_db s) (uuid_ix (e_db s))) (snd (new_id (e_db s))) = (won, d2)"
        by fastforce
      have k: "triage_actions d2 = triage_actions (e_db s)"
        using arg_cong[OF t, of "\<lambda>p. triage_actions (snd p)"]
        by (simp add: take_claim_def ledger_frame split: if_splits)
      have h: "triage_actions (e_db (snd (hold_claim git gh render exists rmtree c1 s1))) = triage_actions (e_db s1)"
        for c1 and s1 :: "'w env" using keeps_hold_claim[of git gh render exists rmtree c1] by (simp add: keeps_def)
      show ?thesis
        using \<open>open_pr_checks st has_git web_base rid requested s = Inr x\<close> Inr k
        by (simp add: open_pull_request_def case_prod_beta Let_def t h split: option.split)
    qed
  qed
qed

lemma ledger_pr_step: "triage_actions (e_db (snd (pr_step st pd rid pid attempts s))) = triage_actions (e_db s)"
proof -
  obtain r s1 where c: "call_open_pr st pd rid pid s = (r, s1)" by fastforce
  have "triage_actions (e_db s1) = triage_actions (e_db s)"
    using keepsD[OF keeps_open_pr c[unfolded call_open_pr_def]] .
  then show ?thesis by (simp add: pr_step_def c split: sum.split open_error.split)
qed

end
