(* ===== verification/Action_Life.thy ===== *)
theory Action_Life
  imports Triage_Tick Ledger_Frame
begin

text \<open>
  The life of one action: an abstract automaton over its ledger row, its running task and the number
  of model runs and credential requests made for it, and the proof that every part of the sync moves
  every action only along it.
\<close>

section \<open>The automaton\<close>

text \<open>The row, the task, the model runs so far, the credential requests so far.\<close>

type_synonym view = "action_row option \<times> task option \<times> nat \<times> nat"

definition same_terms :: "action_row \<Rightarrow> action_row \<Rightarrow> bool" where
  "same_terms t t' \<longleftrightarrow> t_no_auto_retry t' = t_no_auto_retry t \<and> t_key_mode t' = t_key_mode t
     \<and> t_intent_at t' = t_intent_at t"

definition forward :: "ledger_phase \<Rightarrow> ledger_phase \<Rightarrow> bool" where
  "forward p p' \<longleftrightarrow> p' = p \<or> p' = FINISHED \<or> (p \<in> {INTENT, DISPATCHED} \<and> p' \<in> {DISPATCHED, FIX_DONE})"

inductive life :: "view \<Rightarrow> view \<Rightarrow> bool" where
  reserved: "t_phase t = RESERVED \<Longrightarrow> \<not> t_no_auto_retry t \<Longrightarrow> t_key_mode t = None \<Longrightarrow>
    life (None, k, m, c) (Some t, k, m, c)"
| dropped: "t_phase t = RESERVED \<Longrightarrow> life (Some t, k, m, c) (None, k, m, c)"
| intended: "t_phase t = RESERVED \<Longrightarrow> t_phase t' = INTENT \<Longrightarrow> t_intent_at t' \<noteq> None \<Longrightarrow>
    (t_key_mode t' = Some REQUESTER \<Longrightarrow> t_no_auto_retry t') \<Longrightarrow> life (Some t, k, m, c) (Some t', k, m, c)"
| advanced: "same_terms t t' \<Longrightarrow> forward (t_phase t) (t_phase t') \<Longrightarrow> life (Some t, k, m, c) (Some t', k, m, c)"
| launched: "same_terms t t' \<Longrightarrow> t_phase t = INTENT \<or> (t_phase t = DISPATCHED \<and> \<not> t_no_auto_retry t) \<Longrightarrow>
    t_phase t' = DISPATCHED \<Longrightarrow> life (Some t, k, m, c) (Some t', Some Llm_ready, m, c)"
| retasked: "k' \<noteq> Some Llm_ready \<Longrightarrow> life (r, k, m, c) (r, k', m, c)"
| ran: "m' \<le> Suc m \<Longrightarrow> c' \<le> Suc c \<Longrightarrow> (c' \<noteq> c \<Longrightarrow> t_key_mode t = Some REQUESTER) \<Longrightarrow>
    life (Some t, Some Llm_ready, m, c) (Some t, Some (Llm_answered t res), m', c')"

inductive_cases life_cases: "life v v'"

text \<open>What the automaton keeps true.\<close>

definition ready_one :: "task option \<Rightarrow> nat" where
  "ready_one k = (if k = Some Llm_ready then 1 else 0)"

fun life_inv :: "view \<Rightarrow> bool" where
  "life_inv (None, k, m, c) \<longleftrightarrow> m = 0 \<and> c = 0 \<and> k \<noteq> Some Llm_ready"
| "life_inv (Some t, k, m, c) \<longleftrightarrow>
     (if t_phase t \<in> {RESERVED, INTENT} then m = 0 \<and> c = 0 \<and> k \<noteq> Some Llm_ready else True)
     \<and> (if t_phase t \<in> {INTENT, DISPATCHED, FIX_DONE} then t_intent_at t \<noteq> None else True)
     \<and> (if t_key_mode t = Some REQUESTER then t_no_auto_retry t else True)
     \<and> (if t_no_auto_retry t then m + ready_one k \<le> 1 \<and> c + ready_one k \<le> 1 else True)
     \<and> (if m + c + ready_one k = 0 then True else t_intent_at t \<noteq> None)
     \<and> (if c = 0 then True else t_key_mode t = Some REQUESTER)"

lemma life_keeps: "life v v' \<Longrightarrow> life_inv v \<Longrightarrow> life_inv v'"
proof (induction rule: life.induct)
  case (retasked k' r k m c)
  then show ?case by (cases r) (auto simp: ready_one_def split: if_splits)
qed (auto simp: same_terms_def forward_def ready_one_def split: if_splits)

lemma lives_keep: "life\<^sup>*\<^sup>* v v' \<Longrightarrow> life_inv v \<Longrightarrow> life_inv v'"
  by (induction rule: rtranclp_induct) (auto intro: life_keeps)

section \<open>Actions of a process state\<close>

definition calls_to :: "call_out \<Rightarrow> 'w sync \<Rightarrow> nat" where
  "calls_to x s = count_list (sy_calls s) x"

definition view_of :: "string \<Rightarrow> 'w sync \<Rightarrow> view" where
  "view_of aid s = (row_of aid s, task_of aid s, calls_to (Model_run aid) s, calls_to (Credential_request aid) s)"

text \<open>One slot per action and per report, and no more model slots than the limit.\<close>

definition slots :: "'w sync \<Rightarrow> (string \<times> string \<times> bool) list" where
  "slots s = map (\<lambda>(k, h). (k, h_report h, h_llm h)) (sy_holds s)"

definition slots_ok :: "settings \<Rightarrow> 'w sync \<Rightarrow> bool" where
  "slots_ok st s \<longleftrightarrow> distinct (map fst (slots s)) \<and> distinct (map (fst \<circ> snd) (slots s))
     \<and> length (filter (snd \<circ> snd) (slots s)) \<le> max_llm st"

text \<open>A step that keeps the ledger's key and the slots in order and moves every action along the
  automaton.\<close>

definition lives :: "settings \<Rightarrow> 'w sync \<Rightarrow> 'w sync \<Rightarrow> bool" where
  "lives st s s' \<longleftrightarrow> actions_ok (sy_db s') \<and> (if slots_ok st s then slots_ok st s' else True)
     \<and> (\<forall>aid. life\<^sup>*\<^sup>* (view_of aid s) (view_of aid s'))"

lemma lives_refl: "actions_ok (sy_db s) \<Longrightarrow> lives st s s"
  by (simp add: lives_def)

lemma lives_trans: "lives st s s1 \<Longrightarrow> lives st s1 s2 \<Longrightarrow> lives st s s2"
  unfolding lives_def by (metis rtranclp_trans)

lemma lives_ok: "lives st s s1 \<Longrightarrow> actions_ok (sy_db s1)"
  by (simp add: lives_def)

lemma lives_one:
  "actions_ok (sy_db s') \<Longrightarrow> (slots_ok st s \<Longrightarrow> slots_ok st s') \<Longrightarrow> (\<And>k. view_of k s' = view_of k s \<or> life (view_of k s) (view_of k s')) \<Longrightarrow> lives st s s'"
  unfolding lives_def by (metis r_into_rtranclp rtranclp.rtrancl_refl)

lemma slots_same: "slots s' = slots s \<Longrightarrow> slots_ok st s \<Longrightarrow> slots_ok st s'"
  by (simp add: slots_ok_def)

named_theorems sync_simps "projections of a process state after an update"

lemma state_simps [sync_simps]:
  "sy_db (set_db d s) = d" "sy_holds (set_db d s) = sy_holds s" "sy_calls (set_db d s) = sy_calls s"
  "sy_db (set_world w s) = sy_db s" "sy_holds (set_world w s) = sy_holds s" "sy_calls (set_world w s) = sy_calls s"
  "sy_db (called x s) = sy_db s" "sy_holds (called x s) = sy_holds s" "sy_calls (called x s) = x # sy_calls s"
  "sy_db (count_out f s) = sy_db s" "sy_holds (count_out f s) = sy_holds s" "sy_calls (count_out f s) = sy_calls s"
  "sy_db (s\<lparr>sy_holds := hs\<rparr>) = sy_db s" "sy_db (s\<lparr>sy_skip := sk\<rparr>) = sy_db s" "sy_db (s\<lparr>sy_out := out\<rparr>) = sy_db s"
  "sy_db (s\<lparr>sy_env := e\<rparr>) = e_db e"
  by (simp_all add: sy_db_def set_db_def set_world_def called_def count_out_def)

lemma on_db_simps [sync_simps]:
  "fst (on_db f s) = fst (f (sy_db s))" "sy_db (snd (on_db f s)) = snd (f (sy_db s))"
  "sy_holds (snd (on_db f s)) = sy_holds s" "sy_calls (snd (on_db f s)) = sy_calls s"
  by (simp_all add: on_db_def case_prod_beta sync_simps)

text \<open>A step that leaves the ledger's rows, the slots and the log of calls.\<close>

definition untouched :: "'w sync \<Rightarrow> 'w sync \<Rightarrow> bool" where
  "untouched s s' \<longleftrightarrow> triage_actions (sy_db s') = triage_actions (sy_db s) \<and> sy_holds s' = sy_holds s \<and> sy_calls s' = sy_calls s"

lemma untouched_views:
  assumes "untouched s s'"
  shows "actions_ok (sy_db s') = actions_ok (sy_db s)" "row_of k s' = row_of k s" "task_of k s' = task_of k s"
    "hold_of k s' = hold_of k s" "calls_to x s' = calls_to x s" "view_of k s' = view_of k s"
  using assms
  by (simp_all add: untouched_def actions_ok_def row_of_def action_get_find task_of_def hold_of_def calls_to_def view_of_def)

lemma untouched_refl: "untouched s s" and untouched_trans: "untouched s s1 \<Longrightarrow> untouched s1 s2 \<Longrightarrow> untouched s s2"
  by (simp_all add: untouched_def)

lemma untouched_lives: "actions_ok (sy_db s) \<Longrightarrow> untouched s s' \<Longrightarrow> lives st s s'"
proof (rule lives_one)
  assume u: "untouched s s'"
  have "slots s' = slots s" using u by (simp add: untouched_def slots_def)
  then show "slots_ok st s \<Longrightarrow> slots_ok st s'" by (rule slots_same)
qed (simp_all add: untouched_views)

lemma untouched_db: "triage_actions d = triage_actions (sy_db s) \<Longrightarrow> untouched s (set_db d s)"
  and untouched_world: "untouched s (set_world w s)" and untouched_out: "untouched s (count_out f s)"
  by (simp_all add: untouched_def sync_simps)

lemma untouched_on_db: "triage_actions (snd (f (sy_db s))) = triage_actions (sy_db s) \<Longrightarrow> untouched s (snd (on_db f s))"
  by (simp add: untouched_def sync_simps)

lemma untouched_timed_out: "untouched s (snd (timed_out st row s))"
  by (auto simp: timed_out_def now_stamp_def untouched_def sync_simps case_prod_beta
      split: option.split time_text.split)

section \<open>Ledger writes\<close>

definition plain_field :: "action_field \<Rightarrow> bool" where
  "plain_field a \<longleftrightarrow> (case a of TF_phase p \<Rightarrow> False | TF_no_auto_retry b \<Rightarrow> False | TF_key_mode m \<Rightarrow> False
     | TF_intent_at x \<Rightarrow> False | _ \<Rightarrow> True)"

lemma plain_fields:
  "list_all plain_field args \<Longrightarrow>
   same_terms t (fold set_action_field args t) \<and> t_phase (fold set_action_field args t) = t_phase t
   \<and> t_kind (fold set_action_field args t) = t_kind t"
proof (induction args arbitrary: t)
  case (Cons a args)
  then show ?case using Cons.IH[of "set_action_field a t"]
    by (cases a) (simp_all add: plain_field_def same_terms_def)
qed (simp add: same_terms_def)

lemma update_views:
  "row_of k (snd (update_row aid e args s)) =
     (if k = aid then map_option (\<lambda>t. if (case e of None \<Rightarrow> True | Some p \<Rightarrow> t_phase t = p)
        then fold set_action_field args t else t) (row_of aid s) else row_of k s)"
  "task_of k (snd (update_row aid e args s)) = task_of k s"
  "hold_of k (snd (update_row aid e args s)) = hold_of k s"
  "calls_to x (snd (update_row aid e args s)) = calls_to x s"
  "actions_ok (sy_db (snd (update_row aid e args s))) = actions_ok (sy_db s)"
  by (simp_all add: row_of_def update_row_def sync_simps claim_simps task_of_def hold_of_def calls_to_def)

lemma update_won:
  "actions_ok (sy_db s) \<Longrightarrow> fst (update_row aid e args s) \<longleftrightarrow>
     (case row_of aid s of None \<Rightarrow> False | Some t \<Rightarrow> (case e of None \<Rightarrow> True | Some p \<Rightarrow> t_phase t = p))"
  by (simp add: row_of_def update_row_def sync_simps claim_simps)

lemma lives_update:
  assumes "actions_ok (sy_db s)"
    and "\<And>t. (case e of None \<Rightarrow> True | Some p \<Rightarrow> t_phase t = p) \<Longrightarrow>
      same_terms t (fold set_action_field args t) \<and> forward (t_phase t) (t_phase (fold set_action_field args t))"
  shows "lives st s (snd (update_row aid e args s))"
proof (rule lives_one)
  show "actions_ok (sy_db (snd (update_row aid e args s)))" using assms(1) by (simp add: update_views)
  show "slots_ok st s \<Longrightarrow> slots_ok st (snd (update_row aid e args s))"
    by (rule slots_same) (simp_all add: slots_def update_row_def sync_simps)
next
  fix k
  show "view_of k (snd (update_row aid e args s)) = view_of k s
      \<or> life (view_of k s) (view_of k (snd (update_row aid e args s)))"
  proof (cases "k = aid")
    case True
    then show ?thesis
      using assms(2) by (cases "row_of aid s") (auto simp: view_of_def update_views intro!: advanced)
  qed (simp add: view_of_def update_views)
qed

lemma lives_plain: "actions_ok (sy_db s) \<Longrightarrow> list_all plain_field args \<Longrightarrow> lives st s (snd (update_row aid e args s))"
  using plain_fields by (intro lives_update) (auto simp: forward_def)

lemma lives_finish:
  assumes "actions_ok (sy_db s)"
  shows "lives st s (snd (finish aid res e s))"
proof -
  let ?s1 = "snd (on_db (triage_action_finish aid (rs_outcome res) (clip (rs_message res)) (rs_steps res) e) s)"
  have "lives st s ?s1"
  proof (rule lives_one)
    show "actions_ok (sy_db ?s1)" using assms by (simp add: sync_simps claim_simps)
    show "slots_ok st s \<Longrightarrow> slots_ok st ?s1" by (rule slots_same) (simp_all add: slots_def sync_simps)
  next
    fix k
    show "view_of k ?s1 = view_of k s \<or> life (view_of k s) (view_of k ?s1)"
    proof (cases "k = aid")
      case True
      then show ?thesis
        by (cases "row_of aid s")
           (auto simp: view_of_def row_of_def sync_simps claim_simps task_of_def hold_of_def calls_to_def
             same_terms_def forward_def intro!: advanced)
    qed (simp add: view_of_def row_of_def sync_simps claim_simps task_of_def hold_of_def calls_to_def)
  qed
  moreover have "lives st ?s1 (snd (finish aid res e s))"
    using lives_ok[OF calculation]
    by (auto simp: finish_def case_prod_beta intro!: lives_plain lives_refl simp: plain_field_def)
  ultimately show ?thesis by (rule lives_trans)
qed

lemma lives_checkpoint:
  assumes "actions_ok (sy_db s)" and "p \<in> {INTENT, DISPATCHED}"
  shows "lives st s (snd (checkpoint_fix aid pid p s))"
  unfolding checkpoint_fix_def
  using assms by (intro lives_update) (auto simp: same_terms_def forward_def)

section \<open>Slots\<close>

lemma hold_filter: "map_of (filter (\<lambda>(k, h). k \<noteq> aid) hs) x = (if x = aid then None else map_of hs x)"
  by (induction hs) auto

lemma hold_map: "map_of (map (\<lambda>(k, h). if k = aid then (k, f h) else (k, h)) hs) x
    = (if x = aid then map_option f (map_of hs x) else map_of hs x)"
  by (induction hs) auto

lemma release_views:
  "row_of k (release own aid s) = row_of k s" "calls_to x (release own aid s) = calls_to x s"
  "sy_db (release own aid s) = sy_db s"
  "task_of k (release own aid s) = (if k = aid \<and> own then None else task_of k s)"
  by (auto simp: release_def row_of_def calls_to_def sync_simps task_of_def hold_of_def hold_filter task_running_def
      split: option.splits)

lemma slots_filter: "slots_ok st s \<Longrightarrow> slots_ok st (s\<lparr>sy_holds := filter P (sy_holds s)\<rparr>)"
proof -
  assume ok: "slots_ok st s"
  let ?f = "\<lambda>(k, h). (k, h_report h, h_llm h)"
  have d: "distinct (map (g \<circ> ?f) (filter P hs))" if "distinct (map (g \<circ> ?f) hs)" for g and hs :: "(string \<times> hold) list"
    using that by (rule distinct_map_filter)
  have "length (filter (snd \<circ> snd) (map ?f (filter P hs))) \<le> length (filter (snd \<circ> snd) (map ?f hs))"
    for hs :: "(string \<times> hold) list" by (induction hs) auto
  then show ?thesis using ok d unfolding slots_ok_def slots_def
    by (auto simp del: length_filter_map intro: order_trans)
qed

lemma lives_release: "actions_ok (sy_db s) \<Longrightarrow> lives st s (release own aid s)"
proof (rule lives_one)
  show "slots_ok st s \<Longrightarrow> slots_ok st (release own aid s)" by (simp add: release_def slots_filter)
qed (auto simp: view_of_def release_views intro!: retasked)

lemma set_task_views:
  "row_of k (set_task aid t s) = row_of k s" "calls_to x (set_task aid t s) = calls_to x s"
  "sy_db (set_task aid t s) = sy_db s"
  "task_of k (set_task aid t s) = (if k = aid \<and> hold_of aid s \<noteq> None then Some t else task_of k s)"
  by (auto simp: set_task_def row_of_def calls_to_def sync_simps task_of_def hold_of_def hold_map
      split: option.splits)

lemma slots_set_task: "slots (set_task aid t s) = slots s"
  by (auto simp: slots_def set_task_def)

lemma lives_set_task: "actions_ok (sy_db s) \<Longrightarrow> t \<noteq> Llm_ready \<Longrightarrow> lives st s (set_task aid t s)"
  by (rule lives_one) (auto simp: view_of_def set_task_views slots_ok_def slots_set_task intro!: retasked)

lemma lives_spawn: "actions_ok (sy_db s) \<Longrightarrow> t \<noteq> Llm_ready \<Longrightarrow> lives st s (snd (spawn aid t s))"
  by (simp add: spawn_def lives_refl lives_set_task)

lemma try_hold_views:
  "row_of k (snd (try_hold st aid rid llm s)) = row_of k s" "calls_to x (snd (try_hold st aid rid llm s)) = calls_to x s"
  "sy_db (snd (try_hold st aid rid llm s)) = sy_db s"
  "task_of k (snd (try_hold st aid rid llm s)) = task_of k s"
  by (auto simp: try_hold_def row_of_def calls_to_def sync_simps task_of_def hold_of_def map_add_def
      split: option.splits)

lemma slots_try_hold:
  assumes "slots_ok st s"
  shows "slots_ok st (snd (try_hold st aid rid llm s))"
proof -
  have a: "aid \<notin> fst ` set (slots s)" if "hold_of aid s = None"
    using that by (force simp: hold_of_def slots_def map_of_eq_None_iff)
  have r: "rid \<notin> (fst \<circ> snd) ` set (slots s)" if "\<not> list_ex (\<lambda>(other, h). h_report h = rid) (sy_holds s)"
    using that by (auto simp: slots_def list_ex_iff)
  have n: "length (filter (\<lambda>(other, h). h_llm h) (sy_holds s)) = length (filter (snd \<circ> snd) (slots s))"
    by (simp add: slots_def filter_map comp_def case_prod_beta split_def)
  show ?thesis
  proof (cases "fst (try_hold st aid rid llm s) \<and> hold_of aid s = None")
    case False
    then show ?thesis using assms by (auto simp: try_hold_def)
  next
    case True
    then have s1: "slots (snd (try_hold st aid rid llm s)) = slots s @ [(aid, rid, llm)]"
      and "rid \<notin> (fst \<circ> snd) ` set (slots s)" "llm \<Longrightarrow> length (filter (snd \<circ> snd) (slots s)) < max_llm st"
      using r n by (auto simp: try_hold_def slots_def split: if_splits)
    then show ?thesis using assms a True unfolding slots_ok_def s1 by (cases llm) auto
  qed
qed

lemma lives_try_hold: "actions_ok (sy_db s) \<Longrightarrow> lives st s (snd (try_hold st aid rid llm s))"
  by (rule lives_one) (auto simp: view_of_def try_hold_views slots_try_hold)

section \<open>The time bound\<close>

lemma lives_expire:
  assumes "actions_ok (sy_db s)"
  shows "lives st s (snd (expire_if_overdue st dep aid s))"
proof (cases "row_of aid s")
  case (Some row)
  have t: "lives st s (snd (timed_out st row s))" by (rule untouched_lives[OF assms untouched_timed_out])
  show ?thesis
    using t lives_trans[OF t lives_finish[OF lives_ok[OF t]]] lives_refl[OF assms]
    by (auto simp: expire_if_overdue_def Some case_prod_beta split: bool.split)
qed (simp add: expire_if_overdue_def lives_refl[OF assms])

lemma expire_none: "expire_if_overdue st dep aid s = (False, s1) \<Longrightarrow> untouched s s1"
proof -
  assume e: "expire_if_overdue st dep aid s = (False, s1)"
  then obtain row where r: "row_of aid s = Some row" by (cases "row_of aid s") (simp_all add: expire_if_overdue_def)
  obtain b s2 where t: "timed_out st row s = (b, s2)" by fastforce
  have "s1 = s2" using e by (cases b) (simp_all add: expire_if_overdue_def r t split: if_splits)
  then show ?thesis using untouched_timed_out[of s st row] t by simp
qed

lemma lives_expire_rows: "actions_ok (sy_db s) \<Longrightarrow> lives st s (snd (expire_rows st dep rows s))"
proof (induction rows arbitrary: s)
  case Nil
  then show ?case by (simp add: lives_refl)
next
  case (Cons row rows)
  obtain b s1 where t: "timed_out st row s = (b, s1)" by fastforce
  have l1: "lives st s s1" using untouched_lives[OF Cons.prems untouched_timed_out[of s st row]] by (simp add: t)
  obtain f s2 where fin: "finish (t_action_id row) (timeout_result st dep row) None s1 = (f, s2)" by fastforce
  have l2: "lives st s1 s2" using lives_finish[OF lives_ok[OF l1], where aid = "t_action_id row" and res = "timeout_result st dep row" and e = None]
    by (simp add: fin)
  show ?case
    using lives_trans[OF l1 Cons.IH[OF lives_ok[OF l1]]]
      lives_trans[OF lives_trans[OF l1 l2] Cons.IH[OF lives_ok[OF l2]]]
    by (simp add: t fin case_prod_beta split: bool.split)
qed

lemma lives_expire_overdue: "actions_ok (sy_db s) \<Longrightarrow> lives st s (snd (expire_overdue st dep pid s))"
  by (simp add: expire_overdue_def lives_expire_rows)

section \<open>Execution\<close>

lemma lives_reopen:
  assumes "actions_ok (sy_db s)"
  shows "lives st s (snd (on_db (reopen_for_action rid aid msg) s))"
proof (rule lives_one)
  show "actions_ok (sy_db (snd (on_db (reopen_for_action rid aid msg) s)))"
    using assms by (simp add: sync_simps reopen_keeps)
  show "slots_ok st s \<Longrightarrow> slots_ok st (snd (on_db (reopen_for_action rid aid msg) s))"
    by (rule slots_same) (simp_all add: slots_def sync_simps)
next
  fix k
  let ?s = "snd (on_db (reopen_for_action rid aid msg) s)"
  have frame: "task_of k ?s = task_of k s" "calls_to x ?s = calls_to x s" for x
    by (simp_all add: task_of_def hold_of_def calls_to_def sync_simps)
  let ?done = "\<lambda>t. t\<lparr>t_phase := FINISHED, t_outcome := Some ''done'', t_message := Some msg,
      t_steps := None, t_finished_at := Some (fst (db_now (sy_db s)))\<rparr>"
  have f: "triage_action_get x (snd (update_reports P g e)) = triage_action_get x e"
      "triage_action_get x (rollback_to a b) = triage_action_get x a" for x P g e a b
    by (simp_all add: action_get_find)
  have "row_of k ?s = row_of k s
      \<or> row_of k ?s = map_option (\<lambda>t. if k = aid \<and> t_phase t = DISPATCHED then ?done t else t) (row_of k s)"
    by (cases "k = aid"; cases "row_of k s")
       (simp_all add: row_of_def sync_simps reopen_for_action_def case_prod_beta Let_def f update_actions_get)
  then have r: "row_of k ?s = row_of k s \<or>
      (\<exists>t t'. row_of k s = Some t \<and> row_of k ?s = Some t' \<and> same_terms t t' \<and> t_phase t' = FINISHED)"
    by (cases "row_of k s") (auto simp: same_terms_def)
  then show "view_of k ?s = view_of k s \<or> life (view_of k s) (view_of k ?s)"
    by (auto simp: view_of_def frame forward_def intro!: advanced)
qed

lemma run_inline_ledger: "triage_actions (snd (run_inline row d)) = triage_actions d"
proof -
  have "triage_actions d1 = triage_actions d" if "report_update_status rid n reason e d = (x, d1)" for rid n reason e x d1
    using frame_status[of rid n reason e d] that by simp
  then show ?thesis by (auto simp: run_inline_def ledger_frame split: option.split prod.split)
qed

lemma lives_inline:
  assumes "actions_ok (sy_db s)"
  shows "lives st s (snd (on_db (run_inline row) s))" and "lives st s (sync_inline row s)"
proof -
  show i: "lives st s (snd (on_db (run_inline row) s))"
    by (rule untouched_lives[OF assms untouched_on_db]) (rule run_inline_ledger)
  note r = lives_reopen[OF assms, where rid = "t_report_id row" and aid = "t_action_id row" and msg = REOPENED]
  show "lives st s (sync_inline row s)"
    using r lives_trans[OF r lives_finish[OF lives_ok[OF r]]] lives_trans[OF i lives_finish[OF lives_ok[OF i]]]
    by (simp add: sync_inline_def Let_def case_prod_beta)
qed

text \<open>A fetched key is one credential request at most, for the requester's key only.\<close>

lemma sg_call_untouched: "untouched s (snd (sg_call dep api req s))"
  by (simp add: sg_call_def case_prod_beta untouched_world)

lemma fetch_key_cases:
  "untouched s (snd (fetch_key dep row s)) \<or> untouched (called (Credential_request (t_action_id row)) s) (snd (fetch_key dep row s))"
proof -
  have u: "untouched (called (Credential_request (t_action_id row)) s) s1"
    if "sg_call dep (b, t) (Post_credential (t_action_id row)) (called (Credential_request (t_action_id row)) s) = (a, s1)"
    for b t a s1
    using sg_call_untouched[of "called (Credential_request (t_action_id row)) s" dep "(b, t)" "Post_credential (t_action_id row)"] that
    by simp
  show ?thesis
    by (auto simp: fetch_key_def Let_def untouched_refl split: option.split sum.split prod.split sg_answer.split dest: u)
qed

lemma model_call_views:
  assumes "t_action_id row = aid"
  shows "row_of k (snd (model_call st dep row key s)) = row_of k s"
    "task_of k (snd (model_call st dep row key s)) = task_of k s"
    "hold_of k (snd (model_call st dep row key s)) = hold_of k s"
    "calls_to (Model_run k) (snd (model_call st dep row key s)) = (if k = aid then 1 else 0) + calls_to (Model_run k) s"
    "calls_to (Credential_request k) (snd (model_call st dep row key s)) = calls_to (Credential_request k) s"
    "actions_ok (sy_db (snd (model_call st dep row key s))) = actions_ok (sy_db s)"
proof -
  obtain res d w where r: "run_llm st (sd_stage dep) (sd_local dep) row key (sy_db s) (e_world (sy_env s)) = (res, d, w)"
    by (metis prod_cases3)
  have d: "triage_actions d = triage_actions (sy_db s)"
    using ledger_run_llm[of "sy_db s" st "sd_stage dep" "sd_local dep" row key "e_world (sy_env s)"] r by simp
  show "row_of k (snd (model_call st dep row key s)) = row_of k s"
    "task_of k (snd (model_call st dep row key s)) = task_of k s"
    "hold_of k (snd (model_call st dep row key s)) = hold_of k s"
    "calls_to (Model_run k) (snd (model_call st dep row key s)) = (if k = aid then 1 else 0) + calls_to (Model_run k) s"
    "calls_to (Credential_request k) (snd (model_call st dep row key s)) = calls_to (Credential_request k) s"
    "actions_ok (sy_db (snd (model_call st dep row key s))) = actions_ok (sy_db s)"
    using d assms
    by (simp_all add: model_call_def r row_of_def action_get_find task_of_def hold_of_def calls_to_def actions_ok_def sync_simps)
qed

lemma model_part_views:
  assumes "t_action_id row = aid"
  shows "row_of k (snd (model_part st dep row s)) = row_of k s
    \<and> task_of k (snd (model_part st dep row s)) = task_of k s
    \<and> hold_of k (snd (model_part st dep row s)) = hold_of k s
    \<and> actions_ok (sy_db (snd (model_part st dep row s))) = actions_ok (sy_db s)
    \<and> calls_to (Model_run k) (snd (model_part st dep row s)) \<le> (if k = aid then 1 else 0) + calls_to (Model_run k) s
    \<and> calls_to (Credential_request k) (snd (model_part st dep row s))
        \<le> (if k = aid \<and> t_key_mode row = Some REQUESTER then 1 else 0) + calls_to (Credential_request k) s
    \<and> calls_to (Credential_request k) s \<le> calls_to (Credential_request k) (snd (model_part st dep row s))"
proof (cases "t_key_mode row = Some REQUESTER")
  case False
  then show ?thesis by (simp add: model_part_def model_call_views[OF assms])
next
  case True
  obtain x s1 where f: "fetch_key dep row s = (x, s1)" by fastforce
  have "untouched s s1 \<or> untouched (called (Credential_request (t_action_id row)) s) s1"
    using fetch_key_cases[of s dep row] by (simp add: f)
  then have v: "row_of k s1 = row_of k s \<and> task_of k s1 = task_of k s \<and> hold_of k s1 = hold_of k s
      \<and> actions_ok (sy_db s1) = actions_ok (sy_db s) \<and> calls_to (Model_run k) s1 = calls_to (Model_run k) s
      \<and> calls_to (Credential_request k) s1 \<le> (if k = aid then 1 else 0) + calls_to (Credential_request k) s
      \<and> calls_to (Credential_request k) s \<le> calls_to (Credential_request k) s1"
    using assms by (auto simp: untouched_def row_of_def action_get_find task_of_def hold_of_def actions_ok_def calls_to_def sync_simps)
  have "snd (model_part st dep row s) = s1 \<or> (\<exists>key. snd (model_part st dep row s) = snd (model_call st dep row key s1))"
    using True by (auto simp: model_part_def f split: sum.split key_answer.split)
  then show ?thesis using v True by (elim disjE exE) (simp_all add: model_call_views[OF assms])
qed

lemma model_part_quiet:
  assumes "t_action_id row = aid" and "k \<noteq> aid"
  shows "calls_to (Model_run k) (snd (model_part st dep row s)) = calls_to (Model_run k) s"
proof -
  obtain x s1 where f: "fetch_key dep row s = (x, s1)" by fastforce
  have "calls_to (Model_run k) s1 = calls_to (Model_run k) s"
    using fetch_key_cases[of s dep row] by (auto simp: f untouched_def calls_to_def sync_simps)
  then show ?thesis
    using assms(2) by (simp add: model_part_def f model_call_views[OF assms(1)] split: sum.split key_answer.split)
qed

end
