(* ===== verification/Triage_Steps.thy ===== *)
theory Triage_Steps
  imports Action_Life Action_Safety
begin

text \<open>
  Every part of the sync between two awaits moves every action along the automaton of
  \<open>Action_Life\<close> and keeps the slots in order.
\<close>

section \<open>The model part and what follows it\<close>

lemma row_of_id: "row_of aid s = Some row \<Longrightarrow> t_action_id row = aid"
  by (simp add: row_of_def action_get_find find_Some_iff) blast

lemma slots_keep: "sy_holds s1 = sy_holds s \<Longrightarrow> slots s1 = slots s"
  by (simp add: slots_def)

lemma model_call_holds: "sy_holds (snd (model_call st dep row key s)) = sy_holds s"
  by (simp add: model_call_def case_prod_beta sync_simps)

lemma fetch_key_holds: "sy_holds (snd (fetch_key dep row s)) = sy_holds s"
  using fetch_key_cases[of s dep row] by (auto simp: untouched_def sync_simps)

lemma model_part_holds: "sy_holds (snd (model_part st dep row s)) = sy_holds s"
proof -
  obtain x s1 where f: "fetch_key dep row s = (x, s1)" by fastforce
  have "sy_holds s1 = sy_holds s" using fetch_key_holds[of dep row s] by (simp add: f)
  then show ?thesis
    by (simp add: model_part_def f model_call_holds split: sum.split key_answer.split)
qed

lemma lives_model:
  assumes ok: "actions_ok (sy_db s)" and task: "task_of aid s = Some Llm_ready" and row: "row_of aid s = Some row"
    and run: "model_part st dep row s = (res, s1)"
  shows "lives st s (set_task aid (Llm_answered row res) s1)"
proof (rule lives_one)
  note v = model_part_views[OF row_of_id[OF row], where st = st and dep = dep and s = s, unfolded run snd_conv]
  show "actions_ok (sy_db (set_task aid (Llm_answered row res) s1))" using v ok by (simp add: set_task_views)
  have "slots s1 = slots s"
    by (rule slots_keep[OF model_part_holds[where st = st and dep = dep and row = row and s = s, unfolded run snd_conv]])
  then show "slots_ok st s \<Longrightarrow> slots_ok st (set_task aid (Llm_answered row res) s1)"
    by (simp add: slots_ok_def slots_set_task)
  fix k
  have h: "hold_of aid s1 \<noteq> None" using v[of aid] task by (auto simp: task_of_def split: option.splits)
  show "view_of k (set_task aid (Llm_answered row res) s1) = view_of k s
      \<or> life (view_of k s) (view_of k (set_task aid (Llm_answered row res) s1))"
  proof (cases "k = aid")
    case True
    have "life (Some row, Some Llm_ready, calls_to (Model_run aid) s, calls_to (Credential_request aid) s)
        (Some row, Some (Llm_answered row res), calls_to (Model_run aid) s1, calls_to (Credential_request aid) s1)"
      using v[of aid] by (intro ran) (auto split: if_splits)
    then show ?thesis using True v[of aid] h task row by (simp add: view_of_def set_task_views)
  next
    case False
    have "calls_to (Model_run k) s1 = calls_to (Model_run k) s"
      using False model_part_quiet[OF row_of_id[OF row], where k = k and st = st and dep = dep and s = s] run by simp
    moreover have "calls_to (Credential_request k) s1 = calls_to (Credential_request k) s"
      using False v[of k] by simp
    ultimately show ?thesis using False v[of k] by (simp add: view_of_def set_task_views)
  qed
qed

lemma lives_llm_end:
  assumes "actions_ok (sy_db s)"
  shows "lives st s (snd (llm_end st dep aid res s))"
proof -
  obtain b s1 where e: "expire_if_overdue st dep aid s = (b, s1)" by fastforce
  have l1: "lives st s s1" using lives_expire[OF assms, of st dep aid] by (simp add: e)
  note ok1 = lives_ok[OF l1]
  obtain c s2 where ck: "checkpoint_fix aid (case rs_proposal_id res of None \<Rightarrow> [] | Some p \<Rightarrow> p) DISPATCHED s1 = (c, s2)"
    by fastforce
  have l2: "lives st s1 s2"
    using lives_checkpoint[OF ok1, where p = DISPATCHED and aid = aid and st = st
        and pid = "case rs_proposal_id res of None \<Rightarrow> [] | Some p \<Rightarrow> p"] by (simp add: ck)
  note late = lives_plain[OF _ , where e = None and args = "[TF_late_outcome x]" for x]
  show ?thesis
    using l1 lives_trans[OF l1 late[OF ok1]] lives_trans[OF l1 l2] lives_trans[OF lives_trans[OF l1 l2] late[OF lives_ok[OF l2]]]
      lives_trans[OF l1 lives_finish[OF ok1]]
    by (simp add: llm_end_def e ck plain_field_def split: bool.split)
qed

lemma lives_pr_begin:
  assumes "actions_ok (sy_db s)"
  shows "lives st s (snd (pr_begin st dep aid s))"
  using lives_expire[OF assms, of st dep aid] lives_refl[OF assms]
  by (auto simp: pr_begin_def split: option.split prod.split bool.split)

lemma lives_pr_call:
  assumes "actions_ok (sy_db s)"
  shows "lives st s (snd (pr_call st dep row s))"
proof (rule lives_one)
  obtain a e where p: "pr_step st (sd_pr dep) (t_report_id row) (if compound row then t_fix_proposal_id row else None)
             (t_attempts row) (sy_env s) = (a, e)" by fastforce
  have l: "triage_actions (e_db e) = triage_actions (sy_db s)"
    using arg_cong[OF p, of "\<lambda>x. triage_actions (e_db (snd x))"] by (simp add: ledger_pr_step sy_db_def)
  show "actions_ok (sy_db (snd (pr_call st dep row s)))"
    using assms l by (simp add: pr_call_def p sync_simps actions_ok_def)
  show "slots_ok st s \<Longrightarrow> slots_ok st (snd (pr_call st dep row s))"
    by (simp add: pr_call_def p slots_ok_def slots_def sync_simps)
  show "view_of k (snd (pr_call st dep row s)) = view_of k s \<or> life (view_of k s) (view_of k (snd (pr_call st dep row s)))" for k
    using l by (simp add: view_of_def row_of_def action_get_find task_of_def hold_of_def calls_to_def pr_call_def p sync_simps)
qed

lemma lives_pr_end:
  assumes "actions_ok (sy_db s)"
  shows "lives st s (pr_end st dep aid row a s)"
proof -
  obtain b s1 where e: "expire_if_overdue st dep aid s = (b, s1)" by fastforce
  have l1: "lives st s s1" using lives_expire[OF assms, of st dep aid] by (simp add: e)
  note ok1 = lives_ok[OF l1]
  show ?thesis
    using lives_trans[OF l1 lives_plain[OF ok1, where e = None and args = "[TF_late_outcome x]" for x]]
      lives_trans[OF l1 lives_plain[OF ok1, where e = "Some (pr_phase row)" and args = "[TF_attempts (sr_attempts a)]"]]
      lives_trans[OF l1 lives_finish[OF ok1]]
    by (simp add: pr_end_def e plain_field_def split: bool.split option.split)
qed

section \<open>Dispatch\<close>

lemma fold_dispatched:
  "same_terms t (fold set_action_field [TF_phase DISPATCHED, TF_dispatched_at x] t)
   \<and> t_phase (fold set_action_field [TF_phase DISPATCHED, TF_dispatched_at x] t) = DISPATCHED"
  by (simp add: same_terms_def)

lemma now_untouched: "untouched s (snd (now_stamp s))"
  by (simp add: now_stamp_def untouched_on_db)

lemma lives_mark:
  assumes "actions_ok (sy_db s)" and "p = INTENT \<or> p = DISPATCHED"
  shows "lives st s (snd (mark_dispatched aid p s))"
proof -
  have n: "lives st s (snd (now_stamp s))" by (rule untouched_lives[OF assms(1) now_untouched])
  have "lives st (snd (now_stamp s))
      (snd (update_row aid (Some p) [TF_phase DISPATCHED, TF_dispatched_at (Some (fst (now_stamp s)))] (snd (now_stamp s))))"
    using assms(2) fold_dispatched by (intro lives_update[OF lives_ok[OF n]]) (auto simp: forward_def)
  from lives_trans[OF n this] show ?thesis by (simp add: mark_dispatched_def case_prod_beta)
qed

text \<open>Winning the phase move and starting the model task is one move of the automaton.\<close>

lemma lives_launch_llm:
  assumes ok: "actions_ok (sy_db s)" and row: "row_of aid s = Some row"
    and ph: "t_phase row = p" "p = INTENT \<or> (p = DISPATCHED \<and> \<not> t_no_auto_retry row)"
  shows "lives st s (set_task aid Llm_ready (snd (mark_dispatched aid p s)))"
proof (rule lives_one)
  let ?s1 = "snd (mark_dispatched aid p s)"
  have m: "lives st s ?s1" using lives_mark[OF ok] ph(2) by blast
  show "actions_ok (sy_db (set_task aid Llm_ready ?s1))" using lives_ok[OF m] by (simp add: set_task_views)
  show "slots_ok st s \<Longrightarrow> slots_ok st (set_task aid Llm_ready ?s1)"
    using m by (simp add: lives_def slots_ok_def slots_set_task)
  fix k
  obtain t' where t': "row_of aid ?s1 = Some t'" "same_terms row t'" "t_phase t' = DISPATCHED"
    using fold_dispatched[of row] row ph(1)
    by (simp add: mark_dispatched_def case_prod_beta update_views untouched_views[OF now_untouched])
  have v: "task_of k ?s1 = task_of k s" "hold_of k ?s1 = hold_of k s" "calls_to x ?s1 = calls_to x s"
    "k \<noteq> aid \<Longrightarrow> row_of k ?s1 = row_of k s" for x k
    by (simp_all add: mark_dispatched_def case_prod_beta update_views untouched_views[OF now_untouched])
  show "view_of k (set_task aid Llm_ready ?s1) = view_of k s \<or> life (view_of k s) (view_of k (set_task aid Llm_ready ?s1))"
  proof (cases "k = aid")
    case True
    have "forward p DISPATCHED" using ph(2) by (auto simp: forward_def)
    then show ?thesis using True t' row ph
      by (auto simp: view_of_def set_task_views v intro!: launched advanced)
  qed (simp add: view_of_def set_task_views v)
qed

lemma lives_out: "lives st s s1 \<Longrightarrow> lives st s (count_out f s1)"
  by (rule lives_trans[OF _ untouched_lives[OF _ untouched_out]]) (auto dest: lives_ok)

lemma set_task_out: "set_task aid t (count_out f s) = count_out f (set_task aid t s)"
  by (simp add: set_task_def count_out_def)

lemma lives_dispatch:
  assumes ok: "actions_ok (sy_db s)" and row: "row_of (t_action_id row) s = Some row"
    and ph: "t_phase row = p" "p = INTENT \<or> (p = DISPATCHED \<and> \<not> t_no_auto_retry row)"
  shows "lives st s (snd (dispatch row p s))"
proof -
  let ?aid = "t_action_id row"
  obtain b s1 where m: "mark_dispatched ?aid p s = (b, s1)" by fastforce
  have l1: "lives st s s1" using lives_mark[OF ok, of p st ?aid] ph(2) by (auto simp: m)
  have llm: "lives st s (set_task ?aid Llm_ready s1)" using lives_launch_llm[OF ok row ph] by (simp add: m)
  show ?thesis
  proof (cases b)
    case False
    then show ?thesis using lives_trans[OF l1 lives_release[OF lives_ok[OF l1]]] by (simp add: dispatch_def m)
  next
    case True
    let ?s2 = "count_out (\<lambda>o1. o1\<lparr>oc_actions_started := Suc (oc_actions_started o1)\<rparr>) s1"
    have l2: "lives st s ?s2" by (rule lives_out[OF l1])
    have spawn: "lives st s (snd (spawn ?aid Llm_ready ?s2))"
      using l2 lives_out[OF llm] by (simp add: spawn_def set_task_out)
    note pr = lives_trans[OF l2 lives_spawn[OF lives_ok[OF l2], of Pr_ready st ?aid]]
    have i: "lives st s (sync_inline row ?s2)" by (rule lives_trans[OF l2 lives_inline(2)[OF lives_ok[OF l2]]])
    have "snd (dispatch row p s) = snd (launch row s1)" using True by (simp add: dispatch_def m)
    then show ?thesis
      using spawn pr lives_trans[OF i lives_release[OF lives_ok[OF i]]] by (simp add: launch_def Let_def)
  qed
qed

section \<open>Claiming\<close>

lemma authorize_key_terms:
  assumes "authorize cf st p r kind action d = Inr a" and "au_refusal a = None" and "au_key_mode a = Some REQUESTER"
  shows "au_no_auto_retry a"
proof -
  have no: "Refused x y \<noteq> a" "Granted pin b None \<noteq> a" for x y pin b
    using assms(2,3) by (auto simp: Refused_def Granted_def)
  obtain user consents where uc: "or_obj ''requestedBy'' action = Inr user" "or_obj ''consents'' action = Inr consents"
    using assms(1) by (auto simp: authorize_def bindE_Inr)
  have l: "authorize_local st p r \<noteq> a" using local_granted[of st p r] assms(2,3) by auto
  have c: "authorize_configured cf st p r kind email cs params d \<noteq> Inr a" for email cs params
    using configured_granted[of cf st p r kind email cs params d a] assms(2,3) by (auto simp: Granted_def)
  show ?thesis
  proof (cases "kind \<in> set PAID_KINDS \<and> sonicgrid_user_keys st")
    case True
    then have "authorize_requester p r kind consents (action_params action) d = a"
      using assms(1) uc by (auto simp: authorize_def KINDS_def PAID_KINDS_def)
    then show ?thesis using requester_granted[of p r kind consents "action_params action" d] assms(2)
      by (auto simp: Granted_def)
  next
    case False
    then show ?thesis using assms(1) uc no l c
      by (auto simp: authorize_def bindE_Inr split: if_splits option.splits)
  qed
qed

lemma lives_intent:
  assumes ok: "actions_ok (sy_db s)" and run: "claim_intent st dep p aid action s = (x, s1)"
  shows "lives st s s1" and "x = Inr (Some row) \<Longrightarrow> row_of aid s1 = Some row \<and> t_phase row = INTENT"
proof -
  have "lives st s s1 \<and> (x = Inr (Some row) \<longrightarrow> row_of aid s1 = Some row \<and> t_phase row = INTENT)"
  proof (cases "row_of aid s")
    case None
    then show ?thesis using run lives_refl[OF ok] by (auto simp: claim_intent_def)
  next
    case (Some t)
    show ?thesis
    proof (cases "report_get (t_report_id t) (sy_db s)")
      case None
      then show ?thesis using run lives_refl[OF ok] \<open>row_of aid s = Some t\<close> by (auto simp: claim_intent_def)
    next
      case (Some r)
      obtain au where au: "authorize (sd_casefold dep) st (Some p) r (text_of (map_of action ''kind'')) action (sy_db s) = au"
        by blast
      show ?thesis
      proof (cases "\<exists>auth. au = Inr auth \<and> au_refusal auth = None")
        case False
        then show ?thesis
          using run lives_refl[OF ok] lives_finish[OF ok] \<open>row_of aid s = Some t\<close> Some au
          by (auto simp: claim_intent_def split: sum.splits option.splits)
      next
        case True
        then obtain auth where a: "au = Inr auth" "au_refusal auth = None" by blast
        have n: "lives st s (snd (now_stamp s))" by (rule untouched_lives[OF ok now_untouched])
        let ?args = "[TF_phase INTENT, TF_intent_at (Some (Iso (fst (now_stamp s)))), TF_pinned_llm (Some (au_pinned auth)),
            TF_no_auto_retry (au_no_auto_retry auth), TF_key_mode (au_key_mode auth)]"
        obtain b s2 where u: "update_row aid (Some RESERVED) ?args (snd (now_stamp s)) = (b, s2)" by fastforce
        have key: "au_key_mode auth = Some REQUESTER \<Longrightarrow> au_no_auto_retry auth"
          using authorize_key_terms[OF au[unfolded a(1)]] a(2) by blast
        have ru: "row_of aid s2 = map_option (\<lambda>t. if t_phase t = RESERVED then fold set_action_field ?args t else t) (row_of aid s)"
          using update_views(1)[of aid aid "Some RESERVED" ?args "snd (now_stamp s)"] u
          by (simp add: untouched_views[OF now_untouched])
        have l2: "lives st (snd (now_stamp s)) s2"
        proof (rule lives_one)
          show "actions_ok (sy_db s2)"
            using update_views(5)[of aid "Some RESERVED" ?args "snd (now_stamp s)"] u lives_ok[OF n] by simp
          have "slots s2 = slots (snd (now_stamp s))"
            using u by (intro slots_keep) (auto simp: update_row_def sync_simps dest: arg_cong[of _ _ "\<lambda>x. sy_holds (snd x)"])
          then show "slots_ok st (snd (now_stamp s)) \<Longrightarrow> slots_ok st s2" by (rule slots_same)
          fix k
          have s2: "s2 = snd (update_row aid (Some RESERVED) ?args (snd (now_stamp s)))" using u by simp
          show "view_of k s2 = view_of k (snd (now_stamp s)) \<or> life (view_of k (snd (now_stamp s))) (view_of k s2)"
            unfolding s2 using key \<open>row_of aid s = Some t\<close>
            by (cases "k = aid")
               (auto simp: view_of_def update_views untouched_views[OF now_untouched] intro!: intended)
        qed
        have won: "b \<Longrightarrow> t_phase t = RESERVED"
          using update_won[OF lives_ok[OF n], of aid "Some RESERVED" ?args] u \<open>row_of aid s = Some t\<close>
          by (simp add: untouched_views[OF now_untouched])
        obtain now n1 where nw: "now_stamp s = (now, n1)" by fastforce
        have "s1 = s2" "x = (if b then Inr (row_of aid s2) else Inr None)"
          using run u by (cases b; simp add: claim_intent_def \<open>row_of aid s = Some t\<close> Some au a nw)+
        then show ?thesis using lives_trans[OF n l2] won ru \<open>row_of aid s = Some t\<close> by (auto split: if_splits)
      qed
    qed
  qed
  then show "lives st s s1" and "x = Inr (Some row) \<Longrightarrow> row_of aid s1 = Some row \<and> t_phase row = INTENT" by blast+
qed

lemma lives_drop_reserved:
  assumes "actions_ok (sy_db s)"
  shows "lives st s (set_db (triage_action_delete_reserved aid (sy_db s)) s)"
proof (rule lives_one)
  let ?s = "set_db (triage_action_delete_reserved aid (sy_db s)) s"
  show "actions_ok (sy_db ?s)"
    using assms by (simp add: sync_simps actions_ok_def triage_action_delete_reserved_def delete_where_def distinct_map_filter)
  show "slots_ok st s \<Longrightarrow> slots_ok st ?s" by (simp add: slots_ok_def slots_def sync_simps)
  fix k
  have get: "find (\<lambda>t. t_action_id t = k) (filter (\<lambda>t. \<not> (t_action_id t = aid \<and> t_phase t = RESERVED)) ts)
      = (case find (\<lambda>t. t_action_id t = k) ts of None \<Rightarrow> None
         | Some t \<Rightarrow> if k = aid \<and> t_phase t = RESERVED then None else Some t)"
    if "distinct (map t_action_id ts)" for ts
    using that
  proof (induction ts)
    case (Cons t ts)
    have "find (\<lambda>t. t_action_id t = k) ts = None" if "t_action_id t = k"
      using that Cons.prems unfolding find_None_iff by (metis distinct.simps(2) image_eqI list.set_map list.simps(9))
    then show ?case using Cons by (auto split: option.splits)
  qed simp
  have row: "row_of k ?s = (case row_of k s of None \<Rightarrow> None
      | Some t \<Rightarrow> if k = aid \<and> t_phase t = RESERVED then None else Some t)"
    using get assms
    by (simp add: row_of_def sync_simps action_get_find triage_action_delete_reserved_def delete_where_def actions_ok_def)
  then show "view_of k ?s = view_of k s \<or> life (view_of k s) (view_of k ?s)"
    by (cases "row_of k s") (auto simp: view_of_def task_of_def hold_of_def calls_to_def sync_simps intro!: dropped)
qed

lemma lives_claim_answered:
  assumes ok: "actions_ok (sy_db s)"
  shows "lives st s (snd (claim_answered st dep p action status s))"
proof -
  let ?aid = "text_of (map_of action ''id'')"
  have rel: "lives st s (release False ?aid s2)" if "lives st s s2" for s2
    by (rule lives_trans[OF that lives_release[OF lives_ok[OF that]]])
  obtain x s1 where c: "claim_intent st dep p ?aid action s = (x, s1)" by fastforce
  have l1: "lives st s s1" by (rule lives_intent(1)[OF ok c])
  have "lives st s (snd (dispatch row INTENT s1))" if "x = Inr (Some row)" for row
  proof -
    have r: "row_of ?aid s1 = Some row" "t_phase row = INTENT" using lives_intent(2)[OF ok c that] by blast+
    show ?thesis
      using lives_trans[OF l1 lives_dispatch[OF lives_ok[OF l1], of row INTENT]] r row_of_id[OF r(1)] by simp
  qed
  then show ?thesis
    using rel[OF lives_drop_reserved[OF ok, of st ?aid]] rel[OF lives_refl[OF ok]] rel[OF l1]
    by (cases x) (auto simp: claim_answered_def Let_def case_prod_beta c intro!: rel split: option.splits)
qed

section \<open>Recovery\<close>

lemma lives_evidence:
  assumes ok: "actions_ok (sy_db s)" and ph: "t_phase row \<in> {INTENT, DISPATCHED}"
  shows "lives st s (snd (apply_evidence st row found s))"
proof -
  let ?aid = "t_action_id row"
  obtain b s1 where ck: "checkpoint_fix ?aid (case rs_proposal_id found of None \<Rightarrow> [] | Some p \<Rightarrow> p) (t_phase row) s = (b, s1)"
    by fastforce
  have l1: "lives st s s1"
    using lives_checkpoint[OF ok ph, where aid = ?aid and st = st
        and pid = "case rs_proposal_id found of None \<Rightarrow> [] | Some p \<Rightarrow> p"] by (simp add: ck)
  obtain c s2 where h: "try_hold st ?aid (t_report_id row) False s1 = (c, s2)" by fastforce
  have l2: "lives st s s2"
    using lives_trans[OF l1 lives_try_hold[OF lives_ok[OF l1], of st ?aid "t_report_id row" False]] by (simp add: h)
  have l3: "lives st s (snd (spawn ?aid Pr_ready s2))"
    by (rule lives_trans[OF l2 lives_spawn[OF lives_ok[OF l2]]]) simp
  show ?thesis
    using l1 l2 l3 lives_finish[OF ok] by (simp add: apply_evidence_def Let_def ck h split: bool.split)
qed

lemma lives_recover:
  assumes ok0: "actions_ok (sy_db s0)" and row: "row_of (t_action_id row) s0 = Some row"
  shows "lives st s0 (snd (recover st dep row s0))"
proof -
  let ?aid = "t_action_id row"
  obtain b s where t: "timed_out st row s0 = (b, s)" by fastforce
  have u: "untouched s0 s" using untouched_timed_out[of s0 st row] by (simp add: t)
  have l0: "lives st s0 s" by (rule untouched_lives[OF ok0 u])
  note ok = lives_ok[OF l0]
  have fin: "lives st s0 (snd (finish ?aid res e s))" for res e by (rule lives_trans[OF l0 lives_finish[OF ok]])
  have hold: "lives st s0 (snd (try_hold st ?aid (t_report_id row) llm s))" for llm
    by (rule lives_trans[OF l0 lives_try_hold[OF ok]])
  have spawn: "lives st s0 (snd (spawn ?aid Pr_ready s1))"
    if "try_hold st ?aid (t_report_id row) False s = (c, s1)" for c s1
    using lives_trans[OF hold[of False] lives_spawn[OF lives_ok[OF hold[of False]], of Pr_ready st ?aid]] that by simp
  have held: "lives st s0 s1" if "try_hold st ?aid (t_report_id row) llm s = (c, s1)" for llm c s1
    using hold[of llm] that by simp
  have inline: "lives st s0 (release False ?aid (sync_inline row s1))"
    if "try_hold st ?aid (t_report_id row) False s = (c, s1)" for c s1
    using held[OF that] lives_trans lives_inline(2) lives_release lives_ok by metis
  have again: "lives st s0 (release False ?aid (snd (dispatch row (t_phase row) s1)))"
    if "try_hold st ?aid (t_report_id row) llm s = (c, s1)" "\<not> t_no_auto_retry row" "t_phase row \<in> {INTENT, DISPATCHED}"
    for llm c s1
  proof -
    have "row_of ?aid s1 = Some row"
      using try_hold_views(1)[of ?aid st ?aid "t_report_id row" llm s] that(1) row untouched_views(2)[OF u] by simp
    then have "lives st s1 (snd (dispatch row (t_phase row) s1))"
      using that by (intro lives_dispatch lives_ok[OF held[OF that(1)]]) auto
    then show ?thesis using held[OF that(1)] lives_trans lives_release lives_ok by metis
  qed
  have ev: "lives st s0 (snd (apply_evidence st row found s))" if "t_phase row \<in> {INTENT, DISPATCHED}" for found
    by (rule lives_trans[OF l0 lives_evidence[OF ok that]])
  show ?thesis
  proof (cases "b \<or> t_phase row = FIX_DONE \<or> t_phase row = DISPATCHED \<and> t_kind row \<notin> set LLM_KINDS
      \<or> t_phase row \<notin> {INTENT, DISPATCHED}")
    case True
    obtain c s1 where h: "try_hold st ?aid (t_report_id row) False s = (c, s1)" by fastforce
    from True consider "b" | "\<not> b" "t_phase row = FIX_DONE" | "\<not> b" "t_phase row = DISPATCHED" "t_kind row \<notin> set LLM_KINDS"
      | "\<not> b" "t_phase row \<notin> {INTENT, DISPATCHED, FIX_DONE}" by blast
    then show ?thesis
    proof cases
      case 1
      then show ?thesis by (simp add: recover_def t fin)
    next
      case 2
      then show ?thesis using spawn[OF h] held[OF h] by (cases c) (simp_all add: recover_def t h)
    next
      case 3
      then show ?thesis using spawn[OF h] held[OF h] inline[OF h] by (cases c) (simp_all add: recover_def t h Let_def)
    next
      case 4
      then show ?thesis using l0 by (simp add: recover_def t)
    qed
  next
    case False
    then have nb: "b = False" and ph: "t_phase row \<in> {INTENT, DISPATCHED}"
      and n1: "t_phase row \<noteq> FIX_DONE" and n2: "\<not> (t_phase row = DISPATCHED \<and> t_kind row \<notin> set LLM_KINDS)" by auto
    have pi: "t_phase row = INTENT \<or> t_phase row = DISPATCHED" using ph by simp
    obtain c s1 where h: "try_hold st ?aid (t_report_id row) (t_kind row \<in> set LLM_KINDS) s = (c, s1)" by fastforce
    show ?thesis
      unfolding recover_def Let_def t nb prod.case bool.case if_not_P[OF n1] if_not_P[OF n2] if_P[OF pi] h
      using l0 fin ev[OF ph] held[OF h] again[OF h _ ph]
      by (auto simp: case_prod_beta split: option.split bool.split)
  qed
qed

section \<open>Listed actions and answers\<close>

lemma lives_reserve:
  assumes ok: "actions_ok (sy_db s)"
  shows "lives st s (snd (on_db (triage_action_reserve aid pid rid kind params user) s))"
proof (rule lives_one)
  let ?s = "snd (on_db (triage_action_reserve aid pid rid kind params user) s)"
  show "actions_ok (sy_db ?s)"
    using ok by (auto simp: sync_simps triage_action_reserve_def case_prod_beta Let_def actions_ok_def)
  show "slots_ok st s \<Longrightarrow> slots_ok st ?s" by (simp add: slots_ok_def slots_def sync_simps)
  fix k
  have "row_of k ?s = row_of k s \<or> (row_of k s = None \<and> (\<exists>t. row_of k ?s = Some t \<and> t_phase t = RESERVED
      \<and> \<not> t_no_auto_retry t \<and> t_key_mode t = None))"
  proof (cases "aid \<in> t_action_id ` set (triage_actions (sy_db s))")
    case True
    then show ?thesis
      by (simp add: row_of_def sync_simps triage_action_reserve_def case_prod_beta Let_def action_get_find)
  next
    case False
    then have "find (\<lambda>t. t_action_id t = aid) (triage_actions (sy_db s)) = None"
      unfolding find_None_iff by force
    moreover have "find P (ts @ [x]) = (case find P ts of None \<Rightarrow> if P x then Some x else None | Some y \<Rightarrow> Some y)"
      for P and ts and x :: action_row by (induction ts) auto
    ultimately show ?thesis using False
      by (cases "k = aid")
         (auto simp: row_of_def sync_simps triage_action_reserve_def case_prod_beta Let_def action_get_find split: option.split)
  qed
  then show "view_of k ?s = view_of k s \<or> life (view_of k s) (view_of k ?s)"
    by (auto simp: view_of_def task_of_def hold_of_def calls_to_def sync_simps intro!: reserved)
qed

lemma lives_handle:
  assumes ok: "actions_ok (sy_db s)"
  shows "lives st s (snd (handle_pre st dep p action s))"
proof (cases "row_of (text_of (map_of action ''id'')) s")
  let ?aid = "text_of (map_of action ''id'')" let ?kind = "text_of (map_of action ''kind'')"
  case None
  show ?thesis
  proof (cases "report_by_external_id (p_id p) (text_of (map_of action ''bugId'')) (sy_db s)")
    case no: None
    then show ?thesis using None lives_out[OF lives_refl[OF ok]] by (simp add: handle_pre_def handle_new_def)
  next
    case (Some r)
    obtain c s1 where h: "try_hold st ?aid (r_id r) (?kind \<in> set LLM_KINDS) s = (c, s1)" by fastforce
    have l1: "lives st s s1" using lives_try_hold[OF ok, of st ?aid "r_id r" "?kind \<in> set LLM_KINDS"] by (simp add: h)
    have l2: "lives st s s2" if "on_db (triage_action_reserve ?aid (p_id p) (r_id r) ?kind ps u) s1 = (b, s2)" for ps u b s2
      using lives_trans[OF l1 lives_reserve[OF lives_ok[OF l1], of st ?aid "p_id p" "r_id r" ?kind ps u]] that by simp
    have l3: "lives st s (release False ?aid s2)"
      if "on_db (triage_action_reserve ?aid (p_id p) (r_id r) ?kind ps u) s1 = (b, s2)" for ps u b s2
      by (rule lives_trans[OF l2[OF that] lives_release[OF lives_ok[OF l2[OF that]]]])
    show ?thesis
      by (auto simp: handle_pre_def None handle_new_def Let_def Some h l1 split: bool.split sum.split prod.split dest: l2 l3)
  qed
next
  let ?aid = "text_of (map_of action ''id'')"
  case (Some row)
  have id: "t_action_id row = ?aid" by (rule row_of_id[OF Some])
  obtain b s1 where t: "timed_out st row s = (b, s1)" by fastforce
  have l1: "lives st s s1" using untouched_lives[OF ok untouched_timed_out[of s st row]] by (simp add: t)
  have fin: "lives st s (snd (finish ?aid (timeout_result st dep row) None s1))"
    by (rule lives_trans[OF l1 lives_finish[OF lives_ok[OF l1]]])
  have hold: "lives st s s2" if "try_hold st ?aid (t_report_id row) l s = (c, s2)" for l c s2
    using lives_try_hold[OF ok, of st ?aid "t_report_id row" l] that by simp
  have rec: "lives st s s2" if "recover st dep row s = (x, s2)" for x s2
    using lives_recover[OF ok, of row st dep] Some id that by simp
  show ?thesis
    using lives_refl[OF ok, of st] l1 fin
    by (auto simp: handle_pre_def Some handle_known_def Let_def t split: bool.split prod.split dest: hold rec)
qed

lemma lives_drain_answer: "actions_ok (sy_db s) \<Longrightarrow> lives st s (drain_answer dep row status current s)"
  by (auto simp: drain_answer_def Let_def plain_field_def intro!: lives_out lives_plain lives_refl)

end
