(* ===== verification/Triage_Safety.thy ===== *)
theory Triage_Safety
  imports Triage_Steps
begin

text \<open>
  The sync as a step relation over the parts between awaits, in any order: listed actions are handled,
  claiming POSTs answered, tasks run, the time bound swept, outcomes acknowledged, other components
  write tables that are not the ledger, and the process crashes at any moment.  Its invariants follow
  from \<open>Triage_Steps\<close>.
\<close>

section \<open>Steps\<close>

text \<open>A crash loses the slots, the tasks and the backoff; the database and what was sent stay.\<close>

definition crash :: "'w sync \<Rightarrow> 'w sync" where
  "crash s = s\<lparr>sy_holds := [], sy_skip := []\<rparr>"

text \<open>
  \<open>elsewhere\<close> is whatever leaves the ledger, the slots and the log alone: the other components, the
  world, results and pull request state.  \<open>answered\<close> also covers an answer for an action the tick no longer waits for, and \<open>given_up\<close> the
  release of a slot after a POST that raised.  \<open>intent_lost\<close> and \<open>dispatch_lost\<close> are crashes between
  the writes of one part; a crash elsewhere falls between two steps.
\<close>

inductive sync_step :: "settings \<Rightarrow> 'w sync_deps \<Rightarrow> 'w sync \<Rightarrow> 'w sync \<Rightarrow> bool" for st dep where
  handled: "sync_step st dep s (snd (handle_pre st dep p action s))"
| answered: "sync_step st dep s (snd (claim_answered st dep p action status s))"
| given_up: "sync_step st dep s (release False aid s)"
| model_runs: "task_of aid s = Some Llm_ready \<Longrightarrow> row_of aid s = Some row \<Longrightarrow>
    model_part st dep row s = (res, s1) \<Longrightarrow> sync_step st dep s (set_task aid (Llm_answered row res) s1)"
| model_skipped: "task_of aid s = Some Llm_ready \<Longrightarrow> row_of aid s = None \<Longrightarrow>
    sync_step st dep s (release True aid s)"
| model_ended: "task_of aid s = Some (Llm_answered row res) \<Longrightarrow> llm_end st dep aid res s = (goes_on, s1) \<Longrightarrow>
    sync_step st dep s (if goes_on then set_task aid Pr_ready s1 else release True aid s1)"
| pr_runs: "task_of aid s = Some Pr_ready \<Longrightarrow> pr_begin st dep aid s = (Some row, s1) \<Longrightarrow>
    pr_call st dep row s1 = (a, s2) \<Longrightarrow> sync_step st dep s (set_task aid (Pr_answered row a) s2)"
| pr_skipped: "task_of aid s = Some Pr_ready \<Longrightarrow> pr_begin st dep aid s = (None, s1) \<Longrightarrow>
    sync_step st dep s (release True aid s1)"
| pr_ended: "task_of aid s = Some (Pr_answered row a) \<Longrightarrow>
    sync_step st dep s (release True aid (pr_end st dep aid row a s))"
| acknowledged: "sync_step st dep s (drain_answer dep row status current s)"
| swept: "sync_step st dep s (snd (expire_overdue st dep pid s))"
| elsewhere: "untouched s s' \<Longrightarrow> sync_step st dep s s'"
| crashed: "sync_step st dep s (crash s)"
| intent_lost: "sync_step st dep s (crash (snd (claim_intent st dep p aid action s)))"
| dispatch_lost: "ph = INTENT \<or> ph = DISPATCHED \<Longrightarrow> sync_step st dep s (crash (snd (mark_dispatched aid ph s)))"

inductive_cases sync_step_cases: "sync_step st dep s s'"

lemma lives_crash: "actions_ok (sy_db s) \<Longrightarrow> lives st s (crash s)"
  by (rule lives_one)
     (auto simp: crash_def sync_simps slots_ok_def slots_def view_of_def row_of_def task_of_def hold_of_def calls_to_def
       intro!: retasked)

lemma lives_step:
  assumes "sync_step st dep s s'" and ok: "actions_ok (sy_db s)"
  shows "lives st s s'"
  using assms(1)
proof cases
  case (handled p action)
  then show ?thesis using lives_handle[OF ok] by simp
next
  case (answered p action status)
  then show ?thesis using lives_claim_answered[OF ok] by simp
next
  case (given_up aid)
  then show ?thesis using lives_release[OF ok] by simp
next
  case (model_runs aid row res s1)
  then show ?thesis using lives_model[OF ok] by simp
next
  case (model_skipped aid)
  then show ?thesis using lives_release[OF ok] by simp
next
  case (model_ended aid row res goes_on s1)
  have l1: "lives st s s1" using lives_llm_end[OF ok, of st dep aid res] model_ended by simp
  show ?thesis
    using model_ended lives_trans[OF l1 lives_set_task[OF lives_ok[OF l1], of Pr_ready st aid]]
      lives_trans[OF l1 lives_release[OF lives_ok[OF l1], of st True aid]] by simp
next
  case (pr_runs aid row s1 a s2)
  have l1: "lives st s s1" using lives_pr_begin[OF ok, of st dep aid] pr_runs by simp
  have l2: "lives st s s2" using lives_trans[OF l1 lives_pr_call[OF lives_ok[OF l1], of st dep row]] pr_runs by simp
  show ?thesis using pr_runs lives_trans[OF l2 lives_set_task[OF lives_ok[OF l2]]] by simp
next
  case (pr_skipped aid s1)
  have l1: "lives st s s1" using lives_pr_begin[OF ok, of st dep aid] pr_skipped by simp
  show ?thesis using pr_skipped lives_trans[OF l1 lives_release[OF lives_ok[OF l1]]] by simp
next
  case (pr_ended aid row a)
  note l1 = lives_pr_end[OF ok, of st dep aid row a]
  show ?thesis using pr_ended lives_trans[OF l1 lives_release[OF lives_ok[OF l1]]] by simp
next
  case (acknowledged row status current)
  then show ?thesis using lives_drain_answer[OF ok] by simp
next
  case (swept pid)
  then show ?thesis using lives_expire_overdue[OF ok] by simp
next
  case elsewhere
  then show ?thesis by (rule untouched_lives[OF ok])
next
  case crashed
  then show ?thesis using lives_crash[OF ok] by simp
next
  case (intent_lost p aid action)
  have "lives st s (snd (claim_intent st dep p aid action s))"
    by (rule lives_intent(1)[OF ok, of st dep p aid action "fst (claim_intent st dep p aid action s)"]) simp
  then show ?thesis unfolding intent_lost using lives_trans lives_crash lives_ok by metis
next
  case (dispatch_lost ph aid)
  have "lives st s (snd (mark_dispatched aid ph s))" by (rule lives_mark[OF ok dispatch_lost(2)])
  then show ?thesis unfolding dispatch_lost(1) using lives_trans lives_crash lives_ok by metis
qed

section \<open>Reachable states\<close>

definition sync_fresh :: "'w sync \<Rightarrow> bool" where
  "sync_fresh s \<longleftrightarrow> triage_actions (sy_db s) = [] \<and> sy_holds s = [] \<and> sy_calls s = []"

lemma fresh_ok: "sync_fresh s \<Longrightarrow> actions_ok (sy_db s) \<and> slots_ok st s \<and> life_inv (view_of aid s)"
  by (simp add: sync_fresh_def actions_ok_def slots_ok_def slots_def view_of_def row_of_def action_get_find task_of_def
      hold_of_def calls_to_def)

lemma lives_steps: "(sync_step st dep)\<^sup>*\<^sup>* s s' \<Longrightarrow> actions_ok (sy_db s) \<Longrightarrow> lives st s s'"
  by (induction rule: rtranclp_induct) (auto intro: lives_refl lives_trans lives_step dest: lives_ok)

lemma reached:
  assumes "(sync_step st dep)\<^sup>*\<^sup>* s s'" and "sync_fresh s"
  shows "slots_ok st s'" and "life_inv (view_of aid s')" and "actions_ok (sy_db s')"
proof -
  note f = fresh_ok[OF assms(2)]
  have l: "lives st s s'" using lives_steps[OF assms(1)] f by blast
  then show "slots_ok st s'" and "actions_ok (sy_db s')" using f by (simp_all add: lives_def)
  have "life\<^sup>*\<^sup>* (view_of aid s) (view_of aid s')" using l by (simp add: lives_def)
  then show "life_inv (view_of aid s')" by (rule lives_keep) (use f in blast)
qed

section \<open>A tick is a run of steps\<close>

abbreviation sync_steps :: "settings \<Rightarrow> 'w sync_deps \<Rightarrow> 'w sync \<Rightarrow> 'w sync \<Rightarrow> bool" where
  "sync_steps st dep \<equiv> (sync_step st dep)\<^sup>*\<^sup>*"

lemma steps_elsewhere: "untouched s s' \<Longrightarrow> sync_steps st dep s s'"
  by (rule r_into_rtranclp, rule elsewhere)

lemma untouched_route: "untouched s (snd (sg_route dep api req s))"
  using sg_call_untouched[of s dep api req] by (simp add: sg_route_def case_prod_beta split: sg_answer.split)

lemma steps_route: "sg_route dep api req s = (x, s1) \<Longrightarrow> sync_steps st dep s s1"
  using untouched_route[of s dep api req] by (simp add: steps_elsewhere)

lemma steps_handle: "sync_steps st dep s (snd (handle st dep api p action s))"
proof -
  obtain x s1 where h: "handle_pre st dep p action s = (x, s1)" by fastforce
  have 1: "sync_steps st dep s s1" using handled[of st dep s p action] by (simp add: h r_into_rtranclp)
  have "sync_steps st dep s1 (snd (claim_and_start st dep api p action s1))"
  proof -
    obtain y s2 where r: "sg_route dep api (Post_action (text_of (map_of action ''id'')) (JObj [(''state'', JStr ''claimed'')])) s1 = (y, s2)"
      by fastforce
    note 2 = steps_route[OF r, of st]
    show ?thesis
    proof (cases y)
      case (Inl e)
      then show ?thesis
        using rtranclp.rtrancl_into_rtrancl[OF 2 given_up] by (simp add: claim_and_start_def Let_def r)
    next
      case (Inr z)
      then show ?thesis
        using rtranclp.rtrancl_into_rtrancl[OF 2 answered]
        by (cases z) (simp add: claim_and_start_def Let_def r raised_def)
    qed
  qed
  then show ?thesis using 1 rtranclp_trans[OF 1]
    by (auto simp: handle_def h split: sum.split bool.split)
qed

lemma steps_handle_all: "sync_steps st dep s (snd (handle_all st dep api p actions s))"
proof (induction actions arbitrary: s)
  case (Cons a actions)
  obtain x s1 where h: "handle st dep api p a s = (x, s1)" by fastforce
  have 1: "sync_steps st dep s s1" using steps_handle[of st dep s api p a] by (simp add: h)
  then show ?case using rtranclp_trans[OF 1 Cons.IH] by (cases x) (simp_all add: h)
qed simp

lemma steps_drain: "sync_steps st dep s (snd (drain_rows dep api rows s))"
proof (induction rows arbitrary: s)
  case (Cons row rows)
  obtain x s1 where r: "sg_route dep api (Post_action (t_action_id row) (terminal_body row)) s = (x, s1)" by fastforce
  note 1 = steps_route[OF r, of st]
  show ?case
  proof (cases x)
    case (Inl e)
    then show ?thesis using 1 by (simp add: r)
  next
    case (Inr y)
    have "sync_steps st dep s (snd (drain_rows dep api rows (drain_answer dep row status current s1)))" for status current
      using rtranclp_trans[OF rtranclp.rtrancl_into_rtrancl[OF 1 acknowledged] Cons.IH] .
    then show ?thesis using 1 Inr by (cases y) (simp add: r split: sum.split)
  qed
qed simp

lemma untouched_list: "untouched s (snd (list_pages dep api n cursor s))"
proof (induction n arbitrary: cursor s)
  case (Suc n)
  obtain x s1 where r: "sg_route dep api (Get_actions cursor) s = (x, s1)" by fastforce
  have 1: "untouched s s1" using untouched_route[of s dep api "Get_actions cursor"] by (simp add: r)
  have 2: "untouched s s2" if "list_pages dep api n c s1 = (y, s2)" for c y s2
    using untouched_trans[OF 1 Suc.IH[where cursor = c and s = s1]] that by simp
  show ?case using 1
    by (auto simp: r Let_def split: sum.split prod.split option.split json.split dest: 2)
qed (simp add: untouched_refl)

lemma untouched_stage: "untouched s (snd (stage_payload dep pid x s))"
proof -
  have st: "triage_actions (snd (triage_result_stage rid pid fp rev body d)) = triage_actions d" for rid fp rev body d
    by (simp add: triage_result_stage_def)
  have "untouched s (snd (on_db (triage_result_stage rid pid fp rev body) (set_world w s)))" for rid fp rev body w
    by (rule untouched_trans[OF untouched_world untouched_on_db]) (rule st)
  then have "untouched s s1" if "on_db (triage_result_stage rid pid fp rev body) (set_world w s) = (y, s1)"
    for rid fp rev body w y s1 using that by (metis snd_conv)
  then show ?thesis
    by (auto simp: stage_payload_def Let_def untouched_refl split: option.split prod.split sum.split json.split)
qed

lemma untouched_push_answer: "untouched s (push_answer x revision status body s)"
proof -
  obtain now s1 where n: "now_stamp s = (now, s1)" by fastforce
  have 1: "untouched s s1" using now_untouched[of s] by (simp add: n)
  have "untouched s (set_db (triage_result_update rid args (sy_db s1)) s1)" for rid args
    by (rule untouched_trans[OF 1 untouched_db]) (simp add: triage_result_update_def)
  then show ?thesis
    by (auto simp: push_answer_def Let_def n intro: untouched_trans[OF _ untouched_out])
qed

lemma untouched_push: "untouched s (snd (push_items dep api pid xs s))"
proof (induction xs arbitrary: s)
  case (Cons x xs)
  obtain y s1 where p: "stage_payload dep pid x s = (y, s1)" by fastforce
  have 1: "untouched s s1" using untouched_stage[of s dep pid x] by (simp add: p)
  show ?case
  proof (cases y)
    case (Inr z)
    have 2: "untouched s s2" if "sg_route dep api req s1 = (v, s2)" for req v s2
      using untouched_trans[OF 1 untouched_route[of s1 dep api req]] that by simp
    have 3: "untouched s (snd (push_items dep api pid xs (push_answer x rev status body s2)))"
      if "sg_route dep api req s1 = (v, s2)" for req v s2 rev status body
      by (rule untouched_trans[OF untouched_trans[OF 2[OF that] untouched_push_answer] Cons.IH])
    show ?thesis using Inr by (auto simp: p split: sum.split prod.split dest: 2 intro: 3)
  qed (simp add: p 1)
qed (simp add: untouched_refl)

lemma untouched_check_each: "untouched s (check_each st dep p fs s)"
proof (induction fs arbitrary: s)
  case (Cons f fs)
  have rec: "triage_actions (pr_check_record fid stt err d) = triage_actions d" for fid stt err d
    by (simp add: pr_check_record_def case_prod_beta Let_def ledger_frame split: option.split)
  have settle: "triage_actions (snd (pr_settle fid rid n stt d)) = triage_actions d" for fid rid n stt d
    by (simp add: pr_settle_def case_prod_beta Let_def ledger_frame)
  have a: "untouched s (set_db (pr_check_record fid stt err (sy_db (set_world w s))) (set_world w s))" for fid stt err w
    by (rule untouched_trans[OF untouched_world untouched_db]) (rule rec)
  have b: "untouched s (snd (on_db (pr_settle fid rid n stt) (set_world w s)))" for fid rid n stt w
    by (rule untouched_trans[OF untouched_world untouched_on_db]) (rule settle)
  show ?case
    using a untouched_trans[OF a Cons.IH] untouched_trans[OF b Cons.IH]
    by (auto simp: Let_def split: prod.split sum.split)
qed (simp add: untouched_refl)

lemma untouched_check_prs: "untouched s (check_prs st dep p s)"
proof -
  obtain now s1 where n: "now_stamp s = (now, s1)" by fastforce
  have 1: "untouched s s1" using now_untouched[of s] by (simp add: n)
  show ?thesis
    by (simp add: check_prs_def n untouched_refl untouched_trans[OF 1 untouched_check_each])
qed

lemma steps_exchange: "sync_steps st dep s (snd (exchange st dep api p s))"
proof -
  obtain x1 s1 where 1: "drain dep api (p_id p) s = (x1, s1)" by fastforce
  have a1: "sync_steps st dep s s1" using steps_drain[of st dep s api] 1 by (metis drain_def snd_conv)
  obtain x2 s2 where 2: "list_actions dep api s1 = (x2, s2)" by fastforce
  have a2: "sync_steps st dep s s2"
    using rtranclp_trans[OF a1 steps_elsewhere[OF untouched_list[of s1 dep api 100 None]]] 2 by (simp add: list_actions_def)
  have a2': "sync_steps st dep s (seen n s2)" for n
    using rtranclp_trans[OF a2 steps_elsewhere[OF untouched_out]] by (simp add: seen_def)
  have a3: "sync_steps st dep s s3" if "handle_all st dep api p listed (seen n s2) = (x3, s3)" for listed n x3 s3
    using rtranclp_trans[OF a2' steps_handle_all] that by (metis snd_conv)
  have a4: "sync_steps st dep s s4"
    if "handle_all st dep api p listed (seen n s2) = (x3, s3)" "drain dep api (p_id p) s3 = (x4, s4)" for listed n x3 s3 x4 s4
    using rtranclp_trans[OF a3[OF that(1)] steps_drain] that(2) by (metis drain_def snd_conv)
  have a5: "sync_steps st dep s (snd (push st dep api p s4))"
    if "handle_all st dep api p listed (seen n s2) = (x3, s3)" "drain dep api (p_id p) s3 = (x4, s4)" for listed n x3 s3 x4 s4
    using rtranclp_trans[OF a4[OF that] steps_elsewhere[OF untouched_push]] by (simp add: push_def)
  show ?thesis
    by (auto simp: exchange_def 1 2 a1 a2 split: sum.split prod.split intro: a5 dest: a3 a4)
qed

lemma steps_sync_project: "sync_steps st dep s (snd (sync_project st dep pid s))"
proof -
  let ?s = "s\<lparr>sy_out := TickOutcome\<rparr>"
  have u: "untouched s ?s" by (simp add: untouched_def sync_simps)
  note a0 = steps_elsewhere[OF u, of st dep]
  have recd: "sync_steps st dep s (snd (record_tick pid err s1))" if "sync_steps st dep s s1" for err s1
  proof -
    have k: "triage_actions (snd (triage_sync_state_record pid err n d)) = triage_actions d" for n d
      by (simp add: triage_sync_state_record_def case_prod_beta Let_def)
    have "untouched s1 (snd (record_tick pid err s1))"
      by (simp add: record_tick_def Let_def case_prod_beta untouched_def sync_simps k)
    then show ?thesis using that rtranclp_trans[OF that steps_elsewhere] by blast
  qed
  have a1: "sync_steps st dep s (check_prs st dep p (snd (expire_overdue st dep (Some pid) ?s)))" for p
    by (rule rtranclp_trans[OF _ steps_elsewhere[OF untouched_check_prs]], rule rtranclp.rtrancl_into_rtrancl[OF a0], rule swept)
  have a2: "sync_steps st dep s s2"
    if "tick_body st dep p name base (check_prs st dep p (snd (expire_overdue st dep (Some pid) ?s))) = (err, s2)" for p name base err s2
  proof -
    let ?c = "check_prs st dep p (snd (expire_overdue st dep (Some pid) ?s))"
    have "s2 = ?c \<or> (\<exists>api. s2 = snd (exchange st dep api p ?c))"
      using that by (auto simp: tick_body_def Let_def split: sum.splits bool.splits if_splits prod.splits) (metis snd_conv)
    then show ?thesis using a1 rtranclp_trans[OF a1 steps_exchange] by auto
  qed
  have rec: "sync_steps st dep s s3" if "record_tick pid err s1 = (out, s3)" "sync_steps st dep s s1" for err s1 out s3
    using recd[OF that(2), of err] that(1) by simp
  show ?thesis
    using a0 a1
    by (auto simp: sync_project_def Let_def split: option.split sum.split prod.split dest: a2 intro: rec)
qed

lemma untouched_skip: "untouched s (set_skip pid n s)" "untouched s (drop_skip pid s)"
  by (simp_all add: untouched_def set_skip_def drop_skip_def sync_simps)

lemma steps_tick_project: "sync_steps st dep s (tick_project st dep pid s)"
proof (cases "0 < skip_of pid s")
  case True
  have "untouched s (check_prs_only st dep pid (set_skip pid (skip_of pid s - 1) s))"
    by (simp add: check_prs_only_def untouched_skip untouched_trans[OF untouched_skip(1) untouched_check_prs]
        split: option.split)
  then show ?thesis using True by (simp add: tick_project_def steps_elsewhere)
next
  case False
  obtain res s1 where r: "sync_project st dep pid s = (res, s1)" by fastforce
  have 1: "sync_steps st dep s s1" using steps_sync_project[of st dep s pid] by (simp add: r)
  show ?thesis
    using False rtranclp_trans[OF 1 steps_elsewhere[OF untouched_skip(1)]] rtranclp_trans[OF 1 steps_elsewhere[OF untouched_skip(2)]]
    by (simp add: tick_project_def r Let_def)
qed

lemma steps_run_tick: "sync_steps st dep s (run_tick st dep s)"
proof -
  have f: "sync_steps st dep s1 (fold (tick_project st dep) pids s1)" for pids s1
    by (induction pids arbitrary: s1) (auto intro: rtranclp_trans[OF steps_tick_project])
  show ?thesis
    unfolding run_tick_def Let_def by (rule rtranclp_trans[OF r_into_rtranclp f], rule swept)
qed


section \<open>A concrete run\<close>

definition demo_http :: "nat http" where
  "demo_http = \<lparr>http_list_prs = (\<lambda>b w. (None, w)), http_pr_commits = (\<lambda>n w. (None, w)),
     http_create_pr = (\<lambda>t b h c w. (None, w)), http_get_pr = (\<lambda>n w. (None, w))\<rparr>"

definition demo_dep :: "nat sync_deps" where
  "demo_dep = \<lparr>sd_stage = demo_fix_deps, sd_local = demo_local_deps (Inl ''x''),
     sd_pr = \<lparr>pd_git = (\<lambda>c w. (None, w)), pd_github = github_client demo_http, pd_render = (\<lambda>r f. []),
       pd_exists = (\<lambda>p w. False), pd_rmtree = (\<lambda>p w. w), pd_has_git = (\<lambda>p. True),
       pd_web_base = ''https://github.com'', pd_worktree = (\<lambda>p r. None), pd_message = (\<lambda>c. c)\<rparr>,
     sd_http = (\<lambda>api req w. (case req of
         Post_credential aid \<Rightarrow> Sg_response 200 (Some (JObj [(''apiKey'', JStr ''k1''), (''provider'', JStr ''anthropic'')]))
       | _ \<Rightarrow> Sg_response 200 (Some (JObj [])), Suc w)),
     sd_github = demo_http, sd_environ = (\<lambda>n. Some ''tok''), sd_env_file = (\<lambda>n. None),
     sd_casefold = (\<lambda>x. x), sd_fmt_g = (\<lambda>q. ''1''), sd_str = (\<lambda>j. []), sd_dumps = (\<lambda>j. []),
     sd_loads = (\<lambda>x. None), sd_sha256 = (\<lambda>x. x), sd_utf8_length = length, sd_epoch_us = (\<lambda>w. (0, w))\<rparr>"

definition demo_st :: settings where
  "demo_st = demo_fix_settings\<lparr>sonicgrid_user_keys := True\<rparr>"

definition demo_project :: "project \<Rightarrow> project" where
  "demo_project p = p\<lparr>p_ingest_source := Some ''supabase'', p_ingest_config := Some
     [(''url'', JStr ''https://h/t/bugs''), (''triage_credential_env'', JStr ''TOK'')]\<rparr>"

definition demo_sync :: "nat sync" where
  "demo_sync = \<lparr>sy_env = \<lparr>e_db = demo_fix_db\<lparr>reports := map (\<lambda>r. r\<lparr>r_external_id := Some ''b1''\<rparr>) (reports demo_fix_db),
       projects := map demo_project (projects demo_fix_db)\<rparr>, e_world = 0, e_log = [],
       e_active = (\<lambda>x. None), e_finalized = False\<rparr>,
     sy_holds = [], sy_skip = [], sy_calls = [], sy_out = TickOutcome\<rparr>"

definition demo_action :: jdict where
  "demo_action = [(''id'', JStr ''a1''), (''bugId'', JStr ''b1''), (''kind'', JStr ''analyze_cloud''),
     (''state'', JStr ''pending''), (''params'', JObj [(''llm'', JObj [(''provider'', JStr ''anthropic''), (''model'', JStr ''m'')])])]"

definition demo_bad :: jdict where
  "demo_bad = demo_action @ [(''requestedBy'', JStr ''u'')]"

definition demo_p :: project where
  "demo_p = hd (projects (sy_db demo_sync))"

definition demo_s1 :: "nat sync" where
  "demo_s1 = snd (handle_pre demo_st demo_dep demo_p demo_action demo_sync)"

definition demo_s2 :: "nat sync" where
  "demo_s2 = snd (claim_answered demo_st demo_dep demo_p demo_action 200 demo_s1)"

definition demo_row :: action_row where
  "demo_row = (case row_of ''a1'' demo_s2 of Some row \<Rightarrow> row)"

definition demo_s3 :: "nat sync" where
  "demo_s3 = (case model_part demo_st demo_dep demo_row demo_s2 of (res, s) \<Rightarrow> set_task ''a1'' (Llm_answered demo_row res) s)"

lemma demo_claimed: "task_of ''a1'' demo_s2 = Some Llm_ready \<and> (case row_of ''a1'' demo_s2 of None \<Rightarrow> False | Some row \<Rightarrow> True)"
  by code_simp

lemma demo_ran: "sy_calls demo_s3 = [Model_run ''a1'', Credential_request ''a1'']"
  by code_simp

lemma demo_steps: "sync_steps demo_st demo_dep demo_sync demo_s3"
proof -
  have 1: "sync_steps demo_st demo_dep demo_sync demo_s1" unfolding demo_s1_def by (rule r_into_rtranclp, rule handled)
  have 2: "sync_step demo_st demo_dep demo_s1 demo_s2" unfolding demo_s2_def by (rule answered)
  have row: "row_of ''a1'' demo_s2 = Some demo_row"
    using demo_claimed by (auto simp: demo_row_def split: option.splits)
  obtain res s where m: "model_part demo_st demo_dep demo_row demo_s2 = (res, s)" by fastforce
  have "sync_step demo_st demo_dep demo_s2 (set_task ''a1'' (Llm_answered demo_row res) s)"
    using demo_claimed row m by (auto intro: model_runs)
  then have 3: "sync_step demo_st demo_dep demo_s2 demo_s3" by (simp add: demo_s3_def m)
  show ?thesis using rtranclp.rtrancl_into_rtrancl[OF rtranclp.rtrancl_into_rtrancl[OF 1 2] 3] .
qed

lemma demo_fresh: "sync_fresh demo_sync"
  by code_simp

section \<open>Properties\<close>

text \<open>C1. However the sync's parts are interleaved, and wherever it crashes: an action asks for its
  requester's key at most once, and only if its ledger row is in requester mode and barred from a
  retry; a row barred from a retry has at most one model run; a call out is made only after the intent
  was recorded, and for an action without a ledger row none is made at all.\<close>

theorem paid_action_runs_once:
  assumes "sync_fresh s0" and "sync_steps st dep s0 s"
  shows "calls_to (Credential_request aid) s \<le> 1 \<and>
    (case row_of aid s of
       None \<Rightarrow> calls_to (Model_run aid) s = 0 \<and> calls_to (Credential_request aid) s = 0
     | Some t \<Rightarrow>
         (if t_no_auto_retry t then calls_to (Model_run aid) s \<le> 1 else True)
         \<and> (if calls_to (Credential_request aid) s = 0 then True else t_key_mode t = Some REQUESTER \<and> t_no_auto_retry t)
         \<and> (if calls_to (Model_run aid) s + calls_to (Credential_request aid) s = 0 then True else t_intent_at t \<noteq> None))"
  using reached(2)[OF assms(2,1), of aid]
  by (cases "row_of aid s") (auto simp: view_of_def split: if_splits)

theorem paid_action_runs_once_witness:
  "calls_to (Credential_request ''a1'') demo_s3 = 1 \<and> calls_to (Model_run ''a1'') demo_s3 = 1
   \<and> calls_to (Credential_request ''a1'') demo_s3 \<le> 1"
  using paid_action_runs_once[OF demo_fresh demo_steps, of "''a1''"] demo_ran by (simp add: calls_to_def)

text \<open>C3. In every reachable state no two executor slots are for the same report or the same action,
  and at most the configured number of slots run a model.\<close>

theorem one_slot_per_report:
  assumes "sync_fresh s0" and "sync_steps st dep s0 s"
  shows "distinct (map fst (sy_holds s)) \<and> distinct (map (\<lambda>(k, h). h_report h) (sy_holds s))
    \<and> length (filter (\<lambda>(k, h). h_llm h) (sy_holds s)) \<le> max_llm st"
  using reached(1)[OF assms(2,1)]
  by (simp add: slots_ok_def slots_def comp_def case_prod_beta filter_map split_def)

theorem one_slot_per_report_witness:
  "map fst (sy_holds demo_s2) = [''a1''] \<and> length (filter (\<lambda>(k, h). h_llm h) (sy_holds demo_s3)) \<le> max_llm demo_st"
proof -
  have "map fst (sy_holds demo_s2) = [''a1'']" by code_simp
  then show ?thesis using one_slot_per_report[OF demo_fresh demo_steps] by simp
qed

text \<open>C2. Every step of the sync moves every action along the abstract life of an action (or leaves it
  where it is): reserved, intended, advanced, launched, run, finished or dropped, in that order.\<close>

theorem sync_follows_action_life:
  assumes "sync_step st dep s s'" and "actions_ok (sy_db s)"
  shows "life\<^sup>*\<^sup>* (view_of aid s) (view_of aid s')"
  using lives_step[OF assms] by (simp add: lives_def)

theorem sync_follows_action_life_witness:
  "life\<^sup>*\<^sup>* (view_of ''a1'' demo_sync) (view_of ''a1'' demo_s1)"
  using sync_follows_action_life[OF handled] fresh_ok[OF demo_fresh] unfolding demo_s1_def by blast


lemma held_blocks:
  assumes "try_hold st aid rid llm s = (True, s1)" and "hold_of aid s = None" and "hold_of other s = None"
    and "other \<noteq> aid"
  shows "sy_db s1 = sy_db s" and "hold_of aid s1 \<noteq> None" and "task_of aid s1 = None"
    and "\<not> fst (try_hold st other rid llm' s1)"
  using assms
  by (auto simp: try_hold_def hold_of_def task_of_def sync_simps map_add_def split: if_splits)

text \<open>A listed action whose \<open>requestedBy\<close> is neither an object nor empty makes the handler raise
  after it took the report's slot: nothing is recorded, the slot stays, and every other action of the
  report is refused from then on.\<close>

theorem malformed_requester_blocks:
  assumes "map_of action ''id'' = Some (JStr aid)" and "row_of aid s = None"
    and "report_by_external_id (p_id p) (text_of (map_of action ''bugId'')) (sy_db s) = Some r"
    and "map_of action ''requestedBy'' = Some j" and "truthy j" and "\<nexists>kvs. j = JObj kvs"
    and "fst (try_hold st aid (r_id r) (text_of (map_of action ''kind'') \<in> set LLM_KINDS) s)"
    and "hold_of aid s = None" and "hold_of other s = None" and "other \<noteq> aid"
  shows "case handle st dep api p action s of
      (Inl (Raised e), s1) \<Rightarrow> exn_type e = ''AttributeError'' \<and> sy_db s1 = sy_db s \<and> hold_of aid s1 \<noteq> None
        \<and> task_of aid s1 = None \<and> \<not> fst (try_hold st other (r_id r) llm s1)
    | _ \<Rightarrow> False"
proof -
  obtain s1 where t: "try_hold st aid (r_id r) (text_of (map_of action ''kind'') \<in> set LLM_KINDS) s = (True, s1)"
    using assms(7) by (metis prod.collapse)
  have e: "or_obj ''requestedBy'' action = Inl (Exn ''AttributeError'' ''no attribute get'')"
    using assms(4,5,6) by (cases j) (auto simp: or_obj_def)
  have h: "handle st dep api p action s = (Inl (Raised (Exn ''AttributeError'' ''no attribute get'')), s1)"
  proof -
    have i: "text_of (map_of action ''id'') = aid" using assms(1) by (simp add: text_of_def)
    show ?thesis using assms(2,3) by (simp add: handle_def handle_pre_def handle_new_def Let_def i t e)
  qed
  show ?thesis using held_blocks[OF t assms(8,9,10)] by (simp add: h)
qed

theorem malformed_requester_blocks_witness:
  "case handle demo_st demo_dep ([], []) demo_p demo_bad demo_sync of
      (Inl (Raised e), s1) \<Rightarrow> exn_type e = ''AttributeError'' \<and> hold_of ''a1'' s1 \<noteq> None | _ \<Rightarrow> False"
proof -
  have a: "map_of demo_bad ''id'' = Some (JStr ''a1'')" "map_of demo_bad ''requestedBy'' = Some (JStr ''u'')"
    by (simp_all add: demo_bad_def demo_action_def)
  have "case report_by_external_id (p_id demo_p) (text_of (map_of demo_bad ''bugId'')) (sy_db demo_sync) of
      None \<Rightarrow> False
    | Some r \<Rightarrow> fst (try_hold demo_st ''a1'' (r_id r) (text_of (map_of demo_bad ''kind'') \<in> set LLM_KINDS) demo_sync)"
    by code_simp
  then obtain r where r: "report_by_external_id (p_id demo_p) (text_of (map_of demo_bad ''bugId'')) (sy_db demo_sync) = Some r"
    and t: "fst (try_hold demo_st ''a1'' (r_id r) (text_of (map_of demo_bad ''kind'') \<in> set LLM_KINDS) demo_sync)"
    by (auto split: option.splits)
  have n: "row_of ''a1'' demo_sync = None" "hold_of ''a1'' demo_sync = None" "hold_of ''a2'' demo_sync = None"
    by code_simp+
  have j: "truthy (JStr ''u'')" "\<nexists>kvs. JStr ''u'' = JObj kvs" "''a2'' \<noteq> ''a1''" by simp_all
  show ?thesis
    using malformed_requester_blocks[OF a(1) n(1) r a(2) j(1,2) t n(2,3) j(3), where dep = demo_dep and api = "([], [])"]
    by (auto split: prod.splits sum.splits tick_error.splits)
qed

end
