(* ===== verification/Sonicgrid.thy ===== *)
theory Sonicgrid
  imports Git_Text Db_Ledger
begin

text \<open>
  \<open>ingest/sonicgrid.py\<close>: the page envelope of the poll endpoint and the mapping of one report to the
  row that \<open>ingest_commit\<close> inserts.  A JSON object arrives decoded, with distinct keys.  The ellipsis
  that ends a cut title is U+2026, which has no 8-bit code, so it is an argument.
\<close>

section \<open>Text\<close>

text \<open>\<open>str.split\<close> without arguments, and \<open>" ".join(s.split())\<close>.\<close>

fun split_words :: "string \<Rightarrow> string list" where
  "split_words [] = []"
| "split_words (c # cs) =
     (if is_space c then split_words cs
      else (case cs of [] \<Rightarrow> [[c]]
            | d # ds \<Rightarrow> if is_space d then [c] # split_words cs
                       else (case split_words cs of [] \<Rightarrow> [[c]] | w # ws \<Rightarrow> (c # w) # ws)))"

definition squeeze :: "string \<Rightarrow> string" where
  "squeeze s = join_with '' '' (split_words s)"

section \<open>Fields\<close>

definition TITLE_MAX :: nat where "TITLE_MAX = 80"
definition DESCRIPTION_MAX :: nat where "DESCRIPTION_MAX = 50000"
definition REPORTER_MAX :: nat where "REPORTER_MAX = 200"
definition TRUNCATION_MARKER :: string where
  "TRUNCATION_MARKER = [CHR 0x0A, CHR 0x0A] @ ''[truncated by bugalizer ingest]''"
definition LABELS :: "string list" where "LABELS = [''sonicgrid'']"
definition ENVIRONMENT :: string where "ENVIRONMENT = ''sonicgrid production''"

definition cut_title :: "char \<Rightarrow> string \<Rightarrow> string" where
  "cut_title ellipsis line =
     (if length line \<le> TITLE_MAX then line
      else (case rpartition_at (CHR '' '') (take TITLE_MAX line) of
              (head, sep, _) \<Rightarrow>
                rstrip (if sep \<and> head \<noteq> [] then head else take TITLE_MAX line) @ [ellipsis]))"

definition derive_title :: "char \<Rightarrow> string \<Rightarrow> string" where
  "derive_title ellipsis description =
     (case find (\<lambda>l. l \<noteq> []) (map squeeze (splitlines description)) of
        None \<Rightarrow> ''(no description)''
      | Some line \<Rightarrow> cut_title ellipsis line)"

definition ig_description :: "string option \<Rightarrow> string" where
  "ig_description raw =
     (let t = strip (case raw of None \<Rightarrow> [] | Some s \<Rightarrow> s) in
      if t = [] then ''(empty report)''
      else if length t > DESCRIPTION_MAX
      then take (DESCRIPTION_MAX - length TRUNCATION_MARKER) t @ TRUNCATION_MARKER else t)"

definition ig_reporter :: "string option \<Rightarrow> string" where
  "ig_reporter raw =
     (let name = take REPORTER_MAX (squeeze (case raw of None \<Rightarrow> [] | Some s \<Rightarrow> s))
      in if name = [] then ''sonicgrid user'' else name)"

text \<open>\<open>Optional[str]\<close> with default \<open>None\<close>: the outer option is the validation.\<close>

definition opt_str :: "json option \<Rightarrow> string option option" where
  "opt_str v = (case v of None \<Rightarrow> Some None | Some JNull \<Rightarrow> Some None | Some (JStr s) \<Rightarrow> Some (Some s) | _ \<Rightarrow> None)"

definition nullable :: "string option \<Rightarrow> json" where
  "nullable v = (case v of None \<Rightarrow> JNull | Some s \<Rightarrow> JStr s)"

section \<open>Validation\<close>

record poll_attachment =
  at_url :: string
  at_fileName :: "string option"
  at_contentType :: "string option"

definition parse_attachment :: "json \<Rightarrow> poll_attachment option" where
  "parse_attachment item =
     (case item of
        JObj kvs \<Rightarrow>
          (case (map_of kvs ''url'', opt_str (map_of kvs ''fileName''), opt_str (map_of kvs ''contentType'')) of
             (Some (JStr u), Some n, Some c) \<Rightarrow> Some \<lparr>at_url = u, at_fileName = n, at_contentType = c\<rparr>
           | _ \<Rightarrow> None)
      | _ \<Rightarrow> None)"

record poll_report =
  po_id :: string
  po_description :: "string option"
  po_reporterName :: "string option"
  po_attachments :: "json list"

definition parse_report :: "json \<Rightarrow> poll_report option" where
  "parse_report raw =
     (case raw of
        JObj kvs \<Rightarrow>
          (case (map_of kvs ''id'', opt_str (map_of kvs ''description''), opt_str (map_of kvs ''reporterName''),
                 (case map_of kvs ''attachments'' of None \<Rightarrow> Some [] | Some (JArr xs) \<Rightarrow> Some xs | _ \<Rightarrow> None)) of
             (Some (JStr i), Some d, Some n, Some a) \<Rightarrow>
               if len_in 1 200 i
               then Some \<lparr>po_id = i, po_description = d, po_reporterName = n, po_attachments = a\<rparr> else None
           | _ \<Rightarrow> None)
      | _ \<Rightarrow> None)"

record poll_page =
  pg_reports :: "json list"
  pg_next_cursor :: "string option"

definition parse_page :: "json \<Rightarrow> poll_page option" where
  "parse_page body =
     (case body of
        JObj kvs \<Rightarrow>
          (case (map_of kvs ''reports'', opt_str (map_of kvs ''next_cursor'')) of
             (Some (JArr xs), Some c) \<Rightarrow> Some \<lparr>pg_reports = xs, pg_next_cursor = c\<rparr>
           | _ \<Rightarrow> None)
      | _ \<Rightarrow> None)"

section \<open>Mapping\<close>

definition https_attachment :: "poll_attachment \<Rightarrow> bool" where
  "https_attachment att =
     (case urlsplit (at_url att) of
        None \<Rightarrow> False
      | Some parts \<Rightarrow> u_scheme parts = ''https'' \<and> str_set (u_hostname parts))"

definition attachment_json :: "poll_attachment \<Rightarrow> json" where
  "attachment_json att =
     JObj [(''url'', JStr (at_url att)), (''fileName'', nullable (at_fileName att)),
           (''contentType'', nullable (at_contentType att))]"

definition ig_attachments :: "json list \<Rightarrow> json option" where
  "ig_attachments raw =
     (let kept = map attachment_json (filter https_attachment (List.map_filter parse_attachment raw))
      in if kept = [] then None else Some (JArr kept))"

definition map_report :: "char \<Rightarrow> json \<Rightarrow> string \<Rightarrow> import_row option" where
  "map_report ellipsis raw ingest_source =
     (case parse_report raw of
        None \<Rightarrow> None
      | Some r \<Rightarrow> Some
          \<lparr>im_title = derive_title ellipsis (case po_description r of None \<Rightarrow> [] | Some d \<Rightarrow> d),
           im_description = ig_description (po_description r),
           im_reporter = ig_reporter (po_reporterName r),
           im_severity = Some ''medium'', im_environment = Some ENVIRONMENT,
           im_attachments = ig_attachments (po_attachments r), im_labels = Some LABELS,
           im_source = ingest_source, im_external_id = po_id r\<rparr>)"

section \<open>Lemmas\<close>

definition one_line :: "string \<Rightarrow> bool" where
  "one_line s \<longleftrightarrow> list_all (\<lambda>c. c = CHR '' '' \<or> \<not> is_space c) s"

lemma split_words_plain: "list_all (list_all (\<lambda>c. \<not> is_space c)) (split_words s)"
proof (induction s)
  case (Cons c cs)
  have "split_words (c # cs) = split_words cs \<or> (\<not> is_space c \<and> (split_words (c # cs) = [[c]]
      \<or> split_words (c # cs) = [c] # split_words cs
      \<or> (\<exists>w ws. split_words cs = w # ws \<and> split_words (c # cs) = (c # w) # ws)))"
    unfolding split_words.simps(2)[of c cs] by (cases cs; cases "split_words cs") (simp_all del: split_words.simps(2))
  then show ?case using Cons by auto
qed simp

lemma one_line_append: "one_line (s @ t) \<longleftrightarrow> one_line s \<and> one_line t"
  by (simp add: one_line_def)

lemma one_line_join: "list_all (list_all (\<lambda>c. \<not> is_space c)) ws \<Longrightarrow> one_line (join_with '' '' ws)"
proof (induction ws)
  case (Cons w ws)
  have "one_line w" using Cons.prems by (auto simp: one_line_def list_all_iff)
  then show ?case using Cons
    by (cases "ws = []") (simp_all add: join_with_Cons one_line_append, simp_all add: one_line_def)
qed (simp add: one_line_def)

lemma one_line_squeeze: "one_line (squeeze s)"
  by (simp add: squeeze_def one_line_join split_words_plain)

lemma one_line_take: "one_line s \<Longrightarrow> one_line (take n s)"
  by (auto simp: one_line_def list_all_iff dest: in_set_takeD)

lemma rstrip_sub: "set (rstrip s) \<subseteq> set s" "length (rstrip s) \<le> length s"
  using set_dropWhileD length_dropWhile_le[of is_space "rev s"] by (fastforce simp: rstrip_def)+

lemma one_line_mono: "set s \<subseteq> set t \<Longrightarrow> one_line t \<Longrightarrow> one_line s"
  by (auto simp: one_line_def list_all_iff)

lemma rpartition_head: "rpartition_at c s = (h, b, t) \<Longrightarrow> set h \<subseteq> set s \<and> length h \<le> length s"
proof -
  assume a: "rpartition_at c s = (h, b, t)"
  have "set (rev (drop 1 (dropWhile P (rev s)))) \<subseteq> set s" for P
    by (auto dest!: in_set_dropD set_dropWhileD)
  moreover have "length (drop 1 (dropWhile P (rev s))) \<le> length s" for P
    using length_dropWhile_le[of P "rev s"] by simp
  ultimately show ?thesis using a
    by (simp add: rpartition_at_def split: if_splits) (metis One_nat_def set_rev length_rev length_drop)+
qed

definition fits_title :: "char \<Rightarrow> string \<Rightarrow> bool" where
  "fits_title ellipsis t \<longleftrightarrow> t \<noteq> [] \<and> length t \<le> TITLE_MAX + 1
     \<and> (one_line t \<or> (\<exists>t'. t = t' @ [ellipsis] \<and> one_line t'))"

lemma cut_title_fits:
  assumes "one_line line" and "line \<noteq> []"
  shows "fits_title ellipsis (cut_title ellipsis line)"
proof (cases "length line \<le> TITLE_MAX")
  case False
  obtain head sep rest where r: "rpartition_at (CHR '' '') (take TITLE_MAX line) = (head, sep, rest)"
    by (metis prod_cases3)
  define body where "body = (if sep \<and> head \<noteq> [] then head else take TITLE_MAX line)"
  have b: "set body \<subseteq> set line" "length body \<le> TITLE_MAX"
    using rpartition_head[OF r] by (auto simp: body_def dest: in_set_takeD)
  have "one_line (rstrip body)"
    by (rule one_line_mono[OF _ assms(1)]) (use rstrip_sub(1)[of body] b(1) in blast)
  moreover have "length (rstrip body) \<le> TITLE_MAX" using rstrip_sub(2)[of body] b(2) by simp
  moreover have "cut_title ellipsis line = rstrip body @ [ellipsis]" using False by (simp add: cut_title_def r body_def)
  ultimately show ?thesis by (simp add: fits_title_def)
qed (use assms in \<open>auto simp: cut_title_def fits_title_def\<close>)

lemma derive_title_fits: "fits_title ellipsis (derive_title ellipsis d)"
proof (cases "find (\<lambda>l. l \<noteq> []) (map squeeze (splitlines d))")
  case None
  then show ?thesis by (simp add: derive_title_def fits_title_def TITLE_MAX_def one_line_def is_space_def)
next
  case (Some line)
  then have "line \<noteq> [] \<and> line \<in> set (map squeeze (splitlines d))" by (auto simp: find_Some_iff)
  then show ?thesis using Some by (auto simp: derive_title_def cut_title_fits one_line_squeeze)
qed

lemma description_fits: "ig_description raw \<noteq> [] \<and> length (ig_description raw) \<le> DESCRIPTION_MAX"
  by (simp add: ig_description_def Let_def DESCRIPTION_MAX_def TRUNCATION_MARKER_def)

lemma reporter_fits: "ig_reporter raw \<noteq> [] \<and> length (ig_reporter raw) \<le> REPORTER_MAX \<and> one_line (ig_reporter raw)"
  by (simp add: ig_reporter_def Let_def REPORTER_MAX_def one_line_take one_line_squeeze one_line_def[of "''sonicgrid user''"]
      is_space_def)

fun attachment_ok :: "json \<Rightarrow> bool" where
  "attachment_ok (JObj kvs) \<longleftrightarrow> map fst kvs = [''url'', ''fileName'', ''contentType'']
     \<and> (case map_of kvs ''url'' of Some (JStr u) \<Rightarrow>
          (case urlsplit u of None \<Rightarrow> False | Some p \<Rightarrow> u_scheme p = ''https'' \<and> str_set (u_hostname p)) | _ \<Rightarrow> False)"
| "attachment_ok _ \<longleftrightarrow> False"

definition attachments_fit :: "json option \<Rightarrow> bool" where
  "attachments_fit v \<longleftrightarrow> (case v of None \<Rightarrow> True | Some (JArr xs) \<Rightarrow> xs \<noteq> [] \<and> list_all attachment_ok xs | _ \<Rightarrow> False)"

lemma attachments_ok: "attachments_fit (ig_attachments raw)"
proof -
  have "attachment_ok (attachment_json a)" if "https_attachment a" for a
    using that by (auto simp: attachment_json_def https_attachment_def split: option.splits)
  then show ?thesis by (auto simp: ig_attachments_def Let_def attachments_fit_def list_all_iff)
qed

definition poll_keys :: "string list" where
  "poll_keys = [''id'', ''description'', ''reporterName'', ''attachments'']"

lemma map_of_poll_keys: "k \<in> set poll_keys \<Longrightarrow> map_of (filter (\<lambda>(k, v). k \<in> set poll_keys) kvs) k = map_of kvs k"
  by (induction kvs) auto

lemma parse_report_keys: "parse_report (JObj (filter (\<lambda>(k, v). k \<in> set poll_keys) kvs)) = parse_report (JObj kvs)"
  using map_of_poll_keys[of _ kvs] by (simp add: parse_report_def poll_keys_def)

lemma parse_report_id: "parse_report raw = Some r \<Longrightarrow> len_in (Suc 0) 200 (po_id r)"
  by (auto simp: parse_report_def split: json.splits option.splits if_splits)

section \<open>Properties\<close>

text \<open>
  What a polled report becomes.  Only its id, description, reporter name and attachments are
  read, so an email in any other field never gets past this point.  The imported row has an id of at
  most 200 characters, a one-line title of at most 81 (the cut one ends in an ellipsis), a non-empty
  description within the column's bound, a one-line reporter, only https attachments with a host, and
  the fixed label and environment.
\<close>

theorem polled_report_fits:
  "map_report ell (JObj (filter (\<lambda>(k, v). k \<in> set poll_keys) kvs)) src = map_report ell (JObj kvs) src
   \<and> (case map_report ell (JObj kvs) src of
        None \<Rightarrow> True
      | Some m \<Rightarrow> len_in 1 200 (im_external_id m) \<and> fits_title ell (im_title m)
          \<and> im_description m \<noteq> [] \<and> length (im_description m) \<le> DESCRIPTION_MAX
          \<and> im_reporter m \<noteq> [] \<and> length (im_reporter m) \<le> REPORTER_MAX \<and> one_line (im_reporter m)
          \<and> attachments_fit (im_attachments m) \<and> im_labels m = Some LABELS \<and> im_environment m = Some ENVIRONMENT
          \<and> im_source m = src)"
proof (intro conjI)
  show "map_report ell (JObj (filter (\<lambda>(k, v). k \<in> set poll_keys) kvs)) src = map_report ell (JObj kvs) src"
    by (simp only: map_report_def parse_report_keys)
qed (auto simp: map_report_def derive_title_fits description_fits reporter_fits attachments_ok parse_report_id
       split: option.split)

end
