(* ===== verification/Poller.thy ===== *)
theory Poller
  imports Sonicgrid Llm "HOL-Library.AList"
begin

text \<open>
  \<open>ingest/poller.py\<close>: one poll of a project (forward walk, reconciliation re-walk, bookkeeping) and
  the background tick with its backoff.  Where the code awaits (the project lock, a request, the write
  lock) the rest of the process may run: \<open>ig_others\<close> is whatever it does to the database meanwhile.
  Every write of a poll is an \<open>ingest_commit\<close>.  The locks, the loop and its start and stop are not
  modelled.
\<close>

section \<open>State\<close>

record poll_outcome =
  pc_imported :: nat
  pc_pages :: nat
  pc_skipped :: nat
  pc_error :: "string option"
  pc_stale :: bool
  pc_consecutive_failures :: nat

definition PollOutcome :: poll_outcome where
  "PollOutcome = \<lparr>pc_imported = 0, pc_pages = 0, pc_skipped = 0, pc_error = None, pc_stale = False,
     pc_consecutive_failures = 0\<rparr>"

record 'w poll =
  ps_db :: db
  ps_world :: 'w
  ps_out :: poll_outcome

record poll_job =
  j_project_id :: string
  j_generation :: nat
  j_source :: string
  j_url :: json
  j_token :: string

text \<open>\<open>F_raised\<close> is an exception of the client that is no \<open>HTTPError\<close>; a body that is no JSON is
  \<open>None\<close>.\<close>

datatype fetch_answer = F_timeout | F_error | F_raised exn | F_response nat "json option"

record 'w ingest_deps =
  ig_get :: "string \<Rightarrow> string \<Rightarrow> nat \<Rightarrow> string option \<Rightarrow> 'w \<Rightarrow> fetch_answer \<times> 'w"
  ig_others :: "'w \<Rightarrow> db \<Rightarrow> db \<times> 'w"
  ig_environ :: "string \<Rightarrow> string option"
  ig_env_file :: "string \<Rightarrow> string option option"
  ig_ellipsis :: char

datatype poll_exn = Stale | Poll_raised exn

definition on_out :: "(poll_outcome \<Rightarrow> poll_outcome) \<Rightarrow> 'w poll \<Rightarrow> 'w poll" where
  "on_out f s = s\<lparr>ps_out := f (ps_out s)\<rparr>"

definition set_error :: "string \<Rightarrow> 'w poll \<Rightarrow> 'w poll" where
  "set_error e = on_out (\<lambda>o1. o1\<lparr>pc_error := Some e\<rparr>)"

definition await :: "'w ingest_deps \<Rightarrow> 'w poll \<Rightarrow> 'w poll" where
  "await dep s = (case ig_others dep (ps_world s) (ps_db s) of (d, w) \<Rightarrow> s\<lparr>ps_db := d, ps_world := w\<rparr>)"

definition now_iso :: "'w poll \<Rightarrow> stamp \<times> 'w poll" where
  "now_iso s = (case utcnow (ps_db s) of (t, d) \<Rightarrow> (t, s\<lparr>ps_db := d\<rparr>))"

section \<open>Commits and pages\<close>

definition commit ::
  "'w ingest_deps \<Rightarrow> poll_job \<Rightarrow> import_row list \<Rightarrow> ingest_field list \<Rightarrow> bool \<Rightarrow> 'w poll
   \<Rightarrow> (poll_exn + nat) \<times> 'w poll" where
  "commit dep job rows updates count_failure s0 =
     (let s = await dep s0 in
      case ingest_commit (j_project_id job) (j_generation job) rows updates count_failure (ps_db s) of
        (Inl e, d) \<Rightarrow> (Inl (Poll_raised (Exn ''IntegrityError'' [])), s\<lparr>ps_db := d\<rparr>)
      | (Inr None, d) \<Rightarrow> (Inl Stale, s\<lparr>ps_db := d\<rparr>)
      | (Inr (Some inserted), d) \<Rightarrow> (Inr inserted, s\<lparr>ps_db := d\<rparr>))"

definition page_limit :: "settings \<Rightarrow> nat" where
  "page_limit st = nat (max 1 (min 200 (ingest_page_limit st)))"

definition answer_page :: "fetch_answer \<Rightarrow> poll_exn + (string + poll_page)" where
  "answer_page a =
     (case a of
        F_timeout \<Rightarrow> Inr (Inl ''timeout'')
      | F_error \<Rightarrow> Inr (Inl ''network_error'')
      | F_raised e \<Rightarrow> Inl (Poll_raised e)
      | F_response status body \<Rightarrow>
          Inr (if status = 200 then
                 (case Option.bind body parse_page of None \<Rightarrow> Inl ''malformed_response'' | Some page \<Rightarrow> Inr page)
               else if status = 400 then Inl ''bad_cursor''
               else if status = 401 then Inl ''unauthorized''
               else if status = 503 then Inl ''source_not_configured''
               else if 500 \<le> status \<and> status < 600 then Inl ''upstream_error''
               else Inl (''unexpected_status:'' @ digits status)))"

definition fetch ::
  "settings \<Rightarrow> 'w ingest_deps \<Rightarrow> poll_job \<Rightarrow> string option \<Rightarrow> 'w poll
   \<Rightarrow> (poll_exn + (string + poll_page)) \<times> 'w poll" where
  "fetch st dep job cursor s =
     (case j_url job of
        JStr url \<Rightarrow>
          (case ig_get dep url (j_token job) (page_limit st) cursor (ps_world s) of
             (a, w) \<Rightarrow> (answer_page a, await dep (s\<lparr>ps_world := w\<rparr>)))
      | _ \<Rightarrow> (Inl (Poll_raised (Exn ''TypeError'' [])), s))"

definition map_page :: "'w ingest_deps \<Rightarrow> poll_job \<Rightarrow> poll_page \<Rightarrow> 'w poll \<Rightarrow> import_row list \<times> 'w poll" where
  "map_page dep job page s =
     (let mapped = List.map_filter (\<lambda>raw. map_report (ig_ellipsis dep) raw (j_source job)) (pg_reports page)
      in (mapped, on_out (\<lambda>o1. o1\<lparr>pc_skipped := pc_skipped o1 + (length (pg_reports page) - length mapped)\<rparr>) s))"

definition walk_ends :: "settings \<Rightarrow> poll_page \<Rightarrow> bool" where
  "walk_ends st page \<longleftrightarrow> pg_next_cursor page = None \<or> length (pg_reports page) < page_limit st"

text \<open>\<open>poll.outcome.imported += await poll.commit(...); poll.outcome.pages += 1\<close>.\<close>

definition commit_page ::
  "'w ingest_deps \<Rightarrow> poll_job \<Rightarrow> poll_page \<Rightarrow> ingest_field list \<Rightarrow> 'w poll \<Rightarrow> (poll_exn + unit) \<times> 'w poll" where
  "commit_page dep job page updates s0 =
     (case map_page dep job page s0 of
        (rows, s) \<Rightarrow>
          (case commit dep job rows updates False s of
             (Inl e, s1) \<Rightarrow> (Inl e, s1)
           | (Inr n, s1) \<Rightarrow>
               (Inr (), on_out (\<lambda>o1. o1\<lparr>pc_imported := pc_imported o1 + n, pc_pages := Suc (pc_pages o1)\<rparr>) s1)))"

text \<open>A page that did not come: a rejected cursor is forgotten first.\<close>

definition failed_page ::
  "'w ingest_deps \<Rightarrow> poll_job \<Rightarrow> (string option \<Rightarrow> ingest_field) \<Rightarrow> string \<Rightarrow> 'w poll \<Rightarrow> (poll_exn + unit) \<times> 'w poll" where
  "failed_page dep job field error s =
     (if error = ''bad_cursor'' then
        (case commit dep job [] [field None] False s of
           (Inl e, s1) \<Rightarrow> (Inl e, s1) | (Inr _, s1) \<Rightarrow> (Inr (), set_error error s1))
      else (Inr (), set_error error s))"

section \<open>The walks\<close>

definition stored_cursor :: "(string option \<Rightarrow> ingest_field) \<Rightarrow> poll_page \<Rightarrow> ingest_field list" where
  "stored_cursor field page = (case pg_next_cursor page of None \<Rightarrow> [] | Some c \<Rightarrow> [field (Some c)])"

fun forward ::
  "settings \<Rightarrow> 'w ingest_deps \<Rightarrow> poll_job \<Rightarrow> nat \<Rightarrow> string option \<Rightarrow> 'w poll \<Rightarrow> (poll_exn + unit) \<times> 'w poll" where
  "forward st dep job 0 cursor s = (Inr (), s)"
| "forward st dep job (Suc n) cursor s =
     (case fetch st dep job cursor s of
        (Inl e, s1) \<Rightarrow> (Inl e, s1)
      | (Inr (Inl error), s1) \<Rightarrow> failed_page dep job IF_cursor error s1
      | (Inr (Inr page), s1) \<Rightarrow>
          (case commit_page dep job page (stored_cursor IF_cursor page) s1 of
             (Inl e, s2) \<Rightarrow> (Inl e, s2)
           | (Inr _, s2) \<Rightarrow>
               if walk_ends st page then (Inr (), s2)
               else forward st dep job n (pg_next_cursor page) s2))"

definition rewalk_due :: "settings \<Rightarrow> ingest_row option \<Rightarrow> 'w poll \<Rightarrow> bool \<times> 'w poll" where
  "rewalk_due st state s =
     (case Option.bind state i_last_full_walk_at of
        None \<Rightarrow> (False, s)
      | Some (Malformed x) \<Rightarrow> (x \<noteq> [], s)
      | Some (Iso last_dt) \<Rightarrow>
          (case now_iso s of
             (now, s1) \<Rightarrow> (int now - int last_dt \<ge> round_half_even (ingest_rewalk_hours st * 3600000000), s1)))"

fun rewalk_pages ::
  "settings \<Rightarrow> 'w ingest_deps \<Rightarrow> poll_job \<Rightarrow> time_text \<Rightarrow> nat \<Rightarrow> string option \<Rightarrow> 'w poll
   \<Rightarrow> (poll_exn + unit) \<times> 'w poll" where
  "rewalk_pages st dep job started 0 cursor s = (Inr (), s)"
| "rewalk_pages st dep job started (Suc n) cursor s =
     (case fetch st dep job cursor s of
        (Inl e, s1) \<Rightarrow> (Inl e, s1)
      | (Inr (Inl error), s1) \<Rightarrow> failed_page dep job IF_rewalk_cursor error s1
      | (Inr (Inr page), s1) \<Rightarrow>
          (let ends = walk_ends st page;
               updates = stored_cursor IF_rewalk_cursor page
                 @ (if ends then [IF_last_full_walk_at (Some started), IF_rewalk_started_at None, IF_rewalk_cursor None] else [])
           in case commit_page dep job page updates s1 of
                (Inl e, s2) \<Rightarrow> (Inl e, s2)
              | (Inr _, s2) \<Rightarrow>
                  if ends then (Inr (), s2) else rewalk_pages st dep job started n (pg_next_cursor page) s2))"

definition rewalk :: "settings \<Rightarrow> 'w ingest_deps \<Rightarrow> poll_job \<Rightarrow> bool \<Rightarrow> 'w poll \<Rightarrow> (poll_exn + unit) \<times> 'w poll" where
  "rewalk st dep job full s =
     (let state = ingest_state_get (j_project_id job) (ps_db s); pages = nat (ingest_rewalk_pages st) in
      case Option.bind state i_rewalk_started_at of
        Some started \<Rightarrow> rewalk_pages st dep job started pages (Option.bind state i_rewalk_cursor) s
      | None \<Rightarrow>
          (case (if full then (True, s) else rewalk_due st state s) of
             (False, s1) \<Rightarrow> (Inr (), s1)
           | (True, s1) \<Rightarrow>
               (case now_iso s1 of
                  (now, s2) \<Rightarrow>
                    (case commit dep job [] [IF_rewalk_started_at (Some (Iso now)), IF_rewalk_cursor None] False s2 of
                       (Inl e, s3) \<Rightarrow> (Inl e, s3)
                     | (Inr _, s3) \<Rightarrow> rewalk_pages st dep job (Iso now) pages None s3))))"

section \<open>One poll\<close>

definition finish_poll :: "'w ingest_deps \<Rightarrow> poll_job \<Rightarrow> 'w poll \<Rightarrow> (poll_exn + unit) \<times> 'w poll" where
  "finish_poll dep job s0 =
     (case now_iso s0 of
        (now, s) \<Rightarrow>
          (case (case pc_error (ps_out s) of
                   Some e \<Rightarrow> commit dep job [] [IF_last_poll_at (Some now), IF_last_error (Some e)] True s
                 | None \<Rightarrow> commit dep job [] [IF_last_poll_at (Some now), IF_last_ok_at (Some now),
                             IF_last_error None, IF_failures 0] False s) of
             (Inl e, s1) \<Rightarrow> (Inl e, s1)
           | (Inr _, s1) \<Rightarrow>
               (Inr (), on_out (\<lambda>o1. o1\<lparr>pc_consecutive_failures :=
                  (case ingest_state_get (j_project_id job) (ps_db s1) of None \<Rightarrow> 0
                   | Some i \<Rightarrow> i_consecutive_failures i)\<rparr>) s1)))"

definition poll_token :: "'w ingest_deps \<Rightarrow> (string \<times> json) list \<Rightarrow> poll_exn + string" where
  "poll_token dep config =
     (case map_of config ''credential_env'' of
        None \<Rightarrow> Inl (Poll_raised (Exn ''KeyError'' ''credential_env''))
      | Some (JStr name) \<Rightarrow>
          Inr (case resolve_env_credential (ig_environ dep) (ig_env_file dep) name of None \<Rightarrow> [] | Some t \<Rightarrow> t)
      | Some _ \<Rightarrow> Inl (Poll_raised (Exn ''TypeError'' [])))"

text \<open>The guarded part of \<open>poll_project\<close>.\<close>

definition walks ::
  "settings \<Rightarrow> 'w ingest_deps \<Rightarrow> poll_job \<Rightarrow> (string \<times> json) list \<Rightarrow> bool \<Rightarrow> 'w poll \<Rightarrow> (poll_exn + unit) \<times> 'w poll" where
  "walks st dep job0 config full s =
     (case poll_token dep config of
        Inl e \<Rightarrow> (Inl e, s)
      | Inr [] \<Rightarrow> (Inr (), set_error ''credential_missing'' s)
      | Inr token \<Rightarrow>
          (let job = job0\<lparr>j_token := token\<rparr>;
               state = (case ingest_state_get (j_project_id job) (ps_db s) of
                   None \<Rightarrow> None | Some i \<Rightarrow> if i_generation i \<noteq> j_generation job then None else Some i)
           in case forward st dep job (nat (ingest_max_pages st)) (Option.bind state i_cursor) s of
                (Inl e, s1) \<Rightarrow> (Inl e, s1)
              | (Inr _, s1) \<Rightarrow> if pc_error (ps_out s1) = None then rewalk st dep job full s1 else (Inr (), s1)))"

definition stale_poll :: "'w poll \<Rightarrow> 'w poll" where
  "stale_poll = on_out (\<lambda>o1. o1\<lparr>pc_error := Some ''config_changed'', pc_stale := True\<rparr>)"

definition guarded_poll ::
  "settings \<Rightarrow> 'w ingest_deps \<Rightarrow> poll_job \<Rightarrow> (string \<times> json) list \<Rightarrow> bool \<Rightarrow> 'w poll \<Rightarrow> 'w poll" where
  "guarded_poll st dep job config full s =
     (case (case walks st dep job config full s of
              (Inl e, s1) \<Rightarrow> (Inl e, s1) | (Inr _, s1) \<Rightarrow> finish_poll dep job s1) of
        (Inr _, s2) \<Rightarrow> s2
      | (Inl Stale, s2) \<Rightarrow> stale_poll s2
      | (Inl (Poll_raised e), s2) \<Rightarrow>
          (case finish_poll dep job (set_error ''internal_error'' s2) of
             (Inl Stale, s3) \<Rightarrow> stale_poll s3 | (_, s3) \<Rightarrow> s3))"

definition poll_project ::
  "settings \<Rightarrow> 'w ingest_deps \<Rightarrow> string \<Rightarrow> bool \<Rightarrow> 'w poll \<Rightarrow> (exn + poll_outcome) \<times> 'w poll" where
  "poll_project st dep pid full s0 =
     (let s = await dep (s0\<lparr>ps_out := PollOutcome\<rparr>); unset = PollOutcome\<lparr>pc_error := Some ''not_configured''\<rparr> in
      case project_get pid (ps_db s) of
        None \<Rightarrow> (Inr unset, s)
      | Some p \<Rightarrow>
          (case (p_ingest_source p, p_ingest_config p) of
             (Some source, Some config) \<Rightarrow>
               if source = [] then (Inr unset, s)
               else (case map_of config ''url'' of
                       None \<Rightarrow> (Inl (Exn ''KeyError'' ''url''), s)
                     | Some url \<Rightarrow>
                         (let s1 = guarded_poll st dep \<lparr>j_project_id = pid, j_generation = p_ingest_generation p,
                                     j_source = source, j_url = url, j_token = []\<rparr> config full s
                          in (Inr (ps_out s1), s1)))
           | _ \<Rightarrow> (Inr unset, s)))"

section \<open>The tick\<close>

definition ticks_left :: "(string \<times> nat) list \<Rightarrow> string \<Rightarrow> nat" where
  "ticks_left skip pid = (case map_of skip pid of None \<Rightarrow> 0 | Some n \<Rightarrow> n)"

definition next_skip :: "string \<Rightarrow> poll_outcome \<Rightarrow> (string \<times> nat) list \<Rightarrow> (string \<times> nat) list" where
  "next_skip pid out skip =
     (if pc_error out \<noteq> None \<and> \<not> pc_stale out
      then AList.update pid (min (2 ^ max (pc_consecutive_failures out) 1) 32) skip else AList.delete pid skip)"

definition poll_tick ::
  "settings \<Rightarrow> 'w ingest_deps \<Rightarrow> string \<Rightarrow> 'w poll \<times> (string \<times> nat) list \<Rightarrow> 'w poll \<times> (string \<times> nat) list" where
  "poll_tick st dep pid ss =
     (case ss of (s, skip) \<Rightarrow>
        if ticks_left skip pid > 0 then (s, AList.update pid (ticks_left skip pid - 1) skip)
        else (case poll_project st dep pid False s of
                (res, s1) \<Rightarrow>
                  (s1, next_skip pid (case res of Inl e \<Rightarrow> PollOutcome\<lparr>pc_error := Some ''internal_error''\<rparr> | Inr out \<Rightarrow> out) skip)))"

definition ingest_tick ::
  "settings \<Rightarrow> 'w ingest_deps \<Rightarrow> 'w poll \<times> (string \<times> nat) list \<Rightarrow> 'w poll \<times> (string \<times> nat) list" where
  "ingest_tick st dep ss = fold (poll_tick st dep) (map p_id (projects_with_ingest (ps_db (fst ss)))) ss"

end
