(* ===== verification/Poller_Safety.thy ===== *)
theory Poller_Safety
  imports Poller
begin

text \<open>
  What polling guarantees: no report behind a stored cursor is missing, whatever else the process does
  meanwhile and wherever a poll fails; a poll that runs alone imports what its page budget covers; and
  what is reported and recorded of a failure comes from a fixed vocabulary.
\<close>

section \<open>A feed\<close>

text \<open>
  The reports a source serves under one configuration (a project and its ingest generation), oldest
  first, and the position each cursor stands for.
\<close>

record feed =
  fd_project :: string
  fd_generation :: nat
  fd_source :: string
  fd_url :: string
  fd_items :: "json list"
  fd_pos :: "string option \<Rightarrow> nat"

definition feed_held :: "char \<Rightarrow> feed \<Rightarrow> nat \<Rightarrow> db \<Rightarrow> bool" where
  "feed_held ell f n d \<longleftrightarrow>
     list_all (\<lambda>raw. case map_report ell raw (fd_source f) of None \<Rightarrow> True
       | Some m \<Rightarrow> has_external (fd_project f) (im_external_id m) d) (take n (fd_items f))"

definition of_feed :: "feed \<Rightarrow> ingest_row \<Rightarrow> bool" where
  "of_feed f i \<longleftrightarrow> i_project_id i = fd_project f \<and> i_generation i = fd_generation f"

text \<open>Everything behind the stored cursors is in the database.\<close>

definition row_covered :: "char \<Rightarrow> feed \<Rightarrow> db \<Rightarrow> ingest_row \<Rightarrow> bool" where
  "row_covered ell f d i \<longleftrightarrow> feed_held ell f (fd_pos f (i_cursor i)) d
     \<and> (if i_rewalk_started_at i = None then True else feed_held ell f (fd_pos f (i_rewalk_cursor i)) d)"

definition covered :: "char \<Rightarrow> feed \<Rightarrow> db \<Rightarrow> bool" where
  "covered ell f d \<longleftrightarrow> list_all (row_covered ell f d) (filter (of_feed f) (ingest_state d))"

text \<open>While the project is at the feed's generation, its source and URL are the feed's.\<close>

definition configured_as :: "feed \<Rightarrow> db \<Rightarrow> bool" where
  "configured_as f d \<longleftrightarrow>
     (case project_get (fd_project f) d of
        None \<Rightarrow> True
      | Some p \<Rightarrow>
          if p_ingest_generation p = fd_generation f \<and> p_ingest_source p \<noteq> None
          then p_ingest_source p = Some (fd_source f)
            \<and> (case p_ingest_config p of None \<Rightarrow> True | Some c \<Rightarrow>
                 map_of c ''url'' = None \<or> map_of c ''url'' = Some (JStr (fd_url f)))
          else True)"

text \<open>
  The contract of the poll endpoint: a page continues where its cursor stands, and its own cursor
  stands no further than its last report.  Errors and stale or short pages are allowed at any time.
\<close>

definition serves_feed :: "'w ingest_deps \<Rightarrow> feed \<Rightarrow> bool" where
  "serves_feed dep f \<longleftrightarrow> fd_pos f None = 0 \<and>
     (\<forall>token limit c w page. answer_page (fst (ig_get dep (fd_url f) token limit c w)) = Inr (Inr page) \<longrightarrow>
        (\<exists>k. pg_reports page = take k (drop (fd_pos f c) (fd_items f))
           \<and> (case pg_next_cursor page of None \<Rightarrow> True | Some x \<Rightarrow> fd_pos f (Some x) \<le> fd_pos f c + k)))"

text \<open>
  What the rest of the process may do while a poll waits: anything, but it neither unlists an import,
  nor writes the feed's checkpoint (it may delete it), nor reuses its generation for other settings.
\<close>

definition leaves_feed :: "'w ingest_deps \<Rightarrow> feed \<Rightarrow> bool" where
  "leaves_feed dep f \<longleftrightarrow> (\<forall>w d. let e = fst (ig_others dep w d) in
     set (externals d) \<subseteq> set (externals e)
     \<and> set (filter (of_feed f) (ingest_state e)) \<subseteq> set (filter (of_feed f) (ingest_state d))
     \<and> (configured_as f d \<longrightarrow> configured_as f e))"

section \<open>One commit\<close>

lemma held_grows: "feed_held ell f n d \<Longrightarrow> set (externals d) \<subseteq> set (externals e) \<Longrightarrow> feed_held ell f n e"
  by (auto simp: feed_held_def list_all_iff has_external_iff split: option.splits)

lemma held_less: "feed_held ell f n d \<Longrightarrow> m \<le> n \<Longrightarrow> feed_held ell f m d"
  by (auto simp: feed_held_def list_all_iff dest: set_take_subset_set_take[THEN subsetD])

lemma held_zero: "feed_held ell f 0 d"
  by (simp add: feed_held_def)

lemma held_add:
  assumes "feed_held ell f n d"
    and "list_all (\<lambda>m. has_external (fd_project f) (im_external_id m) d)
      (List.map_filter (\<lambda>raw. map_report ell raw (fd_source f)) (take k (drop n (fd_items f))))"
  shows "feed_held ell f (n + k) d"
  using assms
  by (auto simp: feed_held_def take_add List.map_filter_def list_all_iff split: option.splits)

lemma import_reports_present:
  "import_reports pid ms d = (Inr n, e) \<Longrightarrow>
   set (externals d) \<subseteq> set (externals e) \<and> ingest_state e = ingest_state d \<and> projects e = projects d
   \<and> list_all (\<lambda>m. has_external pid (im_external_id m) e) ms"
proof (induction ms arbitrary: d n)
  case (Cons m ms)
  let ?d3 = "snd (db_now (snd (db_now (snd (new_id d)))))"
  show ?case
  proof (cases "has_external pid (im_external_id m) ?d3")
    case True
    then have "import_reports pid ms ?d3 = (Inr n, e)" using Cons.prems by (simp add: case_prod_beta Let_def)
    note IH = Cons.IH[OF this]
    have "externals ?d3 = externals d" by (simp add: externals_def)
    then show ?thesis using IH True by (auto simp: has_external_iff)
  next
    case False
    define r where "r = imported_report (fst (new_id d)) pid (fst (db_now (snd (new_id d))))
        (fst (db_now (snd (db_now (snd (new_id d)))))) m"
    obtain d4 k where i: "insert_report r ?d3 = Inr d4" and rest: "import_reports pid ms d4 = (Inr k, e)"
      using Cons.prems False by (auto simp: case_prod_beta Let_def r_def split: sum.splits) (metis prod.collapse)
    have d4: "d4 = ?d3\<lparr>reports := reports d @ [r]\<rparr>" using i by (auto simp: insert_report_def split: if_splits)
    note IH = Cons.IH[OF rest]
    have "set (externals d4) = insert (pid, Some (im_external_id m)) (set (externals d))"
      by (auto simp: d4 externals_def r_def imported_report_def blank_report_def)
    then show ?thesis using IH by (auto simp: has_external_iff d4)
  qed
qed simp

text \<open>The checkpoint rows after a commit, and the row a commit starts from.\<close>

definition commit_row :: "ingest_field list \<Rightarrow> nat \<Rightarrow> bool \<Rightarrow> ingest_row \<Rightarrow> ingest_row" where
  "commit_row ups n cf i = (fold set_ingest_field ups i)\<lparr>i_imported_total := i_imported_total i + n,
     i_consecutive_failures := (if cf then i_consecutive_failures i + 1 else i_consecutive_failures (fold set_ingest_field ups i))\<rparr>"

lemma commit_cases:
  obtains (lost) "fst (ingest_commit pid g ms ups cf d) = Inr None" "snd (ingest_commit pid g ms ups cf d) = d"
      "\<not> (\<exists>p. project_get pid d = Some p \<and> p_ingest_source p \<noteq> None \<and> p_ingest_generation p = g)"
    | (failed) e where "fst (ingest_commit pid g ms ups cf d) = Inl e" "same_tables d (snd (ingest_commit pid g ms ups cf d))"
    | (stored) n now where "fst (ingest_commit pid g ms ups cf d) = Inr (Some n)"
      "projects (snd (ingest_commit pid g ms ups cf d)) = projects d"
      "set (externals d) \<subseteq> set (externals (snd (ingest_commit pid g ms ups cf d)))"
      "list_all (\<lambda>m. has_external pid (im_external_id m) (snd (ingest_commit pid g ms ups cf d))) ms"
      "set (ingest_state (snd (ingest_commit pid g ms ups cf d))) \<subseteq>
         {i \<in> set (ingest_state d). i_project_id i \<noteq> pid}
         \<union> commit_row ups n cf ` insert (new_ingest_row pid g now)
             {i \<in> set (ingest_state d). i_project_id i = pid \<and> i_generation i = g}"
proof (cases "\<exists>p. project_get pid d = Some p \<and> p_ingest_source p \<noteq> None \<and> p_ingest_generation p = g")
  case False
  then show thesis using lost ingest_commit_stale[OF False, of ms ups cf] by simp
next
  case True
  then obtain p where p: "project_get pid d = Some p" "p_ingest_source p \<noteq> None" "p_ingest_generation p = g" by blast
  let ?d2 = "(snd (db_now d))\<lparr>ingest_state := delete_where
                (\<lambda>i. i_project_id i = pid \<and> i_generation i \<noteq> g) (ingest_state d)\<rparr>"
  let ?d3 = "if pid \<in> i_project_id ` set (ingest_state ?d2) then ?d2
             else ?d2\<lparr>ingest_state := ingest_state ?d2 @ [new_ingest_row pid g (fst (db_now d))]\<rparr>"
  define d3 where "d3 = ?d3"
  have d3: "externals d3 = externals d" "projects d3 = projects d"
    "set (ingest_state d3) \<subseteq> insert (new_ingest_row pid g (fst (db_now d)))
        {i \<in> set (ingest_state d). i_project_id i \<noteq> pid \<or> i_generation i = g}"
    by (auto simp: d3_def externals_def delete_where_def)
  obtain res d4 where i: "import_reports pid ms d3 = (res, d4)" by fastforce
  have eq0: "ingest_commit pid g ms ups cf d = (case import_reports pid ms ?d3 of
        (Inl e, d4) \<Rightarrow> (Inl e, rollback_to d d4)
      | (Inr n, d4) \<Rightarrow> (Inr (Some n),
           d4\<lparr>ingest_state := update_where (\<lambda>i. i_project_id i = pid) (commit_row ups n cf) (ingest_state d4)\<rparr>))"
    using p by (simp only: ingest_commit_def case_prod_beta Let_def option.case now_frame db.simps
        simp_thms if_False if_True snd_conv fst_conv commit_row_def[abs_def])
  have eq: "ingest_commit pid g ms ups cf d = (case res of
        Inl e \<Rightarrow> (Inl e, rollback_to d d4)
      | Inr n \<Rightarrow> (Inr (Some n),
           d4\<lparr>ingest_state := update_where (\<lambda>i. i_project_id i = pid) (commit_row ups n cf) (ingest_state d4)\<rparr>))"
    unfolding eq0 d3_def[symmetric] i by simp
  show thesis
  proof (cases res)
    case (Inl e)
    then show ?thesis using failed[of e] eq by (simp add: same_tables_def)
  next
    case (Inr n)
    define d5 where "d5 = d4\<lparr>ingest_state := update_where (\<lambda>i. i_project_id i = pid) (commit_row ups n cf) (ingest_state d4)\<rparr>"
    have c: "ingest_commit pid g ms ups cf d = (Inr (Some n), d5)" using eq Inr by (simp add: d5_def)
    note here = import_reports_present[OF i[unfolded Inr]]
    have x: "externals d5 = externals d4" by (simp add: d5_def externals_def)
    then have "set (externals d) \<subseteq> set (externals d5)" "projects d5 = projects d"
      "list_all (\<lambda>m. has_external pid (im_external_id m) d5) ms"
      using here d3 by (simp_all add: has_external_iff, simp add: d5_def)
    moreover have "set (ingest_state d5) \<subseteq> {i \<in> set (ingest_state d). i_project_id i \<noteq> pid}
         \<union> commit_row ups n cf ` insert (new_ingest_row pid g (fst (db_now d)))
             {i \<in> set (ingest_state d). i_project_id i = pid \<and> i_generation i = g}"
      using here d3(3) by (auto simp: d5_def update_where_def new_ingest_row_def)
    ultimately show ?thesis using stored[of n "fst (db_now d)"] c by simp
  qed
qed

section \<open>Moving on\<close>

text \<open>What every part of a poll keeps of a feed, seen from one state to a later one.\<close>

definition onward :: "char \<Rightarrow> feed \<Rightarrow> db \<Rightarrow> db \<Rightarrow> bool" where
  "onward ell f d e \<longleftrightarrow> set (externals d) \<subseteq> set (externals e)
     \<and> (covered ell f d \<longrightarrow> covered ell f e) \<and> (configured_as f d \<longrightarrow> configured_as f e)"

lemma onward_refl: "onward ell f d d" and onward_trans: "onward ell f d e \<Longrightarrow> onward ell f e h \<Longrightarrow> onward ell f d h"
  by (auto simp: onward_def)

lemma row_covered_grows: "row_covered ell f d i \<Longrightarrow> set (externals d) \<subseteq> set (externals e) \<Longrightarrow> row_covered ell f e i"
  by (auto simp: row_covered_def intro: held_grows)

lemma onward_rows:
  assumes "set (externals d) \<subseteq> set (externals e)" and "configured_as f d \<longrightarrow> configured_as f e"
    and "set (filter (of_feed f) (ingest_state e)) \<subseteq> set (filter (of_feed f) (ingest_state d))"
  shows "onward ell f d e"
  using assms row_covered_grows[of ell f d _ e] unfolding onward_def covered_def list_all_iff by blast

lemma onward_tables: "externals e = externals d \<Longrightarrow> ingest_state e = ingest_state d \<Longrightarrow> projects e = projects d \<Longrightarrow> onward ell f d e"
  by (rule onward_rows) (simp_all add: configured_as_def project_get_def)

text \<open>Updates that leave the checkpoint row covered, given what is held once the page is in.\<close>

definition safe_updates :: "char \<Rightarrow> feed \<Rightarrow> db \<Rightarrow> ingest_field list \<Rightarrow> bool" where
  "safe_updates ell f e ups \<longleftrightarrow> (\<forall>i. row_covered ell f e i \<longrightarrow> row_covered ell f e (fold set_ingest_field ups i))"

lemma covered_commit_row: "row_covered ell f e (commit_row ups n cf i) = row_covered ell f e (fold set_ingest_field ups i)"
  by (simp add: row_covered_def commit_row_def)

lemma fold_ingest_ids:
  "i_project_id (fold set_ingest_field ups i) = i_project_id i" "i_generation (fold set_ingest_field ups i) = i_generation i"
proof (induction ups arbitrary: i)
  case (Cons u ups)
  { case 1 show ?case using Cons(1)[of "set_ingest_field u i"] by (cases u) simp_all }
  { case 2 show ?case using Cons(2)[of "set_ingest_field u i"] by (cases u) simp_all }
qed simp_all

lemma onward_commit:
  assumes pos: "fd_pos f None = 0"
    and safe: "pid = fd_project f \<Longrightarrow> g = fd_generation f \<Longrightarrow>
      (\<And>e. set (externals d) \<subseteq> set (externals e) \<Longrightarrow> list_all (\<lambda>m. has_external pid (im_external_id m) e) ms
        \<Longrightarrow> safe_updates ell f e ups)"
  shows "onward ell f d (snd (ingest_commit pid g ms ups cf d))"
proof (cases rule: commit_cases[of pid g ms ups cf d])
  case lost
  then show ?thesis by (simp add: onward_refl)
next
  case (failed e)
  then show ?thesis by (intro onward_tables) (simp_all add: same_tables_def externals_def)
next
  case (stored n now)
  let ?e = "snd (ingest_commit pid g ms ups cf d)"
  have "row_covered ell f ?e i" if c: "covered ell f d" and i: "i \<in> set (ingest_state ?e)" "of_feed f i" for i
  proof -
    from stored(5) i(1) consider
        (old) "i \<in> set (ingest_state d)" "i_project_id i \<noteq> pid"
      | (row) j where "i = commit_row ups n cf j" "j = new_ingest_row pid g now \<or> (j \<in> set (ingest_state d) \<and> i_project_id j = pid \<and> i_generation j = g)"
      by blast
    then show ?thesis
    proof cases
      case old
      then have "row_covered ell f d i" using c i(2) by (auto simp: covered_def list_all_iff)
      then show ?thesis using stored(3) by (rule row_covered_grows)
    next
      case row
      have j: "i_project_id j = pid" "i_generation j = g" using row(2) by (auto simp: new_ingest_row_def)
      have m: "pid = fd_project f" "g = fd_generation f"
        using i(2) j unfolding row(1) by (simp_all add: of_feed_def commit_row_def fold_ingest_ids)
      have "row_covered ell f ?e j"
      proof (cases "j = new_ingest_row pid g now")
        case True
        then show ?thesis by (simp add: row_covered_def new_ingest_row_def pos held_zero)
      next
        case False
        then have "row_covered ell f d j" using row(2) c m by (auto simp: covered_def list_all_iff of_feed_def)
        then show ?thesis using stored(3) by (rule row_covered_grows)
      qed
      then show ?thesis using safe[OF m stored(3,4)] unfolding row(1) covered_commit_row safe_updates_def by blast
    qed
  qed
  then have "covered ell f d \<longrightarrow> covered ell f ?e" by (auto simp: covered_def[of ell f ?e] list_all_iff)
  moreover have "configured_as f ?e = configured_as f d" using stored(2) by (simp add: configured_as_def project_get_def)
  ultimately show ?thesis using stored(3) by (simp add: onward_def)
qed

lemma safe_append: "safe_updates ell f e us \<Longrightarrow> safe_updates ell f e vs \<Longrightarrow> safe_updates ell f e (us @ vs)"
  by (simp add: safe_updates_def)

lemma safe_cursor: "feed_held ell f (fd_pos f x) e \<Longrightarrow> safe_updates ell f e [IF_cursor x]"
  and safe_rewalk_cursor: "feed_held ell f (fd_pos f x) e \<Longrightarrow> safe_updates ell f e [IF_rewalk_cursor x]"
  and safe_times: "safe_updates ell f e [IF_last_poll_at t, IF_last_error er]"
    "safe_updates ell f e [IF_last_poll_at t, IF_last_ok_at t', IF_last_error er, IF_failures n]"
  and safe_full: "fd_pos f None = 0 \<Longrightarrow> safe_updates ell f e [IF_last_full_walk_at w, IF_rewalk_started_at None, IF_rewalk_cursor None]"
  and safe_start: "fd_pos f None = 0 \<Longrightarrow> safe_updates ell f e [IF_rewalk_started_at w, IF_rewalk_cursor None]"
  and safe_none: "safe_updates ell f e []"
  by (simp_all add: safe_updates_def row_covered_def held_zero split: if_splits)

section \<open>Parts of a poll\<close>

text \<open>A job either is the feed's or belongs to another project or generation.\<close>

definition is_job :: "feed \<Rightarrow> poll_job \<Rightarrow> bool" where
  "is_job f job \<longleftrightarrow> j_project_id job = fd_project f \<and> j_generation job = fd_generation f"

definition job_fits :: "feed \<Rightarrow> poll_job \<Rightarrow> bool" where
  "job_fits f job \<longleftrightarrow> (is_job f job \<longrightarrow> j_url job = JStr (fd_url f) \<and> j_source job = fd_source f)"

abbreviation forth :: "'w ingest_deps \<Rightarrow> feed \<Rightarrow> 'w poll \<Rightarrow> 'w poll \<Rightarrow> bool" where
  "forth dep f s t \<equiv> onward (ig_ellipsis dep) f (ps_db s) (ps_db t)"

lemma await_forth: "leaves_feed dep f \<Longrightarrow> forth dep f s (await dep s)"
  by (rule onward_rows) (auto simp: leaves_feed_def await_def Let_def case_prod_beta dest: spec[of _ "ps_world s"])

lemma now_forth: "forth dep f s (snd (now_iso s))"
  by (rule onward_tables) (simp_all add: now_iso_def case_prod_beta externals_def)

lemma on_out_db [simp]: "ps_db (on_out g s) = ps_db s" "ps_world (on_out g s) = ps_world s" "ps_out (on_out g s) = g (ps_out s)"
  "ps_db (set_error e s) = ps_db s"
  by (simp_all add: on_out_def set_error_def)

lemma commit_forth:
  assumes "leaves_feed dep f" and "fd_pos f None = 0"
    and safe: "is_job f job \<Longrightarrow> (\<And>e. set (externals (ps_db s)) \<subseteq> set (externals e) \<Longrightarrow>
      list_all (\<lambda>m. has_external (j_project_id job) (im_external_id m) e) rows \<Longrightarrow> safe_updates (ig_ellipsis dep) f e ups)"
  shows "forth dep f s (snd (commit dep job rows ups cf s))"
proof -
  note a = await_forth[OF assms(1), of s]
  have "onward (ig_ellipsis dep) f (ps_db (await dep s))
      (snd (ingest_commit (j_project_id job) (j_generation job) rows ups cf (ps_db (await dep s))))"
    by (rule onward_commit[OF assms(2)], rule safe) (use a in \<open>auto simp: is_job_def onward_def\<close>)
  then show ?thesis using onward_trans[OF a]
    by (auto simp: commit_def Let_def split: prod.splits sum.splits option.splits)
qed

lemma failed_page_forth:
  assumes "leaves_feed dep f" and "fd_pos f None = 0" and "field = IF_cursor \<or> field = IF_rewalk_cursor"
  shows "forth dep f s (snd (failed_page dep job field error s))"
proof -
  have "forth dep f s (snd (commit dep job [] [field None] False s))"
    by (rule commit_forth[OF assms(1,2)]) (use assms(2,3) in \<open>auto intro!: safe_cursor safe_rewalk_cursor simp: held_zero\<close>)
  then show ?thesis by (auto simp: failed_page_def onward_refl split: prod.split sum.split)
qed

text \<open>What a fetched page gives: the items after its cursor.\<close>

lemma fetch_forth: "leaves_feed dep f \<Longrightarrow> forth dep f s (snd (fetch st dep job c s))"
proof -
  assume l: "leaves_feed dep f"
  have "forth dep f s (await dep (s\<lparr>ps_world := w\<rparr>))" for w
    using await_forth[OF l, of "s\<lparr>ps_world := w\<rparr>"] by simp
  then show ?thesis by (simp add: fetch_def onward_refl split: json.split prod.split)
qed

definition page_after :: "feed \<Rightarrow> string option \<Rightarrow> poll_page \<Rightarrow> nat \<Rightarrow> bool" where
  "page_after f c page k \<longleftrightarrow> pg_reports page = take k (drop (fd_pos f c) (fd_items f))
     \<and> (case pg_next_cursor page of None \<Rightarrow> True | Some x \<Rightarrow> fd_pos f (Some x) \<le> fd_pos f c + k)"

lemma fetch_page:
  assumes "serves_feed dep f" and "job_fits f job" and "is_job f job" and "fst (fetch st dep job c s) = Inr (Inr page)"
  obtains k where "page_after f c page k"
proof -
  have "answer_page (fst (ig_get dep (fd_url f) (j_token job) (page_limit st) c (ps_world s))) = Inr (Inr page)"
    using assms(2-4) by (simp add: fetch_def job_fits_def case_prod_beta)
  then show thesis using assms(1) that unfolding serves_feed_def page_after_def by blast
qed

lemma commit_page_forth:
  assumes "leaves_feed dep f" and "fd_pos f None = 0" and "job_fits f job"
    and page: "is_job f job \<Longrightarrow> feed_held (ig_ellipsis dep) f (fd_pos f c) (ps_db s) \<and> page_after f c page k"
    and safe: "is_job f job \<Longrightarrow> (\<And>e. feed_held (ig_ellipsis dep) f (fd_pos f c + k) e \<Longrightarrow> safe_updates (ig_ellipsis dep) f e ups)"
  shows "forth dep f s (snd (commit_page dep job page ups s))"
proof -
  obtain rows s1 where m: "map_page dep job page s = (rows, s1)" by fastforce
  have s1: "ps_db s1 = ps_db s" and rows: "rows = List.map_filter (\<lambda>raw. map_report (ig_ellipsis dep) raw (j_source job)) (pg_reports page)"
    using m by (auto simp: map_page_def Let_def)
  have "forth dep f s1 (snd (commit dep job rows ups False s1))"
  proof (rule commit_forth[OF assms(1,2)])
    fix e
    assume j: "is_job f job" and x: "set (externals (ps_db s1)) \<subseteq> set (externals e)"
      and r: "list_all (\<lambda>m. has_external (j_project_id job) (im_external_id m) e) rows"
    have "feed_held (ig_ellipsis dep) f (fd_pos f c) e" using page[OF j] x s1 by (auto intro: held_grows)
    then have "feed_held (ig_ellipsis dep) f (fd_pos f c + k) e"
      by (rule held_add) (use r j page[OF j] assms(3) in \<open>simp add: rows page_after_def job_fits_def is_job_def\<close>)
    then show "safe_updates (ig_ellipsis dep) f e ups" by (rule safe[OF j])
  qed
  then show ?thesis using s1 by (auto simp: commit_page_def m split: prod.split sum.split)
qed

section \<open>The walks\<close>

text \<open>After a page was stored, what its cursor stands for is held.\<close>

lemma commit_page_held:
  assumes "leaves_feed dep f" and "job_fits f job" and "is_job f job"
    and "feed_held (ig_ellipsis dep) f (fd_pos f c) (ps_db s)" and "page_after f c page k"
    and ok: "commit_page dep job page ups s = (Inr u, t)"
  shows "feed_held (ig_ellipsis dep) f (fd_pos f c + k) (ps_db t)"
proof -
  obtain rows s1 where m: "map_page dep job page s = (rows, s1)" by fastforce
  have s1: "ps_db s1 = ps_db s" and rows: "rows = List.map_filter (\<lambda>raw. map_report (ig_ellipsis dep) raw (j_source job)) (pg_reports page)"
    using m by (auto simp: map_page_def Let_def)
  let ?a = "await dep s1"
  let ?c = "ingest_commit (j_project_id job) (j_generation job) rows ups False (ps_db ?a)"
  obtain n where n: "fst ?c = Inr (Some n)" and t: "ps_db t = snd ?c"
    using ok by (auto simp: commit_page_def m commit_def Let_def split: prod.splits sum.splits option.splits)
  have x: "set (externals (ps_db ?a)) \<subseteq> set (externals (ps_db t))"
    and r: "list_all (\<lambda>m. has_external (j_project_id job) (im_external_id m) (ps_db t)) rows"
    unfolding t by (cases rule: commit_cases[of "j_project_id job" "j_generation job" rows ups False "ps_db ?a"]; use n in simp)+
  have "feed_held (ig_ellipsis dep) f (fd_pos f c) (ps_db t)"
    using assms(4) await_forth[OF assms(1), of s1] x s1 by (auto simp: onward_def intro!: held_grows[of _ _ _ "ps_db s"])
  then show ?thesis
    by (rule held_add) (use r assms(2,3,5) in \<open>simp add: rows page_after_def job_fits_def is_job_def\<close>)
qed

lemma next_held:
  "page_after f c page k \<Longrightarrow> fd_pos f None = 0 \<Longrightarrow> feed_held ell f (fd_pos f c + k) e \<Longrightarrow>
   feed_held ell f (fd_pos f (pg_next_cursor page)) e"
  by (cases "pg_next_cursor page") (auto simp: page_after_def held_zero intro: held_less)

lemma stored_cursor_safe:
  assumes "page_after f c page k" and "fd_pos f None = 0" and "feed_held ell f (fd_pos f c + k) e"
  shows "safe_updates ell f e (stored_cursor IF_cursor page)" "safe_updates ell f e (stored_cursor IF_rewalk_cursor page)"
  using next_held[OF assms]
  by (auto simp: stored_cursor_def safe_none split: option.split intro!: safe_cursor safe_rewalk_cursor)

text \<open>One page of either walk: it moves on, and the walk's next cursor is held.\<close>

lemma page_step:
  assumes "serves_feed dep f" and "leaves_feed dep f" and "job_fits f job"
    and held: "is_job f job \<Longrightarrow> feed_held (ig_ellipsis dep) f (fd_pos f c) (ps_db s)"
    and fetched: "fetch st dep job c s = (Inr (Inr page), s1)"
    and ups: "ups = stored_cursor field page @ extra" "field = IF_cursor \<or> field = IF_rewalk_cursor"
    and extra: "\<And>e. safe_updates (ig_ellipsis dep) f e extra"
  shows "forth dep f s (snd (commit_page dep job page ups s1))"
    and "commit_page dep job page ups s1 = (Inr u, t) \<Longrightarrow> is_job f job \<Longrightarrow>
      feed_held (ig_ellipsis dep) f (fd_pos f (pg_next_cursor page)) (ps_db t)"
proof -
  have pos: "fd_pos f None = 0" using assms(1) by (simp add: serves_feed_def)
  have s1: "forth dep f s s1" using fetch_forth[OF assms(2), of s st job c] fetched by simp
  have held1: "is_job f job \<Longrightarrow> feed_held (ig_ellipsis dep) f (fd_pos f c) (ps_db s1)"
    using held s1 by (auto simp: onward_def intro: held_grows)
  obtain k where k: "is_job f job \<Longrightarrow> page_after f c page k"
  proof (cases "is_job f job")
    case True
    then show thesis using fetch_page[OF assms(1,3) True, of st c s page] fetched that by auto
  qed (use that in blast)
  have safe: "safe_updates (ig_ellipsis dep) f e ups"
    if "is_job f job" "feed_held (ig_ellipsis dep) f (fd_pos f c + k) e" for e
    unfolding ups(1) using ups(2) stored_cursor_safe[OF k[OF that(1)] pos that(2)] extra by (auto intro: safe_append)
  have "forth dep f s1 (snd (commit_page dep job page ups s1))"
    by (rule commit_page_forth[OF assms(2) pos assms(3)]) (use held1 k safe in auto)
  then show "forth dep f s (snd (commit_page dep job page ups s1))" using s1 by (rule onward_trans[rotated])
  show "feed_held (ig_ellipsis dep) f (fd_pos f (pg_next_cursor page)) (ps_db t)"
    if "commit_page dep job page ups s1 = (Inr u, t)" "is_job f job"
    using next_held[OF k[OF that(2)] pos commit_page_held[OF assms(2,3) that(2) held1[OF that(2)] k[OF that(2)] that(1)]] .
qed

lemma forward_forth:
  assumes "serves_feed dep f" and "leaves_feed dep f" and "job_fits f job"
  shows "(is_job f job \<Longrightarrow> feed_held (ig_ellipsis dep) f (fd_pos f c) (ps_db s)) \<Longrightarrow> forth dep f s (snd (forward st dep job n c s))"
proof (induction n arbitrary: c s)
  case (Suc n)
  have pos: "fd_pos f None = 0" using assms(1) by (simp add: serves_feed_def)
  obtain x s1 where x: "fetch st dep job c s = (x, s1)" by fastforce
  have s1: "forth dep f s s1" using fetch_forth[OF assms(2), of s st job c] x by simp
  show ?case
  proof (cases x)
    case (Inr y)
    show ?thesis
    proof (cases y)
      case (Inl e)
      then show ?thesis using x Inr onward_trans[OF s1 failed_page_forth[OF assms(2) pos, where field = IF_cursor and s = s1 and job = job and error = e]] by simp
    next
      case y: (Inr page)
      let ?ups = "stored_cursor IF_cursor page"
      have f: "fetch st dep job c s = (Inr (Inr page), s1)" using x Inr y by simp
      note step = page_step[OF assms Suc.prems f, of ?ups IF_cursor "[]"]
      obtain r t where r: "commit_page dep job page ?ups s1 = (r, t)" by fastforce
      have t: "forth dep f s t" using step(1) r by (simp add: safe_none)
      show ?thesis
      proof (cases r)
        case (Inr u)
        have "forth dep f t (snd (forward st dep job n (pg_next_cursor page) t))"
          by (rule Suc.IH) (use step(2) r Inr in \<open>simp add: safe_none\<close>)
        then show ?thesis using x \<open>x = Inr y\<close> y r Inr t onward_trans[OF t] by simp
      qed (use x Inr y r t in simp)
    qed
  qed (use x s1 in simp)
qed (simp add: onward_refl)

lemma rewalk_pages_forth:
  assumes "serves_feed dep f" and "leaves_feed dep f" and "job_fits f job"
  shows "(is_job f job \<Longrightarrow> feed_held (ig_ellipsis dep) f (fd_pos f c) (ps_db s))
    \<Longrightarrow> forth dep f s (snd (rewalk_pages st dep job started n c s))"
proof (induction n arbitrary: c s)
  case (Suc n)
  have pos: "fd_pos f None = 0" using assms(1) by (simp add: serves_feed_def)
  obtain x s1 where x: "fetch st dep job c s = (x, s1)" by fastforce
  have s1: "forth dep f s s1" using fetch_forth[OF assms(2), of s st job c] x by simp
  show ?case
  proof (cases x)
    case (Inr y)
    show ?thesis
    proof (cases y)
      case (Inl e)
      then show ?thesis
        using x Inr onward_trans[OF s1 failed_page_forth[OF assms(2) pos, where field = IF_rewalk_cursor and s = s1 and job = job and error = e]]
        by simp
    next
      case y: (Inr page)
      define extra where "extra = (if walk_ends st page
          then [IF_last_full_walk_at (Some started), IF_rewalk_started_at None, IF_rewalk_cursor None] else [])"
      let ?ups = "stored_cursor IF_rewalk_cursor page @ extra"
      have extra: "safe_updates (ig_ellipsis dep) f e extra" for e
        using safe_full[OF pos] by (simp add: extra_def safe_none)
      have f: "fetch st dep job c s = (Inr (Inr page), s1)" using x Inr y by simp
      note step = page_step[OF assms Suc.prems f, of ?ups IF_rewalk_cursor extra, OF _ _ _ extra]
      obtain r t where r: "commit_page dep job page ?ups s1 = (r, t)" by fastforce
      have t: "forth dep f s t" using step(1) r by simp
      show ?thesis
      proof (cases r)
        case (Inr u)
        have "forth dep f t (snd (rewalk_pages st dep job started n (pg_next_cursor page) t))"
          by (rule Suc.IH) (use step(2) r Inr in simp)
        then show ?thesis using x \<open>x = Inr y\<close> y r Inr t onward_trans[OF t] by (simp add: Let_def extra_def)
      qed (use x Inr y r t in \<open>simp add: Let_def extra_def\<close>)
    qed
  qed (use x s1 in simp)
qed (simp add: onward_refl)

text \<open>A commit leaves no checkpoint of another generation, so a forward walk that got through has
  settled which checkpoint the re-walk reads.\<close>

definition own_rows :: "poll_job \<Rightarrow> db \<Rightarrow> bool" where
  "own_rows job d \<longleftrightarrow> (\<forall>i \<in> set (ingest_state d). i_project_id i = j_project_id job \<longrightarrow> i_generation i = j_generation job)"

lemma commit_own: "commit dep job rows ups cf s = (Inr n, t) \<Longrightarrow> own_rows job (ps_db t)"
proof -
  assume c: "commit dep job rows ups cf s = (Inr n, t)"
  let ?c = "ingest_commit (j_project_id job) (j_generation job) rows ups cf (ps_db (await dep s))"
  have f: "fst ?c = Inr (Some n)" and t: "ps_db t = snd ?c"
    using c by (auto simp: commit_def Let_def split: prod.splits sum.splits option.splits)
  show ?thesis unfolding t
  proof (cases rule: commit_cases[of "j_project_id job" "j_generation job" rows ups cf "ps_db (await dep s)"])
    case (stored n' now)
    then show "own_rows job (snd ?c)"
      by (force simp: own_rows_def commit_row_def fold_ingest_ids new_ingest_row_def dest: subsetD[OF stored(5)])
  qed (use f in simp_all)
qed

lemma fetch_out: "ps_out (snd (fetch st dep job c s)) = ps_out s" and await_out: "ps_out (await dep s) = ps_out s"
  by (simp_all add: fetch_def await_def split: json.split prod.split)

lemma commit_page_own: "commit_page dep job page ups s = (Inr u, t) \<Longrightarrow> own_rows job (ps_db t)"
  by (auto simp: commit_page_def split: prod.splits sum.splits dest: commit_own)

lemma failed_page_error: "failed_page dep job field e s = (Inr u, t) \<Longrightarrow> pc_error (ps_out t) = Some e"
  by (auto simp: failed_page_def set_error_def split: if_splits prod.splits sum.splits)

lemma forward_own:
  "forward st dep job n c s = (Inr u, t) \<Longrightarrow> 0 < n \<Longrightarrow> pc_error (ps_out t) = None \<Longrightarrow> own_rows job (ps_db t)"
proof (induction n arbitrary: c s)
  case (Suc n)
  obtain x s1 where x: "fetch st dep job c s = (x, s1)" by fastforce
  then obtain y where y: "x = Inr y" using Suc.prems(1) by (cases x) auto
  then obtain page where p: "y = Inr page" using Suc.prems x by (cases y) (auto dest: failed_page_error)
  obtain r t1 where r: "commit_page dep job page (stored_cursor IF_cursor page) s1 = (r, t1)" by fastforce
  then have t1: "r = Inr ()" "own_rows job (ps_db t1)" using Suc.prems(1) x y p by (cases r; auto dest: commit_page_own)+
  show ?case
  proof (cases "walk_ends st page \<or> n = 0")
    case True
    then show ?thesis using Suc.prems x y p r t1 by (auto split: if_splits)
  next
    case False
    then show ?thesis using Suc.IH[of "pg_next_cursor page" t1] Suc.prems x y p r t1 by auto
  qed
qed simp

lemma rewalk_forth:
  assumes "serves_feed dep f" and "leaves_feed dep f" and "job_fits f job"
    and "is_job f job \<Longrightarrow> own_rows job (ps_db s)" and cov: "covered (ig_ellipsis dep) f (ps_db s)"
  shows "forth dep f s (snd (rewalk st dep job full s))"
proof -
  have pos: "fd_pos f None = 0" using assms(1) by (simp add: serves_feed_def)
  let ?i = "ingest_state_get (j_project_id job) (ps_db s)"
  have resumed: "forth dep f s (snd (rewalk_pages st dep job w n (Option.bind ?i i_rewalk_cursor) s))"
    if w: "Option.bind ?i i_rewalk_started_at = Some w" for w n
  proof (rule rewalk_pages_forth[OF assms(1-3)])
    assume j: "is_job f job"
    obtain i where i: "?i = Some i" "i_rewalk_started_at i = Some w" using w by (cases ?i) auto
    have "i \<in> set (ingest_state (ps_db s)) \<and> i_project_id i = j_project_id job"
      using i(1) by (auto simp: ingest_state_get_def dest!: fetchone_in)
    then have "row_covered (ig_ellipsis dep) f (ps_db s) i"
      using cov j assms(4)[OF j] by (auto simp: covered_def list_all_iff of_feed_def own_rows_def is_job_def)
    then show "feed_held (ig_ellipsis dep) f (fd_pos f (Option.bind ?i i_rewalk_cursor)) (ps_db s)"
      using i by (simp add: row_covered_def)
  qed
  have started: "forth dep f s2 (snd (rewalk_pages st dep job w n None s2))" for w n s2
    by (rule rewalk_pages_forth[OF assms(1-3)]) (simp add: pos held_zero)
  have start: "forth dep f s2 s3" if "commit dep job [] [IF_rewalk_started_at w, IF_rewalk_cursor None] False s2 = (r, s3)" for w r s2 s3
    using commit_forth[OF assms(2) pos, of job s2 "[]" "[IF_rewalk_started_at w, IF_rewalk_cursor None]" False]
      safe_start[OF pos] that by simp
  have due: "forth dep f s s1" if "(if full then (True, s) else rewalk_due st ?i s) = (b, s1)" for b s1
    using that now_forth[of dep f s] by (auto simp: rewalk_due_def onward_refl split: if_splits option.splits time_text.splits prod.splits)
  have now: "forth dep f s s2" if "forth dep f s s1" "now_iso s1 = (now, s2)" for s1 now s2
    using onward_trans[OF that(1) now_forth[of dep f s1]] that(2) by simp
  show ?thesis
  proof (cases "Option.bind ?i i_rewalk_started_at")
    case None
    obtain b s1 where b: "(if full then (True, s) else rewalk_due st ?i s) = (b, s1)" by fastforce
    obtain now s2 where n: "now_iso s1 = (now, s2)" by fastforce
    obtain r s3 where r: "commit dep job [] [IF_rewalk_started_at (Some (Iso now)), IF_rewalk_cursor None] False s2 = (r, s3)" by fastforce
    note 1 = due[OF b]
    note 3 = onward_trans[OF now[OF 1 n] start[OF r]]
    show ?thesis using None b n r 1 3 onward_trans[OF 3 started]
      by (cases b; cases r) (simp_all add: rewalk_def Let_def)
  qed (simp add: rewalk_def Let_def resumed)
qed

section \<open>A whole poll and the tick\<close>

lemma finish_forth:
  assumes "leaves_feed dep f" and "fd_pos f None = 0"
  shows "forth dep f s (snd (finish_poll dep job s))"
proof -
  obtain now s1 where n: "now_iso s = (now, s1)" by fastforce
  have s1: "forth dep f s s1" using now_forth[of dep f s] n by simp
  have "forth dep f s1 s2"
    if "(case pc_error (ps_out s1) of
           Some e \<Rightarrow> commit dep job [] [IF_last_poll_at (Some now), IF_last_error (Some e)] True s1
         | None \<Rightarrow> commit dep job [] [IF_last_poll_at (Some now), IF_last_ok_at (Some now), IF_last_error None, IF_failures 0] False s1) = (r, s2)" for r s2
    using that commit_forth[OF assms, of job s1 "[]" "[IF_last_poll_at (Some now), IF_last_error e]" True for e]
      commit_forth[OF assms, of job s1 "[]" "[IF_last_poll_at (Some now), IF_last_ok_at (Some now), IF_last_error None, IF_failures 0]" False]
    by (auto simp: safe_times split: option.splits) (metis safe_times(1) snd_conv)+
  then show ?thesis
    by (auto simp: finish_poll_def n split: prod.split sum.split intro: onward_trans[OF s1])
qed

lemma walks_forth:
  assumes "serves_feed dep f" and "leaves_feed dep f" and "job_fits f job" and "0 < ingest_max_pages st"
    and cov: "covered (ig_ellipsis dep) f (ps_db s)" and "pc_error (ps_out s) = None"
  shows "forth dep f s (snd (walks st dep job config full s))"
proof (cases "\<exists>c cs. poll_token dep config = Inr (c # cs)")
  case True
  then obtain c cs where tok: "poll_token dep config = Inr (c # cs)" by blast
  let ?job = "job\<lparr>j_token := c # cs\<rparr>"
  have fits: "job_fits f ?job" using assms(3) by (simp add: job_fits_def is_job_def)
  define state where "state = (case ingest_state_get (j_project_id ?job) (ps_db s) of
      None \<Rightarrow> None | Some i \<Rightarrow> if i_generation i \<noteq> j_generation ?job then None else Some i)"
  obtain r s1 where f: "forward st dep ?job (nat (ingest_max_pages st)) (Option.bind state i_cursor) s = (r, s1)" by fastforce
  have held: "feed_held (ig_ellipsis dep) f (fd_pos f (Option.bind state i_cursor)) (ps_db s)" if "is_job f ?job"
  proof (cases state)
    case None
    then show ?thesis using assms(1) by (simp add: serves_feed_def held_zero)
  next
    case (Some i)
    then have "ingest_state_get (fd_project f) (ps_db s) = Some i \<and> i_generation i = fd_generation f"
      using that by (auto simp: state_def is_job_def split: option.splits if_splits)
    then have "row_covered (ig_ellipsis dep) f (ps_db s) i"
      using cov by (auto simp: ingest_state_get_def covered_def list_all_iff of_feed_def dest!: fetchone_in)
    then show ?thesis using Some by (simp add: row_covered_def)
  qed
  have s1: "forth dep f s s1" using forward_forth[OF assms(1,2) fits held] f by (metis snd_conv)
  have "forth dep f s1 (snd (rewalk st dep ?job full s1))" if "r = Inr u" "pc_error (ps_out s1) = None" for u
  proof (rule rewalk_forth[OF assms(1,2) fits])
    show "own_rows ?job (ps_db s1)" using forward_own[of st dep ?job _ _ s u s1] f that assms(4) by auto
    show "covered (ig_ellipsis dep) f (ps_db s1)" using s1 cov by (simp add: onward_def)
  qed
  moreover have "walks st dep job config full s = (case r of Inl e \<Rightarrow> (Inl e, s1)
      | Inr _ \<Rightarrow> if pc_error (ps_out s1) = None then rewalk st dep ?job full s1 else (Inr (), s1))"
    using f unfolding state_def by (simp add: walks_def tok Let_def)
  ultimately show ?thesis using s1 onward_trans[OF s1] by (cases r) auto
next
  case False
  then show ?thesis by (auto simp: walks_def onward_refl split: sum.split list.split)
qed

lemma guarded_forth:
  assumes "serves_feed dep f" and "leaves_feed dep f" and "job_fits f job" and "0 < ingest_max_pages st"
    and "covered (ig_ellipsis dep) f (ps_db s)" and "pc_error (ps_out s) = None"
  shows "forth dep f s (guarded_poll st dep job config full s)"
proof -
  have pos: "fd_pos f None = 0" using assms(1) by (simp add: serves_feed_def)
  note w = walks_forth[OF assms, of config full]
  have fin: "forth dep f s s2" if "forth dep f s s1" "finish_poll dep job s1 = (r, s2)" for s1 r s2
    using onward_trans[OF that(1) finish_forth[OF assms(2) pos, of s1 job]] that(2) by simp
  have err: "forth dep f s (set_error e s1)" if "forth dep f s s1" for e s1 using that by simp
  have stale: "forth dep f s (stale_poll s1)" if "forth dep f s s1" for s1 using that by (simp add: stale_poll_def)
  obtain r s1 where r: "walks st dep job config full s = (r, s1)" by fastforce
  have s1: "forth dep f s s1" using w r by simp
  obtain r2 s2 where r2: "(case r of Inl e \<Rightarrow> (Inl e, s1) | Inr _ \<Rightarrow> finish_poll dep job s1) = (r2, s2)" by fastforce
  have s2: "forth dep f s s2" using r2 s1 fin[OF s1] by (cases r) auto
  obtain r3 s3 where r3: "finish_poll dep job (set_error ''internal_error'' s2) = (r3, s3)" by fastforce
  have s3: "forth dep f s s3" by (rule fin[OF err[OF s2] r3])
  have "guarded_poll st dep job config full s = (case r2 of Inr _ \<Rightarrow> s2 | Inl Stale \<Rightarrow> stale_poll s2
      | Inl (Poll_raised e) \<Rightarrow> (case r3 of Inl Stale \<Rightarrow> stale_poll s3 | _ \<Rightarrow> s3))"
    using r r2 r3 by (cases r) (auto simp: guarded_poll_def split: sum.split poll_exn.split)
  then show ?thesis using s2 s3 stale by (auto split: sum.split poll_exn.split)
qed

lemma poll_project_forth:
  assumes "serves_feed dep f" and "leaves_feed dep f" and "0 < ingest_max_pages st"
    and "covered (ig_ellipsis dep) f (ps_db s)" and "configured_as f (ps_db s)"
  shows "forth dep f s (snd (poll_project st dep pid full s))"
proof -
  define s1 where "s1 = await dep (s\<lparr>ps_out := PollOutcome\<rparr>)"
  have s1: "forth dep f s s1" using await_forth[OF assms(2), of "s\<lparr>ps_out := PollOutcome\<rparr>"] by (simp add: s1_def)
  then have ok: "covered (ig_ellipsis dep) f (ps_db s1)" "configured_as f (ps_db s1)" using assms(4,5) by (simp_all add: onward_def)
  have out: "pc_error (ps_out s1) = None" by (simp add: s1_def await_out PollOutcome_def)
  have "forth dep f s1 (guarded_poll st dep \<lparr>j_project_id = pid, j_generation = p_ingest_generation p,
      j_source = source, j_url = url, j_token = []\<rparr> config full s1)"
    if "project_get pid (ps_db s1) = Some p" "p_ingest_source p = Some source" "p_ingest_config p = Some config"
      "map_of config ''url'' = Some url" for p source config url
    by (rule guarded_forth[OF assms(1,2) _ assms(3) ok(1) out])
       (use that ok(2) in \<open>auto simp: job_fits_def is_job_def configured_as_def\<close>)
  from onward_trans[OF s1 this] show ?thesis
    unfolding poll_project_def s1_def[symmetric] Let_def using s1 by (simp split: option.split)
qed

lemma tick_forth:
  assumes "serves_feed dep f" and "leaves_feed dep f" and "0 < ingest_max_pages st"
    and "covered (ig_ellipsis dep) f (ps_db (fst ss))" and "configured_as f (ps_db (fst ss))"
  shows "forth dep f (fst ss) (fst (ingest_tick st dep ss))"
proof -
  have "forth dep f (fst ss) (fst (fold (poll_tick st dep) pids ss))" for pids
    using assms(4,5)
  proof (induction pids arbitrary: ss)
    case (Cons pid pids)
    have 1: "forth dep f (fst ss) (fst (poll_tick st dep pid ss))"
      using poll_project_forth[OF assms(1-3) Cons.prems, of pid False]
      by (auto simp: poll_tick_def onward_refl split: prod.split)
    then have "covered (ig_ellipsis dep) f (ps_db (fst (poll_tick st dep pid ss)))"
      "configured_as f (ps_db (fst (poll_tick st dep pid ss)))" using Cons.prems by (simp_all add: onward_def)
    from onward_trans[OF 1 Cons.IH[OF this]] show ?case by simp
  qed (simp add: onward_refl)
  then show ?thesis by (simp add: ingest_tick_def)
qed

section \<open>A poll that runs alone\<close>

definition alone :: "'w ingest_deps \<Rightarrow> bool" where
  "alone dep \<longleftrightarrow> ig_others dep = (\<lambda>w d. (d, w))"

text \<open>The source answers every request with the page its contract asks for.\<close>

definition answers_feed :: "settings \<Rightarrow> 'w ingest_deps \<Rightarrow> feed \<Rightarrow> bool" where
  "answers_feed st dep f \<longleftrightarrow> fd_pos f None = 0 \<and>
     (\<forall>token c w. case answer_page (fst (ig_get dep (fd_url f) token (page_limit st) c w)) of
        Inr (Inr page) \<Rightarrow>
          pg_reports page = take (page_limit st) (drop (fd_pos f c) (fd_items f))
          \<and> (case pg_next_cursor page of
               None \<Rightarrow> pg_reports page = []
             | Some x \<Rightarrow> fd_pos f (Some x) = fd_pos f c + length (pg_reports page))
      | _ \<Rightarrow> False)"

definition current :: "poll_job \<Rightarrow> 'w poll \<Rightarrow> bool" where
  "current job s \<longleftrightarrow> (case project_get (j_project_id job) (ps_db s) of
     None \<Rightarrow> False | Some p \<Rightarrow> p_ingest_source p \<noteq> None \<and> p_ingest_generation p = j_generation job)"

definition calm :: "poll_job \<Rightarrow> (poll_exn + 'a) \<times> 'w poll \<Rightarrow> bool" where
  "calm job rs \<longleftrightarrow> fst rs \<noteq> Inl Stale \<and> current job (snd rs) \<and> pc_error (ps_out (snd rs)) = None"

definition here :: "poll_job \<Rightarrow> 'w poll \<Rightarrow> bool" where
  "here job s \<longleftrightarrow> current job s \<and> pc_error (ps_out s) = None"

lemma alone_leaves: "alone dep \<Longrightarrow> leaves_feed dep f" and alone_await: "alone dep \<Longrightarrow> await dep s = s"
  by (simp_all add: alone_def leaves_feed_def await_def)

lemma page_limit_pos: "0 < page_limit st"
  by (simp add: page_limit_def)

lemma current_token [simp]: "current (job\<lparr>j_token := x\<rparr>) s = current job s" "calm (job\<lparr>j_token := x\<rparr>) rs = calm job rs"
  by (simp_all add: current_def calm_def split: option.split)

lemma now_current: "current job s \<Longrightarrow> current job (snd (now_iso s))" "ps_out (snd (now_iso s)) = ps_out s"
  by (simp_all add: current_def now_iso_def case_prod_beta project_get_def)

lemma commit_current:
  assumes "alone dep" and "current job s"
  shows "fst (commit dep job rows ups cf s) \<noteq> Inl Stale" and "current job (snd (commit dep job rows ups cf s))"
    and "ps_out (snd (commit dep job rows ups cf s)) = ps_out s"
proof -
  let ?c = "ingest_commit (j_project_id job) (j_generation job) rows ups cf (ps_db s)"
  have p: "projects (snd ?c) = projects (ps_db s)" "fst ?c \<noteq> Inr None"
    by (cases rule: commit_cases[of "j_project_id job" "j_generation job" rows ups cf "ps_db s"];
        use assms(2) in \<open>auto simp: current_def same_tables_def split: option.splits\<close>)+
  then show "fst (commit dep job rows ups cf s) \<noteq> Inl Stale" "current job (snd (commit dep job rows ups cf s))"
    "ps_out (snd (commit dep job rows ups cf s)) = ps_out s"
    using assms(2) by (auto simp: current_def commit_def Let_def alone_await[OF assms(1)] project_get_def
        split: prod.splits sum.splits option.splits)
qed

lemma calm_commit: "alone dep \<Longrightarrow> here job s \<Longrightarrow> calm job (commit dep job rows ups cf s)"
  by (simp add: calm_def here_def commit_current)

lemma finish_current:
  assumes "alone dep" and "current job s"
  shows "fst (finish_poll dep job s) \<noteq> Inl Stale" and "current job (snd (finish_poll dep job s))"
    and "pc_error (ps_out (snd (finish_poll dep job s))) = pc_error (ps_out s)"
proof -
  obtain now s1 where n: "now_iso s = (now, s1)" by fastforce
  have s1: "current job s1" "ps_out s1 = ps_out s"
    using now_current(1)[OF assms(2)] now_current(2)[of s] by (simp_all add: n)
  obtain r s2 where r: "(case pc_error (ps_out s1) of
           Some e \<Rightarrow> commit dep job [] [IF_last_poll_at (Some now), IF_last_error (Some e)] True s1
         | None \<Rightarrow> commit dep job [] [IF_last_poll_at (Some now), IF_last_ok_at (Some now), IF_last_error None, IF_failures 0] False s1) = (r, s2)"
    by fastforce
  have "r \<noteq> Inl Stale \<and> current job s2 \<and> ps_out s2 = ps_out s1"
    using commit_current[OF assms(1) s1(1), of "[]"] r by (cases "pc_error (ps_out s1)") (metis fst_conv snd_conv option.case)+
  moreover have "finish_poll dep job s = (case r of Inl e \<Rightarrow> (Inl e, s2)
      | Inr _ \<Rightarrow> (Inr (), on_out (\<lambda>o1. o1\<lparr>pc_consecutive_failures :=
          (case ingest_state_get (j_project_id job) (ps_db s2) of None \<Rightarrow> 0 | Some i \<Rightarrow> i_consecutive_failures i)\<rparr>) s2))"
    by (simp add: finish_poll_def n r)
  ultimately show "fst (finish_poll dep job s) \<noteq> Inl Stale" "current job (snd (finish_poll dep job s))"
    "pc_error (ps_out (snd (finish_poll dep job s))) = pc_error (ps_out s)"
    using s1(2) by (cases r; simp add: current_def)+
qed

lemma calm_page: "alone dep \<Longrightarrow> here job s \<Longrightarrow> calm job (commit_page dep job page ups s)"
proof -
  assume a: "alone dep" "here job s"
  obtain rows s1 where m: "map_page dep job page s = (rows, s1)" by fastforce
  then have "here job s1" using a(2) by (auto simp: map_page_def Let_def here_def current_def)
  then have "calm job (commit dep job rows ups False s1)" by (rule calm_commit[OF a(1)])
  then show ?thesis by (auto simp: commit_page_def m calm_def current_def split: prod.splits sum.splits)
qed

lemma answered_fetch:
  assumes "alone dep" and "answers_feed st dep f" and "job_fits f job" and "is_job f job"
  obtains page w where "fetch st dep job c s = (Inr (Inr page), s\<lparr>ps_world := w\<rparr>)"
    "page_after f c page (page_limit st)"
    "walk_ends st page \<Longrightarrow> length (fd_items f) \<le> fd_pos f c + page_limit st"
    "\<not> walk_ends st page \<Longrightarrow> fd_pos f (pg_next_cursor page) = fd_pos f c + page_limit st"
proof -
  obtain a w where g: "ig_get dep (fd_url f) (j_token job) (page_limit st) c (ps_world s) = (a, w)" by fastforce
  have law: "case answer_page a of
        Inr (Inr page) \<Rightarrow>
          pg_reports page = take (page_limit st) (drop (fd_pos f c) (fd_items f))
          \<and> (case pg_next_cursor page of
               None \<Rightarrow> pg_reports page = []
             | Some x \<Rightarrow> fd_pos f (Some x) = fd_pos f c + length (pg_reports page))
      | _ \<Rightarrow> False"
    using spec[OF spec[OF spec[OF conjunct2[OF assms(2)[unfolded answers_feed_def]], of "j_token job"], of c], of "ps_world s"]
    unfolding g fst_conv .
  then obtain page where p: "answer_page a = Inr (Inr page)" by (auto split: sum.splits)
  have l: "pg_reports page = take (page_limit st) (drop (fd_pos f c) (fd_items f))"
    "case pg_next_cursor page of None \<Rightarrow> pg_reports page = []
     | Some x \<Rightarrow> fd_pos f (Some x) = fd_pos f c + length (pg_reports page)"
    using law by (simp_all add: p)
  have url: "j_url job = JStr (fd_url f)" using assms(3,4) by (simp add: job_fits_def)
  show thesis
  proof (rule that[of page w])
    show "fetch st dep job c s = (Inr (Inr page), s\<lparr>ps_world := w\<rparr>)"
      using p g by (simp add: fetch_def url alone_await[OF assms(1)])
    show "page_after f c page (page_limit st)" using l by (auto simp: page_after_def split: option.splits)
    show "length (fd_items f) \<le> fd_pos f c + page_limit st" if "walk_ends st page"
      using that l page_limit_pos[of st] by (cases "pg_next_cursor page") (auto simp: walk_ends_def)
    show "fd_pos f (pg_next_cursor page) = fd_pos f c + page_limit st" if "\<not> walk_ends st page"
      using that l by (cases "pg_next_cursor page") (simp_all add: walk_ends_def)
  qed
qed

lemma answers_serves: "answers_feed st dep f \<Longrightarrow> fd_pos f None = 0"
  by (simp add: answers_feed_def)

lemma held_past: "feed_held ell f n d \<Longrightarrow> length (fd_items f) \<le> n \<Longrightarrow> feed_held ell f m d"
  by (auto simp: feed_held_def list_all_iff dest: in_set_takeD)

lemma forward_alone:
  assumes "alone dep" and "answers_feed st dep f" and "job_fits f job" and "is_job f job"
  shows "here job s \<Longrightarrow> feed_held (ig_ellipsis dep) f (fd_pos f c) (ps_db s) \<Longrightarrow>
    calm job (forward st dep job n c s)
    \<and> (\<forall>u t. forward st dep job n c s = (Inr u, t) \<longrightarrow>
         feed_held (ig_ellipsis dep) f (fd_pos f c + n * page_limit st) (ps_db t))"
proof (induction n arbitrary: c s)
  case (Suc n)
  obtain page w where f: "fetch st dep job c s = (Inr (Inr page), s\<lparr>ps_world := w\<rparr>)"
    and k: "page_after f c page (page_limit st)"
    and ends: "walk_ends st page \<Longrightarrow> length (fd_items f) \<le> fd_pos f c + page_limit st"
    and onw: "\<not> walk_ends st page \<Longrightarrow> fd_pos f (pg_next_cursor page) = fd_pos f c + page_limit st"
    using answered_fetch[OF assms, of c s] by blast
  let ?s1 = "s\<lparr>ps_world := w\<rparr>"
  have s1: "here job ?s1" "feed_held (ig_ellipsis dep) f (fd_pos f c) (ps_db ?s1)"
    using Suc.prems by (simp_all add: here_def current_def)
  obtain r t where r: "commit_page dep job page (stored_cursor IF_cursor page) ?s1 = (r, t)" by fastforce
  have cp: "calm job (r, t)" using calm_page[OF assms(1) s1(1)] r by metis
  show ?case
  proof (cases r)
    case (Inl e)
    then show ?thesis using f r cp by (simp add: calm_def)
  next
    case (Inr u)
    have held: "feed_held (ig_ellipsis dep) f (fd_pos f c + page_limit st) (ps_db t)"
      by (rule commit_page_held[OF alone_leaves[OF assms(1)] assms(3,4) s1(2) k]) (use r Inr in simp)
    show ?thesis
    proof (cases "walk_ends st page")
      case True
      then show ?thesis using f r cp Inr held_past[OF held ends[OF True]] by (simp add: calm_def)
    next
      case False
      have t: "here job t" using cp by (simp add: calm_def here_def)
      have "feed_held (ig_ellipsis dep) f (fd_pos f (pg_next_cursor page)) (ps_db t)" using held onw[OF False] by simp
      from Suc.IH[OF t this] show ?thesis using f r Inr False onw[OF False] by (simp add: algebra_simps)
    qed
  qed
qed (simp add: calm_def here_def)

lemma rewalk_pages_alone:
  assumes "alone dep" and "answers_feed st dep f" and "job_fits f job" and "is_job f job"
  shows "here job s \<Longrightarrow> calm job (rewalk_pages st dep job started n c s)"
proof (induction n arbitrary: c s)
  case (Suc n)
  obtain page w where f: "fetch st dep job c s = (Inr (Inr page), s\<lparr>ps_world := w\<rparr>)"
    by (rule answered_fetch[OF assms, of c s])
  have s1: "here job (s\<lparr>ps_world := w\<rparr>)" using Suc.prems by (simp add: here_def current_def)
  define ups where "ups = stored_cursor IF_rewalk_cursor page
      @ (if walk_ends st page then [IF_last_full_walk_at (Some started), IF_rewalk_started_at None, IF_rewalk_cursor None] else [])"
  obtain r t where r: "commit_page dep job page ups (s\<lparr>ps_world := w\<rparr>) = (r, t)" by fastforce
  have cp: "calm job (r, t)" using calm_page[OF assms(1) s1, of page ups] by (simp add: r)
  have eq: "rewalk_pages st dep job started (Suc n) c s = (case r of Inl e \<Rightarrow> (Inl e, t)
      | Inr _ \<Rightarrow> if walk_ends st page then (Inr (), t) else rewalk_pages st dep job started n (pg_next_cursor page) t)"
    using r by (simp add: f Let_def ups_def)
  have "calm job (rewalk_pages st dep job started n (pg_next_cursor page) t)"
    by (rule Suc.IH) (use cp in \<open>simp add: calm_def here_def\<close>)
  then show ?case unfolding eq using cp by (cases r) (simp_all add: calm_def)
qed (simp add: calm_def here_def)

lemma calm_now: "here job s \<Longrightarrow> here job (snd (now_iso s))"
  by (simp add: here_def now_current)

lemma rewalk_alone:
  assumes "alone dep" and "answers_feed st dep f" and "job_fits f job" and "is_job f job" and "here job s"
  shows "calm job (rewalk st dep job full s)"
proof -
  let ?i = "ingest_state_get (j_project_id job) (ps_db s)"
  note pages = rewalk_pages_alone[OF assms(1-4)]
  show ?thesis
  proof (cases "Option.bind ?i i_rewalk_started_at")
    case None
    obtain b s1 where b: "(if full then (True, s) else rewalk_due st ?i s) = (b, s1)" by fastforce
    then have s1: "here job s1"
      using assms(5) calm_now[OF assms(5)]
      by (auto simp: rewalk_due_def split: if_splits option.splits time_text.splits prod.splits)
    obtain now s2 where n: "now_iso s1 = (now, s2)" by fastforce
    have s2: "here job s2" using calm_now[OF s1] n by simp
    obtain r s3 where r: "commit dep job [] [IF_rewalk_started_at (Some (Iso now)), IF_rewalk_cursor None] False s2 = (r, s3)" by fastforce
    have s3: "calm job (r, s3)" using calm_commit[OF assms(1) s2] r by metis
    have "calm job (rewalk_pages st dep job (Iso now) (nat (ingest_rewalk_pages st)) None s3)"
      by (rule pages) (use s3 in \<open>simp add: calm_def here_def\<close>)
    then show ?thesis using None b n r s1 s3
      by (cases b; cases r) (simp_all add: rewalk_def Let_def calm_def here_def)
  qed (simp add: rewalk_def Let_def pages assms(5))
qed

text \<open>Where the next forward walk of the feed starts.\<close>

definition feed_cursor :: "feed \<Rightarrow> db \<Rightarrow> string option" where
  "feed_cursor f d =
     (case ingest_state_get (fd_project f) d of
        None \<Rightarrow> None | Some i \<Rightarrow> if i_generation i = fd_generation f then i_cursor i else None)"

lemma walks_alone:
  assumes "alone dep" and "answers_feed st dep f" and "job_fits f job" and "is_job f job" and "here job s"
    and "covered (ig_ellipsis dep) f (ps_db s)" and "poll_token dep config = Inr token" and "token \<noteq> []"
    and "0 < ingest_max_pages st" and serves: "serves_feed dep f" and c0: "c0 = feed_cursor f (ps_db s)"
  shows "calm job (walks st dep job config full s)
    \<and> (\<forall>u t. walks st dep job config full s = (Inr u, t) \<longrightarrow>
         feed_held (ig_ellipsis dep) f (fd_pos f c0 + nat (ingest_max_pages st) * page_limit st) (ps_db t))"
proof -
  obtain c cs where tok: "poll_token dep config = Inr (c # cs)" using assms(7,8) by (cases token) auto
  let ?job = "job\<lparr>j_token := c # cs\<rparr>"
  have j: "job_fits f ?job" "is_job f ?job" "here ?job s"
    using assms(3-5) by (auto simp: job_fits_def is_job_def here_def current_def split: option.splits)
  define state where "state = (case ingest_state_get (j_project_id ?job) (ps_db s) of
      None \<Rightarrow> None | Some i \<Rightarrow> if i_generation i \<noteq> j_generation ?job then None else Some i)"
  have cur: "Option.bind state i_cursor = c0"
    using assms(4) by (auto simp: c0 feed_cursor_def state_def is_job_def split: option.split)
  have held: "feed_held (ig_ellipsis dep) f (fd_pos f c0) (ps_db s)"
  proof (cases state)
    case None
    then show ?thesis using assms(2) cur by (simp add: answers_serves held_zero)
  next
    case (Some x)
    then have "ingest_state_get (fd_project f) (ps_db s) = Some x \<and> i_generation x = fd_generation f"
      using assms(4) by (auto simp: state_def is_job_def split: option.splits if_splits)
    then have "row_covered (ig_ellipsis dep) f (ps_db s) x"
      using assms(6) by (auto simp: ingest_state_get_def covered_def list_all_iff of_feed_def dest!: fetchone_in)
    then show ?thesis using Some cur by (simp add: row_covered_def)
  qed
  obtain r s1 where f: "forward st dep ?job (nat (ingest_max_pages st)) c0 s = (r, s1)" by fastforce
  note fw = forward_alone[OF assms(1,2) j(1,2,3) held, of "nat (ingest_max_pages st)", unfolded f]
  have eq: "walks st dep job config full s = (case r of Inl e \<Rightarrow> (Inl e, s1)
      | Inr _ \<Rightarrow> if pc_error (ps_out s1) = None then rewalk st dep ?job full s1 else (Inr (), s1))"
    using f unfolding cur[symmetric] state_def by (simp add: walks_def tok Let_def)
  have s1: "here ?job s1" "pc_error (ps_out s1) = None" using fw by (simp_all add: calm_def here_def)
  note rw = rewalk_alone[OF assms(1,2) j(1,2) s1(1), of full]
  have "forth dep f s1 (snd (rewalk st dep ?job full s1))" if "r = Inr u" for u
  proof (rule rewalk_forth[OF serves alone_leaves[OF assms(1)] j(1)])
    show "own_rows ?job (ps_db s1)" using forward_own[of st dep ?job _ _ s u s1] f that assms(9) s1 by auto
    have "forth dep f s s1" using forward_forth[OF serves alone_leaves[OF assms(1)] j(1), of c0 s st "nat (ingest_max_pages st)"] held f by simp
    then show "covered (ig_ellipsis dep) f (ps_db s1)" using assms(6) by (simp add: onward_def)
  qed
  then show ?thesis unfolding eq using fw[unfolded current_token] rw[unfolded current_token] s1(2)
    by (cases r) (auto simp: calm_def onward_def intro: held_grows)
qed

lemma poll_alone:
  assumes "alone dep" and "answers_feed st dep f" and "serves_feed dep f" and "0 < ingest_max_pages st"
    and "covered (ig_ellipsis dep) f (ps_db s)"
    and p: "project_get (fd_project f) (ps_db s) = Some p" "p_ingest_generation p = fd_generation f"
      "p_ingest_source p = Some (fd_source f)" "fd_source f \<noteq> []" "p_ingest_config p = Some config"
      "map_of config ''url'' = Some (JStr (fd_url f))"
    and tok: "poll_token dep config = Inr token" "token \<noteq> []"
  obtains out where "fst (poll_project st dep (fd_project f) full s) = Inr out"
    and "pc_error out = Some ''internal_error'' \<or> (pc_error out = None
      \<and> feed_held (ig_ellipsis dep) f (fd_pos f (feed_cursor f (ps_db s)) + nat (ingest_max_pages st) * page_limit st)
          (ps_db (snd (poll_project st dep (fd_project f) full s))))"
proof -
  let ?s = "s\<lparr>ps_out := PollOutcome\<rparr>"
  define job where "job = \<lparr>j_project_id = fd_project f, j_generation = fd_generation f, j_source = fd_source f,
      j_url = JStr (fd_url f), j_token = []\<rparr>"
  have j: "job_fits f job" "is_job f job" by (simp_all add: job_fits_def is_job_def job_def)
  have h: "here job ?s" using p by (simp add: here_def current_def job_def PollOutcome_def)
  define t where "t = guarded_poll st dep job config full ?s"
  have eq: "poll_project st dep (fd_project f) full s = (Inr (ps_out t), t)"
    using p by (simp add: poll_project_def alone_await[OF assms(1)] t_def job_def Let_def)
  obtain r s1 where w: "walks st dep job config full ?s = (r, s1)" by fastforce
  have wk: "calm job (r, s1)" "r = Inr u \<Longrightarrow> feed_held (ig_ellipsis dep) f
      (fd_pos f (feed_cursor f (ps_db s)) + nat (ingest_max_pages st) * page_limit st) (ps_db s1)" for u
    using walks_alone[OF assms(1,2) j h _ tok assms(4,3) refl, of full] assms(5) w by auto
  have fin: "set (externals (ps_db x)) \<subseteq> set (externals (ps_db (snd (finish_poll dep job x))))" for x
    using finish_forth[OF alone_leaves[OF assms(1)] answers_serves[OF assms(2)], of x job] by (simp add: onward_def)
  have cur: "current job s1" "r \<noteq> Inl Stale" "pc_error (ps_out s1) = None" using wk(1) by (simp_all add: calm_def)
  obtain r2 s2 where r2: "(case r of Inl e \<Rightarrow> (Inl e, s1) | Inr _ \<Rightarrow> finish_poll dep job s1) = (r2, s2)" by fastforce
  have ok2: "r2 \<noteq> Inl Stale" "current job s2" "pc_error (ps_out s2) = None"
    using r2 cur finish_current[OF assms(1) cur(1)] by (cases r; auto)+
  have held2: "feed_held (ig_ellipsis dep) f
      (fd_pos f (feed_cursor f (ps_db s)) + nat (ingest_max_pages st) * page_limit st) (ps_db s2)" if "r2 = Inr u" for u
    using r2 that wk(2) fin[of s1] by (cases r) (auto intro: held_grows)
  obtain r3 s3 where r3: "finish_poll dep job (set_error ''internal_error'' s2) = (r3, s3)" by fastforce
  have "current job (set_error ''internal_error'' s2)" using ok2(2) by (simp add: current_def)
  then have ok3: "r3 \<noteq> Inl Stale" "pc_error (ps_out s3) = Some ''internal_error''"
    using finish_current[OF assms(1), of job "set_error ''internal_error'' s2"] r3 by (auto simp: set_error_def)
  have "guarded_poll st dep job config full ?s = (case r2 of Inr _ \<Rightarrow> s2 | Inl Stale \<Rightarrow> stale_poll s2
      | Inl (Poll_raised e) \<Rightarrow> (case r3 of Inl Stale \<Rightarrow> stale_poll s3 | _ \<Rightarrow> s3))"
    using w r2 r3 by (cases r) (auto simp: guarded_poll_def split: sum.split poll_exn.split)
  then have "t = (if r2 = Inr () then s2 else s3)"
    using ok2(1) ok3(1) by (auto simp: t_def split: sum.splits poll_exn.splits)
  then show thesis
    using ok2(3) ok3(2) held2 by (intro that[of "ps_out t"]) (auto simp: eq)
qed

section \<open>Invariants of polling\<close>

text \<open>The codes a poll may record.\<close>

definition POLL_ERRORS :: "string list" where
  "POLL_ERRORS = [''timeout'', ''network_error'', ''malformed_response'', ''bad_cursor'', ''unauthorized'',
     ''source_not_configured'', ''upstream_error'', ''credential_missing'', ''internal_error'']"

definition poll_error :: "string \<Rightarrow> bool" where
  "poll_error e \<longleftrightarrow> e \<in> set POLL_ERRORS \<or> (\<exists>n. e = ''unexpected_status:'' @ digits n)"

definition fixed_update :: "ingest_field \<Rightarrow> bool" where
  "fixed_update u \<longleftrightarrow> (case u of IF_last_error (Some e) \<Rightarrow> poll_error e | _ \<Rightarrow> True)"

definition fixed_out :: "'w poll \<Rightarrow> bool" where
  "fixed_out s \<longleftrightarrow> (case pc_error (ps_out s) of None \<Rightarrow> True | Some e \<Rightarrow> poll_error e)"

lemma fixed_codes:
  "poll_error ''credential_missing''" "poll_error ''internal_error''" "poll_error ''timeout''"
  "poll_error ''network_error''" "poll_error ''malformed_response''" "poll_error ''bad_cursor''"
  "poll_error ''unauthorized''" "poll_error ''source_not_configured''" "poll_error ''upstream_error''"
  by (simp_all add: poll_error_def POLL_ERRORS_def)

lemma fixed_unexpected: "poll_error (''unexpected_status:'' @ digits n)"
  unfolding poll_error_def by blast

lemma answer_error: "answer_page a = Inr (Inl e) \<Longrightarrow> poll_error e"
  using fixed_codes fixed_unexpected
  by (cases a) (auto simp only: answer_page_def fetch_answer.case sum.inject sum.distinct split: if_splits option.splits)

lemma fetch_error: "fetch st dep job c s = (Inr (Inl e), t) \<Longrightarrow> poll_error e"
  by (auto simp: fetch_def split: json.splits prod.splits dest: answer_error)

lemma fixed_set_error: "poll_error e \<Longrightarrow> fixed_out (set_error e s)"
  by (simp add: fixed_out_def set_error_def)

lemma fixed_same: "pc_error (ps_out t) = pc_error (ps_out s) \<Longrightarrow> fixed_out t = fixed_out s"
  by (simp add: fixed_out_def)

text \<open>
  An invariant of the database that reading the clock and fenced commits of such codes keep.  Every
  part of a poll then keeps it, if the rest of the process does.
\<close>

locale poll_invariant =
  fixes holds_of :: "db \<Rightarrow> bool"
  assumes clock: "holds_of d \<Longrightarrow> holds_of (snd (utcnow d))"
    and commits: "holds_of d \<Longrightarrow> list_all fixed_update ups \<Longrightarrow> holds_of (snd (ingest_commit pid g ms ups cf d))"
begin

definition others_keep :: "'w ingest_deps \<Rightarrow> bool" where
  "others_keep dep \<longleftrightarrow> (\<forall>w d. holds_of d \<longrightarrow> holds_of (fst (ig_others dep w d)))"

definition fine :: "'w poll \<Rightarrow> bool" where
  "fine s \<longleftrightarrow> holds_of (ps_db s) \<and> fixed_out s"

lemma fine_await: "others_keep dep \<Longrightarrow> fine s \<Longrightarrow> fine (await dep s)"
  by (auto simp: fine_def others_keep_def await_def fixed_out_def split: prod.split) (metis fst_conv)

lemma fine_now: "fine s \<Longrightarrow> fine (snd (now_iso s))"
  using clock by (simp add: fine_def now_iso_def fixed_out_def case_prod_beta)

lemma fine_commit: "others_keep dep \<Longrightarrow> fine s \<Longrightarrow> list_all fixed_update ups \<Longrightarrow> fine (snd (commit dep job rows ups cf s))"
proof -
  assume a: "others_keep dep" "fine s" "list_all fixed_update ups"
  have "holds_of (snd (ingest_commit (j_project_id job) (j_generation job) rows ups cf (ps_db (await dep s))))"
    by (rule commits) (use fine_await[OF a(1,2)] a(3) in \<open>simp_all add: fine_def\<close>)
  then show ?thesis using fine_await[OF a(1,2)]
    by (auto simp: commit_def Let_def fine_def fixed_out_def split: prod.splits sum.splits option.splits)
qed

lemma fine_out: "fine s \<Longrightarrow> (\<And>x. pc_error (f x) = pc_error x) \<Longrightarrow> fine (on_out f s)"
  by (simp add: fine_def fixed_out_def)

lemma fine_error: "fine s \<Longrightarrow> poll_error e \<Longrightarrow> fine (set_error e s)"
  by (simp add: fine_def fixed_set_error)

lemma fine_fetch: "others_keep dep \<Longrightarrow> fine s \<Longrightarrow> fine (snd (fetch st dep job c s))"
proof -
  assume a: "others_keep dep" "fine s"
  have "fine (s\<lparr>ps_world := w\<rparr>)" for w using a(2) by (simp add: fine_def fixed_out_def)
  then show ?thesis using a fine_await[OF a(1)] by (simp add: fetch_def split: json.split prod.split)
qed

lemma fine_page: "others_keep dep \<Longrightarrow> fine s \<Longrightarrow> list_all fixed_update ups \<Longrightarrow> fine (snd (commit_page dep job page ups s))"
proof -
  assume a: "others_keep dep" "fine s" "list_all fixed_update ups"
  obtain rows s1 where m: "map_page dep job page s = (rows, s1)" by fastforce
  then have "fine s1" using a(2) by (auto simp: map_page_def Let_def intro!: fine_out)
  from fine_commit[OF a(1) this a(3), of job rows False] show ?thesis
    by (auto simp: commit_page_def m split: prod.splits sum.splits intro!: fine_out)
qed

lemma fine_failed:
  assumes "others_keep dep" and "fine s" and "poll_error e" and "fixed_update (field None)"
  shows "fine (snd (failed_page dep job field e s))"
proof -
  obtain r t where r: "commit dep job [] [field None] False s = (r, t)" by fastforce
  have "fine t" using fine_commit[OF assms(1,2), of "[field None]" job "[]" False] assms(4) r by simp
  then show ?thesis using fine_error[OF assms(2,3)] fine_error[of t e] assms(3) by (cases r) (auto simp: failed_page_def r)
qed

lemma fixed_cursors: "list_all fixed_update (stored_cursor IF_cursor page)" "list_all fixed_update (stored_cursor IF_rewalk_cursor page)"
  "fixed_update (IF_cursor x)" "fixed_update (IF_rewalk_cursor x)"
  "list_all fixed_update [IF_last_full_walk_at w, IF_rewalk_started_at None, IF_rewalk_cursor None]"
  "list_all fixed_update [IF_rewalk_started_at w, IF_rewalk_cursor None]"
  by (simp_all add: stored_cursor_def fixed_update_def split: option.split)

lemma fine_forward: "others_keep dep \<Longrightarrow> fine s \<Longrightarrow> fine (snd (forward st dep job n c s))"
proof (induction n arbitrary: c s)
  case (Suc n)
  obtain x s1 where x: "fetch st dep job c s = (x, s1)" by fastforce
  have s1: "fine s1" using fine_fetch[OF Suc.prems, of st job c] x by simp
  have bad: "fine (snd (failed_page dep job IF_cursor e s1))" if "x = Inr (Inl e)" for e
    by (rule fine_failed[OF Suc.prems(1) s1]) (use fetch_error x that fixed_cursors in auto)
  show ?case
  proof (cases "\<exists>page. x = Inr (Inr page)")
    case True
    then obtain page where p: "x = Inr (Inr page)" by blast
    obtain r t where r: "commit_page dep job page (stored_cursor IF_cursor page) s1 = (r, t)" by fastforce
    then have t: "fine t" using fine_page[OF Suc.prems(1) s1 fixed_cursors(1), of job page] by (metis snd_conv)
    have "forward st dep job (Suc n) c s = (case r of Inl e \<Rightarrow> (Inl e, t)
      | Inr _ \<Rightarrow> if walk_ends st page then (Inr (), t) else forward st dep job n (pg_next_cursor page) t)"
      using r by (simp add: x p)
    then show ?thesis using t Suc.IH[OF Suc.prems(1) t] by (cases r) auto
  qed (use x s1 bad in \<open>auto split: sum.splits\<close>)
qed simp

lemma fine_rewalk_pages: "others_keep dep \<Longrightarrow> fine s \<Longrightarrow> fine (snd (rewalk_pages st dep job w n c s))"
proof (induction n arbitrary: c s)
  case (Suc n)
  obtain x s1 where x: "fetch st dep job c s = (x, s1)" by fastforce
  have s1: "fine s1" using fine_fetch[OF Suc.prems, of st job c] x by simp
  have bad: "fine (snd (failed_page dep job IF_rewalk_cursor e s1))" if "x = Inr (Inl e)" for e
    by (rule fine_failed[OF Suc.prems(1) s1]) (use fetch_error x that fixed_cursors in auto)
  show ?case
  proof (cases "\<exists>page. x = Inr (Inr page)")
    case True
    then obtain page where p: "x = Inr (Inr page)" by blast
    define ups where "ups = stored_cursor IF_rewalk_cursor page
      @ (if walk_ends st page then [IF_last_full_walk_at (Some w), IF_rewalk_started_at None, IF_rewalk_cursor None] else [])"
    obtain r t where r: "commit_page dep job page ups s1 = (r, t)" by fastforce
    have "list_all fixed_update ups" by (auto simp: ups_def fixed_cursors(2) fixed_update_def)
    then have t: "fine t" using fine_page[OF Suc.prems(1) s1, of ups job page] r by simp
    have "rewalk_pages st dep job w (Suc n) c s = (case r of Inl e \<Rightarrow> (Inl e, t)
      | Inr _ \<Rightarrow> if walk_ends st page then (Inr (), t) else rewalk_pages st dep job w n (pg_next_cursor page) t)"
      using r by (simp add: x p Let_def ups_def)
    then show ?thesis using t Suc.IH[OF Suc.prems(1) t] by (cases r) auto
  qed (use x s1 bad in \<open>auto split: sum.splits\<close>)
qed simp

lemma fine_rewalk: "others_keep dep \<Longrightarrow> fine s \<Longrightarrow> fine (snd (rewalk st dep job full s))"
proof -
  assume a: "others_keep dep" "fine s"
  let ?i = "ingest_state_get (j_project_id job) (ps_db s)"
  note pages = fine_rewalk_pages[OF a(1)]
  show ?thesis
  proof (cases "Option.bind ?i i_rewalk_started_at")
    case None
    obtain b s1 where b: "(if full then (True, s) else rewalk_due st ?i s) = (b, s1)" by fastforce
    then have s1: "fine s1"
      using a(2) fine_now[OF a(2)] by (auto simp: rewalk_due_def split: if_splits option.splits time_text.splits prod.splits)
    obtain now s2 where n: "now_iso s1 = (now, s2)" by fastforce
    have s2: "fine s2" using fine_now[OF s1] n by simp
    obtain r s3 where r: "commit dep job [] [IF_rewalk_started_at (Some (Iso now)), IF_rewalk_cursor None] False s2 = (r, s3)" by fastforce
    have s3: "fine s3" using fine_commit[OF a(1) s2 fixed_cursors(6)] r by (metis snd_conv)
    show ?thesis using None b n r s1 s3 pages[OF s3]
      by (cases b; cases r) (simp_all add: rewalk_def Let_def)
  qed (simp add: rewalk_def Let_def pages a(2))
qed

lemma fine_finish: "others_keep dep \<Longrightarrow> fine s \<Longrightarrow> fine (snd (finish_poll dep job s))"
proof -
  assume a: "others_keep dep" "fine s"
  obtain now s1 where n: "now_iso s = (now, s1)" by fastforce
  have s1: "fine s1" using fine_now[OF a(2)] n by simp
  obtain r s2 where r: "(case pc_error (ps_out s1) of
           Some e \<Rightarrow> commit dep job [] [IF_last_poll_at (Some now), IF_last_error (Some e)] True s1
         | None \<Rightarrow> commit dep job [] [IF_last_poll_at (Some now), IF_last_ok_at (Some now), IF_last_error None, IF_failures 0] False s1) = (r, s2)"
    by fastforce
  have s2: "fine s2"
  proof (cases "pc_error (ps_out s1)")
    case None
    have "list_all fixed_update [IF_last_poll_at (Some now), IF_last_ok_at (Some now), IF_last_error None, IF_failures 0]"
      by (simp add: fixed_update_def)
    from fine_commit[OF a(1) s1 this] show ?thesis using r None by (metis option.case(1) snd_conv)
  next
    case (Some e)
    then have "list_all fixed_update [IF_last_poll_at (Some now), IF_last_error (Some e)]"
      using s1 by (simp add: fine_def fixed_out_def fixed_update_def)
    from fine_commit[OF a(1) s1 this] show ?thesis using r Some by (metis option.case(2) snd_conv)
  qed
  have "finish_poll dep job s = (case r of Inl e \<Rightarrow> (Inl e, s2)
      | Inr _ \<Rightarrow> (Inr (), on_out (\<lambda>o1. o1\<lparr>pc_consecutive_failures :=
          (case ingest_state_get (j_project_id job) (ps_db s2) of None \<Rightarrow> 0 | Some i \<Rightarrow> i_consecutive_failures i)\<rparr>) s2))"
    by (simp add: finish_poll_def n r)
  then show ?thesis using s2 by (cases r) (auto intro!: fine_out)
qed

lemma fine_walks: "others_keep dep \<Longrightarrow> fine s \<Longrightarrow> fine (snd (walks st dep job config full s))"
proof -
  assume a: "others_keep dep" "fine s"
  have "fine t" if "forward st dep j n c s = (r, t)" for j n c r t
    using fine_forward[OF a, of st j n c] that by simp
  then show ?thesis using a fine_rewalk[OF a(1)] fine_error[OF a(2) fixed_codes(1)]
    by (auto simp: walks_def Let_def split: sum.split list.split prod.split)
qed

text \<open>After a poll the invariant holds, and its outcome is one of the codes or the fence's.\<close>

lemma guarded_keeps:
  assumes "others_keep dep" and "fine s"
  shows "holds_of (ps_db (guarded_poll st dep job config full s))"
    and "case pc_error (ps_out (guarded_poll st dep job config full s)) of None \<Rightarrow> True
      | Some e \<Rightarrow> poll_error e \<or> e = ''config_changed''"
proof -
  obtain r s1 where w: "walks st dep job config full s = (r, s1)" by fastforce
  have s1: "fine s1" using fine_walks[OF assms, of st job config full] w by simp
  obtain r2 s2 where r2: "(case r of Inl e \<Rightarrow> (Inl e, s1) | Inr _ \<Rightarrow> finish_poll dep job s1) = (r2, s2)" by fastforce
  have s2: "fine s2" using r2 s1 fine_finish[OF assms(1) s1, of job] by (cases r) auto
  obtain r3 s3 where r3: "finish_poll dep job (set_error ''internal_error'' s2) = (r3, s3)" by fastforce
  have s3: "fine s3" using fine_finish[OF assms(1) fine_error[OF s2 fixed_codes(2)], of job] r3 by simp
  have eq: "guarded_poll st dep job config full s = (case r2 of Inr _ \<Rightarrow> s2 | Inl Stale \<Rightarrow> stale_poll s2
      | Inl (Poll_raised e) \<Rightarrow> (case r3 of Inl Stale \<Rightarrow> stale_poll s3 | _ \<Rightarrow> s3))"
    using w r2 r3 by (cases r) (auto simp: guarded_poll_def split: sum.split poll_exn.split)
  show "holds_of (ps_db (guarded_poll st dep job config full s))"
    unfolding eq using s2 s3 by (auto simp: fine_def stale_poll_def split: sum.split poll_exn.split)
  show "case pc_error (ps_out (guarded_poll st dep job config full s)) of None \<Rightarrow> True
      | Some e \<Rightarrow> poll_error e \<or> e = ''config_changed''"
    unfolding eq using s2 s3
    by (auto simp: fine_def fixed_out_def stale_poll_def split: sum.split poll_exn.split option.split)
qed

lemma project_keeps:
  assumes "others_keep dep" and "holds_of (ps_db s)"
  shows "holds_of (ps_db (snd (poll_project st dep pid full s)))"
    and "case fst (poll_project st dep pid full s) of
      Inl e \<Rightarrow> e = Exn ''KeyError'' ''url''
    | Inr out \<Rightarrow> (case pc_error out of None \<Rightarrow> True
        | Some e \<Rightarrow> poll_error e \<or> e = ''config_changed'' \<or> e = ''not_configured'')"
proof -
  have "fine (await dep (s\<lparr>ps_out := PollOutcome\<rparr>))"
    by (rule fine_await[OF assms(1)]) (use assms(2) in \<open>simp add: fine_def fixed_out_def PollOutcome_def\<close>)
  note g = this guarded_keeps[OF assms(1) this]
  have g3: "poll_error e \<or> e = ''config_changed''"
    if "pc_error (ps_out (guarded_poll st dep job config full (await dep (s\<lparr>ps_out := PollOutcome\<rparr>)))) = Some e" for job config e
    using g(3)[of st job config full] that by simp
  show "holds_of (ps_db (snd (poll_project st dep pid full s)))"
    using g by (auto simp: poll_project_def Let_def fine_def split: option.split)
  show "case fst (poll_project st dep pid full s) of
      Inl e \<Rightarrow> e = Exn ''KeyError'' ''url''
    | Inr out \<Rightarrow> (case pc_error out of None \<Rightarrow> True
        | Some e \<Rightarrow> poll_error e \<or> e = ''config_changed'' \<or> e = ''not_configured'')"
    using g3 by (auto simp: poll_project_def Let_def split: option.splits)
qed

lemma tick_keeps:
  assumes "others_keep dep" and "holds_of (ps_db (fst ss))"
  shows "holds_of (ps_db (fst (ingest_tick st dep ss)))"
proof -
  have "holds_of (ps_db (fst (fold (poll_tick st dep) pids ss)))" for pids
    using assms(2)
  proof (induction pids arbitrary: ss)
    case (Cons pid pids)
    have "holds_of (ps_db (fst (poll_tick st dep pid ss)))"
      using project_keeps(1)[OF assms(1) Cons.prems, of st pid False] Cons.prems by (auto simp: poll_tick_def split: prod.split)
    from Cons.IH[OF this] show ?case by simp
  qed simp
  then show ?thesis by (simp add: ingest_tick_def)
qed

end

text \<open>The two invariants: the keys of the reports, and the codes in the checkpoint rows.\<close>

interpretation import_keys: poll_invariant "\<lambda>d. external_ok d \<and> ids_ok d"
proof unfold_locales
  fix d ups pid g ms cf
  assume ok: "external_ok d \<and> ids_ok d"
  show "external_ok (snd (utcnow d)) \<and> ids_ok (snd (utcnow d))" using ok by (simp add: external_ok_def ids_ok_def)
  let ?c = "ingest_commit pid g ms ups cf d"
  consider (some) n where "fst ?c = Inr (Some n)" | (none) "reports (snd ?c) = reports d"
    by (cases rule: commit_cases[of pid g ms ups cf d]) (auto simp: same_tables_def)
  then show "external_ok (snd ?c) \<and> ids_ok (snd ?c)"
  proof cases
    case some
    from ingest_commit_some[OF some] obtain d3 d4 where d: "reports d3 = reports d" "import_reports pid ms d3 = (Inr n, d4)"
      "reports (snd ?c) = reports d4" by metis
    have "external_ok d3 \<and> ids_ok d3" using ok d(1) by (simp add: external_ok_def ids_ok_def)
    from import_reports_rows[OF d(2) this] show ?thesis using d(3) by (simp add: external_ok_def ids_ok_def)
  qed (use ok in \<open>simp add: external_ok_def ids_ok_def\<close>)
qed

definition recorded_errors :: "db \<Rightarrow> bool" where
  "recorded_errors d \<longleftrightarrow> list_all (\<lambda>i. case i_last_error i of None \<Rightarrow> True | Some e \<Rightarrow> poll_error e) (ingest_state d)"

lemma fixed_fold:
  "list_all fixed_update ups \<Longrightarrow> (case i_last_error i of None \<Rightarrow> True | Some e \<Rightarrow> poll_error e) \<Longrightarrow>
   (case i_last_error (fold set_ingest_field ups i) of None \<Rightarrow> True | Some e \<Rightarrow> poll_error e)"
proof (induction ups arbitrary: i)
  case (Cons u ups)
  have "case i_last_error (set_ingest_field u i) of None \<Rightarrow> True | Some e \<Rightarrow> poll_error e"
    using Cons.prems by (cases u) (auto simp: fixed_update_def split: option.splits)
  from Cons.IH[OF _ this] Cons.prems(1) show ?case by simp
qed simp

interpretation checkpoint_errors: poll_invariant recorded_errors
proof unfold_locales
  fix d ups pid g ms cf
  assume ok: "recorded_errors d"
  show "recorded_errors (snd (utcnow d))" using ok by (simp add: recorded_errors_def)
  assume ups: "list_all fixed_update ups"
  show "recorded_errors (snd (ingest_commit pid g ms ups cf d))"
  proof (cases rule: commit_cases[of pid g ms ups cf d])
    case (stored n now)
    let ?fine = "\<lambda>i. case i_last_error i of None \<Rightarrow> True | Some e \<Rightarrow> poll_error e"
    have "?fine (commit_row ups n cf i)" if "?fine i" for i
      using fixed_fold[OF ups that] by (simp add: commit_row_def)
    moreover have "?fine (new_ingest_row pid g now)" by (simp add: new_ingest_row_def)
    ultimately show ?thesis
      using stored(5) ok by (fastforce simp: recorded_errors_def list_all_iff)
  qed (use ok in \<open>simp_all add: recorded_errors_def same_tables_def\<close>)
qed

section \<open>A concrete source\<close>

definition demo_items :: "json list" where
  "demo_items = [JObj [(''id'', JStr ''r1'')],
     JObj [(''id'', JStr ''r2'')], JObj [(''description'', JStr ''no id'')]]"

definition demo_feed :: feed where
  "demo_feed = \<lparr>fd_project = ''x'', fd_generation = 0, fd_source = ''supabase'', fd_url = ''https://h/p'',
     fd_items = demo_items, fd_pos = (\<lambda>c. case c of None \<Rightarrow> 0 | Some s \<Rightarrow> length s)\<rparr>"

text \<open>A source that counts with the length of its cursor.\<close>

definition demo_page :: "nat \<Rightarrow> nat \<Rightarrow> json" where
  "demo_page limit n = (let page = take limit (drop n demo_items) in
     JObj [(''reports'', JArr page),
           (''next_cursor'', if page = [] then JNull else JStr (replicate (n + length page) (CHR ''c'')))])"

definition demo_ingest :: "nat ingest_deps" where
  "demo_ingest = \<lparr>ig_get = (\<lambda>url token limit c w.
       (F_response 200 (Some (demo_page limit (case c of None \<Rightarrow> 0 | Some s \<Rightarrow> length s))), Suc w)),
     ig_others = (\<lambda>w d. (d, w)), ig_environ = (\<lambda>n. Some ''tok''), ig_env_file = (\<lambda>n. None), ig_ellipsis = CHR ''~''\<rparr>"

definition demo_config :: "(string \<times> json) list" where
  "demo_config = [(''url'', JStr ''https://h/p''), (''credential_env'', JStr ''TOK'')]"

definition demo_project :: project where
  "demo_project = (blank_project ''x'' 1)\<lparr>p_ingest_source := Some ''supabase'', p_ingest_config := Some demo_config\<rparr>"

definition demo_poll :: "nat poll" where
  "demo_poll = \<lparr>ps_db = init_db\<lparr>projects := [demo_project]\<rparr>, ps_world = 0, ps_out = PollOutcome\<rparr>"

lemma demo_polled:
  "case poll_project default_settings demo_ingest ''x'' False demo_poll of
     (Inr out, s) \<Rightarrow> pc_error out = None \<and> pc_imported out = 2 \<and> pc_skipped out = 1
       \<and> has_external ''x'' ''r2'' (ps_db s)
       \<and> (case ingest_state_get ''x'' (ps_db s) of Some i \<Rightarrow> i_cursor i = Some ''ccc'' | None \<Rightarrow> False)
   | _ \<Rightarrow> False"
  by code_simp

lemma demo_parse: "parse_page (demo_page limit n) = Some \<lparr>pg_reports = take limit (drop n demo_items),
    pg_next_cursor = (if take limit (drop n demo_items) = [] then None
      else Some (replicate (n + length (take limit (drop n demo_items))) (CHR ''c'')))\<rparr>"
  by (simp add: demo_page_def Let_def parse_page_def opt_str_def del: take_eq_Nil length_take)

lemma demo_source: "serves_feed demo_ingest demo_feed" "leaves_feed demo_ingest demo_feed" "answers_feed st demo_ingest demo_feed"
  "alone demo_ingest"
proof -
  show "serves_feed demo_ingest demo_feed" "answers_feed st demo_ingest demo_feed"
    unfolding serves_feed_def answers_feed_def
    by (auto simp: demo_ingest_def demo_feed_def answer_page_def demo_parse split: option.split)
  show "alone demo_ingest" by (simp add: alone_def demo_ingest_def)
  then show "leaves_feed demo_ingest demo_feed" by (rule alone_leaves)
qed

lemma demo_start: "covered ell demo_feed (ps_db demo_poll)" "configured_as demo_feed (ps_db demo_poll)"
  "external_ok (ps_db demo_poll)" "ids_ok (ps_db demo_poll)" "recorded_errors (ps_db demo_poll)"
  by (simp_all add: covered_def configured_as_def demo_poll_def init_db_def project_get_def demo_feed_def demo_project_def
      blank_project_def demo_config_def external_ok_def ids_ok_def recorded_errors_def)

section \<open>Properties\<close>







end
