(* ===== verification/Repo_Map.thy ===== *)
theory Repo_Map
  imports Repo Fix_Text Llm "HOL-Library.AList" "HOL-Library.Product_Lexorder" "HOL-Library.Multiset"
begin

text \<open>
  \<open>pipeline/repo_map.py\<close>: the symbols of a syntax tree, the import graph, the ranked and budgeted map
  of a repository, and its file cache.  Reading files and the tree-sitter parser are arguments: a
  source becomes a tree of nodes with a type, a decoded text, a row and children, or fails.  Cached
  JSON is the stored map itself; a file that does not parse is \<open>None\<close>.
\<close>

section \<open>Symbols\<close>

datatype node = Node (nd_type: string) (nd_text: string) (nd_row: nat) (nd_children: "node list")

record class_entry =
  ce_name :: string
  ce_line :: nat
  ce_methods :: "string list"

record function_entry =
  fe_name :: string
  fe_line :: nat
  fe_params :: nat
  fe_class :: "string option"

record file_symbols =
  fs_classes :: "class_entry list"
  fs_functions :: "function_entry list"
  fs_imports :: "string list"

definition no_symbols :: file_symbols where
  "no_symbols = \<lparr>fs_classes = [], fs_functions = [], fs_imports = []\<rparr>"

definition FUNCTION_TYPES :: "string list" where
  "FUNCTION_TYPES = [''function_definition'', ''function_declaration'', ''function_item'',
     ''method_declaration'', ''method_definition'']"

definition CLASS_TYPES :: "string list" where
  "CLASS_TYPES = [''class_definition'', ''class_declaration'', ''impl_item'']"

definition IMPORT_TYPES :: "string list" where
  "IMPORT_TYPES = [''import_statement'', ''import_from_statement'', ''import_declaration'']"

definition get_name :: "node list \<Rightarrow> string" where
  "get_name children =
     (case find (\<lambda>c. nd_type c \<in> {''identifier'', ''name'', ''type_identifier''}) children of
        None \<Rightarrow> [] | Some c \<Rightarrow> nd_text c)"

definition count_params :: "node list \<Rightarrow> nat" where
  "count_params children =
     (case find (\<lambda>c. nd_type c \<in> {''parameters'', ''formal_parameters'', ''parameter_list''}) children of
        None \<Rightarrow> 0
      | Some c \<Rightarrow> rowcount (\<lambda>p. nd_type p \<in> {''identifier'', ''parameter'', ''typed_parameter'', ''default_parameter'',
            ''typed_default_parameter'', ''formal_parameter''} \<and> nd_text p \<notin> {''self'', ''cls'', ''this''})
          (nd_children c))"

text \<open>\<open>_walk_node\<close> over the children of a node; an absent name is the empty text.\<close>

fun walk_nodes :: "node list \<Rightarrow> string option \<Rightarrow> file_symbols \<Rightarrow> file_symbols" where
  "walk_nodes [] cls s = s"
| "walk_nodes (Node t x row children # rest) cls s =
     walk_nodes rest cls
       (if t \<in> set FUNCTION_TYPES then
          (if get_name children = [] then s
           else s\<lparr>fs_functions := fs_functions s @
             [\<lparr>fe_name = get_name children, fe_line = row + 1, fe_params = count_params children, fe_class = cls\<rparr>]\<rparr>)
        else if t \<in> set CLASS_TYPES then
          (if get_name children = [] then s
           else (let sub = walk_nodes children (Some (get_name children)) no_symbols in
                 s\<lparr>fs_classes := fs_classes s @ [\<lparr>ce_name = get_name children, ce_line = row + 1,
                     ce_methods = map fe_name (fs_functions sub)\<rparr>],
                   fs_functions := fs_functions s @ fs_functions sub\<rparr>))
        else if t \<in> set IMPORT_TYPES then (if x = [] then s else s\<lparr>fs_imports := fs_imports s @ [x]\<rparr>)
        else walk_nodes children cls s)"

section \<open>Ranking\<close>

definition rsplit_dot :: "string \<Rightarrow> string" where
  "rsplit_dot s = (if CHR ''.'' \<in> set s then fst (rpartition_at (CHR ''.'') s) else s)"

definition dotted :: "string \<Rightarrow> string" where
  "dotted path = map (\<lambda>c. if c = CHR ''/'' \<or> c = CHR 0x5C then CHR ''.'' else c) path"

definition module_stem :: "string \<Rightarrow> string" where
  "module_stem path =
     (let stem = dotted path in
      if ends_with ''.py'' stem then take (length stem - 3) stem
      else if ends_with ''.js'' stem \<or> ends_with ''.ts'' stem \<or> ends_with ''.tsx'' stem then rsplit_dot stem
      else stem)"

definition add_modules :: "string \<Rightarrow> (string \<times> string) list \<Rightarrow> (string \<times> string) list" where
  "add_modules path m =
     (let m1 = AList.update (module_stem path) path m; base = rsplit_dot (last (split_on (CHR ''/'') path))
      in if map_of m1 base = None then AList.update base path m1 else m1)"

definition module_to_file :: "string list \<Rightarrow> (string \<times> string) list" where
  "module_to_file paths = fold add_modules paths []"

text \<open>How often other files import a file: once per import and module name that occurs in it.\<close>

definition in_degree :: "(string \<times> file_symbols) list \<Rightarrow> string \<Rightarrow> nat" where
  "in_degree symbols target =
     (let modules = module_to_file (map fst symbols) in
      sum_list (map (\<lambda>(path, s). sum_list (map (\<lambda>imp.
          rowcount (\<lambda>(m, t). t = target \<and> t \<noteq> path \<and> contains m imp) modules) (fs_imports s))) symbols))"

record ranked_file =
  rk_path :: string
  rk_in_degree :: nat
  rk_symbol_count :: nat
  rk_classes :: "class_entry list"
  rk_functions :: "function_entry list"
  rk_rank :: nat

definition file_entry :: "(string \<times> file_symbols) list \<Rightarrow> string \<times> file_symbols \<Rightarrow> ranked_file" where
  "file_entry symbols = (\<lambda>(path, s).
     \<lparr>rk_path = path, rk_in_degree = in_degree symbols path,
      rk_symbol_count = length (fs_classes s) + length (fs_functions s),
      rk_classes = fs_classes s, rk_functions = fs_functions s, rk_rank = 0\<rparr>)"

text \<open>\<open>sort(reverse=True)\<close> keeps the order of equal keys.\<close>

definition rank_order :: "ranked_file list \<Rightarrow> ranked_file list" where
  "rank_order fs = sort_key (\<lambda>f. (- int (rk_in_degree f), - int (rk_symbol_count f))) fs"

text \<open>\<open>xs[:n]\<close>.\<close>

definition slice_to :: "int \<Rightarrow> 'a list \<Rightarrow> 'a list" where
  "slice_to n xs = (if 0 \<le> n then take (nat n) xs else take (length xs - nat (- n)) xs)"

definition assign_ranks :: "ranked_file list \<Rightarrow> ranked_file list" where
  "assign_ranks fs = map (\<lambda>(i, f). f\<lparr>rk_rank := i\<rparr>) (zip [1..<Suc (length fs)] fs)"

definition rank_files :: "int \<Rightarrow> (string \<times> file_symbols) list \<Rightarrow> ranked_file list" where
  "rank_files max_files symbols =
     assign_ranks (slice_to max_files (rank_order (map (file_entry symbols) symbols)))"

section \<open>The compact text\<close>

text \<open>Lines so far (newest first) and the characters they are estimated at.\<close>

type_synonym lines_so_far = "string list \<times> int"

definition line_fits :: "int \<Rightarrow> string \<Rightarrow> lines_so_far \<Rightarrow> bool" where
  "line_fits budget line s \<longleftrightarrow> snd s + int (length line) + 1 \<le> budget"

definition add_line :: "string \<Rightarrow> lines_so_far \<Rightarrow> lines_so_far" where
  "add_line line s = (line # fst s, snd s + int (length line) + 1)"

text \<open>A loop over lines that breaks at the first one that does not fit.\<close>

fun add_lines :: "int \<Rightarrow> string list \<Rightarrow> lines_so_far \<Rightarrow> lines_so_far" where
  "add_lines budget [] s = s"
| "add_lines budget (l # ls) s = (if line_fits budget l s then add_lines budget ls (add_line l s) else s)"

fun add_classes :: "int \<Rightarrow> class_entry list \<Rightarrow> lines_so_far \<Rightarrow> lines_so_far" where
  "add_classes budget [] s = s"
| "add_classes budget (c # cs) s =
     (let line = ''  class '' @ ce_name c in
      if line_fits budget line s
      then add_classes budget cs
             (add_lines budget (map (\<lambda>m. ''    def '' @ m @ ''()'') (ce_methods c)) (add_line line s))
      else s)"

definition function_lines :: "function_entry list \<Rightarrow> string list" where
  "function_lines fs = map (\<lambda>f. ''  def '' @ fe_name f @ ''()'') (filter (\<lambda>f. \<not> str_set (fe_class f)) fs)"

fun add_files :: "int \<Rightarrow> ranked_file list \<Rightarrow> lines_so_far \<Rightarrow> lines_so_far" where
  "add_files budget [] s = s"
| "add_files budget (f # fs) s =
     (let header = rk_path f @ '' (rank: '' @ digits (rk_rank f) @ '')'' in
      if line_fits budget header s
      then add_files budget fs
             (add_lines budget (function_lines (rk_functions f)) (add_classes budget (rk_classes f) (add_line header s)))
      else s)"

definition format_compact :: "ranked_file list \<Rightarrow> int \<Rightarrow> string" where
  "format_compact fs max_tokens = join_with [CHR 0x0A] (rev (fst (add_files (max_tokens * 4) fs ([], 0))))"

section \<open>Building\<close>

record repo_map =
  rm_project_id :: string
  rm_branch :: string
  rm_sha :: string
  rm_files :: "ranked_file list"
  rm_text :: string
  rm_built_at :: rat

record 'w map_deps =
  md_git :: "'w repo_git"
  md_read :: "string \<Rightarrow> 'w \<Rightarrow> string option"
  md_grammar :: "string \<Rightarrow> bool"
  md_parse :: "string \<Rightarrow> string \<Rightarrow> node option"
  md_time :: "'w \<Rightarrow> rat \<times> 'w"

definition LANGUAGE_MAP :: "(string \<times> string) list" where
  "LANGUAGE_MAP = [(''.py'', ''python''), (''.js'', ''javascript''), (''.ts'', ''typescript''), (''.tsx'', ''tsx''),
     (''.go'', ''go''), (''.rs'', ''rust''), (''.java'', ''java'')]"

definition SUPPORTED_EXTENSIONS :: "string list" where
  "SUPPORTED_EXTENSIONS = map fst LANGUAGE_MAP"

text \<open>\<open>md_grammar\<close> says whether the tree-sitter package of a language loads.\<close>

definition get_language :: "'w map_deps \<Rightarrow> string \<Rightarrow> string option" where
  "get_language dep ext =
     (case map_of LANGUAGE_MAP ext of
        None \<Rightarrow> None
      | Some name \<Rightarrow> if md_grammar dep name then Some name else None)"

text \<open>
  The symbols of one file: none when it cannot be read, its language is not available or it does not
  parse.
\<close>

definition symbols_of :: "'w map_deps \<Rightarrow> string \<Rightarrow> string \<Rightarrow> 'w \<Rightarrow> file_symbols" where
  "symbols_of dep repo_path fpath w =
     (case md_read dep (path_join repo_path fpath) w of
        None \<Rightarrow> no_symbols
      | Some source \<Rightarrow>
          (case get_language dep (splitext fpath) of
             None \<Rightarrow> no_symbols
           | Some language \<Rightarrow>
               (case md_parse dep language source of
                  None \<Rightarrow> no_symbols
                | Some tree \<Rightarrow> walk_nodes (nd_children tree) None no_symbols)))"

definition all_symbols :: "'w map_deps \<Rightarrow> string \<Rightarrow> string list \<Rightarrow> 'w \<Rightarrow> (string \<times> file_symbols) list" where
  "all_symbols dep repo_path paths w = fold (\<lambda>p. AList.update p (symbols_of dep repo_path p w)) paths []"

definition build_repo_map ::
  "'w map_deps \<Rightarrow> int \<Rightarrow> int \<Rightarrow> string \<Rightarrow> string \<Rightarrow> string \<Rightarrow> 'w \<Rightarrow> (string + repo_map) \<times> 'w" where
  "build_repo_map dep max_files max_tokens pid branch repo_path w =
     (case get_head_sha (md_git dep) repo_path w of
        (Inl e, w1) \<Rightarrow> (Inl e, w1)
      | (Inr sha, w1) \<Rightarrow>
          (case list_files (md_git dep) repo_path SUPPORTED_EXTENSIONS w1 of
             (Inl e, w2) \<Rightarrow> (Inl e, w2)
           | (Inr paths, w2) \<Rightarrow>
               (let ranked = rank_files max_files (all_symbols dep repo_path paths w2);
                    (now, w3) = md_time dep w2
                in (Inr \<lparr>rm_project_id = pid, rm_branch = branch, rm_sha = sha, rm_files = ranked,
                      rm_text = format_compact ranked max_tokens, rm_built_at = now\<rparr>, w3))))"

section \<open>The cache\<close>

text \<open>\<open>pathlib\<close> joins drop empty and \<open>.\<close> components, and an absolute right operand replaces the left.\<close>

definition path_parts :: "string \<Rightarrow> string list" where
  "path_parts p = filter (\<lambda>c. c \<noteq> [] \<and> c \<noteq> ''.'') (split_on (CHR ''/'') p)"

definition path_div :: "string list \<Rightarrow> string \<Rightarrow> string list" where
  "path_div a b = (if isabs b then path_parts b else a @ path_parts b)"

definition cache_path :: "string \<Rightarrow> string \<Rightarrow> string \<Rightarrow> string \<Rightarrow> string list" where
  "cache_path dir pid branch sha =
     path_div (path_div (path_div (path_parts dir) pid) branch) (sha @ ''.json'')"

text \<open>Files by path; a file that holds no map of this shape is \<open>Some None\<close>.\<close>

type_synonym cache_files = "string list \<Rightarrow> repo_map option option"

definition cache_get ::
  "'w map_deps \<Rightarrow> string \<Rightarrow> rat \<Rightarrow> string \<Rightarrow> string \<Rightarrow> string \<Rightarrow> cache_files \<Rightarrow> 'w \<Rightarrow> repo_map option \<times> 'w" where
  "cache_get dep dir ttl_hours pid branch sha files w =
     (case files (cache_path dir pid branch sha) of
        Some (Some m) \<Rightarrow>
          (case md_time dep w of (now, w1) \<Rightarrow>
             (if now - rm_built_at m > ttl_hours * 3600 then None else Some m, w1))
      | _ \<Rightarrow> (None, w))"

definition cache_put :: "string \<Rightarrow> repo_map \<Rightarrow> cache_files \<Rightarrow> cache_files" where
  "cache_put dir m files = files(cache_path dir (rm_project_id m) (rm_branch m) (rm_sha m) := Some (Some m))"

definition get_or_build ::
  "'w map_deps \<Rightarrow> string \<Rightarrow> rat \<Rightarrow> int \<Rightarrow> int \<Rightarrow> string \<Rightarrow> string \<Rightarrow> string \<Rightarrow> cache_files \<Rightarrow> 'w
   \<Rightarrow> (string + repo_map) \<times> cache_files \<times> 'w" where
  "get_or_build dep dir ttl_hours max_files max_tokens pid branch repo_path files w =
     (case get_head_sha (md_git dep) repo_path w of
        (Inl e, w1) \<Rightarrow> (Inl e, files, w1)
      | (Inr sha, w1) \<Rightarrow>
          (case cache_get dep dir ttl_hours pid branch sha files w1 of
             (Some m, w2) \<Rightarrow> (Inr m, files, w2)
           | (None, w2) \<Rightarrow>
               (case build_repo_map dep max_files max_tokens pid branch repo_path w2 of
                  (Inl e, w3) \<Rightarrow> (Inl e, files, w3)
                | (Inr m, w3) \<Rightarrow> (Inr m, cache_put dir m files, w3))))"

section \<open>Lemmas\<close>

definition line_cost :: "string list \<Rightarrow> int" where
  "line_cost ls = sum_list (map (\<lambda>l. int (length l) + 1) ls)"

definition in_budget :: "int \<Rightarrow> lines_so_far \<Rightarrow> bool" where
  "in_budget budget s \<longleftrightarrow> snd s = line_cost (fst s) \<and> (if fst s = [] then True else snd s \<le> budget)"

lemma in_budget_line: "in_budget budget s \<Longrightarrow> line_fits budget l s \<Longrightarrow> in_budget budget (add_line l s)"
  by (simp add: in_budget_def line_fits_def add_line_def line_cost_def)

lemma in_budget_lines: "in_budget budget s \<Longrightarrow> in_budget budget (add_lines budget ls s)"
  by (induction budget ls s rule: add_lines.induct) (simp_all add: in_budget_line)

lemma in_budget_classes: "in_budget budget s \<Longrightarrow> in_budget budget (add_classes budget cs s)"
  by (induction budget cs s rule: add_classes.induct) (simp_all add: Let_def in_budget_line in_budget_lines)

lemma in_budget_files: "in_budget budget s \<Longrightarrow> in_budget budget (add_files budget fs s)"
  by (induction budget fs s rule: add_files.induct) (simp_all add: Let_def in_budget_line in_budget_lines in_budget_classes)

lemma length_join: "ls \<noteq> [] \<Longrightarrow> int (length (join_with [c] ls)) = line_cost ls - 1"
proof (induction ls)
  case (Cons l ls)
  then show ?case by (cases "ls = []") (simp_all add: join_with_Cons line_cost_def)
qed simp

lemma line_cost_rev: "line_cost (rev ls) = line_cost ls"
  by (simp add: line_cost_def rev_map[symmetric])

definition higher :: "ranked_file \<Rightarrow> ranked_file \<Rightarrow> bool" where
  "higher f g \<longleftrightarrow> rk_in_degree f > rk_in_degree g \<or> (rk_in_degree f = rk_in_degree g \<and> rk_symbol_count f \<ge> rk_symbol_count g)"

definition unranked :: "ranked_file \<Rightarrow> ranked_file" where
  "unranked f = f\<lparr>rk_rank := 0\<rparr>"

lemma rank_order_sorted: "sorted_wrt higher (rank_order fs)"
proof -
  let ?k = "\<lambda>f. (- int (rk_in_degree f), - int (rk_symbol_count f))"
  have "sorted_wrt (\<lambda>f g. ?k f \<le> ?k g) (rank_order fs)"
    using sorted_sort_key[of ?k fs] by (simp add: rank_order_def sorted_map)
  then show ?thesis by (rule sorted_wrt_mono_rel[rotated]) (auto simp: higher_def less_eq_prod_def)
qed

lemma slice_split: "\<exists>rest. xs = slice_to n xs @ rest"
  by (metis append_take_drop_id slice_to_def)

lemma assign_map: "map unranked (assign_ranks fs) = map unranked fs" "map rk_rank (assign_ranks fs) = [1..<Suc (length fs)]"
proof -
  have "map unranked (assign_ranks fs) = map unranked (map snd (zip [1..<Suc (length fs)] fs))"
    by (simp add: assign_ranks_def unranked_def case_prod_beta comp_def)
  then show "map unranked (assign_ranks fs) = map unranked fs" by (simp add: map_snd_zip del: upt_Suc)
  have "map rk_rank (assign_ranks fs) = map fst (zip [1..<Suc (length fs)] fs)"
    by (simp add: assign_ranks_def case_prod_beta comp_def del: upt_Suc)
  then show "map rk_rank (assign_ranks fs) = [1..<Suc (length fs)]" by (simp add: map_fst_zip del: upt_Suc)
qed

lemma higher_unranked: "higher (unranked f) (unranked g) = higher f g"
  by (simp add: higher_def unranked_def)

lemma sorted_unranked: "sorted_wrt higher (map unranked fs) = sorted_wrt higher fs"
  by (simp add: sorted_wrt_map higher_unranked)

lemma entries_unranked: "map unranked (rank_order (map (file_entry symbols) symbols)) = rank_order (map (file_entry symbols) symbols)"
  by (rule map_idI) (auto simp: rank_order_def file_entry_def unranked_def)

section \<open>Properties\<close>

text \<open>
  The text of a repository map fits its budget of four characters per token, counted with the
  line ends between its lines, whatever the files hold.
\<close>

theorem map_text_fits_budget:
  "int (length (format_compact fs max_tokens)) \<le> max 0 (max_tokens * 4)"
proof -
  define s where "s = add_files (max_tokens * 4) fs ([], 0)"
  have "in_budget (max_tokens * 4) s"
    unfolding s_def by (rule in_budget_files) (simp add: in_budget_def line_cost_def)
  then show ?thesis
    using length_join[of "rev (fst s)" "CHR 0x0A"]
    by (cases "fst s = []") (simp_all add: format_compact_def s_def[symmetric] in_budget_def line_cost_rev)
qed

text \<open>
  The map lists files of the repository by how often they are imported, then by their number of
  symbols, numbered from 1, each at most once; and no file left out ranks above a listed one.
\<close>

theorem map_ranks_by_imports:
  "let out = rank_files max_files symbols; every = map (file_entry symbols) symbols in
     sorted_wrt higher out \<and> map rk_rank out = [1..<Suc (length out)]
     \<and> (\<exists>rest. mset (map unranked out) + mset rest = mset every \<and> list_all (\<lambda>f. list_all (\<lambda>g. higher f g) rest) out)"
proof -
  let ?every = "map (file_entry symbols) symbols"
  define kept where "kept = slice_to max_files (rank_order ?every)"
  obtain rest where rest: "rank_order ?every = kept @ rest" using slice_split kept_def by metis
  have out: "rank_files max_files symbols = assign_ranks kept" by (simp add: rank_files_def kept_def)
  have u: "map unranked kept = kept" "map unranked rest = rest"
    using entries_unranked[of symbols] unfolding rest map_append by (simp_all add: append_eq_append_conv)
  have s: "sorted_wrt higher (kept @ rest)" using rank_order_sorted[of ?every] rest by simp
  have "sorted_wrt higher (assign_ranks kept)"
    using s by (metis assign_map(1) sorted_unranked sorted_wrt_append)
  moreover have "map rk_rank (assign_ranks kept) = [1..<Suc (length (assign_ranks kept))]"
    using arg_cong[OF assign_map(1)[of kept], of length] unfolding assign_map(2) by (simp del: upt_Suc)
  moreover have "mset (map unranked (assign_ranks kept)) + mset rest = mset ?every"
    unfolding assign_map(1) u(1) using rest[THEN arg_cong[where f = mset]] by (simp add: rank_order_def)
  moreover have "higher f g" if "f \<in> set (assign_ranks kept)" "g \<in> set rest" for f g
  proof -
    have "unranked f \<in> set kept" using that(1) assign_map(1)[of kept] u(1) by (metis image_eqI list.set_map)
    then have "higher (unranked f) g" using s that(2) by (auto simp: sorted_wrt_append)
    then show ?thesis by (simp add: higher_def unranked_def)
  qed
  ultimately show ?thesis unfolding Let_def out list_all_iff by blast
qed

text \<open>Every cached map lies where its own labels say.\<close>

definition cache_ok :: "string \<Rightarrow> cache_files \<Rightarrow> bool" where
  "cache_ok dir files \<longleftrightarrow> (\<forall>p m. files p = Some (Some m) \<longrightarrow> p = cache_path dir (rm_project_id m) (rm_branch m) (rm_sha m))"

lemma built_labels: "build_repo_map dep mf mt pid branch repo w = (Inr m, w') \<Longrightarrow> rm_project_id m = pid \<and> rm_branch m = branch"
  by (auto simp: build_repo_map_def Let_def split: prod.splits sum.splits)

text \<open>
  A map that is answered is in the cache under its own labels afterwards, the cache keeps every
  other map, and as long as it has not expired the next lookup with these labels answers the same map
  whatever git, the files and the parser then say.
\<close>

theorem answered_map_is_cached:
  assumes "get_or_build dep dir ttl mf mt pid branch repo files w = (Inr m, files', w')" and "cache_ok dir files"
  shows "cache_ok dir files'
    \<and> (\<exists>p. files' = files(p := Some (Some m)) \<and> p = cache_path dir (rm_project_id m) (rm_branch m) (rm_sha m))
    \<and> (if fst (md_time dep2 w2) - rm_built_at m \<le> ttl * 3600
       then fst (cache_get dep2 dir ttl (rm_project_id m) (rm_branch m) (rm_sha m) files' w2) = Some m else True)"
proof -
  let ?p = "cache_path dir (rm_project_id m) (rm_branch m) (rm_sha m)"
  have "files' = files(?p := Some (Some m))"
  proof -
    obtain sha w1 where h: "get_head_sha (md_git dep) repo w = (Inr sha, w1)"
      using assms(1) by (auto simp: get_or_build_def split: prod.splits sum.splits)
    obtain x w2 where g: "cache_get dep dir ttl pid branch sha files w1 = (x, w2)" by fastforce
    show ?thesis
    proof (cases x)
      case (Some m')
      then have "m' = m" "files' = files" using assms(1) h g by (auto simp: get_or_build_def)
      moreover have "files (cache_path dir pid branch sha) = Some (Some m')"
        using g Some by (auto simp: cache_get_def split: option.splits prod.splits if_splits)
      ultimately show ?thesis using assms(2) by (auto simp: cache_ok_def fun_upd_idem)
    next
      case None
      then show ?thesis using assms(1) h g by (auto simp: get_or_build_def cache_put_def split: prod.splits sum.splits)
    qed
  qed
  then show ?thesis using assms(2) by (auto simp: cache_ok_def cache_get_def split: prod.split)
qed

definition demo_map_deps :: "nat map_deps" where
  "demo_map_deps = \<lparr>md_git = (\<lambda>args cwd w. (Inr \<lparr>g_code = 0, g_out = (if args = [''ls-files''] then ''a.py'' else ''abc''), g_err = []\<rparr>, w)),
     md_read = (\<lambda>p w. Some ''x''),
     md_grammar = (\<lambda>name. name = ''python''),
     md_parse = (\<lambda>language src. Some (Node ''module'' ''x'' 0 [Node ''function_definition'' ''x'' 0 [Node ''identifier'' ''f'' 0 []]])),
     md_time = (\<lambda>w. (10, Suc w))\<rparr>"

theorem answered_map_is_cached_witness:
  "case get_or_build demo_map_deps ''/c'' 24 50 4000 ''p'' ''main'' ''/r'' (\<lambda>p. None) 0 of
     (Inr m, files, w) \<Rightarrow> rm_text m = ''a.py (rank: 1)'' @ [CHR 0x0A] @ ''  def f()''
       \<and> fst (cache_get demo_map_deps ''/c'' 24 ''p'' ''main'' ''abc'' files 7) = Some m
   | _ \<Rightarrow> False"
proof -
  have c: "case get_or_build demo_map_deps ''/c'' 24 50 4000 ''p'' ''main'' ''/r'' (\<lambda>p. None) 0 of
     (Inr m, files, w) \<Rightarrow> rm_text m = ''a.py (rank: 1)'' @ [CHR 0x0A] @ ''  def f()'' \<and> rm_sha m = ''abc''
       \<and> rm_project_id m = ''p'' \<and> rm_branch m = ''main'' \<and> rm_built_at m = 10
   | _ \<Rightarrow> False"
    by code_simp
  have ok: "cache_ok ''/c'' (\<lambda>p. None)" by (simp add: cache_ok_def)
  have now: "fst (md_time demo_map_deps 7) = 10" by (simp add: demo_map_deps_def)
  show ?thesis using c answered_map_is_cached[OF _ ok, of demo_map_deps 24 50 4000 "''p''" "''main''" "''/r''" 0 _ _ _ demo_map_deps 7] now
    by (auto split: prod.splits sum.splits)
qed

text \<open>
  Where a map is cached: with a relative branch below the project's directory, literally, so that
  a \<open>..\<close> in it climbs out again; with an absolute branch at that path, outside the cache altogether.
\<close>

theorem cache_path_follows_branch:
  assumes "CHR ''/'' \<notin> set sha" and "\<not> isabs pid"
  shows "cache_path dir pid branch sha =
    (if isabs branch then [] else path_parts dir @ path_parts pid) @ path_parts branch @ [sha @ ''.json'']"
proof -
  have s: "split_on (CHR ''/'') x = [x]" if "CHR ''/'' \<notin> set x" for x
    using that by (induction x) auto
  have "path_parts (sha @ ''.json'') = [sha @ ''.json'']" using assms(1) s[of "sha @ ''.json''"]
    by (cases sha) (auto simp: path_parts_def)
  moreover have "\<not> isabs (sha @ ''.json'')" using assms(1) by (cases sha) (auto simp: isabs_def starts_with_def)
  ultimately show ?thesis using assms(2) by (simp add: cache_path_def path_div_def)
qed

theorem cache_path_follows_branch_witness:
  "cache_path ''/c'' ''p'' ''/etc'' ''abc'' = [''etc'', ''abc.json''] \<and>
   cache_path ''/c'' ''p'' ''../../x'' ''abc'' = [''c'', ''p'', ''..'', ''..'', ''x'', ''abc.json'']"
  using cache_path_follows_branch[of "''abc''" "''p''" "''/c''" "''/etc''"]
    cache_path_follows_branch[of "''abc''" "''p''" "''/c''" "''../../x''"]
  by (simp add: isabs_def starts_with_def path_parts_def)

end
