(* ===== verification/Projects_Api.thy ===== *)
theory Projects_Api
  imports Poller Triage_Tick Repo_Map
begin

text \<open>
  \<open>api/projects.py\<close>: the project endpoints.  An answer is \<open>Inl\<close> a refusal (an HTTP status with its
  detail, the ingest checkpoint's 422, or an exception the framework turns into 500) or \<open>Inr\<close> the
  response.  A response model that the row does not satisfy raises \<open>ValidationError\<close>.  The API key
  check is \<open>Config.require_api_key\<close>.
\<close>

datatype api_error = Http nat string | Unprocessable ingest_error | Crash exn

section \<open>Responses\<close>

record project_response =
  v_id :: string
  v_name :: string
  v_repo_url :: string
  v_repo_path :: "string option"
  v_default_branch :: string
  v_llm_provider :: string
  v_llm_model :: string
  v_fix_llm_provider :: "string option"
  v_fix_llm_model :: "string option"
  v_ingest_source :: "string option"
  v_ingest_config :: "jdict option"
  v_created_at :: string
  v_updated_at :: string

definition row_to_response :: "project option \<Rightarrow> api_error + project_response" where
  "row_to_response row =
     (case row of
        None \<Rightarrow> Inl (Crash (Exn ''TypeError'' []))
      | Some p \<Rightarrow>
          (case (p_default_branch p, p_llm_provider p, p_llm_model p) of
             (Some b, Some lp, Some lm) \<Rightarrow> Inr
               \<lparr>v_id = p_id p, v_name = p_name p, v_repo_url = p_repo_url p, v_repo_path = p_repo_path p,
                v_default_branch = b, v_llm_provider = lp, v_llm_model = lm,
                v_fix_llm_provider = p_fix_llm_provider p, v_fix_llm_model = p_fix_llm_model p,
                v_ingest_source = p_ingest_source p, v_ingest_config = p_ingest_config p,
                v_created_at = isoformat (p_created_at p), v_updated_at = isoformat (p_updated_at p)\<rparr>
           | _ \<Rightarrow> Inl (Crash (Exn ''ValidationError'' []))))"

section \<open>The ingest invariant\<close>

definition checked_ingest_pair ::
  "string option \<Rightarrow> jdict option \<Rightarrow> api_error + string option \<times> jdict option" where
  "checked_ingest_pair source config = map_sum Unprocessable id (validate_ingest_pair source config)"

text \<open>The first other project that syncs from the same base URL; a stored URL may not parse.\<close>

fun base_taken :: "string option \<Rightarrow> string option \<Rightarrow> project list \<Rightarrow> exn + bool" where
  "base_taken pid base [] = Inr False"
| "base_taken pid base (x # xs) =
     (if Some (p_id x) = pid then base_taken pid base xs
      else bindE (usable_base x) (\<lambda>b. if b = base then Inr True else base_taken pid base xs))"

definition check_triage_source :: "string option \<Rightarrow> jdict option \<Rightarrow> db \<Rightarrow> api_error option" where
  "check_triage_source pid config d =
     (case config of
        None \<Rightarrow> None
      | Some kvs \<Rightarrow>
          if \<not> opt_truthy (map_of kvs ''triage_credential_env'') then None
          else (case triage_base_url config of
                  None \<Rightarrow> Some (Crash (Exn ''ValueError'' ''invalid URL''))
                | Some base \<Rightarrow>
                    (case base_taken pid base (projects_with_triage_sync d) of
                       Inl e \<Rightarrow> Some (Crash e)
                     | Inr True \<Rightarrow> Some (Http 409 ''triage_source_in_use'')
                     | Inr False \<Rightarrow> None)))"

section \<open>Creating, reading and updating\<close>

text \<open>\<open>ProjectCreate\<close>.\<close>

record project_body =
  b_name :: string
  b_repo_url :: string
  b_default_branch :: string
  b_llm_provider :: string
  b_llm_model :: string
  b_fix_llm_provider :: "string option"
  b_fix_llm_model :: "string option"
  b_ingest_source :: "string option"
  b_ingest_config :: "jdict option"

definition project_body_ok :: "project_body \<Rightarrow> bool" where
  "project_body_ok b \<longleftrightarrow> len_in 1 200 (b_name b) \<and> len_in 1 1000 (b_repo_url b)"

definition create_project :: "project_body \<Rightarrow> db \<Rightarrow> (api_error + project_response) \<times> db" where
  "create_project b d =
     (if \<not> project_body_ok b then (Inl (Http 422 ''validation error''), d)
      else case checked_ingest_pair (b_ingest_source b) (b_ingest_config b) of
        Inl e \<Rightarrow> (Inl e, d)
      | Inr (source, config) \<Rightarrow>
          (case check_triage_source None config d of
             Some e \<Rightarrow> (Inl e, d)
           | None \<Rightarrow>
               (case project_create (b_name b) (b_repo_url b) (b_default_branch b) (b_llm_provider b) (b_llm_model b)
                       (b_fix_llm_provider b) (b_fix_llm_model b) source config d of
                  (Inl e, d1) \<Rightarrow> (Inl (Crash (Exn ''IntegrityError'' [])), d1)
                | (Inr row, d1) \<Rightarrow> (row_to_response row, d1))))"

definition list_projects :: "db \<Rightarrow> api_error + project_response list \<times> nat" where
  "list_projects d =
     (let rows = project_list d; answers = map (\<lambda>p. row_to_response (Some p)) rows in
      case find (\<lambda>a. \<not> is_Inr a) answers of
        Some (Inl e) \<Rightarrow> Inl e
      | _ \<Rightarrow> Inr (List.map_filter (\<lambda>a. case a of Inl e \<Rightarrow> None | Inr r \<Rightarrow> Some r) answers, length rows))"

definition project_not_found :: api_error where
  "project_not_found = Http 404 ''Project not found''"

definition get_project :: "string \<Rightarrow> db \<Rightarrow> api_error + project_response" where
  "get_project pid d = (case project_get pid d of None \<Rightarrow> Inl project_not_found | Some p \<Rightarrow> row_to_response (Some p))"

text \<open>\<open>ProjectUpdate\<close>: a field is unset, an explicit null (\<open>Some None\<close>), or a value.\<close>

record project_patch =
  u_name :: "string option option"
  u_repo_url :: "string option option"
  u_default_branch :: "string option option"
  u_llm_provider :: "string option option"
  u_llm_model :: "string option option"
  u_fix_llm_provider :: "string option option"
  u_fix_llm_model :: "string option option"
  u_ingest_source :: "string option option"
  u_ingest_config :: "jdict option option"

definition required_patch :: "project_patch \<Rightarrow> (string \<times> string option option) list" where
  "required_patch u = [(''name'', u_name u), (''repo_url'', u_repo_url u), (''default_branch'', u_default_branch u),
     (''llm_provider'', u_llm_provider u), (''llm_model'', u_llm_model u)]"

definition patch_empty :: "project_patch \<Rightarrow> bool" where
  "patch_empty u \<longleftrightarrow> list_all (\<lambda>(k, v). v = None) (required_patch u) \<and> u_fix_llm_provider u = None
     \<and> u_fix_llm_model u = None \<and> u_ingest_source u = None \<and> u_ingest_config u = None"

definition opt_list :: "('a \<Rightarrow> 'b) \<Rightarrow> 'a option \<Rightarrow> 'b list" where
  "opt_list f v = (case v of None \<Rightarrow> [] | Some x \<Rightarrow> [f x])"

text \<open>The updates other than the ingest pair; by then no required field is null.\<close>

definition plain_updates :: "project_patch \<Rightarrow> project_field list" where
  "plain_updates u =
     opt_list (\<lambda>v. PF_name (the v)) (u_name u) @ opt_list (\<lambda>v. PF_repo_url (the v)) (u_repo_url u)
     @ opt_list PF_default_branch (u_default_branch u) @ opt_list PF_llm_provider (u_llm_provider u)
     @ opt_list PF_llm_model (u_llm_model u) @ opt_list PF_fix_llm_provider (u_fix_llm_provider u)
     @ opt_list PF_fix_llm_model (u_fix_llm_model u)"

text \<open>Null on either field clears both; an absent one keeps the stored value.\<close>

definition merged_pair :: "project_patch \<Rightarrow> project \<Rightarrow> string option \<times> jdict option" where
  "merged_pair u p =
     (if u_ingest_source u = Some None \<or> u_ingest_config u = Some None then (None, None)
      else (case u_ingest_source u of None \<Rightarrow> p_ingest_source p | Some s \<Rightarrow> s,
            case u_ingest_config u of None \<Rightarrow> p_ingest_config p | Some c \<Rightarrow> c))"

definition ingest_updates :: "string \<Rightarrow> project_patch \<Rightarrow> db \<Rightarrow> api_error + project_field list" where
  "ingest_updates pid u d =
     (if u_ingest_source u = None \<and> u_ingest_config u = None then Inr []
      else case project_get pid d of
        None \<Rightarrow> Inl project_not_found
      | Some existing \<Rightarrow>
          (case checked_ingest_pair (fst (merged_pair u existing)) (snd (merged_pair u existing)) of
             Inl e \<Rightarrow> Inl e
           | Inr (source, config) \<Rightarrow>
               (case check_triage_source (Some pid) config d of
                  Some e \<Rightarrow> Inl e
                | None \<Rightarrow> Inr [PF_ingest_source source, PF_ingest_config config])))"

definition update_project :: "string \<Rightarrow> project_patch \<Rightarrow> db \<Rightarrow> (api_error + project_response) \<times> db" where
  "update_project pid u d =
     (if patch_empty u then (Inl (Http 400 ''No fields to update''), d)
      else case find (\<lambda>(k, v). v = Some None) (required_patch u) of
        Some (k, v) \<Rightarrow> (Inl (Http 400 (''Field '' @ k @ '' cannot be null'')), d)
      | None \<Rightarrow>
          (case ingest_updates pid u d of
             Inl e \<Rightarrow> (Inl e, d)
           | Inr pair \<Rightarrow>
               (case project_update pid (plain_updates u @ pair) d of
                  (None, d1) \<Rightarrow> (Inl project_not_found, d1)
                | (Some row, d1) \<Rightarrow> (row_to_response (Some row), d1))))"

definition delete_project :: "string \<Rightarrow> db \<Rightarrow> (api_error + unit) \<times> db" where
  "delete_project pid d =
     (case project_delete pid d of
        (Inl e, d1) \<Rightarrow> (Inl (Crash (Exn ''IntegrityError'' [])), d1)
      | (Inr Has_reports, d1) \<Rightarrow> (Inl (Http 409 ''Cannot delete project with existing bug reports. Delete the reports first.''), d1)
      | (Inr Not_found, d1) \<Rightarrow> (Inl project_not_found, d1)
      | (Inr Deleted, d1) \<Rightarrow> (Inr (), d1))"

section \<open>The repository\<close>

text \<open>\<open>POST /clone\<close>, with git and the file system as arguments and no other request in between.\<close>

definition clone_project_repo ::
  "'w repo_git \<Rightarrow> (string \<Rightarrow> 'w \<Rightarrow> bool) \<Rightarrow> (string \<Rightarrow> 'w \<Rightarrow> 'w) \<Rightarrow> string \<Rightarrow> string \<Rightarrow> db \<Rightarrow> 'w
   \<Rightarrow> (api_error + project_response) \<times> db \<times> 'w" where
  "clone_project_repo git is_clone make_parent repos_dir pid d w =
     (case project_get pid d of
        None \<Rightarrow> (Inl project_not_found, d, w)
      | Some p \<Rightarrow>
          (case clone_repo git is_clone make_parent (p_repo_url p) (path_join repos_dir pid)
                  (case p_default_branch p of None \<Rightarrow> [] | Some b \<Rightarrow> b) w of
             (Inl e, w1) \<Rightarrow> (Inl (Http 400 e), d, w1)
           | (Inr path, w1) \<Rightarrow>
               (case get_head_sha git path w1 of
                  (Inl e, w2) \<Rightarrow> (Inl (Crash (Exn e [])), d, w2)
                | (Inr head, w2) \<Rightarrow>
                    (case project_update pid [PF_repo_path (Some path), PF_head_sha (Some head)] d of
                       (row, d1) \<Rightarrow> (row_to_response row, d1, w2)))))"

text \<open>\<open>RepoMapResponse\<close>: the project, the branch, the commit, the number of files, the text.\<close>

type_synonym map_response = "string \<times> string \<times> string \<times> nat \<times> string"

definition map_response :: "string \<Rightarrow> string \<Rightarrow> repo_map \<Rightarrow> map_response" where
  "map_response pid branch m = (pid, branch, rm_sha m, length (rm_files m), rm_text m)"

definition cloned_project :: "string \<Rightarrow> db \<Rightarrow> api_error + project \<times> string \<times> string" where
  "cloned_project pid d =
     (case project_get pid d of
        None \<Rightarrow> Inl project_not_found
      | Some p \<Rightarrow>
          if \<not> str_set (p_repo_path p) then Inl (Http 400 ''Project repo not cloned. Run POST /clone first.'')
          else Inr (p, the (p_repo_path p), case p_default_branch p of None \<Rightarrow> [] | Some b \<Rightarrow> b))"

definition refresh_repo_map ::
  "settings \<Rightarrow> 'w map_deps \<Rightarrow> string \<Rightarrow> string \<Rightarrow> db \<Rightarrow> cache_files \<Rightarrow> 'w
   \<Rightarrow> (api_error + map_response) \<times> db \<times> cache_files \<times> 'w" where
  "refresh_repo_map st dep cache_dir pid d files w =
     (case cloned_project pid d of
        Inl e \<Rightarrow> (Inl e, d, files, w)
      | Inr (p, path, branch) \<Rightarrow>
          (case pull_repo (md_git dep) path w of
             (Inl e, w1) \<Rightarrow> (Inl (Http 500 (''git pull failed: '' @ e)), d, files, w1)
           | (Inr _, w1) \<Rightarrow>
               (case build_repo_map dep (repo_map_max_files st) (repo_map_max_tokens st) pid branch path w1 of
                  (Inl e, w2) \<Rightarrow> (Inl (Crash (Exn e [])), d, files, w2)
                | (Inr m, w2) \<Rightarrow>
                    (Inr (map_response pid branch m),
                     snd (project_update pid [PF_head_sha (Some (rm_sha m))] d), cache_put cache_dir m files, w2))))"

definition get_repo_map ::
  "settings \<Rightarrow> rat \<Rightarrow> 'w map_deps \<Rightarrow> string \<Rightarrow> string \<Rightarrow> db \<Rightarrow> cache_files \<Rightarrow> 'w
   \<Rightarrow> (api_error + map_response) \<times> cache_files \<times> 'w" where
  "get_repo_map st ttl_hours dep cache_dir pid d files w =
     (case cloned_project pid d of
        Inl e \<Rightarrow> (Inl e, files, w)
      | Inr (p, path, branch) \<Rightarrow>
          (case get_or_build dep cache_dir ttl_hours (repo_map_max_files st) (repo_map_max_tokens st) pid branch path files w of
             (Inl e, files1, w1) \<Rightarrow> (Inl (Crash (Exn e [])), files1, w1)
           | (Inr m, files1, w1) \<Rightarrow> (Inr (map_response pid branch m), files1, w1)))"

section \<open>Ingest\<close>

text \<open>\<open>_ingest_project\<close>: the project with its source and its configuration.\<close>

definition ingest_project :: "string \<Rightarrow> db \<Rightarrow> api_error + project \<times> string \<times> jdict" where
  "ingest_project pid d =
     (case project_get pid d of
        None \<Rightarrow> Inl (Http 404 ''Project has no ingest source'')
      | Some p \<Rightarrow>
          (case (p_ingest_source p, p_ingest_config p) of
             (Some source, Some config) \<Rightarrow>
               if source = [] then Inl (Http 404 ''Project has no ingest source'') else Inr (p, source, config)
           | _ \<Rightarrow> Inl (Http 404 ''Project has no ingest source'')))"

record ingest_status =
  w_enabled :: bool
  w_source :: string
  w_credential_present :: bool
  w_cursor_present :: bool
  w_rewalk_in_progress :: bool
  w_last_poll_at :: "string option"
  w_last_ok_at :: "string option"
  w_last_error :: "string option"
  w_consecutive_failures :: nat
  w_last_full_walk_at :: "string option"
  w_imported_total :: nat

text \<open>\<open>config.get(key) or ""\<close> as the name of an environment variable; any other truthy value is no key
  of \<open>os.environ\<close>.\<close>

definition present_env ::
  "(string \<Rightarrow> string option) \<Rightarrow> (string \<Rightarrow> string option option) \<Rightarrow> json option \<Rightarrow> api_error + bool" where
  "present_env env env_file v =
     (case v of
        Some (JStr name) \<Rightarrow> Inr (resolve_env_credential env env_file name \<noteq> None)
      | Some j \<Rightarrow> if truthy j then Inl (Crash (Exn ''TypeError'' ''str expected''))
                  else Inr (resolve_env_credential env env_file [] \<noteq> None)
      | None \<Rightarrow> Inr (resolve_env_credential env env_file [] \<noteq> None))"

text \<open>The checkpoint of the current generation.\<close>

definition live_state :: "project \<Rightarrow> db \<Rightarrow> ingest_row option" where
  "live_state p d =
     (case ingest_state_get (p_id p) d of None \<Rightarrow> None
      | Some i \<Rightarrow> if i_generation i \<noteq> p_ingest_generation p then None else Some i)"

definition get_ingest_status ::
  "settings \<Rightarrow> (string \<Rightarrow> string option) \<Rightarrow> (string \<Rightarrow> string option option) \<Rightarrow> string \<Rightarrow> db
   \<Rightarrow> api_error + ingest_status" where
  "get_ingest_status st env env_file pid d =
     bindE (ingest_project pid d) (\<lambda>(p, source, config).
       let state = live_state p d in
       map_sum id (\<lambda>present.
         \<lparr>w_enabled = ingest_enabled st, w_source = source, w_credential_present = present,
          w_cursor_present = (Option.bind state i_cursor \<noteq> None),
          w_rewalk_in_progress = (Option.bind state i_rewalk_started_at \<noteq> None),
          w_last_poll_at = map_option isoformat (Option.bind state i_last_poll_at),
          w_last_ok_at = map_option isoformat (Option.bind state i_last_ok_at),
          w_last_error = Option.bind state i_last_error,
          w_consecutive_failures = (case state of None \<Rightarrow> 0 | Some i \<Rightarrow> i_consecutive_failures i),
          w_last_full_walk_at = map_option text_of_time (Option.bind state i_last_full_walk_at),
          w_imported_total = (case state of None \<Rightarrow> 0 | Some i \<Rightarrow> i_imported_total i)\<rparr>)
       (present_env env env_file (map_of config ''credential_env'')))"

text \<open>\<open>IngestRunResponse\<close>: what was imported, the pages read, the error.\<close>

type_synonym ingest_run = "nat \<times> nat \<times> string option"

definition run_ingest ::
  "settings \<Rightarrow> 'w ingest_deps \<Rightarrow> string \<Rightarrow> bool \<Rightarrow> 'w poll \<Rightarrow> (api_error + ingest_run) \<times> 'w poll" where
  "run_ingest st dep pid full s =
     (case ingest_project pid (ps_db s) of
        Inl e \<Rightarrow> (Inl e, s)
      | Inr _ \<Rightarrow>
          (case poll_project st dep pid full s of
             (Inl e, s1) \<Rightarrow> (Inl (Crash e), s1)
           | (Inr out, s1) \<Rightarrow> (Inr (pc_imported out, pc_pages out, pc_error out), s1)))"

section \<open>Triage sync\<close>

definition triage_env :: "project option \<Rightarrow> json option" where
  "triage_env project =
     (case project of None \<Rightarrow> None
      | Some p \<Rightarrow>
          if \<not> str_set (p_ingest_source p) then None
          else (case p_ingest_config p of None \<Rightarrow> None
                | Some config \<Rightarrow> (case map_of config ''triage_credential_env'' of Some JNull \<Rightarrow> None | v \<Rightarrow> v)))"

record sync_status =
  x_enabled :: bool
  x_configured :: bool
  x_credential_present :: bool
  x_last_tick_at :: "string option"
  x_last_ok_at :: "string option"
  x_last_error :: "string option"
  x_consecutive_failures :: nat
  x_unresolved_actions :: nat
  x_actions :: "(string \<times> nat) list"
  x_results_tracked :: nat
  x_results_pending :: nat
  x_result_errors :: "string list"
  x_terminal_errors :: nat

text \<open>\<open>bool(env_name) and resolve_env_credential(env_name) is not None\<close>.\<close>

definition named_env ::
  "(string \<Rightarrow> string option) \<Rightarrow> (string \<Rightarrow> string option option) \<Rightarrow> json option \<Rightarrow> api_error + bool" where
  "named_env env env_file v = (if opt_truthy v then present_env env env_file v else Inr False)"

definition get_triage_sync_status ::
  "settings \<Rightarrow> (string \<Rightarrow> string option) \<Rightarrow> (string \<Rightarrow> string option option) \<Rightarrow> string \<Rightarrow> db
   \<Rightarrow> api_error + sync_status" where
  "get_triage_sync_status st env env_file pid d =
     (case project_get pid d of
        None \<Rightarrow> Inl project_not_found
      | Some p \<Rightarrow>
          (let env_name = triage_env (Some p); state = triage_sync_state_get pid d;
               (tracked, pending, errors) = triage_results_summary pid d
           in map_sum id (\<lambda>present.
                \<lparr>x_enabled = triage_sync_enabled st, x_configured = (env_name \<noteq> None), x_credential_present = present,
                 x_last_tick_at = map_option isoformat (Option.bind state y_last_tick_at),
                 x_last_ok_at = map_option isoformat (Option.bind state y_last_ok_at),
                 x_last_error = Option.bind state y_last_error,
                 x_consecutive_failures = (case state of None \<Rightarrow> 0 | Some y \<Rightarrow> y_consecutive_failures y),
                 x_unresolved_actions = (case state of None \<Rightarrow> 0 | Some y \<Rightarrow> y_unresolved_actions y),
                 x_actions = triage_action_counts pid d, x_results_tracked = tracked, x_results_pending = pending,
                 x_result_errors = errors, x_terminal_errors = triage_terminal_error_count pid d\<rparr>)
              (named_env env env_file env_name)))"

text \<open>\<open>TriageSyncRunResponse\<close>: seen, started, posted, pushed, the error.\<close>

type_synonym sync_run = "nat \<times> nat \<times> nat \<times> nat \<times> string option"

text \<open>\<open>busy\<close> says that the project's tick lock is taken, which a manual tick does not wait for.\<close>

definition run_triage_sync ::
  "settings \<Rightarrow> 'w sync_deps \<Rightarrow> bool \<Rightarrow> string \<Rightarrow> 'w sync \<Rightarrow> (api_error + sync_run) \<times> 'w sync" where
  "run_triage_sync st dep busy pid s =
     (if triage_env (project_get pid (sy_db s)) = None
      then (Inl (Http 404 ''Project has no triage sync configured''), s)
      else if busy then (Inl (Http 409 ''tick_in_progress''), s)
      else case sync_project st dep pid s of
        (Inl e, s1) \<Rightarrow> (Inl (Crash e), s1)
      | (Inr out, s1) \<Rightarrow>
          (Inr (oc_actions_seen out, oc_actions_started out, oc_terminals_posted out, oc_results_pushed out,
                oc_error out), s1))"

section \<open>Lemmas\<close>

definition sources_unique :: "db \<Rightarrow> bool" where
  "sources_unique d \<longleftrightarrow> list_all (\<lambda>p. list_all (\<lambda>q.
       p_id p = p_id q \<or> usable_base p \<noteq> usable_base q \<or> \<not> is_Inr (usable_base p))
     (projects_with_triage_sync d)) (projects_with_triage_sync d)"

lemma syncing_iff:
  "p \<in> set (projects_with_triage_sync d) \<longleftrightarrow> p \<in> set (projects d) \<and> p_ingest_source p \<noteq> None
     \<and> opt_truthy (Option.bind (p_ingest_config p) (\<lambda>kvs. map_of kvs ''triage_credential_env''))"
  by (cases "p_ingest_config p") (auto simp: projects_with_triage_sync_def projects_with_ingest_def)

lemma base_free:
  "base_taken pid base xs = Inr False \<Longrightarrow> q \<in> set xs \<Longrightarrow> Some (p_id q) \<noteq> pid \<Longrightarrow> usable_base q \<noteq> Inr base"
  by (induction xs) (auto simp: bindE_Inr split: if_splits)

text \<open>A project whose source was checked, and was stored, syncs from a base of its own.\<close>

lemma checked_base:
  assumes "check_triage_source pid (p_ingest_config p) d = None" and "Some (p_id q) \<noteq> pid"
    and "opt_truthy (Option.bind (p_ingest_config p) (\<lambda>kvs. map_of kvs ''triage_credential_env''))"
    and "q \<in> set (projects_with_triage_sync d)"
  shows "usable_base q \<noteq> usable_base p"
proof -
  have "\<forall>base. base_taken pid base (projects_with_triage_sync d) = Inr False \<longrightarrow> usable_base q \<noteq> Inr base"
    using base_free[OF _ assms(4) assms(2)] by blast
  with assms(1,3) show ?thesis
    by (auto simp: check_triage_source_def usable_base_def split: option.splits if_splits sum.splits bool.splits)
qed

lemma unique_after_store:
  fixes p :: project
  assumes "sources_unique d" and "check_triage_source (Some (p_id p)) (p_ingest_config p) d = None
      \<or> check_triage_source None (p_ingest_config p) d = None
      \<or> (\<exists>p0\<in>set (projects d). p_id p0 = p_id p \<and> p_ingest_source p0 = p_ingest_source p \<and> p_ingest_config p0 = p_ingest_config p)"
    and "\<And>q. q \<in> set (projects d') \<Longrightarrow> q \<in> set (projects d) \<or> p_id q = p_id p
      \<and> p_ingest_source q = p_ingest_source p \<and> p_ingest_config q = p_ingest_config p"
  shows "sources_unique d'"
proof -
  have base: "usable_base q = usable_base q'" if "p_ingest_config q = p_ingest_config q'" for q q'
    using that by (simp add: usable_base_def)
  have old: "usable_base q \<noteq> usable_base r \<or> \<not> is_Inr (usable_base q)"
    if "q \<in> set (projects_with_triage_sync d)" "r \<in> set (projects_with_triage_sync d)" "p_id q \<noteq> p_id r" for q r
    using assms(1) that by (auto simp: sources_unique_def list_all_iff)
  have new: "usable_base q \<noteq> usable_base r \<or> \<not> is_Inr (usable_base q)"
    if q: "q \<in> set (projects_with_triage_sync d)" and r: "r \<in> set (projects_with_triage_sync d')"
      and rp: "p_id r = p_id p" "p_ingest_source r = p_ingest_source p" "p_ingest_config r = p_ingest_config p"
      and ids: "p_id q \<noteq> p_id p" for q r
  proof -
    have t: "p_ingest_source p \<noteq> None"
        "opt_truthy (Option.bind (p_ingest_config p) (\<lambda>kvs. map_of kvs ''triage_credential_env''))"
      using r rp by (auto simp: syncing_iff)
    from assms(2) show ?thesis
    proof (elim disjE bexE conjE)
      fix p0 assume p0: "p0 \<in> set (projects d)" "p_id p0 = p_id p" "p_ingest_source p0 = p_ingest_source p"
        "p_ingest_config p0 = p_ingest_config p"
      then have "p0 \<in> set (projects_with_triage_sync d)" using t by (simp add: syncing_iff)
      then show ?thesis using old[OF q] ids p0(2) base[of r p0] rp(3) p0(4) by auto
    qed (use checked_base[OF _ _ t(2) q] ids base[OF rp(3)] in auto)
  qed
  have "usable_base q \<noteq> usable_base r \<or> \<not> is_Inr (usable_base q)"
    if "q \<in> set (projects_with_triage_sync d')" "r \<in> set (projects_with_triage_sync d')" "p_id q \<noteq> p_id r" for q r
  proof -
    have same: "x \<in> set (projects_with_triage_sync d) \<or> p_id x = p_id p
        \<and> p_ingest_source x = p_ingest_source p \<and> p_ingest_config x = p_ingest_config p"
      if "x \<in> set (projects_with_triage_sync d')" for x
      using that assms(3)[of x] by (auto simp: syncing_iff)
    show ?thesis
      using same[OF that(1)] same[OF that(2)]
    proof (elim disjE conjE)
      assume "q \<in> set (projects_with_triage_sync d)" "r \<in> set (projects_with_triage_sync d)"
      then show ?thesis using old that(3) by blast
    next
      assume "q \<in> set (projects_with_triage_sync d)" "p_id r = p_id p" "p_ingest_source r = p_ingest_source p"
        "p_ingest_config r = p_ingest_config p"
      then show ?thesis using new that(2,3) by metis
    next
      assume "r \<in> set (projects_with_triage_sync d)" "p_id q = p_id p" "p_ingest_source q = p_ingest_source p"
        "p_ingest_config q = p_ingest_config p"
      then show ?thesis using new[of r q] that(1,3) by metis
    qed (use that(3) in simp)
  qed
  then show ?thesis by (auto simp: sources_unique_def list_all_iff)
qed

lemma unique_same_sources:
  fixes d d' :: db
  assumes "sources_unique d" and "\<And>q. q \<in> set (projects d') \<Longrightarrow> \<exists>q0\<in>set (projects d). p_id q0 = p_id q
      \<and> p_ingest_source q0 = p_ingest_source q \<and> p_ingest_config q0 = p_ingest_config q"
  shows "sources_unique d'"
proof -
  have "\<exists>q0\<in>set (projects_with_triage_sync d). p_id q0 = p_id q \<and> usable_base q0 = usable_base q"
    if "q \<in> set (projects_with_triage_sync d')" for q
    using that assms(2)[of q] by (fastforce simp: syncing_iff usable_base_def)
  with assms(1) show ?thesis unfolding sources_unique_def list_all_iff by metis
qed

lemma create_rows:
  assumes "q \<in> set (projects (snd (project_create name url b lp lm fp fm source config d)))"
  shows "q \<in> set (projects d) \<or> p_id q = uuid d (uuid_ix d) \<and> p_ingest_source q = source \<and> p_ingest_config q = config"
  using assms by (auto simp: project_create_def insert_project_def case_prod_beta Let_def split: if_splits)

lemma create_unique:
  assumes "sources_unique d"
  shows "sources_unique (snd (create_project b d))"
proof (cases "\<not> project_body_ok b \<or> \<not> is_Inr (checked_ingest_pair (b_ingest_source b) (b_ingest_config b))")
  case True
  then show ?thesis using assms by (auto simp: create_project_def split: sum.split)
next
  case False
  then obtain source config where c: "checked_ingest_pair (b_ingest_source b) (b_ingest_config b) = Inr (source, config)"
    by (cases "checked_ingest_pair (b_ingest_source b) (b_ingest_config b)") auto
  show ?thesis
  proof (cases "check_triage_source None config d")
    case (Some e)
    then show ?thesis using assms False c by (simp add: create_project_def)
  next
    case None
    define p :: project where
      "p = undefined\<lparr>p_id := uuid d (uuid_ix d), p_ingest_source := source, p_ingest_config := config\<rparr>"
    obtain res d1 where r: "project_create (b_name b) (b_repo_url b) (b_default_branch b) (b_llm_provider b) (b_llm_model b)
        (b_fix_llm_provider b) (b_fix_llm_model b) source config d = (res, d1)" by fastforce
    have "q \<in> set (projects d) \<or> p_id q = p_id p \<and> p_ingest_source q = p_ingest_source p \<and> p_ingest_config q = p_ingest_config p"
      if "q \<in> set (projects d1)" for q
    proof -
      have "q \<in> set (projects (snd (project_create (b_name b) (b_repo_url b) (b_default_branch b) (b_llm_provider b)
          (b_llm_model b) (b_fix_llm_provider b) (b_fix_llm_model b) source config d)))" using that r by simp
      from create_rows[OF this] show ?thesis by (auto simp: p_def)
    qed
    moreover have "snd (create_project b d) = d1"
      using False c None r by (simp add: create_project_def split: sum.split)
    ultimately show ?thesis using unique_after_store[OF assms, of p d1] None by (simp add: p_def)
  qed
qed

lemma plain_columns: "distinct (map column (plain_updates u))" "9 \<notin> column ` set (plain_updates u)"
  "10 \<notin> column ` set (plain_updates u)" "source_arg (plain_updates u) = None" "config_arg (plain_updates u) = None"
  by (auto simp: plain_updates_def opt_list_def split: option.split)

lemma update_rows:
  assumes "q \<in> set (projects (snd (project_update pid args d)))"
  shows "q \<in> set (projects d) \<or> (\<exists>q0\<in>set (projects d). p_id q0 = pid \<and> p_id q = pid
      \<and> p_ingest_source q = p_ingest_source (fold set_project_field args q0)
      \<and> p_ingest_config q = p_ingest_config (fold set_project_field args q0))"
  using assms by (fastforce simp: project_update_def update_where_def case_prod_beta Let_def split: option.splits if_splits)

lemma update_unique:
  assumes "sources_unique d"
  shows "sources_unique (snd (update_project pid u d))"
proof -
  have stored: "snd (update_project pid u d) = d \<or> (\<exists>pair. ingest_updates pid u d = Inr pair
      \<and> snd (update_project pid u d) = snd (project_update pid (plain_updates u @ pair) d))"
    by (auto simp: update_project_def split: option.splits sum.splits prod.splits)
  have "sources_unique (snd (project_update pid (plain_updates u @ pair) d))" if pair: "ingest_updates pid u d = Inr pair" for pair
  proof (cases "pair = []")
    case True
    have "\<exists>q0\<in>set (projects d). p_id q0 = p_id q \<and> p_ingest_source q0 = p_ingest_source q \<and> p_ingest_config q0 = p_ingest_config q"
      if "q \<in> set (projects (snd (project_update pid (plain_updates u @ pair) d)))" for q
      using update_rows[OF that] plain_columns[of u] True by (auto simp: fold_source_other fold_config_other)
    then show ?thesis by (rule unique_same_sources[OF assms])
  next
    case False
    then obtain source config where sc: "pair = [PF_ingest_source source, PF_ingest_config config]"
        "check_triage_source (Some pid) config d = None"
      using pair by (auto simp: ingest_updates_def split: if_splits option.splits sum.splits prod.splits)
    define p :: project where "p = undefined\<lparr>p_id := pid, p_ingest_source := source, p_ingest_config := config\<rparr>"
    have rows: "q \<in> set (projects d) \<or> p_id q = p_id p \<and> p_ingest_source q = p_ingest_source p \<and> p_ingest_config q = p_ingest_config p"
      if "q \<in> set (projects (snd (project_update pid (plain_updates u @ pair) d)))" for q
      using update_rows[OF that] by (auto simp: sc(1) p_def)
    show ?thesis by (rule unique_after_store[OF assms _ rows]) (simp_all add: sc(2) p_def)
  qed
  with stored assms show ?thesis by auto
qed

lemma delete_unique:
  assumes "sources_unique d"
  shows "sources_unique (snd (delete_project pid d))"
proof -
  have "set (projects (snd (project_delete pid d))) \<subseteq> set (projects d)"
    by (auto simp: project_delete_def delete_reports_def delete_project_row_def Let_def delete_where_def)
  moreover have "snd (delete_project pid d) = snd (project_delete pid d)"
    by (auto simp: delete_project_def split: prod.splits sum.splits delete_result.splits)
  ultimately show ?thesis by (metis assms subsetD unique_same_sources)
qed

section \<open>Properties\<close>

text \<open>
  C18.  One sync consumer per sonicgrid: no two projects that sync triage read from the same base URL.
  Creating, updating and deleting a project keep it so, whatever they are asked; the requests are taken
  one at a time, and two that overlap are caught by the tick (\<open>duplicate_source\<close>).
\<close>

theorem triage_sources_stay_unique:
  assumes "sources_unique d"
  shows "sources_unique (snd (create_project b d)) \<and> sources_unique (snd (update_project pid u d))
    \<and> sources_unique (snd (delete_project pid d))"
  using assms by (intro conjI create_unique update_unique delete_unique)

definition demo_sync_config :: "string \<Rightarrow> jdict" where
  "demo_sync_config table = [(''url'', JStr ''https://h/a/poll''), (''table'', JStr table), (''credential_env'', JStr ''K''),
     (''triage_credential_env'', JStr ''T'')]"

definition demo_syncing :: db where
  "demo_syncing = init_db\<lparr>projects := [\<lparr>p_id = ''p'', p_name = ''A'', p_repo_url = ''https://h/r'', p_repo_path = None,
     p_head_sha = None, p_default_branch = Some ''main'', p_llm_provider = Some ''ollama'', p_llm_model = Some ''m'',
     p_fix_llm_provider = None, p_fix_llm_model = None, p_ingest_source = Some ''supabase'',
     p_ingest_config = Some (demo_sync_config ''bugs''), p_ingest_generation = 0, p_created_at = 0, p_updated_at = 0\<rparr>]\<rparr>"

theorem triage_sources_stay_unique_witness:
  "sources_unique demo_syncing \<and> length (projects_with_triage_sync demo_syncing) = 1
   \<and> check_triage_source None (Some (demo_sync_config ''other'')) demo_syncing = Some (Http 409 ''triage_source_in_use'')
   \<and> sources_unique (snd (delete_project ''p'' demo_syncing))"
proof -
  have u: "sources_unique demo_syncing" by code_simp
  have "length (projects_with_triage_sync demo_syncing) = 1
      \<and> check_triage_source None (Some (demo_sync_config ''other'')) demo_syncing = Some (Http 409 ''triage_source_in_use'')"
    by code_simp
  then show ?thesis using u triage_sources_stay_unique[OF u] by simp
qed

text \<open>What a reader of the status may learn of a value: that it is there.\<close>

definition masked :: "string \<Rightarrow> string" where
  "masked v = (if strip v = [] then [] else ''set'')"

definition mask_checkpoints :: "db \<Rightarrow> db" where
  "mask_checkpoints d = d\<lparr>ingest_state := map (\<lambda>i. i\<lparr>i_cursor := map_option masked (i_cursor i),
     i_rewalk_cursor := map_option masked (i_rewalk_cursor i),
     i_rewalk_started_at := map_option (\<lambda>t. Malformed []) (i_rewalk_started_at i)\<rparr>) (ingest_state d)\<rparr>"

lemma masked_credential:
  "resolve_env_credential (map_option masked \<circ> env) (map_option (map_option masked) \<circ> env_file) name = None
   \<longleftrightarrow> resolve_env_credential env env_file name = None"
proof -
  have "strip (masked v) = [] \<longleftrightarrow> strip v = []" for v
  proof -
    have "strip ''set'' \<noteq> []" by code_simp
    then show ?thesis by (simp add: masked_def)
  qed
  then show ?thesis by (simp add: resolve_env_credential_def Let_def split: option.split)
qed

lemma masked_present:
  "present_env (map_option masked \<circ> env) (map_option (map_option masked) \<circ> env_file) v = present_env env env_file v"
  by (simp add: present_env_def masked_credential split: option.split json.split)

lemma masked_state:
  "ingest_state_get pid (mask_checkpoints d) = map_option (\<lambda>i. i\<lparr>i_cursor := map_option masked (i_cursor i),
     i_rewalk_cursor := map_option masked (i_rewalk_cursor i),
     i_rewalk_started_at := map_option (\<lambda>t. Malformed []) (i_rewalk_started_at i)\<rparr>) (ingest_state_get pid d)"
proof -
  have "find P (map f xs) = map_option f (find (P \<circ> f) xs)" for P :: "ingest_row \<Rightarrow> bool" and f and xs :: "ingest_row list"
    by (induction xs) auto
  then show ?thesis by (simp add: ingest_state_get_def mask_checkpoints_def fetchone_filter o_def)
qed

text \<open>
  The status endpoints give presence only: with every credential of the environment, every cursor
  and the start of a rewalk replaced by a mere sign that it is there, both answer the same.
\<close>

theorem status_shows_presence_only:
  "get_ingest_status st (map_option masked \<circ> env) (map_option (map_option masked) \<circ> env_file) pid (mask_checkpoints d)
     = get_ingest_status st env env_file pid d
   \<and> get_triage_sync_status st (map_option masked \<circ> env) (map_option (map_option masked) \<circ> env_file) pid (mask_checkpoints d)
     = get_triage_sync_status st env env_file pid d"
proof -
  have same: "project_get pid (mask_checkpoints d) = project_get pid d" for pid
    by (simp add: project_get_def mask_checkpoints_def)
  have "get_ingest_status st (map_option masked \<circ> env) (map_option (map_option masked) \<circ> env_file) pid (mask_checkpoints d)
      = get_ingest_status st env env_file pid d"
  proof (cases "ingest_project pid d")
    case (Inl e)
    then show ?thesis by (simp add: get_ingest_status_def ingest_project_def same)
  next
    case (Inr r)
    obtain p source config where r: "r = (p, source, config)" by (cases r) auto
    show ?thesis
    proof (cases "ingest_state_get (p_id p) d")
      case None
      then show ?thesis using Inr r
        by (simp add: get_ingest_status_def ingest_project_def same live_state_def masked_state masked_present)
    next
      case (Some i)
      then show ?thesis using Inr r
        by (simp add: get_ingest_status_def ingest_project_def same live_state_def masked_state masked_present
            split: option.splits)
    qed
  qed
  moreover have "get_triage_sync_status st (map_option masked \<circ> env) (map_option (map_option masked) \<circ> env_file) pid (mask_checkpoints d)
      = get_triage_sync_status st env env_file pid d"
  proof -
    have rest: "triage_sync_state_get pid (mask_checkpoints d) = triage_sync_state_get pid d"
      "triage_results_summary pid (mask_checkpoints d) = triage_results_summary pid d"
      "triage_action_counts pid (mask_checkpoints d) = triage_action_counts pid d"
      "triage_terminal_error_count pid (mask_checkpoints d) = triage_terminal_error_count pid d"
      by (simp_all add: mask_checkpoints_def triage_sync_state_get_def triage_results_summary_def
          triage_action_counts_def triage_terminal_error_count_def)
    show ?thesis unfolding get_triage_sync_status_def named_env_def same rest masked_present by (rule refl)
  qed
  ultimately show ?thesis by blast
qed

end
