(* ===== verification/Report_Views.thy ===== *)
theory Report_Views
  imports Reports_Api Projects_Api
begin

text \<open>
  What the report, queue and usage endpoints answer: \<open>api/reports.py\<close> (submission, listing, reading,
  analyses, localization, the HTTP shape of open-pr), \<open>api/queue.py\<close> and \<open>api/usage.py\<close>.  A row that
  the response model does not accept raises \<open>ValidationError\<close>, as a value.  \<open>lax_float\<close> is pydantic's
  conversion of a JSON value to \<open>float\<close>.
\<close>

section \<open>The report response\<close>

record report_response =
  g_id :: string
  g_project_id :: string
  g_title :: string
  g_description :: string
  g_steps_to_reproduce :: "string list option"
  g_expected_behavior :: "string option"
  g_actual_behavior :: "string option"
  g_reporter :: string
  g_url :: "string option"
  g_feature_area :: "string option"
  g_severity :: string
  g_environment :: "string option"
  g_labels :: "string list option"
  g_status :: string
  g_analysis_mode :: string
  g_resolution_reason :: "string option"
  g_assigned_to :: "string option"
  g_created_at :: string
  g_updated_at :: string
  g_warnings :: "string list"
  g_failed_stage :: "string option"
  g_last_error :: "json option"
  g_localized :: bool
  g_last_local_analysis_at :: "string option"
  g_last_cloud_analysis_at :: "string option"
  g_attachments :: "json option"
  g_ingest_source :: "string option"
  g_external_id :: "string option"

text \<open>\<open>Optional[list[dict]]\<close>.\<close>

definition dict_list :: "json option \<Rightarrow> bool" where
  "dict_list v = (case v of None \<Rightarrow> True | Some JNull \<Rightarrow> True | Some (JArr xs) \<Rightarrow> list_all is_obj xs | Some _ \<Rightarrow> False)"

definition report_to_response :: "report \<Rightarrow> string list \<Rightarrow> api_error + report_response" where
  "report_to_response r warnings =
     (case r_severity r of
        None \<Rightarrow> Inl (Crash (Exn ''ValidationError'' []))
      | Some severity \<Rightarrow>
          if \<not> dict_list (r_attachments r) then Inl (Crash (Exn ''ValidationError'' []))
          else Inr
            \<lparr>g_id = r_id r, g_project_id = r_project_id r, g_title = r_title r, g_description = r_description r,
             g_steps_to_reproduce = r_steps_to_reproduce r, g_expected_behavior = r_expected_behavior r,
             g_actual_behavior = r_actual_behavior r, g_reporter = r_reporter r, g_url = r_url r,
             g_feature_area = r_feature_area r, g_severity = severity, g_environment = r_environment r,
             g_labels = r_labels r, g_status = status_value (r_status r), g_analysis_mode = mode_value (r_analysis_mode r),
             g_resolution_reason = r_resolution_reason r, g_assigned_to = r_assigned_to r,
             g_created_at = isoformat (r_created_at r), g_updated_at = isoformat (r_updated_at r), g_warnings = warnings,
             g_failed_stage = None, g_last_error = None, g_localized = False, g_last_local_analysis_at = None,
             g_last_cloud_analysis_at = None, g_attachments = r_attachments r, g_ingest_source = r_ingest_source r,
             g_external_id = r_external_id r\<rparr>)"

section \<open>Submission\<close>

text \<open>\<open>BugReportCreate\<close>; the optional fields are \<open>report_create\<close>'s.\<close>

record report_body =
  rb_title :: string
  rb_description :: string
  rb_reporter :: string
  rb_project_id :: string
  rb_args :: report_args

definition SEVERITIES :: "string list" where
  "SEVERITIES = [''critical'', ''high'', ''medium'', ''low'']"

definition report_body_ok :: "report_body \<Rightarrow> bool" where
  "report_body_ok b \<longleftrightarrow> len_in 1 500 (rb_title b) \<and> len_in 1 50000 (rb_description b) \<and> len_in 1 200 (rb_reporter b)
     \<and> len_in 1 100 (rb_project_id b) \<and> n_severity (rb_args b) \<in> set SEVERITIES"

definition build_warnings :: "report_args \<Rightarrow> string list" where
  "build_warnings n =
     (if n_steps n = None \<or> n_steps n = Some []
      then [''Missing 'steps_to_reproduce': Adding reproduction steps helps AI analyze the bug faster.''] else [])
     @ (if \<not> str_set (n_expected n)
        then [''Missing 'expected_behavior': Describing what you expected helps identify the root cause.''] else [])
     @ (if \<not> str_set (n_actual n)
        then [''Missing 'actual_behavior': Describing what actually happened clarifies the bug impact.''] else [])"

definition create_report :: "report_body \<Rightarrow> db \<Rightarrow> (api_error + report_response) \<times> db" where
  "create_report b d =
     (if \<not> report_body_ok b then (Inl (Http 422 ''validation error''), d)
      else if \<not> project_exists (rb_project_id b) d then (Inl (Http 404 (''Project '' @ [CHR 0x27] @ rb_project_id b @ [CHR 0x27] @ '' not found'')), d)
      else case report_create (rb_project_id b) (rb_title b) (rb_description b) (rb_reporter b) (rb_args b) d of
        (Inl e, d1) \<Rightarrow> (Inl (Crash (Exn ''IntegrityError'' [])), d1)
      | (Inr None, d1) \<Rightarrow> (Inl (Crash (Exn ''TypeError'' [])), d1)
      | (Inr (Some row), d1) \<Rightarrow> (report_to_response row (build_warnings (rb_args b)), d1))"

section \<open>Listing and reading\<close>

definition with_tier :: "(string option \<times> string option) option \<Rightarrow> report_response \<Rightarrow> report_response" where
  "with_tier tier v =
     (case tier of None \<Rightarrow> v
      | Some (local, cloud) \<Rightarrow> v\<lparr>g_last_local_analysis_at := local, g_last_cloud_analysis_at := cloud\<rparr>)"

definition with_failure :: "failure_info option \<Rightarrow> report_response \<Rightarrow> report_response" where
  "with_failure failure v =
     (case failure of None \<Rightarrow> v | Some f \<Rightarrow> v\<lparr>g_failed_stage := Some (failed_stage f), g_last_error := last_error f\<rparr>)"

definition list_item ::
  "db \<Rightarrow> string list \<Rightarrow> (string \<times> string option \<times> string option) list \<Rightarrow> report \<Rightarrow> api_error + report_response" where
  "list_item d localized_ids tiers r =
     map_sum id (\<lambda>v. with_failure (report_failure_info (r_id r) d)
         (with_tier (map_of tiers (r_id r)) (v\<lparr>g_localized := r_id r \<in> set localized_ids\<rparr>)))
       (report_to_response r [])"

text \<open>A loop that stops at the first exception.\<close>

fun collect_all :: "('e + 'a) list \<Rightarrow> 'e + 'a list" where
  "collect_all [] = Inr []"
| "collect_all (x # xs) = bindE x (\<lambda>y. bindE (collect_all xs) (\<lambda>ys. Inr (y # ys)))"

definition list_reports ::
  "string option \<Rightarrow> string option \<Rightarrow> int option \<Rightarrow> int \<Rightarrow> string \<Rightarrow> db \<Rightarrow> api_error + report_response list \<times> nat" where
  "list_reports pid status limit offset order d =
     (if (case limit of None \<Rightarrow> False | Some l \<Rightarrow> l < 1 \<or> l > 500) \<or> offset < 0 \<or> order \<notin> {''asc'', ''desc''}
      then Inl (Http 422 ''validation error'')
      else
        (let localized_ids = report_ids_with_localization d; tiers = report_tier_summary None d in
         map_sum id (\<lambda>rs. (rs, report_count pid status False d))
           (collect_all (map (list_item d localized_ids tiers) (report_list pid status False limit offset order d)))))"

definition report_not_found :: api_error where
  "report_not_found = Http 404 ''Bug report not found''"

definition get_report :: "string \<Rightarrow> db \<Rightarrow> api_error + report_response" where
  "get_report rid d =
     (case report_get rid d of
        None \<Rightarrow> Inl report_not_found
      | Some row \<Rightarrow>
          map_sum id (\<lambda>v. with_failure (report_failure_info rid d)
              (with_tier (map_of (report_tier_summary (Some rid) d) rid)
                 (v\<lparr>g_localized := latest_completed_localization rid d \<noteq> None\<rparr>)))
            (report_to_response row []))"

definition phase_arg :: "string option \<Rightarrow> phase option option" where
  "phase_arg ph =
     (if \<not> str_set ph then Some None
      else map_option Some (find (\<lambda>p. phase_value p = the ph) [P_VALIDATION, P_TRIAGE, P_LOCALIZATION, P_FIX]))"

definition list_report_analyses :: "string \<Rightarrow> string option \<Rightarrow> db \<Rightarrow> api_error + analysis list" where
  "list_report_analyses rid ph d =
     (if report_get rid d = None then Inl report_not_found
      else Inr (case phase_arg ph of None \<Rightarrow> [] | Some p \<Rightarrow> analyses_for_report rid p d))"

definition list_fix_proposals :: "string \<Rightarrow> db \<Rightarrow> api_error + fix_proposal list" where
  "list_fix_proposals rid d =
     (if report_get rid d = None then Inl report_not_found else Inr (fix_proposals_for_report rid d))"

section \<open>Localization\<close>

fun state_value :: "a_state \<Rightarrow> string" where
  "state_value A_PENDING = ''pending''"
| "state_value A_RUNNING = ''running''"
| "state_value A_COMPLETED = ''completed''"
| "state_value A_FAILED = ''failed''"

record 'n localization_response =
  l_analysis_id :: string
  l_bug_report_id :: string
  l_status :: string
  l_repo_sha :: "string option"
  l_candidate_files :: "json list"
  l_localizations :: "json list"
  l_root_cause_hypothesis :: "string option"
  l_confidence :: 'n

definition attribute_error :: api_error where
  "attribute_error = Crash (Exn ''AttributeError'' ''get'')"

definition invalid_response :: api_error where
  "invalid_response = Crash (Exn ''ValidationError'' [])"

text \<open>\<open>Optional[str]\<close> and \<open>list[dict]\<close> fields.\<close>

definition str_or_null :: "json option \<Rightarrow> api_error + string option" where
  "str_or_null v = (case v of None \<Rightarrow> Inr None | Some JNull \<Rightarrow> Inr None | Some (JStr s) \<Rightarrow> Inr (Some s) | Some _ \<Rightarrow> Inl invalid_response)"

definition dicts :: "json option \<Rightarrow> api_error + json list" where
  "dicts v = (case v of None \<Rightarrow> Inr []
     | Some (JArr xs) \<Rightarrow> if list_all is_obj xs then Inr xs else Inl invalid_response | Some _ \<Rightarrow> Inl invalid_response)"

text \<open>\<open>d.get(key)\<close>, which only a dict has; \<open>pass2\<close> is left out when it is falsy.\<close>

definition dict_of :: "json option \<Rightarrow> api_error + (string \<times> json) list" where
  "dict_of v = (case v of None \<Rightarrow> Inr [] | Some (JObj kvs) \<Rightarrow> Inr kvs | Some _ \<Rightarrow> Inl attribute_error)"

definition if_truthy :: "json option \<Rightarrow> json option" where
  "if_truthy v = (if opt_truthy v then v else None)"

definition get_localization ::
  "'n \<Rightarrow> (json \<Rightarrow> 'n option) \<Rightarrow> string \<Rightarrow> db \<Rightarrow> api_error + 'n localization_response" where
  "get_localization zero lax_float rid d =
     (if report_get rid d = None then Inl report_not_found
      else case analyses_for_report rid (Some P_LOCALIZATION) d of
        [] \<Rightarrow> Inl (Http 404 ''No localization results found'')
      | latest # older \<Rightarrow>
          bindE (dict_of (if_truthy (a_result latest))) (\<lambda>result.
          bindE (dict_of (map_of result ''pass1'')) (\<lambda>pass1.
          bindE (dict_of (if_truthy (map_of result ''pass2''))) (\<lambda>pass2.
          bindE (str_or_null (map_of result ''repo_sha'')) (\<lambda>sha.
          bindE (dicts (map_of pass1 ''candidate_files'')) (\<lambda>files.
          bindE (dicts (map_of pass2 ''localizations'')) (\<lambda>locs.
          bindE (str_or_null (map_of pass2 ''root_cause_hypothesis'')) (\<lambda>cause.
          (case (case map_of pass1 ''confidence'' of None \<Rightarrow> Some zero | Some j \<Rightarrow> lax_float j) of
             None \<Rightarrow> Inl invalid_response
           | Some c \<Rightarrow> Inr \<lparr>l_analysis_id = a_id latest, l_bug_report_id = rid, l_status = state_value (a_status latest),
               l_repo_sha = sha, l_candidate_files = files, l_localizations = locs,
               l_root_cause_hypothesis = cause, l_confidence = c\<rparr>)))))))))"

section \<open>Opening a pull request\<close>

text \<open>\<open>POST /reports/{id}/open-pr\<close>: an answer, or the status and code of the error body.\<close>

definition open_pr ::
  "settings \<Rightarrow> 'w git \<Rightarrow> 'w github \<Rightarrow> (report \<Rightarrow> fix_proposal \<Rightarrow> string) \<Rightarrow> (string \<Rightarrow> 'w \<Rightarrow> bool)
   \<Rightarrow> (string \<Rightarrow> 'w \<Rightarrow> 'w) \<Rightarrow> (string \<Rightarrow> bool) \<Rightarrow> string \<Rightarrow> (string \<Rightarrow> string \<Rightarrow> string option)
   \<Rightarrow> string \<Rightarrow> string option \<Rightarrow> 'w env \<Rightarrow> (nat \<times> string + answer) \<times> 'w env" where
  "open_pr st git gh render exists rmtree has_git web_base worktree rid requested_id s =
     (if (case requested_id of None \<Rightarrow> False | Some x \<Rightarrow> \<not> len_in 1 100 x) then (Inl (422, ''validation error''), s)
      else if report_get rid (e_db s) = None then (Inl (404, ''Bug report not found''), s)
      else case open_pull_request st git gh render exists rmtree has_git web_base worktree rid requested_id s of
        (Inr a, s1) \<Rightarrow> (Inr a, s1)
      | (Inl (OpenPrError status code), s1) \<Rightarrow> (Inl (status, code), s1)
      | (Inl (OtherError e), s1) \<Rightarrow> (Inl (500, ''internal_error''), s1))"

section \<open>Queue and usage\<close>

record failed_report =
  q_id :: string
  q_title :: string
  q_failed_stage :: string
  q_last_error :: "string option"
  q_permanent :: bool

record queue_overview =
  o_total :: nat
  o_by_status :: "(string \<times> nat) list"
  o_failed :: "failed_report list"

definition failed_item :: "db \<Rightarrow> report \<Rightarrow> (api_error + failed_report) option" where
  "failed_item d r =
     map_option (\<lambda>f. map_sum id (\<lambda>e.
         \<lparr>q_id = r_id r, q_title = r_title r, q_failed_stage = failed_stage f, q_last_error = e, q_permanent = permanent f\<rparr>)
       (str_or_null (last_error f))) (report_failure_info (r_id r) d)"

definition get_queue_overview :: "string option \<Rightarrow> db \<Rightarrow> api_error + queue_overview" where
  "get_queue_overview pid d =
     (let counts = queue_counts pid d in
      map_sum id (\<lambda>failed. \<lparr>o_total = sum_list (map snd counts), o_by_status = counts, o_failed = failed\<rparr>)
        (collect_all (List.map_filter (failed_item d) (report_list pid None False None 0 ''desc'' d))))"

definition retry_report :: "string \<Rightarrow> db \<Rightarrow> (api_error + unit) \<times> db" where
  "retry_report rid d =
     (case report_get rid d of
        None \<Rightarrow> (Inl report_not_found, d)
      | Some r \<Rightarrow>
          if r_status r \<noteq> TRIAGED
          then (Inl (Http 409 (''Report must be in 'triaged' status to retry (current: '' @ [CHR 0x27]
                  @ status_value (r_status r) @ [CHR 0x27] @ '')'')), d)
          else case reset_stage_retries rid d of
            (Inl e, d1) \<Rightarrow> (Inl (Crash (Exn ''IntegrityError'' [])), d1)
          | (Inr b, d1) \<Rightarrow> (Inr (), d1))"

definition get_usage :: "db \<Rightarrow> usage_summary" where
  "get_usage d = token_usage_summary None d"

definition get_project_usage :: "string \<Rightarrow> db \<Rightarrow> usage_summary" where
  "get_project_usage pid d = token_usage_summary (Some pid) d"

section \<open>Lemmas\<close>

lemma localized_iff: "rid \<in> set (report_ids_with_localization d) \<longleftrightarrow> latest_completed_localization rid d \<noteq> None"
  by (auto simp: report_ids_with_localization_def latest_completed_localization_def filter_empty_conv)

lemma map_of_keyed: "map_of (map (\<lambda>k. (k, f k)) ks) x = (if x \<in> set ks then Some (f x) else None)"
  by (induction ks) auto

lemma tier_of_one:
  "map_of (report_tier_summary (Some rid) d) rid = map_of (report_tier_summary None d) rid"
proof -
  have same: "filter (\<lambda>a. a_bug_report_id a = rid \<and> P a) (filter (\<lambda>a. Q a \<and> a_bug_report_id a = rid) xs)
      = filter (\<lambda>a. a_bug_report_id a = rid \<and> P a) (filter Q xs)" for P Q and xs :: "analysis list"
    by (induction xs) auto
  show ?thesis
    by (simp add: report_tier_summary_def Let_def map_of_keyed same[symmetric] conj_assoc) (auto simp: conj_commute)
qed

lemma list_item_get:
  assumes "pk_ok d" and "r \<in> set (reports d)"
  shows "list_item d (report_ids_with_localization d) (report_tier_summary None d) r = get_report (r_id r) d"
proof -
  have "report_get (r_id r) d = Some r"
    using assms by (simp add: report_get_find pk_ok_def find_key_Some)
  then show ?thesis by (simp add: get_report_def list_item_def localized_iff tier_of_one)
qed

lemma collect_all_Inr: "collect_all xs = Inr ys \<longleftrightarrow> xs = map Inr ys"
  by (induction xs arbitrary: ys) (auto simp: bindE_Inr)

lemma queue_total: "sum_list (map snd (queue_counts pid d)) = report_count pid None False d"
proof -
  define rows where
    "rows = filter (\<lambda>r. not_deleted r \<and> (if str_set pid then Some (r_project_id r) = pid else True)) (reports d)"
  have "sum_list (map snd (queue_counts pid d)) = length rows"
    unfolding queue_counts_def Let_def rows_def[symmetric] using group_by_total[of r_status rows]
    by (simp add: comp_def case_prod_beta)
  then show ?thesis by (simp add: rows_def report_count_def rowcount_def report_filter_def cong: filter_cong)
qed

text \<open>What the two views say of one report's failure.\<close>

lemma item_failure:
  assumes "list_item d ids tiers r = Inr v"
  shows "g_id v = r_id r" "g_title v = r_title r" "g_failed_stage v = map_option failed_stage (report_failure_info (r_id r) d)"
  using assms by (auto simp: list_item_def report_to_response_def with_failure_def with_tier_def split: option.splits if_splits)

lemma failed_view:
  assumes "map (list_item d ids tiers) rows = map Inr rs" and "List.map_filter (failed_item d) rows = map Inr fs"
  shows "map (\<lambda>f. (q_id f, q_title f, Some (q_failed_stage f))) fs
      = map (\<lambda>v. (g_id v, g_title v, g_failed_stage v)) (filter (\<lambda>v. g_failed_stage v \<noteq> None) rs)"
  using assms
proof (induction rows arbitrary: rs fs)
  case Nil
  then show ?case by (simp add: map_filter_def)
next
  case (Cons r rows)
  obtain v rs' where rs: "rs = v # rs'" "list_item d ids tiers r = Inr v" "map (list_item d ids tiers) rows = map Inr rs'"
    using Cons.prems(1) by (cases rs) auto
  show ?case
  proof (cases "report_failure_info (r_id r) d")
    case None
    then have "failed_item d r = None" by (simp add: failed_item_def)
    then have "List.map_filter (failed_item d) rows = map Inr fs"
      using Cons.prems(2) by (simp add: map_filter_simps)
    then show ?thesis using Cons.IH[OF rs(3)] rs(1) item_failure(3)[OF rs(2)] None by simp
  next
    case (Some f)
    then obtain g fs' where fs: "fs = g # fs'" "failed_item d r = Some (Inr g)" "List.map_filter (failed_item d) rows = map Inr fs'"
      using Cons.prems(2) by (cases fs) (auto simp: map_filter_simps split: option.splits simp: failed_item_def[of d r])
    have "q_id g = r_id r \<and> q_title g = r_title r \<and> q_failed_stage g = failed_stage f"
      using fs(2) Some by (cases "str_or_null (last_error f)") (auto simp: failed_item_def)
    then show ?thesis using Cons.IH[OF rs(3) fs(3)] rs(1) fs(1) item_failure[OF rs(2)] Some by simp
  qed
qed

section \<open>Properties\<close>

text \<open>
  C38.  The list shows what a single read shows: with the ids distinct, a page of the list is, item by
  item, the answer of \<open>GET /reports/{id}\<close> for the reports on it, although it is computed from two
  aggregate queries over all analyses; and the total counts the matches before pagination.
\<close>

theorem list_shows_what_get_shows:
  assumes "pk_ok d"
  shows "list_reports pid status limit offset order d =
    (if (case limit of None \<Rightarrow> False | Some l \<Rightarrow> l < 1 \<or> l > 500) \<or> offset < 0 \<or> order \<notin> {''asc'', ''desc''}
     then Inl (Http 422 ''validation error'')
     else map_sum id (\<lambda>rs. (rs, report_count pid status False d))
       (collect_all (map (\<lambda>r. get_report (r_id r) d) (report_list pid status False limit offset order d))))"
proof -
  have "set (report_list pid status False limit offset order d) \<subseteq> set (reports d)"
    by (auto simp: report_list_def limit_offset_def Let_def split: option.splits if_splits dest!: in_set_takeD in_set_dropD)
  then have items: "map (list_item d (report_ids_with_localization d) (report_tier_summary None d))
        (report_list pid status False limit offset order d)
      = map (\<lambda>r. get_report (r_id r) d) (report_list pid status False limit offset order d)"
    using list_item_get[OF assms] by (intro map_cong refl) auto
  show ?thesis unfolding list_reports_def Let_def items by (rule refl)
qed

definition demo_views_db :: db where
  "demo_views_db = init_db\<lparr>reports := [(blank_report ''a'' ''p'' 2)\<lparr>r_severity := Some ''low''\<rparr>,
     (blank_report ''b'' ''p'' 3)\<lparr>r_severity := Some ''low''\<rparr>]\<rparr>"

theorem list_shows_what_get_shows_witness:
  "list_reports None None (Some 1) 0 ''desc'' demo_views_db = map_sum id (\<lambda>v. ([v], 2)) (get_report ''b'' demo_views_db)
   \<and> is_Inr (get_report ''b'' demo_views_db)"
proof -
  have ok: "pk_ok demo_views_db" by code_simp
  have page: "map r_id (report_list None None False (Some 1) 0 ''desc'' demo_views_db) = [''b'']
      \<and> report_count None None False demo_views_db = 2" by code_simp
  have "report_get ''b'' demo_views_db = Some ((blank_report ''b'' ''p'' 3)\<lparr>r_severity := Some ''low''\<rparr>)"
    by (simp add: demo_views_db_def report_get_def init_db_def blank_report_def)
  then obtain v where "get_report ''b'' demo_views_db = Inr v"
    by (simp add: get_report_def report_to_response_def dict_list_def blank_report_def)
  moreover have "map (\<lambda>r. get_report (r_id r) demo_views_db) (report_list None None False (Some 1) 0 ''desc'' demo_views_db)
      = map (\<lambda>i. get_report i demo_views_db) (map r_id (report_list None None False (Some 1) 0 ''desc'' demo_views_db))"
    by (simp add: comp_def)
  ultimately show ?thesis
    using page list_shows_what_get_shows[OF ok, of None None "Some 1" 0 "''desc''"] by simp
qed

text \<open>
  The queue overview agrees with the list: its total is the number of reports listed, and the
  reports it names as failed are, in the same order, those the list shows with a failed stage.
\<close>

theorem queue_agrees_with_list:
  "case (list_reports pid None None 0 ''desc'' d, get_queue_overview pid d) of
     (Inr (rs, n), Inr q) \<Rightarrow> o_total q = n \<and> length rs = n
       \<and> map (\<lambda>f. (q_id f, q_title f, Some (q_failed_stage f))) (o_failed q)
         = map (\<lambda>v. (g_id v, g_title v, g_failed_stage v)) (filter (\<lambda>v. g_failed_stage v \<noteq> None) rs)
   | _ \<Rightarrow> True"
proof -
  let ?rows = "report_list pid None False None 0 ''desc'' d"
  let ?item = "list_item d (report_ids_with_localization d) (report_tier_summary None d)"
  have l: "list_reports pid None None 0 ''desc'' d
      = map_sum id (\<lambda>rs. (rs, report_count pid None False d)) (collect_all (map ?item ?rows))"
    by (simp add: list_reports_def Let_def)
  have n: "length ?rows = report_count pid None False d"
    by (simp add: report_list_def report_count_def rowcount_def order_desc_def Let_def)
  show ?thesis
  proof (cases "collect_all (map ?item ?rows)")
    case (Inl e)
    then show ?thesis by (simp add: l)
  next
    case (Inr rs)
    then have rs: "map ?item ?rows = map Inr rs" by (simp only: collect_all_Inr)
    then have len: "length rs = report_count pid None False d" using n by (metis length_map)
    show ?thesis
    proof (cases "collect_all (List.map_filter (failed_item d) ?rows)")
      case (Inl e)
      then show ?thesis by (simp add: l \<open>collect_all (map ?item ?rows) = Inr rs\<close> get_queue_overview_def Let_def)
    next
      case (Inr fs)
      then have "List.map_filter (failed_item d) ?rows = map Inr fs" by (simp only: collect_all_Inr)
      from failed_view[OF rs this] show ?thesis
        by (simp add: l \<open>collect_all (map ?item ?rows) = Inr rs\<close> Inr get_queue_overview_def Let_def queue_total len)
    qed
  qed
qed

end
