(* ===== verification/Migrations.thy ===== *)
theory Migrations
  imports Schema
begin

text \<open>
  \<open>_migrate\<close> in \<open>db.py\<close>: the columns added to the tables of an older release.  A table is its column
  names and its rows, each a list of cells in column order.  The migration is the program the code is: it
  reads a table's columns into a variable (\<open>PRAGMA table_info\<close>, empty for a missing table), and adds each
  column the variable lacks, one committed statement at a time.
\<close>

section \<open>Tables\<close>

text \<open>\<open>OperationalError\<close> and \<open>IntegrityError\<close>.\<close>

datatype migration_error = Operational | Duplicate_key

datatype cell = Null | Text string | Integer int

record table =
  tb_columns :: "string list"
  tb_rows :: "cell list list"

record sqlite_db =
  sq_tables :: "(string \<times> table) list"
  sq_indexes :: "string list"

definition table_info :: "string \<Rightarrow> sqlite_db \<Rightarrow> string list" where
  "table_info t d = (case map_of (sq_tables d) t of None \<Rightarrow> [] | Some tb \<Rightarrow> tb_columns tb)"

definition widen :: "(string \<times> cell) list \<Rightarrow> table \<Rightarrow> table" where
  "widen cs tb = \<lparr>tb_columns = tb_columns tb @ map fst cs, tb_rows = map (\<lambda>r. r @ map snd cs) (tb_rows tb)\<rparr>"

text \<open>\<open>ALTER TABLE t ADD COLUMN c\<close>, where existing rows get the default.\<close>

definition add_column :: "string \<Rightarrow> string \<Rightarrow> cell \<Rightarrow> sqlite_db \<Rightarrow> migration_error + sqlite_db" where
  "add_column t c v d =
     (case map_of (sq_tables d) t of
        None \<Rightarrow> Inl Operational
      | Some tb \<Rightarrow>
          if c \<in> set (tb_columns tb) then Inl Operational
          else Inr (d\<lparr>sq_tables := map (\<lambda>(n, x). (n, if n = t then widen [(c, v)] x else x)) (sq_tables d)\<rparr>))"

section \<open>The program\<close>

text \<open>\<open>Add\<close> carries whether the code first asks that the table exists.\<close>

datatype instr = Read string | Add bool string string cell

definition MIGRATION :: "instr list" where
  "MIGRATION =
     [Read ''projects'',
      Add False ''projects'' ''head_sha'' Null, Add False ''projects'' ''fix_llm_provider'' Null,
      Add False ''projects'' ''fix_llm_model'' Null,
      Read ''bug_reports'', Add False ''bug_reports'' ''analysis_mode'' (Text ''auto''),
      Add False ''projects'' ''ingest_source'' Null, Add False ''projects'' ''ingest_config'' Null,
      Read ''token_usage'', Add True ''token_usage'' ''key_source'' Null, Add True ''token_usage'' ''key_ref'' Null,
      Add False ''bug_reports'' ''claim_token'' Null,
      Read ''fix_proposals'', Add True ''fix_proposals'' ''pr_url'' Null, Add True ''fix_proposals'' ''pr_number'' Null,
      Add True ''fix_proposals'' ''pushed_sha'' Null, Add True ''fix_proposals'' ''pr_opened_at'' Null,
      Add False ''bug_reports'' ''ingest_source'' Null, Add False ''bug_reports'' ''external_id'' Null,
      Add False ''projects'' ''ingest_generation'' (Integer 0),
      Read ''analyses'', Add True ''analyses'' ''trigger_ref'' Null,
      Read ''fix_proposals'', Add True ''fix_proposals'' ''trigger_ref'' Null,
      Read ''fix_proposals'', Add True ''fix_proposals'' ''pr_state'' Null, Add True ''fix_proposals'' ''pr_checked_at'' Null,
      Add True ''fix_proposals'' ''pr_settled_at'' Null, Add True ''fix_proposals'' ''pr_check_error'' Null,
      Read ''triage_actions'', Add True ''triage_actions'' ''key_mode'' Null]"

type_synonym column_vars = "string \<rightharpoonup> string list"

definition add_missing :: "string list \<Rightarrow> bool \<Rightarrow> string \<Rightarrow> string \<Rightarrow> cell \<Rightarrow> sqlite_db \<Rightarrow> migration_error + sqlite_db" where
  "add_missing columns must_exist t c v d =
     (if must_exist \<and> columns = [] \<or> c \<in> set columns then Inr d else add_column t c v d)"

fun run_instrs :: "instr list \<Rightarrow> column_vars \<Rightarrow> sqlite_db \<Rightarrow> migration_error + sqlite_db" where
  "run_instrs [] vars d = Inr d"
| "run_instrs (Read t # is) vars d = run_instrs is (vars(t \<mapsto> table_info t d)) d"
| "run_instrs (Add g t c v # is) vars d =
     (case vars t of
        None \<Rightarrow> Inl Operational
      | Some columns \<Rightarrow> bindE (add_missing columns g t c v d) (run_instrs is vars))"

text \<open>The unique index over imported reports; a stored duplicate refuses it.\<close>

definition cell_at :: "string list \<Rightarrow> string \<Rightarrow> cell list \<Rightarrow> cell" where
  "cell_at columns c r = (case map_of (zip columns r) c of None \<Rightarrow> Null | Some v \<Rightarrow> v)"

definition external_keys :: "sqlite_db \<Rightarrow> (cell \<times> cell) list" where
  "external_keys d =
     (case map_of (sq_tables d) ''bug_reports'' of None \<Rightarrow> []
      | Some tb \<Rightarrow> filter (\<lambda>(p, x). x \<noteq> Null)
          (map (\<lambda>r. (cell_at (tb_columns tb) ''project_id'' r, cell_at (tb_columns tb) ''external_id'' r)) (tb_rows tb)))"

definition external_index :: "sqlite_db \<Rightarrow> migration_error + sqlite_db" where
  "external_index d =
     (if ''project_id'' \<in> set (table_info ''bug_reports'' d) \<and> ''external_id'' \<in> set (table_info ''bug_reports'' d)
         \<and> ''idx_bug_reports_external'' \<notin> set (sq_indexes d)
      then (if distinct (external_keys d) then Inr (d\<lparr>sq_indexes := sq_indexes d @ [''idx_bug_reports_external'']\<rparr>)
            else Inl Duplicate_key)
      else Inr d)"

definition migrate :: "sqlite_db \<Rightarrow> migration_error + sqlite_db" where
  "migrate d = bindE (run_instrs MIGRATION Map.empty d) external_index"

section \<open>Opening the database\<close>

text \<open>The columns of \<open>_SCHEMA\<close>'s tables, which the script creates when they do not exist.\<close>

definition SCHEMA :: "(string \<times> string list) list" where
  "SCHEMA =
    [(''projects'', [''id'', ''name'', ''repo_url'', ''repo_path'', ''head_sha'', ''default_branch'',
        ''llm_provider'', ''llm_model'', ''fix_llm_provider'', ''fix_llm_model'', ''ingest_source'',
        ''ingest_config'', ''ingest_generation'', ''created_at'', ''updated_at'']),
     (''bug_reports'', [''id'', ''project_id'', ''title'', ''description'', ''steps_to_reproduce'',
        ''expected_behavior'', ''actual_behavior'', ''reporter'', ''url'', ''feature_area'', ''severity'',
        ''environment'', ''attachments'', ''labels'', ''status'', ''analysis_mode'', ''claim_token'',
        ''resolution_reason'', ''assigned_to'', ''ingest_source'', ''external_id'', ''created_at'',
        ''updated_at'']),
     (''analyses'', [''id'', ''bug_report_id'', ''phase'', ''status'', ''result'', ''llm_provider'',
        ''llm_model'', ''prompt_tokens'', ''completion_tokens'', ''estimated_cost_usd'', ''started_at'',
        ''completed_at'', ''trigger_ref'', ''created_at'']),
     (''fix_proposals'', [''id'', ''bug_report_id'', ''analysis_id'', ''branch_name'', ''diff'',
        ''explanation'', ''confidence'', ''root_cause'', ''files_changed'', ''status'', ''reviewed_by'',
        ''review_notes'', ''pr_url'', ''pr_number'', ''pushed_sha'', ''pr_opened_at'', ''trigger_ref'',
        ''pr_state'', ''pr_checked_at'', ''pr_settled_at'', ''pr_check_error'', ''created_at'', ''updated_at'']),
     (''token_usage'', [''id'', ''project_id'', ''bug_report_id'', ''provider'', ''model'', ''prompt_tokens'',
        ''completion_tokens'', ''estimated_cost_usd'', ''key_source'', ''key_ref'', ''created_at'']),
     (''ingest_state'', [''project_id'', ''generation'', ''cursor'', ''rewalk_cursor'', ''rewalk_started_at'',
        ''last_full_walk_at'', ''last_poll_at'', ''last_ok_at'', ''last_error'', ''consecutive_failures'',
        ''imported_total'']),
     (''triage_results'', [''report_id'', ''project_id'', ''fingerprint'', ''revision'', ''payload'',
        ''acked_fingerprint'', ''failed_fingerprint'', ''last_status'', ''last_error'', ''pushed_at'']),
     (''triage_actions'', [''action_id'', ''project_id'', ''report_id'', ''kind'', ''params'',
        ''requested_by_user_id'', ''phase'', ''no_auto_retry'', ''pinned_llm'', ''reserved_at'', ''intent_at'',
        ''dispatched_at'', ''finished_at'', ''outcome'', ''message'', ''steps'', ''fix_proposal_id'',
        ''pr_url'', ''attempts'', ''terminal_acked'', ''terminal_error'', ''late_outcome'', ''key_mode'']),
     (''triage_sync_state'', [''project_id'', ''last_tick_at'', ''last_ok_at'', ''last_error'',
        ''consecutive_failures'', ''unresolved_actions''])]"

definition create_tables :: "sqlite_db \<Rightarrow> sqlite_db" where
  "create_tables d = d\<lparr>sq_tables := sq_tables d
     @ map (\<lambda>(t, cs). (t, \<lparr>tb_columns = cs, tb_rows = []\<rparr>)) (filter (\<lambda>(t, cs). t \<notin> fst ` set (sq_tables d)) SCHEMA)\<rparr>"

definition open_database :: "sqlite_db \<Rightarrow> migration_error + sqlite_db" where
  "open_database d = migrate (create_tables d)"

section \<open>Lemmas\<close>

text \<open>The same program, which looks at the table again at every column.\<close>

fun run_now :: "instr list \<Rightarrow> sqlite_db \<Rightarrow> migration_error + sqlite_db" where
  "run_now [] d = Inr d"
| "run_now (Read t # is) d = run_now is d"
| "run_now (Add g t c v # is) d = bindE (add_missing (table_info t d) g t c v d) (run_now is)"

fun added :: "instr list \<Rightarrow> (string \<times> string \<times> cell) list" where
  "added [] = []"
| "added (Read t # is) = added is"
| "added (Add g t c v # is) = (t, c, v) # added is"

definition names :: "instr list \<Rightarrow> (string \<times> string) list" where
  "names is = map (\<lambda>(t, c, v). (t, c)) (added is)"

lemma names_simps [simp]:
  "names [] = []" "names (Read t # is) = names is" "names (Add g t c v # is) = (t, c) # names is"
  by (simp_all add: names_def)

text \<open>Every addition is of a table that was read before.\<close>

fun reads_first :: "string list \<Rightarrow> instr list \<Rightarrow> bool" where
  "reads_first seen [] \<longleftrightarrow> True"
| "reads_first seen (Read t # is) \<longleftrightarrow> reads_first (t # seen) is"
| "reads_first seen (Add g t c v # is) \<longleftrightarrow> t \<in> set seen \<and> reads_first seen is"

lemma program_ok: "distinct (names MIGRATION)" "reads_first [] MIGRATION"
  by code_simp+

lemma map_of_update: "map_of (map (\<lambda>(n, x). (n, if n = t then f x else x)) xs) u
    = (if u = t then map_option f (map_of xs u) else map_of xs u)"
  by (induction xs) auto

lemma add_column_info:
  assumes "add_column t c v d = Inr d'"
  shows "table_info u d' = (if u = t then table_info t d @ [c] else table_info u d)"
  using assms by (auto simp: add_column_def table_info_def map_of_update widen_def split: option.splits if_splits)

lemma add_missing_info:
  assumes "add_missing cs g t c v d = Inr d'"
  shows "table_info u d' = table_info u d \<or> (u = t \<and> table_info u d' = table_info t d @ [c] \<and> \<not> (g \<and> cs = []))"
  using assms add_column_info[of t c v d d' u] by (auto simp: add_missing_def split: if_splits)

text \<open>The tables asked for by name before they are altered.\<close>

definition guarded :: "string \<Rightarrow> bool" where
  "guarded t \<longleftrightarrow> t \<noteq> ''projects'' \<and> t \<noteq> ''bug_reports''"

fun guards_ok :: "instr list \<Rightarrow> bool" where
  "guards_ok [] \<longleftrightarrow> True"
| "guards_ok (Read t # is) \<longleftrightarrow> guards_ok is"
| "guards_ok (Add g t c v # is) \<longleftrightarrow> g = guarded t \<and> guards_ok is"

lemma program_guards: "guards_ok MIGRATION"
  by code_simp

text \<open>A variable still tells what the rest of the program asks it.\<close>

definition fresh_vars :: "column_vars \<Rightarrow> instr list \<Rightarrow> sqlite_db \<Rightarrow> bool" where
  "fresh_vars vars is d \<longleftrightarrow> (\<forall>t cs. vars t = Some cs \<longrightarrow>
     (\<forall>c. (t, c) \<in> set (names is) \<longrightarrow> (c \<in> set cs \<longleftrightarrow> c \<in> set (table_info t d)))
     \<and> (guarded t \<longrightarrow> (cs = [] \<longleftrightarrow> table_info t d = [])))"

lemma fresh_after_add:
  assumes "fresh_vars vars (Add g t c v # is) d" and "distinct (names (Add g t c v # is))"
    and "vars t = Some cs" and "g = guarded t" and "add_missing cs g t c v d = Inr d'"
  shows "fresh_vars vars is d'"
  unfolding fresh_vars_def
proof (intro allI impI)
  fix u us assume u: "vars u = Some us"
  note f = assms(1)[unfolded fresh_vars_def, rule_format, OF u]
  show "(\<forall>c. (u, c) \<in> set (names is) \<longrightarrow> (c \<in> set us \<longleftrightarrow> c \<in> set (table_info u d')))
     \<and> (guarded u \<longrightarrow> (us = [] \<longleftrightarrow> table_info u d' = []))"
  proof (cases "table_info u d' = table_info u d")
    case True
    then show ?thesis using f by auto
  next
    case False
    then have "u = t" "table_info u d' = table_info t d @ [c]" "\<not> (g \<and> cs = [])"
      using add_missing_info[OF assms(5), of u] by auto
    then show ?thesis using f u assms(2,3,4) by auto
  qed
qed

lemma run_instrs_now:
  assumes "fresh_vars vars is d" and "distinct (names is)" and "guards_ok is" and "reads_first seen is"
    and "\<And>t. t \<in> set seen \<Longrightarrow> vars t \<noteq> None"
  shows "run_instrs is vars d = run_now is d"
  using assms
proof (induction "is" arbitrary: vars d seen)
  case (Cons i "is")
  show ?case
  proof (cases i)
    case (Read t)
    have "fresh_vars (vars(t \<mapsto> table_info t d)) is d"
      using Cons.prems(1) Read by (auto simp: fresh_vars_def)
    then show ?thesis
      using Read Cons.prems by (auto intro!: Cons.IH[of _ _ "t # seen"])
  next
    case (Add g t c v)
    then obtain cs where cs: "vars t = Some cs" using Cons.prems(4,5) by fastforce
    have g: "g = guarded t" using Cons.prems(3) Add by simp
    have "add_missing cs g t c v d = add_missing (table_info t d) g t c v d"
      using Cons.prems(1) cs g unfolding Add fresh_vars_def by (auto simp: add_missing_def)
    moreover have "run_instrs is vars d' = run_now is d'" if "add_missing cs g t c v d = Inr d'" for d'
      using fresh_after_add[of vars g t c v "is" d cs d', OF _ _ cs g that] Cons.prems Add by (intro Cons.IH[of _ _ seen]) auto
    ultimately show ?thesis using Add cs by (simp add: bindE_def split: sum.split)
  qed
qed simp

lemma migrate_now: "migrate d = bindE (run_now MIGRATION d) external_index"
  using run_instrs_now[of Map.empty MIGRATION d "[]"] program_ok program_guards
  by (simp add: migrate_def fresh_vars_def)

text \<open>A column the migration has nothing more to do for.\<close>

definition settled :: "bool \<Rightarrow> string \<Rightarrow> string \<Rightarrow> sqlite_db \<Rightarrow> bool" where
  "settled g t c d \<longleftrightarrow> g \<and> table_info t d = [] \<or> c \<in> set (table_info t d)"

fun all_settled :: "instr list \<Rightarrow> sqlite_db \<Rightarrow> bool" where
  "all_settled [] d \<longleftrightarrow> True"
| "all_settled (Read t # is) d \<longleftrightarrow> all_settled is d"
| "all_settled (Add g t c v # is) d \<longleftrightarrow> settled g t c d \<and> all_settled is d"

lemma settled_noop: "settled g t c d \<Longrightarrow> add_missing (table_info t d) g t c v d = Inr d"
  by (simp add: settled_def add_missing_def)

lemma settled_after: "add_missing (table_info t d) g t c v d = Inr d' \<Longrightarrow> settled g t c d'"
  using add_column_info[of t c v d d' t] by (auto simp: settled_def add_missing_def split: if_splits)

lemma settled_kept:
  assumes "add_missing (table_info t d) g t c v d = Inr d'" and "settled h u e d" and "g = guarded t" and "h = guarded u"
  shows "settled h u e d'"
  using assms add_missing_info[OF assms(1), of u] by (auto simp: settled_def)

lemma run_settled: "all_settled is d \<Longrightarrow> run_now is d = Inr d"
  by (induction "is" d rule: all_settled.induct) (simp_all add: settled_noop)

lemma run_now_settles:
  assumes "run_now is d = Inr d'" and "guards_ok is" and "guards_ok js" and "all_settled js d"
  shows "all_settled is d' \<and> all_settled js d'"
  using assms
proof (induction "is" arbitrary: js d)
  case (Cons i "is")
  show ?case
  proof (cases i)
    case (Read t)
    then show ?thesis using Cons by simp
  next
    case (Add g t c v)
    then obtain d1 where d1: "add_missing (table_info t d) g t c v d = Inr d1" "run_now is d1 = Inr d'"
      using Cons.prems(1) by (auto simp: bindE_Inr)
    have "all_settled ks d1" if "guards_ok ks" "all_settled ks d" for ks
      using that by (induction ks rule: guards_ok.induct) (use settled_kept[OF d1(1)] Cons.prems(2) Add in auto)
    then have "all_settled (Add g t c v # js) d1" "guards_ok (Add g t c v # js)"
      using settled_after[OF d1(1)] Cons.prems Add by simp_all
    then show ?thesis using Cons.IH[OF d1(2)] Cons.prems(2) Add by fastforce
  qed
qed simp

lemma run_now_append: "run_now (xs @ ys) d = bindE (run_now xs d) (run_now ys)"
  by (induction xs d rule: run_now.induct) (auto simp: bindE_def split: sum.split)

lemma run_now_again: "guards_ok is \<Longrightarrow> run_now is d = Inr d' \<Longrightarrow> run_now is d' = Inr d'"
  using run_now_settles[of "is" d d' "[]"] by (simp add: run_settled)

lemma guards_take: "guards_ok is \<Longrightarrow> guards_ok (take k is)"
proof (induction "is" arbitrary: k)
  case (Cons i "is")
  then show ?case by (cases i; cases k) auto
qed simp

text \<open>What the program adds to a table.\<close>

definition missing :: "instr list \<Rightarrow> string \<Rightarrow> table \<Rightarrow> (string \<times> cell) list" where
  "missing is t tb = map snd (filter (\<lambda>(u, c, v). u = t \<and> c \<notin> set (tb_columns tb)) (added is))"

lemma run_now_table:
  assumes "run_now is d = Inr d'" and "distinct (names is)" and "map_of (sq_tables d) t = Some tb" and "tb_columns tb \<noteq> []"
  shows "map_of (sq_tables d') t = Some (widen (missing is t tb) tb)"
  using assms
proof (induction "is" arbitrary: d tb)
  case Nil
  then show ?case by (simp add: missing_def widen_def)
next
  case (Cons i "is")
  show ?case
  proof (cases i)
    case (Read u)
    then show ?thesis using Cons by (simp add: missing_def)
  next
    case (Add g u c v)
    then obtain d1 where d1: "add_missing (table_info u d) g u c v d = Inr d1" "run_now is d1 = Inr d'"
      using Cons.prems(1) by (auto simp: bindE_Inr)
    have dist: "distinct (names is)" "(u, c) \<notin> set (names is)" using Cons.prems(2) Add by auto
    show ?thesis
    proof (cases "u = t \<and> c \<notin> set (tb_columns tb)")
      case True
      then have t1: "map_of (sq_tables d1) t = Some (widen [(c, v)] tb)"
        using d1(1) Cons.prems(3,4) by (auto simp: add_missing_def table_info_def add_column_def map_of_update)
      have "missing is t (widen [(c, v)] tb) = missing is t tb"
        using dist(2) True unfolding missing_def names_def widen_def
        by (intro arg_cong[of _ _ "map snd"] filter_cong) force+
      then show ?thesis
        using Cons.IH[OF d1(2) dist(1) t1] True Add by (simp add: missing_def widen_def)
    next
      case False
      then have "map_of (sq_tables d1) t = Some tb"
        using d1(1) Cons.prems(3) by (auto simp: add_missing_def table_info_def add_column_def map_of_update split: option.splits if_splits)
      then show ?thesis
        using Cons.IH[OF d1(2) dist(1) _ Cons.prems(4)] False Add by (auto simp: missing_def)
    qed
  qed
qed

lemma reads_take: "reads_first seen is \<Longrightarrow> reads_first seen (take k is)"
proof (induction "is" arbitrary: k seen)
  case (Cons i "is")
  then show ?case by (cases i; cases k) auto
qed simp

lemma distinct_names_take: "distinct (names is) \<Longrightarrow> distinct (names (take k is))"
proof -
  have "added (xs @ ys) = added xs @ added ys" for xs ys by (induction xs rule: added.induct) auto
  then have "names is = names (take k is) @ names (drop k is)"
    by (metis append_take_drop_id map_append names_def)
  then show "distinct (names is) \<Longrightarrow> distinct (names (take k is))" by (metis distinct_append)
qed

lemma run_prefix: "run_instrs (take k MIGRATION) Map.empty d = run_now (take k MIGRATION) d"
  by (rule run_instrs_now[where seen = "[]"])
    (simp_all add: fresh_vars_def program_ok program_guards guards_take reads_take distinct_names_take)

lemma index_table_info:
  assumes "external_index d = Inr d'"
  shows "sq_tables d' = sq_tables d" "external_index d' = Inr d'"
  using assms by (auto simp: external_index_def table_info_def split: if_splits)

text \<open>The script and the migration agree: a new database has nothing to migrate.\<close>

lemma fresh_database_current:
  "open_database \<lparr>sq_tables = [], sq_indexes = []\<rparr>
     = Inr \<lparr>sq_tables = map (\<lambda>(t, cs). (t, \<lparr>tb_columns = cs, tb_rows = []\<rparr>)) SCHEMA, sq_indexes = [''idx_bug_reports_external'']\<rparr>"
  by code_simp

text \<open>The tables' names, which only the script changes.\<close>

lemma add_missing_names: "add_missing cs g t c v d = Inr d' \<Longrightarrow> map fst (sq_tables d') = map fst (sq_tables d)"
  by (auto simp: add_missing_def add_column_def comp_def case_prod_beta split: if_splits option.splits)

lemma run_now_names: "run_now is d = Inr d' \<Longrightarrow> map fst (sq_tables d') = map fst (sq_tables d)"
  by (induction "is" d rule: run_now.induct) (auto simp: bindE_Inr dest: add_missing_names)

lemma create_tables_done:
  assumes "fst ` set SCHEMA \<subseteq> fst ` set (sq_tables d)"
  shows "create_tables d = d"
proof -
  have "filter (\<lambda>(t, cs). t \<notin> fst ` set (sq_tables d)) SCHEMA = []"
    unfolding filter_empty_conv using assms by (metis (no_types, lifting) case_prod_beta image_eqI subsetD)
  then show ?thesis by (simp add: create_tables_def)
qed

lemma created_all: "fst ` set SCHEMA \<subseteq> fst ` set (sq_tables (create_tables d))"
proof
  fix t assume "t \<in> fst ` set SCHEMA"
  then obtain cs where cs: "(t, cs) \<in> set SCHEMA" by auto
  show "t \<in> fst ` set (sq_tables (create_tables d))"
  proof (cases "t \<in> fst ` set (sq_tables d)")
    case True
    then show ?thesis by (simp add: create_tables_def image_Un)
  next
    case False
    then have "(t, \<lparr>tb_columns = cs, tb_rows = []\<rparr>) \<in> set (sq_tables (create_tables d))"
      using cs by (auto simp: create_tables_def)
    then show ?thesis by (rule rev_image_eqI) simp
  qed
qed

lemma created_kept: "map_of (sq_tables d) t = Some tb \<Longrightarrow> map_of (sq_tables (create_tables d)) t = Some tb"
  by (simp add: create_tables_def map_add_Some_iff)

section \<open>Properties\<close>

text \<open>
  C19.  A migration can be interrupted.  A process that dies after any number of its statements, or after
  all of them, leaves a database which the next start brings to the very state an uninterrupted start
  would have reached, and a finished migration changes nothing when it runs again.  On the way every
  table keeps its columns and its rows, each row followed by the defaults of the columns its table lacked.
\<close>

theorem migration_resumes:
  "bindE (run_instrs (take k MIGRATION) Map.empty (create_tables d)) open_database = open_database d
   \<and> (case open_database d of Inl e \<Rightarrow> True
      | Inr d' \<Rightarrow> open_database d' = Inr d' \<and> (\<forall>t. case map_of (sq_tables d) t of None \<Rightarrow> True
          | Some tb \<Rightarrow> if tb_columns tb = [] then True
              else map_of (sq_tables d') t = Some (widen (missing MIGRATION t tb) tb)))"
proof
  let ?d = "create_tables d"
  have "run_now MIGRATION ?d = bindE (run_now (take k MIGRATION) ?d) (run_now (drop k MIGRATION))"
    by (metis append_take_drop_id run_now_append)
  moreover have "run_now MIGRATION d' = run_now (drop k MIGRATION) d'" if "run_now (take k MIGRATION) ?d = Inr d'" for d'
    using run_now_again[OF guards_take[OF program_guards] that] run_now_append[of "take k MIGRATION" "drop k MIGRATION" d']
    by simp
  moreover have "create_tables d' = d'" if "run_now (take k MIGRATION) ?d = Inr d'" for d'
    using created_all[of d] run_now_names[OF that] by (metis create_tables_done list.set_map)
  ultimately show "bindE (run_instrs (take k MIGRATION) Map.empty ?d) open_database = open_database d"
    by (cases "run_now (take k MIGRATION) ?d") (simp_all add: run_prefix migrate_now open_database_def)
next
  show "case open_database d of Inl e \<Rightarrow> True
      | Inr d' \<Rightarrow> open_database d' = Inr d' \<and> (\<forall>t. case map_of (sq_tables d) t of None \<Rightarrow> True
          | Some tb \<Rightarrow> if tb_columns tb = [] then True
              else map_of (sq_tables d') t = Some (widen (missing MIGRATION t tb) tb))"
  proof (cases "open_database d")
    case (Inr d'')
    then obtain d' where d': "run_now MIGRATION (create_tables d) = Inr d'" "external_index d' = Inr d''"
      by (auto simp: migrate_now open_database_def bindE_Inr)
    have tables: "sq_tables d'' = sq_tables d'" using index_table_info[OF d'(2)] by simp
    have settled: "all_settled is d'' = all_settled is d'" for "is"
      by (induction "is" rule: guards_ok.induct) (simp_all add: settled_def table_info_def tables)
    have "all_settled MIGRATION d'" using run_now_settles[OF d'(1) program_guards, of "[]"] by simp
    moreover have "create_tables d'' = d''"
      using created_all[of d] run_now_names[OF d'(1)] tables by (metis create_tables_done list.set_map)
    ultimately have "open_database d'' = Inr d''"
      using index_table_info[OF d'(2)] by (simp add: open_database_def migrate_now run_settled settled)
    then show ?thesis
      using Inr run_now_table[OF d'(1) program_ok(1)] created_kept tables by (auto split: option.split)
  qed simp
qed

end
