(* ===== verification/Prompts.thy ===== *)
theory Prompts
  imports Local_Stages Open_Pr
begin

text \<open>
  \<open>llm/prompts.py\<close>: the messages the stages send, and \<open>_pr_body\<close> of \<open>git_ops/pull_request.py\<close>.  The stages
  and the open-pr call take these texts as arguments.  \<open>str_json\<close> is how an f-string shows a JSON value that
  is no string, \<open>fixed2\<close> the format \<open>.2f\<close>.
\<close>

section \<open>Templates\<close>

definition unlines :: "string list \<Rightarrow> string" where
  "unlines ls = join_with [CHR 0x0A] ls"

text \<open>A template by lines, as \<open>str.format\<close> reads it.\<close>

datatype part = Lit string | Field string

fun fill_part :: "(string \<times> string) list \<Rightarrow> part \<Rightarrow> string" where
  "fill_part env (Lit s) = s"
| "fill_part env (Field n) = (case map_of env n of None \<Rightarrow> [] | Some v \<Rightarrow> v)"

definition fill :: "part list list \<Rightarrow> (string \<times> string) list \<Rightarrow> string" where
  "fill template env = unlines (map (\<lambda>l. concat (map (fill_part env) l)) template)"

text \<open>A message: its role and its content.\<close>

type_synonym message = "string \<times> string"

definition or_not_provided :: "string option \<Rightarrow> string" where
  "or_not_provided v = (if str_set v then the v else ''Not provided'')"

definition steps_text :: "nat \<Rightarrow> string list option \<Rightarrow> string" where
  "steps_text indent steps =
     (case steps of None \<Rightarrow> ''Not provided''
      | Some xs \<Rightarrow> unlines (map (\<lambda>(i, x). replicate indent (CHR '' '') @ digits i @ ''. '' @ x) (zip [1..<Suc (length xs)] xs)))"

definition severity_text :: "report \<Rightarrow> string" where
  "severity_text r = (case r_severity r of None \<Rightarrow> ''None'' | Some v \<Rightarrow> v)"

section \<open>Triage\<close>

definition TRIAGE_SYSTEM_PROMPT :: string where
  "TRIAGE_SYSTEM_PROMPT = unlines
    [''You are a bug triage specialist. Analyze bug reports and classify them.'',
     ''Respond with ONLY a JSON object, no other text.'']"

definition TRIAGE_USER_TEMPLATE :: "part list list" where
  "TRIAGE_USER_TEMPLATE =
    [[Lit ''Analyze this bug report and provide a triage classification.''],
     [],
     [Lit ''Title: '', Field ''title''],
     [Lit ''Description: '', Field ''description''],
     [Lit ''Steps to Reproduce: '', Field ''steps_to_reproduce''],
     [Lit ''Expected Behavior: '', Field ''expected_behavior''],
     [Lit ''Actual Behavior: '', Field ''actual_behavior''],
     [Lit ''Reporter Severity: '', Field ''severity''],
     [Lit ''Feature Area: '', Field ''feature_area''],
     [Lit ''Environment: '', Field ''environment''],
     [],
     [Lit ''Respond with a JSON object:''],
     [Lit ''{''],
     [Lit ''  \"severity\": \"critical|high|medium|low\",''],
     [Lit ''  \"category\": \"ui|api|data|auth|performance|infrastructure|other\",''],
     [Lit ''  \"feature_area\": \"string or null\",''],
     [Lit ''  \"summary\": \"one-sentence summary of the bug\",''],
     [Lit ''  \"needs_clarification\": true or false,''],
     [Lit ''  \"clarification_questions\": [\"question1\", \"question2\"],''],
     [Lit ''  \"confidence\": 0.0 to 1.0''],
     [Lit ''}'']]"

definition format_triage_prompt :: "report \<Rightarrow> message list" where
  "format_triage_prompt r =
     [(''system'', TRIAGE_SYSTEM_PROMPT),
      (''user'', fill TRIAGE_USER_TEMPLATE
        [(''title'', r_title r), (''description'', r_description r),
         (''steps_to_reproduce'', steps_text 2 (r_steps_to_reproduce r)),
         (''expected_behavior'', or_not_provided (r_expected_behavior r)),
         (''actual_behavior'', or_not_provided (r_actual_behavior r)), (''severity'', severity_text r),
         (''feature_area'', or_not_provided (r_feature_area r)), (''environment'', or_not_provided (r_environment r))])]"

section \<open>Localization\<close>

definition LOCALIZE_SYSTEM_PROMPT :: string where
  "LOCALIZE_SYSTEM_PROMPT = unlines
    [''You are a code localization specialist. Given a bug report and a repository map, identify which source files are most likely related to the bug.'',
     ''Respond with ONLY a JSON object, no other text.'']"

definition LOCALIZE_USER_TEMPLATE :: "part list list" where
  "LOCALIZE_USER_TEMPLATE =
    [[Lit ''Analyze this bug report and identify the most relevant source files from the repository.''],
     [],
     [Lit ''## Bug Report''],
     [Lit ''Title: '', Field ''title''],
     [Lit ''Description: '', Field ''description''],
     [Lit ''Severity: '', Field ''severity''],
     [Lit ''Feature Area: '', Field ''feature_area''],
     [Field ''triage_summary_section''],
     [Lit ''## Repository Map''],
     [Field ''repo_map''],
     [],
     [Lit ''Respond with a JSON object:''],
     [Lit ''{''],
     [Lit ''  \"candidate_files\": [''],
     [Lit ''    {\"path\": \"src/example.py\", \"relevance\": 0.9, \"reason\": \"explanation\"},''],
     [Lit ''    {\"path\": \"src/other.py\", \"relevance\": 0.7, \"reason\": \"explanation\"}''],
     [Lit ''  ],''],
     [Lit ''  \"confidence\": 0.0 to 1.0''],
     [Lit ''}'']]"

definition LOCALIZE_CONFIRM_TEMPLATE :: "part list list" where
  "LOCALIZE_CONFIRM_TEMPLATE =
    [[Lit ''Review these source file contents and refine the bug localization to specific functions and line ranges.''],
     [],
     [Lit ''## Bug Report''],
     [Lit ''Title: '', Field ''title''],
     [Lit ''Description: '', Field ''description''],
     [Field ''triage_summary_section''],
     [Lit ''## Source Files''],
     [Field ''file_contents''],
     [],
     [Lit ''Respond with a JSON object:''],
     [Lit ''{''],
     [Lit ''  \"localizations\": [''],
     [Lit ''    {\"file\": \"src/example.py\", \"function\": \"handle_submit\", \"line_range\": [42, 67], \"confidence\": 0.85, \"reason\": \"explanation\"}''],
     [Lit ''  ],''],
     [Lit ''  \"root_cause_hypothesis\": \"brief description of the likely root cause\"''],
     [Lit ''}'']]"

definition triage_section :: "(json \<Rightarrow> string) \<Rightarrow> json option \<Rightarrow> string" where
  "triage_section str_json summary =
     (case summary of None \<Rightarrow> []
      | Some j \<Rightarrow> if truthy j then [CHR 0x0A] @ ''Triage Summary: '' @ py_str str_json j @ [CHR 0x0A] else [])"

definition format_localize_prompt :: "(json \<Rightarrow> string) \<Rightarrow> report \<Rightarrow> string \<Rightarrow> json option \<Rightarrow> message list" where
  "format_localize_prompt str_json r repo_map_text summary =
     [(''system'', LOCALIZE_SYSTEM_PROMPT),
      (''user'', fill LOCALIZE_USER_TEMPLATE
        [(''title'', r_title r), (''description'', r_description r), (''severity'', severity_text r),
         (''feature_area'', or_not_provided (r_feature_area r)),
         (''triage_summary_section'', triage_section str_json summary), (''repo_map'', repo_map_text)])]"

definition fenced :: "string \<times> string \<Rightarrow> string" where
  "fenced = (\<lambda>(path, content). unlines [''### '' @ path, ''```'', content, ''```''])"

definition format_localize_confirm_prompt ::
  "(json \<Rightarrow> string) \<Rightarrow> report \<Rightarrow> (string \<times> string) list \<Rightarrow> json option \<Rightarrow> message list" where
  "format_localize_confirm_prompt str_json r file_contents summary =
     [(''system'', LOCALIZE_SYSTEM_PROMPT),
      (''user'', fill LOCALIZE_CONFIRM_TEMPLATE
        [(''title'', r_title r), (''description'', r_description r),
         (''triage_summary_section'', triage_section str_json summary),
         (''file_contents'', concat (map (\<lambda>f. [CHR 0x0A] @ fenced f @ [CHR 0x0A]) file_contents))])]"

section \<open>Fix proposals\<close>

definition FIX_PROPOSAL_SYSTEM_PROMPT :: string where
  "FIX_PROPOSAL_SYSTEM_PROMPT = unlines
    [''You are an expert software engineer proposing a bug fix.'',
     [],
     ''Given a bug report, a localization analysis identifying candidate source'',
     ''files and functions, and the current contents of those files, produce a'',
     ''fix proposal.'',
     [],
     ''Respond with ONLY a JSON object, no prose, no code fences. The JSON must'',
     ''match exactly this schema:'',
     [],
     ''{'',
     ''  \"root_cause\": \"One-sentence explanation of the underlying defect.\",'',
     ''  \"explanation\": \"Multi-sentence explanation of what the fix does and why.\",'',
     ''  \"diff\": \"Unified diff (git format) of the proposed changes. Use a/ and b/ prefixes, include at least 3 context lines, and do not include file-creation stanzas unless adding a new file.\",'',
     ''  \"confidence\": 0.0,'',
     ''  \"files_changed\": [\"path/one.py\", \"path/two.py\"]'',
     ''}'',
     [],
     ''Hard constraints:'',
     ''- confidence must be a real float in [0.0, 1.0] that reflects your actual'',
     ''  certainty. Do not default to 1.0.'',
     ''- diff must be a non-empty unified diff referencing only the files listed'',
     ''  in files_changed.'',
     ''- Do not propose speculative changes in files outside the localization'',
     ''  evidence unless the root cause strictly requires it; if you do, mention'',
     ''  this in the explanation.'',
     ''- Prefer minimal diffs. Do not reformat unrelated code.'',
     ''- If the evidence is insufficient to propose a concrete fix, return a'',
     ''  valid JSON object with confidence <= 0.2 and a diff field describing'',
     ''  the investigation needed as a comment-only diff (no code changes).'']"

definition FIX_PROPOSAL_USER_TEMPLATE :: "part list list" where
  "FIX_PROPOSAL_USER_TEMPLATE =
    [[Lit ''Bug report:''],
     [Lit ''  Title: '', Field ''title''],
     [Lit ''  Description: '', Field ''description''],
     [Lit ''  Steps to reproduce: '', Field ''steps''],
     [Lit ''  Expected: '', Field ''expected''],
     [Lit ''  Actual: '', Field ''actual''],
     [Lit ''  Severity (reporter): '', Field ''severity''],
     [],
     [Lit ''Localization evidence (from Stage 3):''],
     [Field ''localization_evidence''],
     [],
     [Lit ''Candidate file contents:''],
     [Field ''file_bundles''],
     [],
     [Lit ''Produce the fix proposal JSON object described in the system prompt.'']]"

text \<open>\<open>for x in v\<close>: a dict gives its keys and a string its characters, none of which is a dict.\<close>

definition iterated :: "json \<Rightarrow> exn + json list" where
  "iterated v = (case v of JArr xs \<Rightarrow> Inr xs | JObj kvs \<Rightarrow> Inr (map (JStr \<circ> fst) kvs) | JStr s \<Rightarrow> Inr (map (\<lambda>c. JStr [c]) s)
     | _ \<Rightarrow> Inl (Exn ''TypeError'' ''not iterable''))"

definition first_truthy :: "json option list \<Rightarrow> json \<Rightarrow> json" where
  "first_truthy vs other = (case find opt_truthy vs of Some (Some j) \<Rightarrow> j | _ \<Rightarrow> other)"

definition labelled :: "(json \<Rightarrow> string) \<Rightarrow> string \<Rightarrow> json option \<Rightarrow> string" where
  "labelled str_json label v = (case v of None \<Rightarrow> [] | Some JNull \<Rightarrow> [] | Some j \<Rightarrow> label @ py_str str_json j)"

definition localization_line :: "(json \<Rightarrow> string) \<Rightarrow> (string \<times> json) list \<Rightarrow> string" where
  "localization_line str_json loc =
     ''  - '' @ py_str str_json (first_truthy [map_of loc ''file'', map_of loc ''path''] (JStr ''?''))
     @ (if opt_truthy (map_of loc ''function'') then ''  function='' @ py_str str_json (the (map_of loc ''function'')) else [])
     @ ''  line_range='' @ py_str str_json (first_truthy [map_of loc ''line_range''] (JArr []))
     @ labelled str_json ''  confidence='' (map_of loc ''confidence'')
     @ ''  reason='' @ py_str str_json (first_truthy [map_of loc ''reason''] (JStr []))"

definition candidate_line :: "(json \<Rightarrow> string) \<Rightarrow> (string \<times> json) list \<Rightarrow> string" where
  "candidate_line str_json cand =
     ''  - '' @ py_str str_json (first_truthy [map_of cand ''path'', map_of cand ''file''] (JStr ''?''))
     @ labelled str_json ''  relevance='' (map_of cand ''relevance'')
     @ ''  reason='' @ py_str str_json (first_truthy [map_of cand ''reason''] (JStr []))"

definition dict_lines :: "((string \<times> json) list \<Rightarrow> string) \<Rightarrow> json list \<Rightarrow> string list" where
  "dict_lines f xs = List.map_filter (\<lambda>x. case x of JObj kvs \<Rightarrow> Some (f kvs) | _ \<Rightarrow> None) xs"

definition dict_field :: "(string \<times> json) list \<Rightarrow> string \<Rightarrow> (string \<times> json) list" where
  "dict_field result key = (case map_of result key of Some (JObj kvs) \<Rightarrow> kvs | _ \<Rightarrow> [])"

definition evidence_lines :: "(json \<Rightarrow> string) \<Rightarrow> (string \<times> json) list \<Rightarrow> exn + string list" where
  "evidence_lines str_json result =
     (let pass1 = dict_field result ''pass1''; pass2 = dict_field result ''pass2'' in
      if opt_truthy (map_of pass2 ''localizations'') then
        map_sum id (\<lambda>xs. dict_lines (localization_line str_json) xs
            @ (if opt_truthy (map_of pass2 ''root_cause_hypothesis'')
               then [''  Root-cause hypothesis: '' @ py_str str_json (the (map_of pass2 ''root_cause_hypothesis''))] else []))
          (iterated (the (map_of pass2 ''localizations'')))
      else if opt_truthy (map_of pass1 ''candidate_files'') then
        map_sum id (dict_lines (candidate_line str_json)) (iterated (the (map_of pass1 ''candidate_files'')))
      else Inr [])"

definition format_localization_evidence :: "(json \<Rightarrow> string) \<Rightarrow> analysis option \<Rightarrow> exn + string" where
  "format_localization_evidence str_json a =
     (case a of None \<Rightarrow> Inr ''  (none available)''
      | Some an \<Rightarrow>
          (case a_result an of
             Some (JObj result) \<Rightarrow>
               map_sum id (\<lambda>ls. if ls = [] then ''  (no candidate files returned)'' else unlines ls) (evidence_lines str_json result)
           | _ \<Rightarrow> Inr ''  (localization result missing or malformed)''))"

definition format_file_bundles :: "(string \<times> string) list \<Rightarrow> string" where
  "format_file_bundles files =
     (if files = [] then ''  (no file contents provided)'' else join_with [CHR 0x0A, CHR 0x0A] (map fenced files))"

text \<open>The cache marker only changes how the system message is wrapped, not its text.\<close>

definition format_fix_proposal_prompt ::
  "(json \<Rightarrow> string) \<Rightarrow> report \<Rightarrow> analysis option \<Rightarrow> (string \<times> string) list \<Rightarrow> exn + message list" where
  "format_fix_proposal_prompt str_json r a files =
     map_sum id (\<lambda>evidence.
       [(''system'', FIX_PROPOSAL_SYSTEM_PROMPT),
        (''user'', fill FIX_PROPOSAL_USER_TEMPLATE
          [(''title'', r_title r), (''description'', r_description r), (''steps'', steps_text 4 (r_steps_to_reproduce r)),
           (''expected'', or_not_provided (r_expected_behavior r)), (''actual'', or_not_provided (r_actual_behavior r)),
           (''severity'', severity_text r), (''localization_evidence'', evidence), (''file_bundles'', format_file_bundles files)])])
     (format_localization_evidence str_json a)"

section \<open>The pull request\<close>

definition produced_by :: "analysis option \<Rightarrow> string" where
  "produced_by a =
     (case a of None \<Rightarrow> ''unknown''
      | Some an \<Rightarrow>
          (case a_llm_provider an of None \<Rightarrow> ''unknown''
           | Some provider \<Rightarrow>
               if provider = [] then ''unknown''
               else (if provider = ''ollama'' then ''local'' else ''cloud'') @ '' tier, `'' @ provider @ ''/''
                 @ (if str_set (a_llm_model an) then the (a_llm_model an) else ''?'') @ ''`''))"

definition or_none_recorded :: "string option \<Rightarrow> string" where
  "or_none_recorded v = (if str_set v then the v else ''(none recorded)'')"

definition pr_text :: "(pyfloat \<Rightarrow> string) \<Rightarrow> db \<Rightarrow> report \<Rightarrow> fix_proposal \<Rightarrow> string" where
  "pr_text fixed2 d r f =
     (let files = (case f_files_changed f of None \<Rightarrow> [] | Some xs \<Rightarrow> xs) in
      unlines
        ([''Bugalizer report `'' @ r_id r @ ''`: '' @ r_title r, [], ''## Root cause'', or_none_recorded (f_root_cause f), [],
          ''## Explanation'', or_none_recorded (f_explanation f), [],
          (case f_confidence f of None \<Rightarrow> ''**Confidence:** unknown'' | Some c \<Rightarrow> ''**Confidence:** '' @ fixed2 c), [],
          ''## Files changed'']
         @ (if files = [] then [''(none listed)''] else map (\<lambda>p. ''- `'' @ p @ ''`'') files)
         @ [[], ''**Produced by:** '' @ produced_by (fix_analysis_for_proposal f d), ''**Fix proposal:** `'' @ f_id f @ ''`'', [],
            ''---''] @ [PR_BODY_FOOTER]))"

text \<open>The open-pr call caps the text it is given.\<close>

definition pr_body :: "(pyfloat \<Rightarrow> string) \<Rightarrow> db \<Rightarrow> report \<Rightarrow> fix_proposal \<Rightarrow> string" where
  "pr_body fixed2 d r f = cap_body (pr_text fixed2 d r f)"

section \<open>Lemmas\<close>

text \<open>A value of a template's field is in the text, whole.\<close>

lemma in_concat: "x \<in> set xs \<Longrightarrow> \<exists>pre post. concat xs = pre @ x @ post"
  by (metis append.assoc concat.simps(2) concat_append split_list)

lemma in_join: "x \<in> set xs \<Longrightarrow> \<exists>pre post. join_with sep xs = pre @ x @ post"
proof (induction xs)
  case (Cons y xs)
  show ?case
  proof (cases "xs = []")
    case True
    then show ?thesis using Cons.prems by (intro exI[of _ "[]"]) simp
  next
    case False
    show ?thesis
    proof (cases "x = y")
      case True
      then show ?thesis using False by (intro exI[of _ "[]"] exI[of _ "sep @ join_with sep xs"]) (simp add: join_with_Cons)
    next
      case neq: False
      then obtain pre post where "join_with sep xs = pre @ x @ post" using Cons by auto
      then show ?thesis using False by (intro exI[of _ "y @ sep @ pre"] exI[of _ post]) (simp add: join_with_Cons)
    qed
  qed
qed simp

lemma fill_shows:
  assumes "l \<in> set template" and "Field n \<in> set l" and "map_of env n = Some v"
  shows "\<exists>pre post. fill template env = pre @ v @ post"
proof -
  have "v \<in> set (map (fill_part env) l)" using assms(2,3) by (force intro: rev_image_eqI)
  from in_concat[OF this] obtain p q where l: "concat (map (fill_part env) l) = p @ v @ q" by blast
  have "concat (map (fill_part env) l) \<in> set (map (\<lambda>l. concat (map (fill_part env) l)) template)"
    using assms(1) by auto
  from in_join[OF this, of "[CHR 0x0A]"] obtain p' q' where "fill template env = p' @ (p @ v @ q) @ q'"
    unfolding fill_def unlines_def l by blast
  then show ?thesis by (intro exI[of _ "p' @ p"] exI[of _ "q @ q'"]) simp
qed

lemma bundle_shown: "f \<in> set files \<Longrightarrow> \<exists>pre post. format_file_bundles files = pre @ fenced f @ post"
  using in_join[of "fenced f" "map fenced files" "[CHR 0x0A, CHR 0x0A]"] by (auto simp: format_file_bundles_def)

section \<open>Properties\<close>

text \<open>
  Every prompt of the fix stage shows what it is about: the report's title and description, and each
  candidate file whole, in a fenced block under its path.
\<close>

theorem fix_prompt_shows_files:
  "case format_fix_proposal_prompt str_json r a files of
     Inl e \<Rightarrow> True
   | Inr messages \<Rightarrow> \<exists>user. messages = [(''system'', FIX_PROPOSAL_SYSTEM_PROMPT), (''user'', user)]
       \<and> (\<exists>pre post. user = pre @ r_title r @ post) \<and> (\<exists>pre post. user = pre @ r_description r @ post)
       \<and> (\<forall>f. if f \<in> set files then \<exists>pre post. user = pre @ fenced f @ post else True)"
proof (cases "format_localization_evidence str_json a")
  case (Inr ev)
  define env where "env = [(''title'', r_title r), (''description'', r_description r), (''steps'', steps_text 4 (r_steps_to_reproduce r)),
           (''expected'', or_not_provided (r_expected_behavior r)), (''actual'', or_not_provided (r_actual_behavior r)),
           (''severity'', severity_text r), (''localization_evidence'', ev), (''file_bundles'', format_file_bundles files)]"
  define user where "user = fill FIX_PROPOSAL_USER_TEMPLATE env"
  have shown: "\<exists>pre post. user = pre @ v @ post"
    if "list_ex (\<lambda>l. Field n \<in> set l) FIX_PROPOSAL_USER_TEMPLATE" "map_of env n = Some v" for n v
    using fill_shows that unfolding user_def list_ex_iff by blast
  have "\<exists>pre post. user = pre @ r_title r @ post" "\<exists>pre post. user = pre @ r_description r @ post"
    by (rule shown[of "''title''"], simp add: FIX_PROPOSAL_USER_TEMPLATE_def, simp add: env_def)
      (rule shown[of "''description''"], simp add: FIX_PROPOSAL_USER_TEMPLATE_def, simp add: env_def)
  moreover have "\<exists>pre post. user = pre @ fenced f @ post" if "f \<in> set files" for f
  proof -
    have "\<exists>pre post. user = pre @ format_file_bundles files @ post"
      by (rule shown[of "''file_bundles''"]) (simp add: FIX_PROPOSAL_USER_TEMPLATE_def, simp add: env_def)
    then show ?thesis using bundle_shown[OF that] by (metis append.assoc)
  qed
  ultimately show ?thesis
    using Inr by (simp add: format_fix_proposal_prompt_def user_def env_def)
qed (simp add: format_fix_proposal_prompt_def)

lemma footer_length: "length PR_BODY_FOOTER = 72"
  by (simp add: PR_BODY_FOOTER_def)

lemma join_ends: "\<exists>pre. join_with sep (ws @ [w]) = pre @ w"
proof (induction ws)
  case (Cons v ws)
  then obtain pre where "join_with sep (ws @ [w]) = pre @ w" by blast
  then have "join_with sep ((v # ws) @ [w]) = (v @ sep @ pre) @ w" by (simp add: join_with_Cons)
  then show ?case by blast
qed simp

text \<open>
  A pull request's text fits GitHub's bound and always ends with the notice that a human reviews and
  merges, however long the texts of the report and the proposal are.
\<close>

theorem pr_body_fits:
  "length (pr_body fixed2 d r f) \<le> MAX_PR_BODY_CHARS \<and> (\<exists>pre. pr_body fixed2 d r f = pre @ PR_BODY_FOOTER)"
proof -
  have "\<exists>pre. pr_text fixed2 d r f = pre @ PR_BODY_FOOTER"
    unfolding pr_text_def unlines_def Let_def append_assoc[symmetric] by (rule join_ends)
  moreover have "length (cap_body t) \<le> MAX_PR_BODY_CHARS" for t
    by (simp add: cap_body_def MAX_PR_BODY_CHARS_def footer_length)
  ultimately show ?thesis by (auto simp: pr_body_def cap_body_def)
qed

end
