(* ===== verification/Service.thy ===== *)
theory Service
  imports Projects_Api Fix_Text "HOL-Library.List_Lexorder" "HOL-Library.Char_ord"
begin

text \<open>
  \<open>main.py\<close> and the rest of \<open>config.py\<close>: what starts with the process, in which order, and what the
  public health endpoints tell.  Git, the Ollama host and the state of the worker are arguments.
\<close>

section \<open>The running revision\<close>

text \<open>\<open>run\<close> is \<open>git rev-parse HEAD\<close> in the checkout: the exit code and the output, or no process at all.\<close>

definition detect_revision :: "string \<Rightarrow> bool \<Rightarrow> (nat \<times> string) option \<Rightarrow> string option" where
  "detect_revision setting has_git run =
     (if strip setting \<noteq> [] then Some (strip setting)
      else if \<not> has_git then None
      else (case run of None \<Rightarrow> None
            | Some (code, output) \<Rightarrow> if code = 0 \<and> strip output \<noteq> [] then Some (strip output) else None))"

section \<open>Start\<close>

definition unknown_env_file_settings :: "string list \<Rightarrow> string list \<Rightarrow> string list" where
  "unknown_env_file_settings setting_names env_keys =
     (let upper = map to_upper; known = ''BUGALIZER_ENV_FILE'' # map (\<lambda>n. ''BUGALIZER_'' @ upper n) setting_names
      in sort (filter (\<lambda>k. starts_with ''BUGALIZER_'' (upper k) \<and> upper k \<notin> set known) env_keys))"

text \<open>
  The deployment's \<open>.env\<close>, read anew at every call.  \<open>dotenv\<close> is what the file parses to; \<open>None\<close> stands
  for any exception on the way.
\<close>

definition env_file_values ::
  "(string \<Rightarrow> string option) \<Rightarrow> (string \<Rightarrow> bool) \<Rightarrow> (string \<Rightarrow> (string \<times> string option) list option)
   \<Rightarrow> (string \<times> string option) list" where
  "env_file_values environ is_file dotenv =
     (let path = (case environ ''BUGALIZER_ENV_FILE'' of None \<Rightarrow> ''.env'' | Some p \<Rightarrow> p)
      in if path = [] \<or> \<not> is_file path then []
         else (case dotenv path of None \<Rightarrow> [] | Some kvs \<Rightarrow> kvs))"

text \<open>What the process logs and starts, in order.\<close>

datatype start_event =
    Auth_disabled | Unknown_settings "string list" | Claims_released "(bug_status \<times> nat) list"
  | Worker_started | Ingest_started | Triage_sync_started

definition lifespan_start :: "settings \<Rightarrow> string list \<Rightarrow> db \<Rightarrow> (start_event list \<times> db_error option) \<times> db" where
  "lifespan_start st unknown d =
     (let warnings = (if valid_api_keys st = [] then [Auth_disabled] else [])
            @ (if unknown \<noteq> [] then [Unknown_settings unknown] else [])
      in case release_orphaned_claims d of
           (Inl e, d1) \<Rightarrow> ((warnings, Some e), d1)
         | (Inr released, d1) \<Rightarrow>
             ((warnings @ (if released \<noteq> [] then [Claims_released released] else [])
                 @ (if queue_enabled st then [Worker_started] else [])
                 @ (if ingest_enabled st then [Ingest_started] else [])
                 @ (if triage_sync_enabled st then [Triage_sync_started] else []), None), d1))"

text \<open>The origins whose browsers may call the API: without any, the middleware is not there at all.\<close>

definition cors_middleware :: "settings \<Rightarrow> string list option" where
  "cors_middleware st = (if cors_origin_list st = [] then None else Some (cors_origin_list st))"

section \<open>Requests that do not validate\<close>

text \<open>An error of the framework is a dict; the answer keeps every key but the two that hold the input.\<close>

definition validation_error_without_input :: "(string \<times> json) list list \<Rightarrow> nat \<times> (string \<times> json) list list" where
  "validation_error_without_input errors = (422, map (filter (\<lambda>(k, v). k \<notin> {''input'', ''ctx''})) errors)"

section \<open>Health\<close>

text \<open>\<open>ping\<close> is \<open>SELECT 1\<close> on the calling thread's connection; any exception means no.\<close>

definition check_db :: "'e + unit \<Rightarrow> bool" where
  "check_db ping = (case ping of Inl e \<Rightarrow> False | Inr _ \<Rightarrow> True)"

definition check_ollama :: "settings \<Rightarrow> (string \<Rightarrow> nat option) \<Rightarrow> bool" where
  "check_ollama st http_get = (http_get (rstrip_slash (ollama_host st) @ ''/api/tags'') = Some 200)"

record health =
  he_status :: string
  he_revision :: "string option"
  he_auth_enabled :: bool
  he_github_configured :: bool
  he_ingest_enabled :: bool
  he_ingest_counts :: "(nat \<times> nat) option"
  he_triage_enabled :: bool
  he_user_keys :: bool
  he_triage_counts :: "(nat \<times> nat \<times> nat \<times> nat) option"
  he_database :: bool
  he_ollama :: bool
  he_worker :: "bool option"

text \<open>\<open>None\<close> for the counts stands for their nulls when the database does not answer.\<close>

definition readiness ::
  "settings \<Rightarrow> string option \<Rightarrow> bool \<Rightarrow> (string \<Rightarrow> nat option) \<Rightarrow> bool \<Rightarrow> db \<Rightarrow> nat \<times> health" where
  "readiness st revision db_ok http_get worker_alive d =
     (let ollama_ok = check_ollama st http_get;
          worker_ok = (if queue_enabled st then Some worker_alive else None)
      in (if db_ok then 200 else 503,
          \<lparr>he_status = (if db_ok \<and> ollama_ok \<and> worker_ok \<noteq> Some False then ''ok'' else ''degraded''),
           he_revision = revision, he_auth_enabled = (valid_api_keys st \<noteq> []),
           he_github_configured = (github_token_value st \<noteq> None), he_ingest_enabled = ingest_enabled st,
           he_ingest_counts = (if db_ok then Some (ingest_health_counts d) else None),
           he_triage_enabled = triage_sync_enabled st, he_user_keys = sonicgrid_user_keys st,
           he_triage_counts = (if db_ok then Some (triage_sync_health_counts d) else None),
           he_database = db_ok, he_ollama = ollama_ok, he_worker = worker_ok\<rparr>))"

definition liveness :: "string option \<Rightarrow> string \<times> string option" where
  "liveness revision = (''ok'', revision)"

section \<open>Properties\<close>

text \<open>The settings and the database with every secret and error code replaced by a sign that it is there.\<close>

definition mask_settings :: "settings \<Rightarrow> settings" where
  "mask_settings st = st\<lparr>api_keys := (if valid_api_keys st = [] then [] else ''set''),
     github_token := map_option masked (github_token st), anthropic_api_key := []\<rparr>"

definition mask_errors :: "db \<Rightarrow> db" where
  "mask_errors d = d\<lparr>ingest_state := map (\<lambda>i. i\<lparr>i_last_error := map_option (\<lambda>e. ''set'') (i_last_error i)\<rparr>) (ingest_state d),
     triage_sync_state := map (\<lambda>y. y\<lparr>y_last_error := map_option (\<lambda>e. ''set'') (y_last_error y)\<rparr>) (triage_sync_state d)\<rparr>"

text \<open>The public readiness answer depends on secrets and error codes only through their presence.\<close>

theorem health_shows_presence_only:
  "readiness (mask_settings st) revision db_ok http_get alive (mask_errors d) = readiness st revision db_ok http_get alive d"
proof -
  have "strip ''set'' \<noteq> []" "comma_list ''set'' \<noteq> []" by code_simp+
  then have keys: "valid_api_keys (mask_settings st) = [] \<longleftrightarrow> valid_api_keys st = []"
    by (simp add: mask_settings_def valid_api_keys_def)
  have "strip (masked v) = [] \<longleftrightarrow> strip v = []" for v
    using \<open>strip ''set'' \<noteq> []\<close> by (simp add: masked_def)
  then have token: "github_token_value (mask_settings st) = None \<longleftrightarrow> github_token_value st = None"
    by (simp add: mask_settings_def github_token_value_def Let_def split: option.split)
  have counts: "ingest_health_counts (mask_errors d) = ingest_health_counts d"
      "triage_sync_health_counts (mask_errors d) = triage_sync_health_counts d"
    by (simp_all add: ingest_health_counts_def triage_sync_health_counts_def mask_errors_def rowcount_def filter_map comp_def
        projects_with_triage_sync_def projects_with_ingest_def pr_check_error_count_def)
  have rest: "queue_enabled (mask_settings st) = queue_enabled st" "ollama_host (mask_settings st) = ollama_host st"
      "ingest_enabled (mask_settings st) = ingest_enabled st" "triage_sync_enabled (mask_settings st) = triage_sync_enabled st"
      "sonicgrid_user_keys (mask_settings st) = sonicgrid_user_keys st"
    by (simp_all add: mask_settings_def)
  show ?thesis by (simp add: readiness_def check_ollama_def keys token counts rest)
qed

end
