(* ===== verification/Event_Run.thy ===== *)
theory Event_Run
  imports Prelude
begin

text \<open>
  Machines whose next event is somebody else's choice (the event loop's): a partial step function and
  its runs over lists of events.  \<open>Async_Git\<close> and \<open>Worker_Cycle\<close> provide it.
\<close>

locale event_machine =
  fixes step :: "'ev \<Rightarrow> 's \<Rightarrow> 's option" and run :: "'ev list \<Rightarrow> 's \<Rightarrow> 's option"
  assumes run_Nil: "run [] s = Some s"
    and run_Cons: "run (ev # evs) s = Option.bind (step ev s) (run evs)"
begin

lemma run_first: "run (ev # evs) s = Some s' \<longleftrightarrow> (\<exists>u. step ev s = Some u \<and> run evs u = Some s')"
  by (simp add: run_Cons bind_eq_Some_conv)

text \<open>What every step keeps holds at the end of a run; with a cost per event, the runs are bounded.\<close>

lemma run_keeps:
  assumes "\<And>ev s s'. step ev s = Some s' \<Longrightarrow> P s \<Longrightarrow> P s'"
  shows "run evs s = Some s' \<Longrightarrow> P s \<Longrightarrow> P s'"
  by (induction evs arbitrary: s) (auto simp: run_Nil run_first intro: assms)

lemma run_cost:
  assumes keeps: "\<And>ev s s'. step ev s = Some s' \<Longrightarrow> P s \<Longrightarrow> P s'"
    and cost: "\<And>ev s s'. step ev s = Some s' \<Longrightarrow> P s \<Longrightarrow> f s' + a ev \<le> f s + (b ev :: nat)"
  shows "run evs s = Some s' \<Longrightarrow> P s \<Longrightarrow> f s' + sum_list (map a evs) \<le> f s + sum_list (map b evs)"
proof (induction evs arbitrary: s)
  case (Cons ev evs)
  then obtain u where u: "step ev s = Some u" "run evs u = Some s'" by (auto simp: run_first)
  with Cons.IH[OF u(2) keeps[OF u(1) Cons.prems(2)]] cost[OF u(1) Cons.prems(2)] show ?case by simp
qed (simp add: run_Nil)

text \<open>A flag that an event raises or a step carries on.\<close>

lemma run_flag:
  assumes "\<And>ev s s'. step ev s = Some s' \<Longrightarrow> Q s' \<longleftrightarrow> Q s \<or> ev \<in> E"
  shows "run evs s = Some s' \<Longrightarrow> Q s' \<longleftrightarrow> Q s \<or> (\<exists>ev\<in>set evs. ev \<in> E)"
  by (induction evs arbitrary: s) (auto simp: run_Nil run_first dest: assms)

end

end
