(* ===== verification/Async_Git.thy ===== *)
theory Async_Git
  imports Event_Run
begin

text \<open>
  The concurrent skeleton of \<open>git_ops/pull_request.py\<close>: \<open>_in_thread\<close>, which waits for blocking git
  work that a cancellation cannot stop, and the project lock under which \<open>open_pull_request\<close> runs all
  of it.  The event loop decides what happens next, so both are machines: the model says which events
  can happen in a state and what the code does on each.
\<close>

section \<open>A git worker in a thread\<close>

text \<open>How an awaited call ends.\<close>

datatype ('e, 'a) ending = Cancelled | Raised 'e | Returned 'a

fun ending_of :: "'e + 'a \<Rightarrow> ('e, 'a) ending" where
  "ending_of (Inl e) = Raised e"
| "ending_of (Inr v) = Returned v"

text \<open>
  One call of \<open>_in_thread\<close>, suspended in \<open>await asyncio.shield(worker)\<close> until it has ended:
  \<open>it_worker\<close> is the worker's result once it is done, \<open>it_pending\<close> a cancellation that the next
  resumption will raise, \<open>it_cancelled\<close> the local variable.
\<close>

record ('e, 'a) in_thread =
  it_worker :: "('e + 'a) option"
  it_pending :: bool
  it_cancelled :: bool
  it_ended :: "('e, 'a) ending option"

definition in_thread_call :: "('e, 'a) in_thread" where
  "in_thread_call = \<lparr>it_worker = None, it_pending = False, it_cancelled = False, it_ended = None\<rparr>"

text \<open>
  The event loop resumes the call: the handlers of the \<open>try\<close>, the loop test and, when the worker is
  done, the two lines after the loop.
\<close>

definition in_thread_resume :: "('e, 'a) in_thread \<Rightarrow> ('e, 'a) in_thread" where
  "in_thread_resume t =
     (let cancelled = it_cancelled t \<or> it_pending t; t1 = t\<lparr>it_pending := False, it_cancelled := cancelled\<rparr>
      in case it_worker t of
           None \<Rightarrow> t1
         | Some r \<Rightarrow> t1\<lparr>it_ended := Some (if cancelled then Cancelled else ending_of r)\<rparr>)"

text \<open>
  The worker finishes, somebody cancels the waiting task, or the loop resumes it.  It resumes a task
  only when the future it waits for is done or a cancellation is to be raised in it.
\<close>

datatype ('e, 'a) thread_event = Worker_done "'e + 'a" | Cancel | Resume

fun thread_step :: "('e, 'a) thread_event \<Rightarrow> ('e, 'a) in_thread \<Rightarrow> ('e, 'a) in_thread option" where
  "thread_step (Worker_done r) t = (if it_worker t = None then Some (t\<lparr>it_worker := Some r\<rparr>) else None)"
| "thread_step Cancel t = (if it_ended t = None then Some (t\<lparr>it_pending := True\<rparr>) else None)"
| "thread_step Resume t =
     (if it_ended t = None \<and> (it_pending t \<or> it_worker t \<noteq> None) then Some (in_thread_resume t) else None)"

fun thread_run :: "('e, 'a) thread_event list \<Rightarrow> ('e, 'a) in_thread \<Rightarrow> ('e, 'a) in_thread option" where
  "thread_run [] t = Some t"
| "thread_run (ev # evs) t = Option.bind (thread_step ev t) (thread_run evs)"

definition live :: "('e, 'a) in_thread \<Rightarrow> bool" where
  "live t \<longleftrightarrow> it_worker t = None"

definition cancels :: "('e, 'a) thread_event list \<Rightarrow> nat" where
  "cancels evs = length (filter (\<lambda>ev. ev = Cancel) evs)"

subsection \<open>Lemmas\<close>

interpretation thread_machine: event_machine thread_step thread_run
  by unfold_locales simp_all

text \<open>What holds of every call: it has ended only when its worker has, in the way that says.\<close>

definition thread_ok :: "('e, 'a) in_thread \<Rightarrow> bool" where
  "thread_ok t \<longleftrightarrow> (case it_ended t of
      None \<Rightarrow> True
    | Some x \<Rightarrow> \<not> it_pending t \<and> (case it_worker t of None \<Rightarrow> False
                 | Some r \<Rightarrow> x = (if it_cancelled t then Cancelled else ending_of r)))"

lemma thread_ok_call [simp]: "thread_ok in_thread_call"
  by (simp add: thread_ok_def in_thread_call_def)

lemma thread_ok_step: "thread_ok t \<Longrightarrow> thread_step ev t = Some t' \<Longrightarrow> thread_ok t'"
  by (cases ev) (auto simp: thread_ok_def in_thread_resume_def Let_def split: if_splits option.splits)

lemma thread_ok_ended: "thread_ok t \<Longrightarrow> it_ended t \<noteq> None \<Longrightarrow> \<not> live t"
  by (auto simp: thread_ok_def live_def split: option.splits)

lemma thread_ok_run: "thread_run evs t = Some t' \<Longrightarrow> thread_ok t \<Longrightarrow> thread_ok t'"
  by (rule thread_machine.run_keeps[of thread_ok]) (auto intro: thread_ok_step)

lemma thread_step_cancelled:
  "thread_step ev t = Some t' \<Longrightarrow> it_cancelled t' \<or> it_pending t' \<longleftrightarrow> it_cancelled t \<or> it_pending t \<or> ev = Cancel"
  by (cases ev) (auto simp: in_thread_resume_def Let_def split: if_splits option.splits)

lemma thread_run_cancelled:
  "thread_run evs t = Some t' \<Longrightarrow> it_cancelled t' \<or> it_pending t' \<longleftrightarrow> it_cancelled t \<or> it_pending t \<or> Cancel \<in> set evs"
  using thread_machine.run_flag[of "\<lambda>t. it_cancelled t \<or> it_pending t" "{Cancel}" evs t t'] thread_step_cancelled by fastforce

lemma thread_run_worker:
  "thread_run evs t = Some t' \<Longrightarrow> it_worker t = None \<Longrightarrow> it_worker t' = Some r \<Longrightarrow> Worker_done r \<in> set evs"
proof (induction evs arbitrary: t)
  case (Cons ev evs)
  then obtain u where u: "thread_step ev t = Some u" "thread_run evs u = Some t'" by (auto simp: bind_eq_Some_conv)
  show ?case
  proof (cases "it_worker u = None")
    case True
    with Cons.IH[OF u(2)] Cons.prems(3) show ?thesis by simp
  next
    case False
    with u(1) Cons.prems(2) obtain r' where r': "ev = Worker_done r'" "it_worker u = Some r'"
      by (cases ev) (auto simp: in_thread_resume_def Let_def split: if_splits)
    have "it_worker t' = Some r'"
      by (rule thread_machine.run_keeps[of "\<lambda>t. it_worker t = Some r'", OF _ u(2) r'(2)])
        (auto simp: in_thread_resume_def Let_def elim!: thread_step.elims split: if_splits option.splits)
    with r' Cons.prems(3) show ?thesis by simp
  qed
qed simp

text \<open>What is left to happen without another cancellation.\<close>

definition thread_left :: "('e, 'a) in_thread \<Rightarrow> nat" where
  "thread_left t = of_bool (it_pending t) + of_bool (it_worker t = None) + of_bool (it_ended t = None)"

lemma thread_step_left:
  assumes "thread_step ev t = Some t'" and "thread_ok t"
  shows "thread_left t' + of_bool (ev \<noteq> Cancel) \<le> thread_left t + of_bool (ev = Cancel)"
  using assms by (cases ev) (auto simp: thread_left_def in_thread_resume_def Let_def thread_ok_def split: if_splits option.splits)

lemma thread_run_left:
  assumes "thread_run evs t = Some t'" and "thread_ok t"
  shows "thread_left t' + length evs \<le> thread_left t + 2 * cancels evs"
proof -
  have "thread_left t' + (\<Sum>ev\<leftarrow>evs. of_bool (ev \<noteq> Cancel)) \<le> thread_left t + (\<Sum>ev\<leftarrow>evs. of_bool (ev = Cancel))"
    by (rule thread_machine.run_cost[of thread_ok, OF _ _ assms]) (auto intro: thread_ok_step dest: thread_step_left)
  moreover have "(\<Sum>ev\<leftarrow>evs. of_bool (ev \<noteq> Cancel)) + cancels evs = length evs" "(\<Sum>ev\<leftarrow>evs. of_bool (ev = Cancel)) = cancels evs"
    by (induction evs) (auto simp: cancels_def)
  ultimately show ?thesis by linarith
qed

section \<open>The project lock\<close>

text \<open>
  Where an \<open>open_pull_request\<close> call of one project stands once it has its claim: \<open>Idle\<close> before
  \<open>async with lock\<close>, \<open>Waiting\<close> in the lock's queue, then the cleanup before the work, the work itself
  (\<open>Working\<close> between its git workers, \<open>Git_work\<close> while one is awaited), the cleanup in the inner
  \<open>finally\<close>, and \<open>Left\<close>, where the outer \<open>finally\<close> gives the claim back.
\<close>

datatype place = Idle | Waiting | First_cleanup | Working | Git_work | Last_cleanup | Left

record ('e, 'a) project_lock =
  pl_owner :: "nat option"
  pl_queue :: "nat list"
  pl_place :: "nat \<Rightarrow> place"
  pl_thread :: "nat \<Rightarrow> ('e, 'a) in_thread option"

definition lock_init :: "('e, 'a) project_lock" where
  "lock_init = \<lparr>pl_owner = None, pl_queue = [], pl_place = (\<lambda>_. Idle), pl_thread = (\<lambda>_. None)\<rparr>"

text \<open>\<open>_in_thread\<close> is called: the call's newest worker starts.\<close>

definition start_worker_at :: "place \<Rightarrow> nat \<Rightarrow> ('e, 'a) project_lock \<Rightarrow> ('e, 'a) project_lock" where
  "start_worker_at pc c s = s\<lparr>pl_place := (pl_place s)(c := pc), pl_thread := (pl_thread s)(c \<mapsto> in_thread_call)\<rparr>"

definition move_to :: "place \<Rightarrow> nat \<Rightarrow> ('e, 'a) project_lock \<Rightarrow> ('e, 'a) project_lock" where
  "move_to pc c s = s\<lparr>pl_place := (pl_place s)(c := pc)\<rparr>"

text \<open>
  The steps of the calls under one lock.  An \<open>asyncio.Lock\<close> is free at once only when nobody waits,
  and is handed on in the order of the queue; a waiting call can be cancelled out of it.  What the
  work does between its git workers (GitHub requests, database writes) may dispatch a worker or leave,
  by a return, an exception or a cancellation.
\<close>

inductive lock_step :: "('e, 'a) project_lock \<Rightarrow> ('e, 'a) project_lock \<Rightarrow> bool" where
  acquire: "pl_place s c = Idle \<Longrightarrow> pl_owner s = None \<Longrightarrow> pl_queue s = [] \<Longrightarrow>
     lock_step s (start_worker_at First_cleanup c (s\<lparr>pl_owner := Some c\<rparr>))"
| enqueue: "pl_place s c = Idle \<Longrightarrow> pl_owner s \<noteq> None \<or> pl_queue s \<noteq> [] \<Longrightarrow>
     lock_step s (move_to Waiting c (s\<lparr>pl_queue := pl_queue s @ [c]\<rparr>))"
| handed: "pl_owner s = None \<Longrightarrow> pl_queue s = c # q \<Longrightarrow>
     lock_step s (start_worker_at First_cleanup c (s\<lparr>pl_owner := Some c, pl_queue := q\<rparr>))"
| cancelled_waiting: "pl_place s c = Waiting \<Longrightarrow>
     lock_step s (move_to Left c (s\<lparr>pl_queue := remove1 c (pl_queue s)\<rparr>))"
| in_thread: "pl_place s c \<in> {First_cleanup, Git_work, Last_cleanup} \<Longrightarrow> pl_thread s c = Some t \<Longrightarrow>
     thread_step ev t = Some t' \<Longrightarrow> lock_step s (s\<lparr>pl_thread := (pl_thread s)(c \<mapsto> t')\<rparr>)"
| worker_returned: "pl_place s c \<in> {First_cleanup, Git_work} \<Longrightarrow> pl_thread s c = Some t \<Longrightarrow>
     it_ended t = Some (Returned v) \<Longrightarrow> lock_step s (move_to Working c s)"
| worker_failed: "pl_place s c \<in> {First_cleanup, Git_work} \<Longrightarrow> pl_thread s c = Some t \<Longrightarrow>
     it_ended t = Some x \<Longrightarrow> \<forall>v. x \<noteq> Returned v \<Longrightarrow> lock_step s (start_worker_at Last_cleanup c s)"
| dispatch: "pl_place s c = Working \<Longrightarrow> lock_step s (start_worker_at Git_work c s)"
| finish: "pl_place s c = Working \<Longrightarrow> lock_step s (start_worker_at Last_cleanup c s)"
| release: "pl_place s c = Last_cleanup \<Longrightarrow> pl_thread s c = Some t \<Longrightarrow> it_ended t \<noteq> None \<Longrightarrow>
     lock_step s (move_to Left c (s\<lparr>pl_owner := None\<rparr>))"

text \<open>The call's git worker is running in its thread.\<close>

definition working :: "('e, 'a) project_lock \<Rightarrow> nat \<Rightarrow> bool" where
  "working s c \<longleftrightarrow> (case pl_thread s c of None \<Rightarrow> False | Some t \<Rightarrow> live t)"

subsection \<open>Lemmas\<close>

definition lock_ok :: "('e, 'a) project_lock \<Rightarrow> bool" where
  "lock_ok s \<longleftrightarrow>
     distinct (pl_queue s)
     \<and> (\<forall>c. (c \<in> set (pl_queue s)) = (pl_place s c = Waiting))
     \<and> (\<forall>c. (pl_owner s = Some c) = (pl_place s c \<in> {First_cleanup, Working, Git_work, Last_cleanup}))
     \<and> (\<forall>c t. pl_thread s c = Some t \<longrightarrow> thread_ok t)
     \<and> (\<forall>c. pl_place s c \<in> {First_cleanup, Git_work, Last_cleanup} \<longrightarrow> pl_thread s c \<noteq> None)
     \<and> (\<forall>c. working s c \<longrightarrow> pl_place s c \<in> {First_cleanup, Git_work, Last_cleanup})"

lemma lock_ok_init: "lock_ok lock_init"
  by (simp add: lock_ok_def lock_init_def working_def)

lemma lock_ok_owner:
  "lock_ok s \<Longrightarrow> pl_place s c \<in> {First_cleanup, Working, Git_work, Last_cleanup} \<longleftrightarrow> pl_owner s = Some c"
  unfolding lock_ok_def by blast

lemma lock_ok_step:
  assumes "lock_step s s'" and "lock_ok s"
  shows "lock_ok s'"
  using assms
proof (induction rule: lock_step.induct)
  case (in_thread s c t ev t')
  then have "thread_ok t'" using thread_ok_step[of t ev t'] by (simp add: lock_ok_def)
  with in_thread show ?case by (auto simp: lock_ok_def working_def)
next
  case (worker_returned s c t v)
  then have "\<not> live t" using thread_ok_ended[of t] by (auto simp: lock_ok_def)
  with worker_returned show ?case by (auto simp: lock_ok_def working_def move_to_def)
next
  case (worker_failed s c t x)
  then show ?case by (auto simp: lock_ok_def working_def start_worker_at_def split: if_splits)
next
  case (release s c t)
  then have "\<not> live t" using thread_ok_ended[of t] by (auto simp: lock_ok_def)
  moreover have "pl_place s c' \<notin> {First_cleanup, Working, Git_work, Last_cleanup}" if "c' \<noteq> c" for c'
    using lock_ok_owner[OF release(4), of c] lock_ok_owner[OF release(4), of c'] release(1) that by auto
  ultimately show ?case using release by (auto simp: lock_ok_def working_def move_to_def)
next
  case (acquire s c)
  then show ?case by (auto simp: lock_ok_def working_def start_worker_at_def split: if_splits)
next
  case (enqueue s c)
  then show ?case by (auto simp: lock_ok_def working_def move_to_def)
next
  case (handed s c q)
  then show ?case by (auto simp: lock_ok_def working_def start_worker_at_def split: if_splits)
next
  case (cancelled_waiting s c)
  then show ?case by (auto simp: lock_ok_def working_def move_to_def)
next
  case (dispatch s c)
  then show ?case by (auto simp: lock_ok_def working_def start_worker_at_def split: if_splits)
next
  case (finish s c)
  then show ?case by (auto simp: lock_ok_def working_def start_worker_at_def split: if_splits)
qed

lemma lock_ok_reachable: "lock_step\<^sup>*\<^sup>* lock_init s \<Longrightarrow> lock_ok s"
  by (induction rule: rtranclp_induct) (auto intro: lock_ok_init lock_ok_step)

text \<open>The holder's own steps lead out of the locked part.\<close>

lemma thread_can_end:
  fixes t :: "('e, 'a) in_thread"
  assumes "thread_ok t"
  shows "\<exists>evs t'. thread_run evs t = Some t' \<and> it_ended t' \<noteq> None"
proof (cases "it_ended t = None")
  case True
  show ?thesis
  proof (cases "it_worker t")
    case None
    show ?thesis by (rule exI[of _ "[Worker_done undefined, Resume]"]) (use None True in \<open>simp add: in_thread_resume_def Let_def\<close>)
  next
    case (Some r)
    show ?thesis by (rule exI[of _ "[Resume]"]) (use Some True in \<open>simp add: in_thread_resume_def Let_def\<close>)
  qed
next
  case False
  then show ?thesis by (intro exI[of _ "[]"]) auto
qed

lemma thread_in_lock:
  assumes "pl_place s c \<in> {First_cleanup, Git_work, Last_cleanup}"
  shows "pl_thread s c = Some t \<Longrightarrow> thread_run evs t = Some t' \<Longrightarrow>
    lock_step\<^sup>*\<^sup>* s (s\<lparr>pl_thread := (pl_thread s)(c \<mapsto> t')\<rparr>)"
  using assms
proof (induction evs arbitrary: t s)
  case Nil
  then have "(pl_thread s)(c \<mapsto> t') = pl_thread s" by auto
  then show ?case by simp
next
  case (Cons ev evs)
  then obtain u where u: "thread_step ev t = Some u" "thread_run evs u = Some t'" by (auto simp: bind_eq_Some_conv)
  let ?s = "s\<lparr>pl_thread := (pl_thread s)(c \<mapsto> u)\<rparr>"
  have "lock_step s ?s" using lock_step.in_thread[OF Cons.prems(3,1) u(1)] .
  moreover have "lock_step\<^sup>*\<^sup>* ?s (?s\<lparr>pl_thread := (pl_thread ?s)(c \<mapsto> t')\<rparr>)"
    by (rule Cons.IH[OF _ u(2)]) (use Cons.prems(3) in simp_all)
  moreover have "?s\<lparr>pl_thread := (pl_thread ?s)(c \<mapsto> t')\<rparr> = s\<lparr>pl_thread := (pl_thread s)(c \<mapsto> t')\<rparr>"
    by (rule project_lock.equality) simp_all
  ultimately show ?case by (metis converse_rtranclp_into_rtranclp)
qed

lemma worker_ends_in_lock:
  assumes "lock_ok s" and "pl_place s c \<in> {First_cleanup, Git_work, Last_cleanup}"
  shows "\<exists>s' t. lock_step\<^sup>*\<^sup>* s s' \<and> pl_place s' = pl_place s \<and> pl_queue s' = pl_queue s
    \<and> pl_thread s' c = Some t \<and> it_ended t \<noteq> None"
proof -
  obtain t where t: "pl_thread s c = Some t" using assms unfolding lock_ok_def by blast
  then have "thread_ok t" using assms(1) unfolding lock_ok_def by blast
  then obtain evs t' where run: "thread_run evs t = Some t'" "it_ended t' \<noteq> None" using thread_can_end by blast
  from thread_in_lock[OF assms(2) t run(1)] run(2) show ?thesis
    by (intro exI[of _ "s\<lparr>pl_thread := (pl_thread s)(c \<mapsto> t')\<rparr>"]) auto
qed

lemma lock_given_back_last:
  assumes "lock_ok s" and "pl_place s c = Last_cleanup"
  shows "\<exists>s'. lock_step\<^sup>*\<^sup>* s s' \<and> pl_owner s' = None \<and> pl_place s' c = Left \<and> pl_queue s' = pl_queue s"
proof -
  obtain s' t where s': "lock_step\<^sup>*\<^sup>* s s'" "pl_place s' = pl_place s" "pl_queue s' = pl_queue s"
      "pl_thread s' c = Some t" "it_ended t \<noteq> None"
    using worker_ends_in_lock[of s c] assms by auto
  have "lock_step s' (move_to Left c (s'\<lparr>pl_owner := None\<rparr>))"
    by (rule lock_step.release[OF _ s'(4,5)]) (simp add: s'(2) assms(2))
  with s' show ?thesis
    by (intro exI[of _ "move_to Left c (s'\<lparr>pl_owner := None\<rparr>)"]) (auto simp: move_to_def)
qed

lemma lock_given_back_working:
  assumes "lock_ok s" and "pl_place s c = Working"
  shows "\<exists>s'. lock_step\<^sup>*\<^sup>* s s' \<and> pl_owner s' = None \<and> pl_place s' c = Left \<and> pl_queue s' = pl_queue s"
proof -
  let ?s = "start_worker_at Last_cleanup c s"
  have step: "lock_step s ?s" by (rule lock_step.finish[of s, OF assms(2)])
  obtain s' where "lock_step\<^sup>*\<^sup>* ?s s'" "pl_owner s' = None" "pl_place s' c = Left" "pl_queue s' = pl_queue ?s"
    using lock_given_back_last[OF lock_ok_step[OF step assms(1)], of c] by (auto simp: start_worker_at_def)
  with step show ?thesis by (intro exI[of _ s']) (auto simp: start_worker_at_def)
qed

lemma lock_given_back:
  assumes "lock_ok s" and "pl_owner s = Some c"
  shows "\<exists>s'. lock_step\<^sup>*\<^sup>* s s' \<and> pl_owner s' = None \<and> pl_place s' c = Left \<and> pl_queue s' = pl_queue s"
proof -
  consider "pl_place s c \<in> {First_cleanup, Git_work}" | "pl_place s c = Working" | "pl_place s c = Last_cleanup"
    using lock_ok_owner[OF assms(1), of c] assms(2) by auto
  then show ?thesis
  proof cases
    case 1
    then obtain s' t where s': "lock_step\<^sup>*\<^sup>* s s'" "pl_place s' = pl_place s" "pl_queue s' = pl_queue s"
        "pl_thread s' c = Some t" "it_ended t \<noteq> None"
      using worker_ends_in_lock[of s c] assms(1) by auto
    have ok: "lock_ok s'" using s'(1) assms(1) by (induction rule: rtranclp_induct) (auto intro: lock_ok_step)
    have "\<exists>u. lock_step s' u \<and> pl_place u c \<in> {Working, Last_cleanup} \<and> pl_queue u = pl_queue s'"
    proof (cases "\<exists>v. it_ended t = Some (Returned v)")
      case True
      then obtain v where "it_ended t = Some (Returned v)" ..
      from lock_step.worker_returned[OF _ s'(4) this] 1 s'(2) show ?thesis
        by (intro exI[of _ "move_to Working c s'"]) (auto simp: move_to_def)
    next
      case False
      then obtain x where "it_ended t = Some x" "\<forall>v. x \<noteq> Returned v" using s'(5) by auto
      from lock_step.worker_failed[OF _ s'(4) this] 1 s'(2) show ?thesis
        by (intro exI[of _ "start_worker_at Last_cleanup c s'"]) (auto simp: start_worker_at_def)
    qed
    then obtain u where u: "lock_step s' u" "pl_place u c \<in> {Working, Last_cleanup}" "pl_queue u = pl_queue s'" by blast
    have "lock_ok u" by (rule lock_ok_step[OF u(1) ok])
    then obtain v where "lock_step\<^sup>*\<^sup>* u v" "pl_owner v = None" "pl_place v c = Left" "pl_queue v = pl_queue u"
      using u(2) lock_given_back_working[of u c] lock_given_back_last[of u c] by auto
    moreover from s'(1) u(1) have "lock_step\<^sup>*\<^sup>* s u" by (rule rtranclp.rtrancl_into_rtrancl)
    ultimately show ?thesis using u(3) s'(3) by (intro exI[of _ v]) auto
  qed (use lock_given_back_working[OF assms(1)] lock_given_back_last[OF assms(1)] in auto)
qed

section \<open>Properties\<close>

text \<open>
  C10.  A cancellation cannot orphan git work: whatever the event loop does, when an \<open>_in_thread\<close>
  call ends its worker has finished; it ends as cancelled exactly when a cancellation was asked for
  before it ended, however many, and otherwise with what the worker returned or raised.
\<close>

theorem in_thread_never_orphans:
  assumes "thread_run evs in_thread_call = Some t" and "it_ended t = Some x"
  shows "\<exists>r. Worker_done r \<in> set evs \<and> it_worker t = Some r
     \<and> x = (if Cancel \<in> set evs then Cancelled else ending_of r)"
proof -
  have ok: "thread_ok t" using thread_ok_run[OF assms(1)] by simp
  then obtain r where r: "it_worker t = Some r" "x = (if it_cancelled t then Cancelled else ending_of r)" "\<not> it_pending t"
    using assms(2) by (auto simp: thread_ok_def split: option.splits)
  have "it_cancelled t \<longleftrightarrow> Cancel \<in> set evs"
    using thread_run_cancelled[OF assms(1)] r(3) by (simp add: in_thread_call_def)
  with r thread_run_worker[OF assms(1) _ r(1)] show ?thesis by (auto simp: in_thread_call_def)
qed

theorem in_thread_never_orphans_witness:
  "\<exists>r. Worker_done r \<in> set [Cancel, Resume, Cancel, Worker_done (Inr (7::int)), Resume]
     \<and> Cancelled = (if Cancel \<in> set [Cancel, Resume, Cancel, Worker_done (Inr (7::int)), Resume :: (string, int) thread_event]
         then Cancelled else ending_of r)"
  using in_thread_never_orphans[of "[Cancel, Resume, Cancel, Worker_done (Inr (7::int)), Resume :: (string, int) thread_event]"
      "\<lparr>it_worker = Some (Inr 7), it_pending = False, it_cancelled = True, it_ended = Some Cancelled\<rparr>" Cancelled]
  by (simp add: in_thread_call_def in_thread_resume_def)

text \<open>
  C12.  Waiting ends: a call that is cancelled \<open>n\<close> times takes at most \<open>2 n + 2\<close> steps, so the loop
  never spins, and until it has ended either its worker is still running or the event loop can
  resume it; once the worker is done the next resumption ends it.
\<close>

theorem in_thread_ends:
  assumes "thread_run evs in_thread_call = Some t"
  shows "length evs \<le> 2 * cancels evs + 2
    \<and> (it_ended t = None \<longrightarrow> live t \<or> (\<exists>u. thread_step Resume t = Some u \<and> it_ended u \<noteq> None))"
proof -
  have "thread_left (in_thread_call :: ('a, 'b) in_thread) = 2" by (simp add: thread_left_def in_thread_call_def)
  with thread_run_left[OF assms] show ?thesis
    by (auto simp: live_def in_thread_resume_def Let_def)
qed

theorem in_thread_ends_witness:
  "length [Cancel, Resume, Worker_done (Inr (7::int)), Resume :: (string, int) thread_event] \<le>
     2 * cancels [Cancel, Resume, Worker_done (Inr (7::int)), Resume :: (string, int) thread_event] + 2"
  using in_thread_ends[of "[Cancel, Resume, Worker_done (Inr (7::int)), Resume :: (string, int) thread_event]"
      "\<lparr>it_worker = Some (Inr 7), it_pending = False, it_cancelled = True, it_ended = Some Cancelled\<rparr>"]
  by (simp add: in_thread_call_def in_thread_resume_def)

text \<open>
  C5.  One git worker per project: in every state the calls of a project can reach, whatever is
  cancelled when, a running git worker belongs to the call that holds the project's lock, so no two
  run at once; and that call is inside the locked part, so a call that still waits, or that has left
  and given its claim back, has no worker running.
\<close>

theorem one_git_worker_per_project:
  assumes "lock_step\<^sup>*\<^sup>* lock_init s" and "working s c"
  shows "pl_owner s = Some c \<and> (\<forall>c'. working s c' \<longrightarrow> c' = c) \<and> pl_place s c \<notin> {Idle, Waiting, Left}"
proof -
  have ok: "lock_ok s" by (rule lock_ok_reachable[OF assms(1)])
  have at_git: "pl_place s x \<in> {First_cleanup, Git_work, Last_cleanup}" if "working s x" for x
    using ok that unfolding lock_ok_def by blast
  have owner: "pl_owner s = Some x" if "working s x" for x
    using lock_ok_owner[OF ok, of x] at_git[OF that] by auto
  from at_git[OF assms(2)] owner[OF assms(2)] owner show ?thesis by auto
qed

theorem one_git_worker_per_project_witness:
  "let s = start_worker_at First_cleanup 4 (lock_init\<lparr>pl_owner := Some 4\<rparr>) :: (string, int) project_lock
   in pl_owner s = Some 4 \<and> (\<forall>c. working s c \<longrightarrow> c = 4) \<and> pl_place s 4 \<notin> {Idle, Waiting, Left}"
proof -
  let ?s = "start_worker_at First_cleanup 4 (lock_init\<lparr>pl_owner := Some 4\<rparr>) :: (string, int) project_lock"
  have "lock_step lock_init ?s" by (rule lock_step.acquire) (simp_all add: lock_init_def)
  moreover have "working ?s 4" by (simp add: working_def start_worker_at_def live_def in_thread_call_def)
  ultimately show ?thesis using one_git_worker_per_project[of ?s 4] by (simp add: Let_def r_into_rtranclp)
qed

text \<open>
  The lock always comes back: whenever a call holds the project's lock, steps of its own lead
  it out of the locked part, with its worker finished and the queue as it was, so that the first call
  that waits is next.
\<close>

theorem project_lock_comes_back:
  assumes "lock_step\<^sup>*\<^sup>* lock_init s" and "pl_owner s = Some c"
  shows "\<exists>s'. lock_step\<^sup>*\<^sup>* s s' \<and> pl_owner s' = None \<and> pl_place s' c = Left \<and> pl_queue s' = pl_queue s"
  by (rule lock_given_back[OF lock_ok_reachable[OF assms(1)] assms(2)])

theorem project_lock_comes_back_witness:
  "let s = start_worker_at First_cleanup 4 (lock_init\<lparr>pl_owner := Some 4\<rparr>) :: (string, int) project_lock
   in \<exists>s'. lock_step\<^sup>*\<^sup>* s s' \<and> pl_owner s' = None"
proof -
  let ?s = "start_worker_at First_cleanup 4 (lock_init\<lparr>pl_owner := Some 4\<rparr>) :: (string, int) project_lock"
  have "lock_step lock_init ?s" by (rule lock_step.acquire) (simp_all add: lock_init_def)
  moreover have "pl_owner ?s = Some 4" by (simp add: start_worker_at_def)
  ultimately have "\<exists>s'. lock_step\<^sup>*\<^sup>* ?s s' \<and> pl_owner s' = None"
    using project_lock_comes_back[of ?s 4] by blast
  then show ?thesis by (simp add: Let_def)
qed

end
