(* ===== verification/Worker_Cycle.thy ===== *)
theory Worker_Cycle
  imports Intake Event_Run "HOL-Library.Multiset"
begin

text \<open>
  The concurrency of \<open>queue/worker.py\<close>: the jobs of a poll cycle run as tasks under one semaphore of
  \<open>queue_max_concurrent\<close>, and the cycle waits for all of them.  Which job runs next is the event
  loop's choice, so the cycle is a machine; the jobs themselves are the stages of the other theories.
  A query that raises skips the wait: what was created before it stays in the queue, and the next
  cycle's tasks join it (\<open>create_tasks\<close>).
\<close>

section \<open>The semaphore and the tasks\<close>

text \<open>\<open>asyncio.Semaphore(value)\<close>.\<close>

definition semaphore :: "int \<Rightarrow> string + nat" where
  "semaphore n = (if n < 0 then Inl ''ValueError'' else Inr (nat n))"

text \<open>
  Tasks in the order they wait for the semaphore (the order of their creation), those that hold it, and
  those that ended, with the exception that ended them.
\<close>

record worker =
  wk_free :: nat
  wk_queue :: "job list"
  wk_running :: "job list"
  wk_ended :: "(job \<times> string option) list"

definition idle_worker :: "nat \<Rightarrow> worker" where
  "idle_worker n = \<lparr>wk_free = n, wk_queue = [], wk_running = [], wk_ended = []\<rparr>"

definition create_tasks :: "job list \<Rightarrow> worker \<Rightarrow> worker" where
  "create_tasks jobs w = w\<lparr>wk_queue := wk_queue w @ jobs\<rparr>"

text \<open>\<open>_process_with_semaphore\<close>: a task enters \<open>async with semaphore\<close>, or leaves it when its job
  returned or raised.\<close>

datatype worker_event = Job_starts | Job_ends job "string option"

fun worker_step :: "worker_event \<Rightarrow> worker \<Rightarrow> worker option" where
  "worker_step Job_starts w =
     (case wk_queue w of
        [] \<Rightarrow> None
      | j # q \<Rightarrow> if wk_free w = 0 then None
          else Some (w\<lparr>wk_free := wk_free w - 1, wk_queue := q, wk_running := wk_running w @ [j]\<rparr>))"
| "worker_step (Job_ends j e) w =
     (if j \<in> set (wk_running w)
      then Some (w\<lparr>wk_free := wk_free w + 1, wk_running := remove1 j (wk_running w), wk_ended := wk_ended w @ [(j, e)]\<rparr>)
      else None)"

fun worker_run :: "worker_event list \<Rightarrow> worker \<Rightarrow> worker option" where
  "worker_run [] w = Some w"
| "worker_run (ev # evs) w = Option.bind (worker_step ev w) (worker_run evs)"

text \<open>\<open>asyncio.gather\<close> is done when every task is; what it logs.\<close>

definition cycle_over :: "worker \<Rightarrow> bool" where
  "cycle_over w \<longleftrightarrow> wk_queue w = [] \<and> wk_running w = []"

definition cycle_errors :: "worker \<Rightarrow> string list" where
  "cycle_errors w = List.map_filter snd (wk_ended w)"

section \<open>Lemmas\<close>

definition job_report :: "job \<Rightarrow> string" where
  "job_report j = (case j of Validate_job r \<Rightarrow> r | Triage_job r \<Rightarrow> r | Localize_job r \<Rightarrow> r | Fix_job r \<Rightarrow> r)"

lemma job_report_simps [simp]:
  "job_report (Validate_job r) = r" "job_report (Triage_job r) = r"
  "job_report (Localize_job r) = r" "job_report (Fix_job r) = r"
  by (simp_all add: job_report_def)

text \<open>The semaphore's value counts the tasks inside it, no task is lost, and each has at most two
  steps.\<close>

definition all_jobs :: "worker \<Rightarrow> job multiset" where
  "all_jobs w = mset (wk_queue w) + mset (wk_running w) + mset (map fst (wk_ended w))"

definition steps_left :: "worker \<Rightarrow> nat" where
  "steps_left w = 2 * length (wk_queue w) + length (wk_running w)"

lemma worker_step_frame:
  assumes "worker_step ev w = Some w'"
  shows "wk_free w' + length (wk_running w') = wk_free w + length (wk_running w)"
    and "all_jobs w' = all_jobs w" and "Suc (steps_left w') = steps_left w"
proof -
  have "wk_free w' + length (wk_running w') = wk_free w + length (wk_running w)
      \<and> all_jobs w' = all_jobs w \<and> Suc (steps_left w') = steps_left w"
  proof (cases ev)
    case Job_starts
    with assms obtain j q where "wk_queue w = j # q" "wk_free w \<noteq> 0"
        "w' = w\<lparr>wk_free := wk_free w - 1, wk_queue := q, wk_running := wk_running w @ [j]\<rparr>"
      by (auto split: list.splits if_splits)
    then show ?thesis by (simp add: all_jobs_def steps_left_def)
  next
    case (Job_ends j e)
    with assms have j: "j \<in> set (wk_running w)"
      and w': "w' = w\<lparr>wk_free := wk_free w + 1, wk_running := remove1 j (wk_running w), wk_ended := wk_ended w @ [(j, e)]\<rparr>"
      by (auto split: if_splits)
    from j have "0 < length (wk_running w)" and "j \<in># mset (wk_running w)" by (auto simp: length_pos_if_in_set)
    with j show ?thesis by (simp add: w' all_jobs_def steps_left_def length_remove1)
  qed
  then show "wk_free w' + length (wk_running w') = wk_free w + length (wk_running w)"
    and "all_jobs w' = all_jobs w" and "Suc (steps_left w') = steps_left w" by blast+
qed

interpretation worker_machine: event_machine worker_step worker_run
  by unfold_locales simp_all

lemma worker_run_frame:
  assumes "worker_run evs w = Some w'"
  shows "wk_free w' + length (wk_running w') = wk_free w + length (wk_running w)
     \<and> all_jobs w' = all_jobs w \<and> steps_left w' + length evs \<le> steps_left w"
proof -
  have "steps_left w' + (\<Sum>ev\<leftarrow>evs. 1) \<le> steps_left w + (\<Sum>ev\<leftarrow>evs. 0)"
    by (rule worker_machine.run_cost[of "\<lambda>_. True", OF _ _ assms]) (auto dest: worker_step_frame(3))
  moreover have "wk_free w' + length (wk_running w') = wk_free w + length (wk_running w) \<and> all_jobs w' = all_jobs w"
    by (rule worker_machine.run_keeps[of "\<lambda>u. wk_free u + length (wk_running u) = wk_free w + length (wk_running w)
        \<and> all_jobs u = all_jobs w", OF _ assms]) (use worker_step_frame in auto)
  ultimately show ?thesis by (simp add: sum_list_triv)
qed

lemma worker_stuck:
  assumes "\<forall>ev. worker_step ev w = None"
  shows "wk_running w = [] \<and> (wk_free w = 0 \<or> wk_queue w = [])"
proof -
  have "wk_running w = []"
  proof (rule ccontr)
    assume "wk_running w \<noteq> []"
    then obtain j where "j \<in> set (wk_running w)" by (cases "wk_running w") auto
    with assms[rule_format, of "Job_ends j None"] show False by simp
  qed
  with assms[rule_format, of Job_starts] show ?thesis by (auto split: list.splits if_splits)
qed

text \<open>The jobs a cycle creates, query by query.\<close>

lemma collect_in: "collect f rs = Inr out \<Longrightarrow> out = filter (\<lambda>r. f r = Inr True) rs \<and> (\<forall>r\<in>set rs. \<exists>b. f r = Inr b)"
  by (induction rs arbitrary: out) (auto simp: bindE_Inr)

lemma triage_not_completed:
  assumes "triage_check st now (analyses_for_report rid (Some P_TRIAGE) d) = Inr True"
  shows "\<not> has_completed rid P_TRIAGE d"
proof
  assume "has_completed rid P_TRIAGE d"
  then obtain a where "a \<in> set (analyses_for_report rid (Some P_TRIAGE) d)" "a_status a = A_COMPLETED"
    by (auto simp: has_completed_def list_ex_iff analyses_for_report_def)
  then have "list_ex (\<lambda>r. a_status r = A_COMPLETED) (analyses_for_report rid (Some P_TRIAGE) d)"
    by (auto simp: list_ex_iff)
  with assms show False by (auto simp: triage_check_def split: list.splits)
qed

lemma fix_not_localize:
  assumes "fix_check st now' d r"
  shows "localization_check st now d r \<noteq> Inr True"
  using assms
  by (auto simp: fix_check_def localization_check_def Let_def str_set_iff split: option.splits if_splits)

definition found_by :: "(report \<Rightarrow> bool) \<Rightarrow> db \<Rightarrow> report list \<Rightarrow> bool" where
  "found_by P d rs \<longleftrightarrow> distinct (map r_id rs) \<and> (\<forall>r\<in>set rs. r \<in> set (reports d) \<and> P r)"

lemma distinct_order_asc [simp]: "distinct (order_asc k t) \<longleftrightarrow> distinct t"
  by (simp add: order_asc_def)

lemma found_by_filter:
  assumes "distinct (map r_id (reports d))" and "\<And>r. P r \<Longrightarrow> R r \<Longrightarrow> Q r"
  shows "found_by Q d (filter P (order_asc k (filter R (reports d))))"
proof -
  have "distinct (map r_id (filter P (order_asc k (filter R (reports d)))))"
    using assms(1) by (simp add: distinct_map inj_on_def)
  with assms(2) show ?thesis by (auto simp: found_by_def)
qed

definition job_list :: "report list \<Rightarrow> report list \<Rightarrow> report list \<Rightarrow> report list \<Rightarrow> job list" where
  "job_list vs ts ls fs = map (\<lambda>r. Validate_job (r_id r)) vs @ map (\<lambda>r. Triage_job (r_id r)) ts
        @ map (\<lambda>r. Localize_job (r_id r)) ls @ map (\<lambda>r. Fix_job (r_id r)) fs"

definition cycle_found :: "settings \<Rightarrow> db \<Rightarrow> report list \<Rightarrow> report list \<Rightarrow> report list \<Rightarrow> report list \<Rightarrow> bool" where
  "cycle_found st d vs ts ls fs \<longleftrightarrow>
     found_by (\<lambda>r. r_status r = SUBMITTED) d vs
    \<and> found_by (\<lambda>r. r_status r = TRIAGED \<and> \<not> has_completed (r_id r) P_TRIAGE d) d ts
    \<and> found_by (\<lambda>r. r_status r = TRIAGED \<and> has_completed (r_id r) P_TRIAGE d \<and> (\<exists>now. localization_check st now d r = Inr True)) d ls
    \<and> found_by (\<lambda>r. r_status r = TRIAGED \<and> (\<exists>now. fix_check st now d r)) d fs
    \<and> (fs = [] \<or> auto_fix_enabled st)"

lemma poll_jobs_parts:
  assumes "distinct (map r_id (reports d))"
  shows "\<exists>vs ts ls fs. fst (poll_jobs st d) = job_list vs ts ls fs \<and> cycle_found st d vs ts ls fs"
proof -
  have nil [simp]: "found_by Q d []" for Q by (simp add: found_by_def)
  define vs where "vs = submitted_reports d"
  have vs: "found_by (\<lambda>r. r_status r = SUBMITTED) d vs"
    unfolding vs_def submitted_reports_def
    using found_by_filter[OF assms, of "\<lambda>_. True" "\<lambda>r. r_status r = SUBMITTED \<and> not_deleted r" "\<lambda>r. r_status r = SUBMITTED" r_created_at]
    by simp
  show ?thesis
  proof (cases "fst (triage_eligible_reports st d)")
    case (Inl e)
    with vs show ?thesis
      by (intro exI[of _ vs] exI[of _ "[]"]) (simp add: job_list_def cycle_found_def poll_jobs_def Let_def vs_def case_prod_beta)
  next
    case (Inr ts)
    define d1 where "d1 = snd (triage_eligible_reports st d)"
    have d1: "d1 = snd (utcnow d)" by (simp add: d1_def triage_eligible_reports_def Let_def case_prod_beta)
    have rows: "ts = filter (\<lambda>r. triage_check st (fst (utcnow d)) (analyses_for_report (r_id r) (Some P_TRIAGE) d) = Inr True)
        (order_asc r_created_at (filter (\<lambda>r. r_status r = TRIAGED \<and> r_analysis_mode r \<noteq> HOLD \<and> not_deleted r) (reports d)))"
      using Inr by (auto simp: triage_eligible_reports_def Let_def case_prod_beta dest!: collect_in)
    have ts: "found_by (\<lambda>r. r_status r = TRIAGED \<and> \<not> has_completed (r_id r) P_TRIAGE d) d ts"
      unfolding rows by (rule found_by_filter[OF assms]) (use triage_not_completed in auto)
    show ?thesis
    proof (cases "fst (localization_eligible_reports st d1)")
      case (Inl e)
      with vs ts Inr show ?thesis
        by (intro exI[of _ vs] exI[of _ ts] exI[of _ "[]"]) (simp add: job_list_def cycle_found_def poll_jobs_def Let_def vs_def d1_def case_prod_beta)
    next
      case (Inr ls)
      define d2 where "d2 = snd (localization_eligible_reports st d1)"
      have rows: "ls = filter (\<lambda>r. localization_check st (fst (utcnow d1)) d r = Inr True)
          (order_asc r_created_at (filter (\<lambda>r. r_status r = TRIAGED \<and> r_analysis_mode r \<noteq> HOLD
            \<and> (case project_of r d of None \<Rightarrow> False | Some p \<Rightarrow> p_repo_path p \<noteq> None)
            \<and> not_deleted r \<and> has_completed (r_id r) P_TRIAGE d) (reports d)))"
        using Inr by (auto simp: localization_eligible_reports_def Let_def case_prod_beta d1 dest!: collect_in)
      have ls: "found_by (\<lambda>r. r_status r = TRIAGED \<and> has_completed (r_id r) P_TRIAGE d
          \<and> (\<exists>now. localization_check st now d r = Inr True)) d ls"
        unfolding rows by (rule found_by_filter[OF assms]) auto
      have d2: "d2 = snd (utcnow (snd (utcnow d)))"
        by (simp add: d2_def d1 localization_eligible_reports_def Let_def case_prod_beta)
      define fs where "fs = fst (reports_eligible_for_fix st d2)"
      have rows: "fs = filter (fix_check st (fst (utcnow d2)) d)
          (order_asc r_created_at (filter (\<lambda>r. r_status r = TRIAGED \<and> r_analysis_mode r = AUTO \<and> project_of r d \<noteq> None
            \<and> not_deleted r \<and> has_completed (r_id r) P_LOCALIZATION d) (reports d)))"
        by (simp add: fs_def reports_eligible_for_fix_def Let_def case_prod_beta d2)
      have fs: "found_by (\<lambda>r. r_status r = TRIAGED \<and> (\<exists>now. fix_check st now d r)) d fs"
        unfolding rows by (rule found_by_filter[OF assms]) auto
      show ?thesis
      proof (cases "auto_fix_enabled st")
        case True
        with vs ts ls fs Inr \<open>fst (triage_eligible_reports st d) = Inr ts\<close> show ?thesis
          by (intro exI[of _ vs] exI[of _ ts] exI[of _ ls] exI[of _ fs])
             (simp add: job_list_def cycle_found_def poll_jobs_def Let_def vs_def d1_def d2_def fs_def case_prod_beta)
      next
        case False
        with vs ts ls Inr \<open>fst (triage_eligible_reports st d) = Inr ts\<close> show ?thesis
          by (intro exI[of _ vs] exI[of _ ts] exI[of _ ls] exI[of _ "[]"])
             (simp add: job_list_def cycle_found_def poll_jobs_def Let_def vs_def d1_def case_prod_beta)
      qed
    qed
  qed
qed

lemma same_row: "distinct (map r_id (reports d)) \<Longrightarrow> r \<in> set (reports d) \<Longrightarrow> r' \<in> set (reports d) \<Longrightarrow> r_id r = r_id r' \<Longrightarrow> r = r'"
  by (meson distinct_map inj_onD)

lemma poll_jobs_distinct:
  assumes "distinct (map r_id (reports d))"
  shows "distinct (fst (poll_jobs st d))"
proof -
  obtain vs ts ls fs where "fst (poll_jobs st d) = job_list vs ts ls fs" and found: "cycle_found st d vs ts ls fs"
    using poll_jobs_parts[OF assms, of st] by blast
  moreover have "distinct (map r_id vs)" "distinct (map r_id ts)" "distinct (map r_id ls)" "distinct (map r_id fs)"
    using found by (simp_all add: cycle_found_def found_by_def)
  ultimately show ?thesis by (auto simp: job_list_def distinct_map inj_on_def)
qed

lemma poll_jobs_clash:
  assumes ids: "distinct (map r_id (reports d))"
    and "j \<in> set (fst (poll_jobs st d))" "j' \<in> set (fst (poll_jobs st d))" "j \<noteq> j'" "job_report j = job_report j'"
  shows "auto_fix_enabled st \<and> {j, j'} = {Triage_job (job_report j), Fix_job (job_report j)}
    \<and> \<not> has_completed (job_report j) P_TRIAGE d"
proof -
  obtain vs ts ls fs where jobs: "fst (poll_jobs st d) = job_list vs ts ls fs" and found: "cycle_found st d vs ts ls fs"
    using poll_jobs_parts[OF ids, of st] by blast
  have vs: "\<And>r. r \<in> set vs \<Longrightarrow> r \<in> set (reports d) \<and> r_status r = SUBMITTED"
    and ts: "\<And>r. r \<in> set ts \<Longrightarrow> r \<in> set (reports d) \<and> r_status r = TRIAGED \<and> \<not> has_completed (r_id r) P_TRIAGE d"
    and ls: "\<And>r. r \<in> set ls \<Longrightarrow> r \<in> set (reports d) \<and> r_status r = TRIAGED \<and> has_completed (r_id r) P_TRIAGE d
        \<and> (\<exists>now. localization_check st now d r = Inr True)"
    and fs: "\<And>r. r \<in> set fs \<Longrightarrow> r \<in> set (reports d) \<and> r_status r = TRIAGED \<and> (\<exists>now. fix_check st now d r)"
    and auto_fix: "fs = [] \<or> auto_fix_enabled st"
    using found by (simp_all add: cycle_found_def found_by_def)
  note same = same_row[OF ids]
  have kinds: "(\<exists>r\<in>set vs. x = Validate_job (r_id r)) \<or> (\<exists>r\<in>set ts. x = Triage_job (r_id r))
      \<or> (\<exists>r\<in>set ls. x = Localize_job (r_id r)) \<or> (\<exists>r\<in>set fs. x = Fix_job (r_id r))"
    if "x \<in> set (fst (poll_jobs st d))" for x
    using that unfolding jobs job_list_def by auto
  have vt: False if "r \<in> set vs" "r' \<in> set ts \<union> set ls \<union> set fs" "r_id r = r_id r'" for r r'
    using that vs[of r] ts[of r'] ls[of r'] fs[of r'] same[of r r'] by auto
  have tl: False if "r \<in> set ts" "r' \<in> set ls" "r_id r = r_id r'" for r r'
    using that ts[of r] ls[of r'] by auto
  have lf: False if "r \<in> set ls" "r' \<in> set fs" "r_id r = r_id r'" for r r'
    using that ls[of r] fs[of r'] same[of r r'] fix_not_localize by auto
  have tf: "auto_fix_enabled st \<and> \<not> has_completed (r_id r) P_TRIAGE d" if "r \<in> set ts" "r' \<in> set fs" for r r'
    using that ts[of r] auto_fix by auto
  show ?thesis
    using kinds[OF assms(2)] kinds[OF assms(3)] assms(4,5)
    apply (elim disjE bexE)
    apply simp_all
    apply (metis vt UnI1 UnI2 tl lf tf insert_commute)+
    done
qed

section \<open>Properties\<close>

text \<open>
  C9.  A poll cycle is bounded and meets each report once: whatever order the event loop takes, at
  most \<open>queue_max_concurrent\<close> of the jobs run at a time; every job found is at every moment exactly
  once waiting, running or over; and two jobs of one report can only be a triage and an automatic fix
  of a report that was localized without ever being triaged, so with automatic fixing off no report
  has two stages running.
\<close>

theorem poll_cycle_is_bounded:
  assumes "distinct (map r_id (reports d))" and "semaphore (queue_max_concurrent st) = Inr n"
    and "worker_run evs (create_tasks (fst (poll_jobs st d)) (idle_worker n)) = Some w"
  shows "int (length (wk_running w)) \<le> queue_max_concurrent st
    \<and> all_jobs w = mset (fst (poll_jobs st d)) \<and> distinct (wk_running w)
    \<and> (\<forall>j\<in>set (wk_running w). \<forall>j'\<in>set (wk_running w). j \<noteq> j' \<and> job_report j = job_report j' \<longrightarrow>
         auto_fix_enabled st \<and> {j, j'} = {Triage_job (job_report j), Fix_job (job_report j)}
         \<and> \<not> has_completed (job_report j) P_TRIAGE d)"
proof -
  note frame = worker_run_frame[OF assms(3)]
  have jobs: "all_jobs w = mset (fst (poll_jobs st d))"
    using frame by (simp add: all_jobs_def create_tasks_def idle_worker_def)
  let ?all = "wk_running w @ wk_queue w @ map fst (wk_ended w)"
  have same: "mset (fst (poll_jobs st d)) = mset ?all" unfolding jobs[symmetric] by (simp add: all_jobs_def)
  have "distinct ?all" using mset_eq_imp_distinct_iff[OF same] poll_jobs_distinct[OF assms(1), of st] by blast
  with mset_eq_setD[OF same] have d: "distinct (wk_running w)" and "set (wk_running w) \<subseteq> set (fst (poll_jobs st d))" by simp_all
  moreover have "int (length (wk_running w)) \<le> queue_max_concurrent st"
    using frame assms(2) by (auto simp: create_tasks_def idle_worker_def semaphore_def split: if_splits)
  moreover have clash: "auto_fix_enabled st \<and> {j, j'} = {Triage_job (job_report j), Fix_job (job_report j)}
      \<and> \<not> has_completed (job_report j) P_TRIAGE d"
    if "j \<in> set (wk_running w)" "j' \<in> set (wk_running w)" "j \<noteq> j' \<and> job_report j = job_report j'" for j j'
    by (rule poll_jobs_clash[OF assms(1)]) (use that \<open>set (wk_running w) \<subseteq> _\<close> in auto)
  ultimately show ?thesis using jobs by (blast intro: clash)
qed

text \<open>
  C11.  A poll cycle ends: each of its jobs has one start and one end, and as long as some job is not
  over the event loop has something to do, provided the jobs themselves return, so the cycle reaches
  the point where every job it created is over.  The exception is a limit of 0, which starts
  nothing, ever.
\<close>

theorem poll_cycle_ends:
  assumes "worker_run evs (create_tasks jobs (idle_worker n)) = Some w"
  shows "length evs \<le> 2 * length jobs
    \<and> (if n = 0 then evs = [] \<and> wk_queue w = jobs
       else (\<forall>ev. worker_step ev w = None) \<longrightarrow> cycle_over w \<and> mset (map fst (wk_ended w)) = mset jobs)"
proof -
  note frame = worker_run_frame[OF assms]
  have len: "length evs \<le> 2 * length jobs"
    using frame by (simp add: steps_left_def create_tasks_def idle_worker_def)
  have zero: "evs = [] \<and> wk_queue w = jobs" if "n = 0"
  proof (cases evs)
    case Nil
    with assms show ?thesis by (auto simp: create_tasks_def idle_worker_def)
  next
    case (Cons ev rest)
    then have "worker_step ev (create_tasks jobs (idle_worker n)) \<noteq> None" using assms by (auto simp: bind_eq_Some_conv)
    with that show ?thesis by (cases ev) (auto simp: create_tasks_def idle_worker_def split: list.splits)
  qed
  have stuck: "cycle_over w \<and> mset (map fst (wk_ended w)) = mset jobs" if "n \<noteq> 0" "\<forall>ev. worker_step ev w = None"
    using worker_stuck[OF that(2)] that(1) frame
    by (auto simp: cycle_over_def all_jobs_def create_tasks_def idle_worker_def)
  from len zero stuck show ?thesis by (simp split: if_split)
qed

text \<open>One submitted report and a limit of one.\<close>

definition demo_cycle_db :: db where
  "demo_cycle_db = init_db\<lparr>reports := [blank_report ''r'' ''x'' 5]\<rparr>"

theorem poll_cycle_is_bounded_witness:
  "int (length [Validate_job ''r'']) \<le> queue_max_concurrent default_settings
    \<and> mset [Validate_job ''r''] = mset (fst (poll_jobs default_settings demo_cycle_db))"
proof -
  have jobs: "fst (poll_jobs default_settings demo_cycle_db) = [Validate_job ''r'']" by code_simp
  have "\<exists>w. worker_run [Job_starts] (create_tasks [Validate_job ''r''] (idle_worker 2)) = Some w \<and> wk_running w = [Validate_job ''r'']
      \<and> all_jobs w = mset [Validate_job ''r'']"
    by (simp add: create_tasks_def idle_worker_def all_jobs_def)
  then obtain w where w: "worker_run [Job_starts] (create_tasks [Validate_job ''r''] (idle_worker 2)) = Some w"
      "wk_running w = [Validate_job ''r'']" "all_jobs w = mset [Validate_job ''r'']" by blast
  have "distinct (map r_id (reports demo_cycle_db))" by (simp add: demo_cycle_db_def)
  moreover have "semaphore (queue_max_concurrent default_settings) = Inr 2"
    by (simp add: semaphore_def default_settings_def)
  ultimately show ?thesis
    using poll_cycle_is_bounded[of demo_cycle_db default_settings 2 "[Job_starts]" w] w by (simp add: jobs)
qed

theorem poll_cycle_ends_witness:
  "length [Job_starts, Job_ends (Fix_job ''r'') None] \<le> 2 * length [Fix_job ''r'']"
  using poll_cycle_ends[of "[Job_starts, Job_ends (Fix_job ''r'') None]" "[Fix_job ''r'']" 1
      "\<lparr>wk_free = 1, wk_queue = [], wk_running = [], wk_ended = [(Fix_job ''r'', None)]\<rparr>"]
  by (simp add: create_tasks_def idle_worker_def)

end
