(* ===== verification/Background.thy ===== *)
theory Background
  imports Service Triage_Safety Poller Worker_Cycle Async_Git
begin

text \<open>
  The background tasks of the process: the endless loops of \<open>queue/worker.py\<close>, \<open>ingest/poller.py\<close> and
  \<open>sync/triage_sync.py\<close>, their \<open>start_\<close>, \<open>stop_\<close> and \<open>alive\<close> functions, and the order in which
  \<open>lifespan\<close> of \<open>main.py\<close> starts and stops them.  What a pass of a loop does is the tick of the
  component; here only how it ends matters.
\<close>

section \<open>Tasks\<close>

text \<open>A module's \<open>_task\<close>: \<open>None\<close>, a running task, or one that is done.\<close>

datatype bg_task = Alive | Done "(string, unit) ending"

type_synonym handle = "bg_task option"

definition task_alive :: "handle \<Rightarrow> bool" where
  "task_alive h \<longleftrightarrow> h = Some Alive"

definition start_task :: "handle \<Rightarrow> handle" where
  "start_task h = Some Alive"

text \<open>
  Cancel and wait: the loop's \<open>CancelledError\<close> is absorbed; what an already dead task raised comes out
  of the \<open>await\<close>, and then the module keeps its handle.
\<close>

definition stop_task :: "handle \<Rightarrow> (string + unit) \<times> handle" where
  "stop_task h = (case h of Some (Done (Raised e)) \<Rightarrow> (Inl e, h) | _ \<Rightarrow> (Inr (), None))"

section \<open>The loops\<close>

text \<open>How a pass of a loop's body ends: its tick returned, it raised an \<open>Exception\<close>, or the task was
  cancelled, in the tick or in the sleep after it.\<close>

datatype pass = Ticked | Tick_raised string | Cancelled_there

fun loop_ending :: "pass list \<Rightarrow> (string, unit) ending option" where
  "loop_ending [] = None"
| "loop_ending (Cancelled_there # ps) = Some Cancelled"
| "loop_ending (_ # ps) = loop_ending ps"

definition ingest_loop :: "pass list \<Rightarrow> (string, unit) ending option" where
  "ingest_loop ps = loop_ending ps"

definition triage_loop :: "pass list \<Rightarrow> (string, unit) ending option" where
  "triage_loop ps = loop_ending ps"

text \<open>The queue worker makes its semaphore before the loop, outside the \<open>try\<close>.\<close>

definition poll_loop :: "settings \<Rightarrow> pass list \<Rightarrow> (string, unit) ending option" where
  "poll_loop st ps = (case semaphore (queue_max_concurrent st) of Inl e \<Rightarrow> Some (Raised e) | Inr n \<Rightarrow> loop_ending ps)"

definition task_of_ending :: "(string, unit) ending option \<Rightarrow> bg_task" where
  "task_of_ending x = (case x of None \<Rightarrow> Alive | Some e \<Rightarrow> Done e)"

section \<open>The process\<close>

record background =
  bg_worker :: handle
  bg_ingest :: handle
  bg_triage :: handle

definition no_tasks :: background where
  "no_tasks = \<lparr>bg_worker = None, bg_ingest = None, bg_triage = None\<rparr>"

definition worker_alive :: "background \<Rightarrow> bool" where
  "worker_alive b = task_alive (bg_worker b)"

definition ingest_alive :: "background \<Rightarrow> bool" where
  "ingest_alive b = task_alive (bg_ingest b)"

definition triage_sync_alive :: "background \<Rightarrow> bool" where
  "triage_sync_alive b = task_alive (bg_triage b)"

definition start_worker :: "background \<Rightarrow> background" where
  "start_worker b = b\<lparr>bg_worker := start_task (bg_worker b)\<rparr>"

definition start_ingest :: "background \<Rightarrow> background" where
  "start_ingest b = b\<lparr>bg_ingest := start_task (bg_ingest b)\<rparr>"

definition start_triage_sync :: "background \<Rightarrow> background" where
  "start_triage_sync b = b\<lparr>bg_triage := start_task (bg_triage b)\<rparr>"

fun start_on :: "start_event \<Rightarrow> background \<Rightarrow> background" where
  "start_on Worker_started b = start_worker b"
| "start_on Ingest_started b = start_ingest b"
| "start_on Triage_sync_started b = start_triage_sync b"
| "start_on _ b = b"

definition lifespan_tasks :: "settings \<Rightarrow> string list \<Rightarrow> db \<Rightarrow> background" where
  "lifespan_tasks st unknown d = fold start_on (fst (fst (lifespan_start st unknown d))) no_tasks"

text \<open>The tasks some passes later.\<close>

definition run_loops :: "settings \<Rightarrow> pass list \<Rightarrow> pass list \<Rightarrow> pass list \<Rightarrow> background \<Rightarrow> background" where
  "run_loops st worker ingest triage b =
     \<lparr>bg_worker = map_option (\<lambda>_. task_of_ending (poll_loop st worker)) (bg_worker b),
      bg_ingest = map_option (\<lambda>_. task_of_ending (ingest_loop ingest)) (bg_ingest b),
      bg_triage = map_option (\<lambda>_. task_of_ending (triage_loop triage)) (bg_triage b)\<rparr>"

definition stop_worker :: "background \<Rightarrow> (string + unit) \<times> background" where
  "stop_worker b = (case stop_task (bg_worker b) of (res, h) \<Rightarrow> (res, b\<lparr>bg_worker := h\<rparr>))"

definition stop_ingest :: "background \<Rightarrow> (string + unit) \<times> background" where
  "stop_ingest b = (case stop_task (bg_ingest b) of (res, h) \<Rightarrow> (res, b\<lparr>bg_ingest := h\<rparr>))"

text \<open>\<open>stop_triage_sync\<close> also cancels what its holds run and forgets them.\<close>

definition stop_triage_sync :: "background \<times> 'w sync \<Rightarrow> (string + unit) \<times> background \<times> 'w sync" where
  "stop_triage_sync bs =
     (case bs of (b, s) \<Rightarrow>
        (case stop_task (bg_triage b) of
           (Inl e, h) \<Rightarrow> (Inl e, b\<lparr>bg_triage := h\<rparr>, s)
         | (Inr _, h) \<Rightarrow> (Inr (), b\<lparr>bg_triage := h\<rparr>, s\<lparr>sy_holds := []\<rparr>)))"

definition lifespan_stop :: "background \<times> 'w sync \<Rightarrow> (string + unit) \<times> background \<times> 'w sync" where
  "lifespan_stop bs0 =
     (case stop_triage_sync bs0 of
        (Inl e, bs) \<Rightarrow> (Inl e, bs)
      | (Inr _, b1, s1) \<Rightarrow>
          (case stop_ingest b1 of
             (Inl e, b2) \<Rightarrow> (Inl e, b2, s1)
           | (Inr _, b2) \<Rightarrow> (case stop_worker b2 of (res, b3) \<Rightarrow> (res, b3, s1))))"

text \<open>\<open>reset_runtime_state\<close> of the poller: its backoff and its locks are forgotten.\<close>

definition reset_ingest :: "'w poll \<times> (string \<times> nat) list \<Rightarrow> 'w poll \<times> (string \<times> nat) list" where
  "reset_ingest ss = (fst ss, [])"

section \<open>Lemmas\<close>

text \<open>A loop survives whatever its ticks raise; only a cancellation ends it.\<close>

lemma loop_ending_iff: "loop_ending ps = (if Cancelled_there \<in> set ps then Some Cancelled else None)"
  by (induction ps rule: loop_ending.induct) auto

lemma stop_loop [simp]: "stop_task (map_option (\<lambda>_. task_of_ending (loop_ending ps)) h) = (Inr (), None)"
  by (cases h) (simp_all add: stop_task_def loop_ending_iff task_of_ending_def)

lemma start_on_worker:
  "bg_worker (fold start_on evs b) = (if Worker_started \<in> set evs then Some Alive else bg_worker b)"
proof (induction evs arbitrary: b)
  case (Cons e evs)
  then show ?case by (cases e) (auto simp: start_task_def start_worker_def start_ingest_def start_triage_sync_def)
qed simp

lemma worker_started:
  "bg_worker (lifespan_tasks st unknown d) = (if queue_enabled st \<and> snd (fst (lifespan_start st unknown d)) = None then Some Alive else None)"
  by (auto simp: lifespan_tasks_def start_on_worker no_tasks_def lifespan_start_def Let_def split: prod.split sum.split)

section \<open>Properties\<close>

text \<open>
  C39.  The background tasks live as long as they should: whatever the ticks raise, a started worker is
  alive until it is cancelled, and readiness says so, except when the semaphore refuses a negative
  \<open>queue_max_concurrent\<close>; then the worker is dead from the start and readiness is degraded.  Stopping
  leaves no task alive and no triage slot held; it raises only for that dead worker, after everything
  else is stopped.
\<close>

theorem background_tasks_live_and_stop:
  assumes "queue_enabled st" and "snd (fst (lifespan_start st unknown d)) = None"
  shows "let b = run_loops st worker ingest triage (lifespan_tasks st unknown d);
             (res, b', s') = lifespan_stop (b, s)
         in (worker_alive b \<longleftrightarrow> 0 \<le> queue_max_concurrent st \<and> Cancelled_there \<notin> set worker)
          \<and> (he_status (snd (readiness st revision db_ok http_get (worker_alive b) d)) = ''ok''
               \<longleftrightarrow> db_ok \<and> check_ollama st http_get \<and> 0 \<le> queue_max_concurrent st \<and> Cancelled_there \<notin> set worker)
          \<and> (res = Inr () \<longleftrightarrow> 0 \<le> queue_max_concurrent st) \<and> sy_holds s' = []
          \<and> \<not> worker_alive b' \<and> \<not> ingest_alive b' \<and> \<not> triage_sync_alive b'"
proof -
  let ?b = "run_loops st worker ingest triage (lifespan_tasks st unknown d)"
  have w: "bg_worker ?b = Some (task_of_ending (poll_loop st worker))"
    using assms by (simp add: run_loops_def worker_started)
  have poll: "poll_loop st worker = (if queue_max_concurrent st < 0 then Some (Raised ''ValueError'')
      else if Cancelled_there \<in> set worker then Some Cancelled else None)"
    by (simp add: poll_loop_def semaphore_def loop_ending_iff)
  have alive: "worker_alive ?b \<longleftrightarrow> 0 \<le> queue_max_concurrent st \<and> Cancelled_there \<notin> set worker"
    by (simp add: worker_alive_def w poll task_alive_def task_of_ending_def)
  have status: "he_status (snd (readiness st revision db_ok http_get a d)) = ''ok'' \<longleftrightarrow> db_ok \<and> check_ollama st http_get \<and> a" for a
    using assms(1) by (auto simp: readiness_def Let_def)
  have stop: "lifespan_stop (?b, s) = (fst (stop_task (bg_worker ?b)),
      \<lparr>bg_worker = snd (stop_task (bg_worker ?b)), bg_ingest = None, bg_triage = None\<rparr>, s\<lparr>sy_holds := []\<rparr>)"
    by (simp add: lifespan_stop_def stop_triage_sync_def run_loops_def stop_ingest_def stop_worker_def ingest_loop_def triage_loop_def split: prod.split)
  show ?thesis
    unfolding stop Let_def prod.case status alive
    by (auto simp: worker_alive_def ingest_alive_def triage_sync_alive_def w poll stop_task_def task_of_ending_def task_alive_def)
qed

theorem background_tasks_live_and_stop_witness:
  "let b = run_loops default_settings [Tick_raised ''OSError''] [] [] (lifespan_tasks default_settings [] init_db)
   in worker_alive b"
proof -
  have "queue_enabled default_settings" "0 \<le> queue_max_concurrent default_settings" by (simp_all add: default_settings_def)
  moreover have "snd (fst (lifespan_start default_settings [] init_db)) = None" by code_simp
  ultimately have "worker_alive (run_loops default_settings [Tick_raised ''OSError''] [] [] (lifespan_tasks default_settings [] init_db))"
    using background_tasks_live_and_stop[of default_settings "[]" init_db "[Tick_raised ''OSError'']" "[]" "[]" "demo_sync",
      where revision = None and db_ok = True and http_get = "\<lambda>_. Some 200"]
    by (cases "lifespan_stop (run_loops default_settings [Tick_raised ''OSError''] [] [] (lifespan_tasks default_settings [] init_db),
      demo_sync)") (simp add: Let_def)
  then show ?thesis by (simp add: Let_def)
qed

end
