(* ===== verification/Row_Json.thy ===== *)
theory Row_Json
  imports Prelude
begin

text \<open>
  The JSON columns of \<open>db.py\<close>: how a value becomes the text of a column and what a row's reader makes
  of it (\<open>_serialize_json\<close>, \<open>_deserialize_json\<close> and the \<open>_..._row\<close> functions).  \<open>json.dumps\<close> and
  \<open>json.loads\<close> are arguments; a text that does not parse is \<open>None\<close> of \<open>loads\<close>.  The tables of
  \<open>Schema\<close> hold the values themselves; the round trip below is what entitles them to.
\<close>

section \<open>Columns\<close>

text \<open>A Python value that may be \<open>None\<close>; JSON's \<open>null\<close> parses to \<open>None\<close>.\<close>

fun py_value :: "json \<Rightarrow> json option" where
  "py_value JNull = None"
| "py_value j = Some j"

definition serialize_json :: "(json \<Rightarrow> string) \<Rightarrow> json option \<Rightarrow> string option" where
  "serialize_json dumps v = map_option dumps v"

definition load_text :: "(string \<Rightarrow> json option) \<Rightarrow> string \<Rightarrow> string + json option" where
  "load_text loads t = (case loads t of None \<Rightarrow> Inl ''JSONDecodeError'' | Some j \<Rightarrow> Inr (py_value j))"

definition deserialize_json :: "(string \<Rightarrow> json option) \<Rightarrow> string option \<Rightarrow> string + json option" where
  "deserialize_json loads v = (case v of None \<Rightarrow> Inr None | Some t \<Rightarrow> load_text loads t)"

text \<open>\<open>ingest_config\<close> of a project, and \<open>params\<close>, \<open>pinned_llm\<close> and \<open>steps\<close> of a triage action: a text
  that does not parse reads as \<open>None\<close>.\<close>

definition tolerant_column :: "(string \<Rightarrow> json option) \<Rightarrow> string option \<Rightarrow> json option" where
  "tolerant_column loads raw =
     (case raw of None \<Rightarrow> None | Some t \<Rightarrow> (case load_text loads t of Inl e \<Rightarrow> None | Inr v \<Rightarrow> v))"

definition project_row :: "(string \<Rightarrow> json option) \<Rightarrow> string option \<Rightarrow> json option" where
  "project_row loads ingest_config = tolerant_column loads ingest_config"

record action_columns =
  ac_params :: "json option"
  ac_pinned_llm :: "json option"
  ac_steps :: "json option"

definition triage_action_row ::
  "(string \<Rightarrow> json option) \<Rightarrow> string option \<Rightarrow> string option \<Rightarrow> string option \<Rightarrow> action_columns" where
  "triage_action_row loads params pinned_llm steps =
     \<lparr>ac_params = tolerant_column loads params, ac_pinned_llm = tolerant_column loads pinned_llm,
      ac_steps = tolerant_column loads steps\<rparr>"

record report_columns =
  rc_steps_to_reproduce :: "json option"
  rc_labels :: "json option"
  rc_attachments :: "json option"

text \<open>A report's reader has no \<open>try\<close>: the first column that does not parse raises.\<close>

definition report_row_to_dict ::
  "(string \<Rightarrow> json option) \<Rightarrow> string option \<Rightarrow> string option \<Rightarrow> string option \<Rightarrow> string + report_columns" where
  "report_row_to_dict loads steps labels attachments =
     bindE (deserialize_json loads steps) (\<lambda>s.
       bindE (deserialize_json loads labels) (\<lambda>l.
         bindE (deserialize_json loads attachments) (\<lambda>a.
           Inr \<lparr>rc_steps_to_reproduce = s, rc_labels = l, rc_attachments = a\<rparr>)))"

text \<open>An analysis stores a result only when it is truthy; an empty text is left as it is.\<close>

definition analysis_result_text :: "(json \<Rightarrow> string) \<Rightarrow> json option \<Rightarrow> string option" where
  "analysis_result_text dumps r = (if opt_truthy r then map_option dumps r else None)"

definition analysis_row_to_dict :: "(string \<Rightarrow> json option) \<Rightarrow> string option \<Rightarrow> string + json option" where
  "analysis_row_to_dict loads raw =
     (if str_set raw then load_text loads (the raw) else Inr (map_option JStr raw))"

text \<open>\<open>files_changed\<close> of a proposal: a text that does not parse stays as text.\<close>

definition fix_proposal_row_to_dict :: "(string \<Rightarrow> json option) \<Rightarrow> string option \<Rightarrow> json option" where
  "fix_proposal_row_to_dict loads raw =
     (if str_set raw then (case load_text loads (the raw) of Inl e \<Rightarrow> map_option JStr raw | Inr v \<Rightarrow> v)
      else map_option JStr raw)"

section \<open>Lemmas\<close>

text \<open>What the code relies on in the \<open>json\<close> module, for values that \<open>dumps\<close> writes without loss.\<close>

definition json_codec :: "(json \<Rightarrow> string) \<Rightarrow> (string \<Rightarrow> json option) \<Rightarrow> json set \<Rightarrow> bool" where
  "json_codec dumps loads V \<longleftrightarrow> (\<forall>v\<in>V. dumps v \<noteq> [] \<and> loads (dumps v) = Some v)"

definition stored :: "json set \<Rightarrow> json option \<Rightarrow> bool" where
  "stored V v \<longleftrightarrow> (case v of None \<Rightarrow> True | Some j \<Rightarrow> j \<in> V \<and> j \<noteq> JNull)"

lemma py_value_some: "j \<noteq> JNull \<Longrightarrow> py_value j = Some j"
  by (cases j) auto

lemma load_stored: "json_codec dumps loads V \<Longrightarrow> stored V (Some j) \<Longrightarrow> load_text loads (dumps j) = Inr (Some j)"
  by (simp add: json_codec_def stored_def load_text_def py_value_some)

lemma deserialize_stored: "json_codec dumps loads V \<Longrightarrow> stored V v \<Longrightarrow> deserialize_json loads (serialize_json dumps v) = Inr v"
  by (cases v) (simp_all add: deserialize_json_def serialize_json_def load_stored)

lemma tolerant_stored: "json_codec dumps loads V \<Longrightarrow> stored V v \<Longrightarrow> tolerant_column loads (serialize_json dumps v) = v"
  by (cases v) (simp_all add: tolerant_column_def serialize_json_def load_stored)

lemma text_set: "json_codec dumps loads V \<Longrightarrow> stored V (Some j) \<Longrightarrow> dumps j \<noteq> []"
  by (simp add: json_codec_def stored_def)

section \<open>Properties\<close>

text \<open>
  What is stored is what is read: for every value that the \<open>json\<close> module writes without loss, the
  readers of projects, reports, proposals and triage actions give back the value their writer was
  given, \<open>None\<close> included, and the reader of analyses gives it back when it is truthy and \<open>None\<close>
  otherwise.
\<close>

theorem json_columns_round_trip:
  assumes "json_codec dumps loads V" and "stored V v" "stored V v'" "stored V v''"
  shows "project_row loads (serialize_json dumps v) = v
    \<and> triage_action_row loads (serialize_json dumps v) (serialize_json dumps v') (serialize_json dumps v'')
        = \<lparr>ac_params = v, ac_pinned_llm = v', ac_steps = v''\<rparr>
    \<and> report_row_to_dict loads (serialize_json dumps v) (serialize_json dumps v') (serialize_json dumps v'')
        = Inr \<lparr>rc_steps_to_reproduce = v, rc_labels = v', rc_attachments = v''\<rparr>
    \<and> fix_proposal_row_to_dict loads (serialize_json dumps v) = v
    \<and> analysis_row_to_dict loads (analysis_result_text dumps v) = Inr (if opt_truthy v then v else None)"
proof -
  note stored = tolerant_stored[OF assms(1)] deserialize_stored[OF assms(1)]
  have proposal: "fix_proposal_row_to_dict loads (serialize_json dumps v) = v"
    using load_stored[OF assms(1)] text_set[OF assms(1)] assms(2)
    by (cases v) (auto simp: fix_proposal_row_to_dict_def serialize_json_def)
  have ana: "analysis_row_to_dict loads (analysis_result_text dumps v) = Inr (if opt_truthy v then v else None)"
    using load_stored[OF assms(1)] text_set[OF assms(1)] assms(2)
    by (cases v) (auto simp: analysis_row_to_dict_def analysis_result_text_def)
  show ?thesis
    using assms proposal ana by (simp add: project_row_def triage_action_row_def report_row_to_dict_def stored)
qed

definition demo_dumps :: "json \<Rightarrow> string" where
  "demo_dumps j = (if j = JBool True then ''true'' else ''[]'')"

definition demo_loads :: "string \<Rightarrow> json option" where
  "demo_loads t = (if t = ''true'' then Some (JBool True) else if t = ''[]'' then Some (JArr []) else None)"

theorem json_columns_round_trip_witness:
  "analysis_row_to_dict demo_loads (analysis_result_text demo_dumps (Some (JBool True))) = Inr (Some (JBool True))"
proof -
  have "json_codec demo_dumps demo_loads {JBool True, JArr []}" by (simp add: json_codec_def demo_dumps_def demo_loads_def)
  moreover have "stored {JBool True, JArr []} (Some (JBool True))" "stored {JBool True, JArr []} None" by (simp_all add: stored_def)
  ultimately show ?thesis using json_columns_round_trip[of demo_dumps demo_loads "{JBool True, JArr []}" "Some (JBool True)" None None] by simp
qed

text \<open>
  A damaged column stays in its row, except in two tables: a project, a proposal and a triage
  action are always read, with nothing or the raw text for the column; a report is not readable as soon
  as one of its columns holds a text that does not parse, and neither is an analysis whose result does
  not; and these are the only ways a reader raises.
\<close>

theorem damaged_columns_read:
  "(isl (report_row_to_dict loads s l a) \<longleftrightarrow> (\<exists>t. Some t \<in> {s, l, a} \<and> loads t = None))
    \<and> (isl (analysis_row_to_dict loads raw) \<longleftrightarrow> (\<exists>t. raw = Some t \<and> t \<noteq> [] \<and> loads t = None))
    \<and> (if loads t = None then project_row loads (Some t) = None \<and> fix_proposal_row_to_dict loads (Some t) = Some (JStr t)
         \<and> triage_action_row loads (Some t) (Some t) (Some t) = \<lparr>ac_params = None, ac_pinned_llm = None, ac_steps = None\<rparr>
       else True)"
proof -
  have load: "isl (load_text loads t) \<longleftrightarrow> loads t = None" for t by (simp add: load_text_def split: option.split)
  have col: "isl (deserialize_json loads v) \<longleftrightarrow> (\<exists>t. v = Some t \<and> loads t = None)" for v
    by (cases v) (simp_all add: deserialize_json_def load)
  have report: "isl (report_row_to_dict loads s l a) \<longleftrightarrow>
      isl (deserialize_json loads s) \<or> isl (deserialize_json loads l) \<or> isl (deserialize_json loads a)"
    by (auto simp: report_row_to_dict_def bindE_def split: sum.split)
  have analysis: "isl (analysis_row_to_dict loads raw) \<longleftrightarrow> (\<exists>t. raw = Some t \<and> t \<noteq> [] \<and> loads t = None)"
    by (cases raw) (simp_all add: analysis_row_to_dict_def load)
  show ?thesis
    unfolding report col analysis
    by (auto simp: str_set_iff project_row_def tolerant_column_def fix_proposal_row_to_dict_def triage_action_row_def load_text_def)
qed

end
