(* ===== verification/Spec2Isabelle.thy ===== *)
theory Spec2Isabelle
  imports Connections Db_Projects Db_Ledger Open_Pr_Safety Reports_Api Llm Fix_Stage Intake
    Action_Safety Triage_Safety Poller_Safety Report_Views Migrations Prompts Service
    Async_Git Worker_Cycle Background Row_Json
begin

text \<open>
  A verification library for Bugalizer, a server that takes bug reports from its own API and from
  sonicgrid, works out what is wrong with language models, and opens pull requests.  Paths below are under
  \<open>src/src/bugalizer/\<close>.

  \<^bold>\<open>The program.\<close>  A report is stored (\<open>db.py\<close>), checked for duplicates (\<open>pipeline/validator.py\<close>), classified and
  localized by a local model (\<open>pipeline/triage.py\<close>, \<open>pipeline/localizer.py\<close>, claims in
  \<open>pipeline/orchestrator.py\<close>), and a fix is proposed by a paid model (\<open>pipeline/fix_proposer.py\<close>).  The queue
  worker (\<open>queue/worker.py\<close>) drives these stages through eligibility queries; the endpoints (\<open>api/\<close>) drive them
  on request.  A proposal becomes a pull request in \<open>git_ops/pull_request.py\<close>.  \<open>ingest/poller.py\<close> imports
  reports from sonicgrid, and \<open>sync/\<close> exchanges admin actions and results with it.  Everything meets in the
  database: each stage takes a report with one conditional UPDATE of its status and gives it back.

  \<^bold>\<open>Theories, from the bottom.\<close>
  \<^item> \<open>Prelude\<close>: JSON values and truthiness, Python's string operations, SQL statements over lists of rows, and
    the interfaces \<open>compare_and_set\<close>, \<open>row_cell\<close>, \<open>row_store\<close> (locales).  \<open>Scrub\<close>: removing texts from a text, as
    the locales \<open>marker\<close> and \<open>scrubber\<close>.  \<open>Event_Run\<close>: runs of machines whose next event the event loop chooses
    (locale \<open>event_machine\<close>).
  \<^item> \<open>Clock\<close> (\<open>_now\<close>, ISO texts), \<open>Models\<close> (\<open>models.py\<close>: statuses, transitions, the ingest checkpoint), \<open>Config\<close>
    (\<open>config.py\<close>, \<open>auth.py\<close>), \<open>Schema\<close> (the tables as records, keys and references), \<open>Migrations\<close> (the schema
    script and \<open>_migrate\<close>), \<open>Connections\<close> (\<open>retry_on_locked\<close>, one connection per thread).
  \<^item> \<open>Db_Projects\<close>, \<open>Db_Reports\<close>, \<open>Db_Analyses\<close>, \<open>Db_Fix\<close>, \<open>Db_Ledger\<close>: the operations of \<open>db.py\<close>, each a function
    from the database to its result and the new database.  \<open>Eligibility\<close>: the dispatch queries against what
    their comments promise.  \<open>Row_Json\<close>: the JSON columns, from value to text and back.
  \<^item> \<open>Llm\<close> (\<open>llm/client.py\<close>), \<open>Prompts\<close> (\<open>llm/prompts.py\<close>, the pull request text), \<open>Fix_Text\<close> and \<open>Fix_Stage\<close>
    (\<open>pipeline/fix_proposer.py\<close>), \<open>Repo\<close> (\<open>git_ops/repo.py\<close>), \<open>Repo_Map\<close> (\<open>pipeline/repo_map.py\<close>), \<open>Local_Stages\<close> with
    \<open>Local_Safety\<close> (triage, localization, the orchestrator), \<open>Intake\<close> (stage 1 and the worker's cycle).
  \<^item> \<open>Git_Text\<close>, \<open>Open_Pr\<close>, \<open>Open_Pr_Safety\<close>: \<open>git_ops/pull_request.py\<close>, from the URL of a repository to the
    recorded pull request.  Every git command is logged, so that what may run is a statement about the log.
    \<open>Async_Git\<close>: \<open>_in_thread\<close> and the project lock, as machines.
  \<^item> \<open>Actions\<close>, \<open>Action_Exec\<close>, \<open>Action_Safety\<close> (\<open>sync/actions.py\<close>), \<open>Results\<close> (\<open>sync/results.py\<close>, \<open>sync/stage.py\<close>),
    \<open>Triage_Exec\<close>, \<open>Triage_Tick\<close> (\<open>sync/triage_sync.py\<close>); \<open>Ledger_Frame\<close>, \<open>Action_Life\<close>, \<open>Triage_Steps\<close>,
    \<open>Triage_Safety\<close>: the abstract life of one action and the simulation of the sync's steps by it.
  \<^item> \<open>Sonicgrid\<close>, \<open>Poller\<close>, \<open>Poller_Safety\<close>: \<open>ingest/\<close>.
  \<^item> \<open>Reports_Api\<close>, \<open>Report_Views\<close>, \<open>Projects_Api\<close> (\<open>api/\<close>), \<open>Service\<close> (\<open>main.py\<close>), \<open>Worker_Cycle\<close> (the
    semaphore and the tasks of \<open>queue/worker.py\<close>), \<open>Background\<close> (the three loops, their start and stop).

  \<^bold>\<open>How the code is rendered.\<close>  A table is a list of rows in rowid order, a row a record, a status or phase its
  enum.  Python integers are \<open>int\<close>, or \<open>nat\<close> where the code only counts up; times are microseconds since year 1
  and are compared as the ISO texts the code compares (\<open>iso_strict_mono\<close>).  Floats in settings and scores are
  rationals.  A call that may raise returns \<open>Inl\<close> of the exception; a transaction that raises leaves the
  database it started from, where the code rolls back, and what its statements wrote, where it does not.  Names
  are the code's, with a suffix or prefix where HOL has the name.  Some detail texts of refusals are shortened,
  never their status or code.  Characters are 8 bits wide, so the one other character the code writes, the
  ellipsis, is an argument, as is \<open>str.casefold\<close>.  Paths are POSIX paths.

  \<^bold>\<open>Arguments of the model.\<close>  Code outside the repository is never given a definition: \<open>litellm\<close>, git, GitHub's
  and sonicgrid's HTTP answers, the file system, tree-sitter, \<open>json\<close>'s parser and printer, SHA-256,
  \<open>SequenceMatcher\<close>, the extraction expressions of the validator, \<open>str\<close> and \<open>float\<close> of JSON values.  They are
  functions, over an arbitrary world \<open>'w\<close> where they have effects, and most properties hold for all of them.
  The records \<open>stage_deps\<close>, \<open>local_deps\<close>, \<open>pr_deps\<close>, \<open>sync_deps\<close>, \<open>ingest_deps\<close> and \<open>map_deps\<close> collect them.

  \<^bold>\<open>Interleaving.\<close>  A function of \<open>db.py\<close> is one step, since each is one transaction or one conditional statement.
  A stage run or an open-pr call is modelled as one call with no other writer between its steps; what protects
  it from other writers is stated on the steps themselves: claims are compare-and-set cells with one winner,
  and no endpoint breaks a running claim.  A poll does run
  with others: at each await \<open>ig_others\<close> changes the database arbitrarily.  The sync is a step relation
  (\<open>sync_step\<close>) whose steps are the atomic parts of the code between awaits, in any order, with crashes between
  any two of them and inside the two-write parts; the scheduler's tick is shown to be a run of it.  Deleting a project is not one of these steps.
  Where the code is about the event loop itself, the model is a machine over its choices: which task is
  resumed or cancelled, which thread is done (\<open>thread_step\<close>, \<open>lock_step\<close>, \<open>worker_step\<close>).  These machines say
  that an open-pr call has the clone to itself and that a poll cycle's jobs meet each report once; the
  calls and stages themselves are the functions above, so the two are composed by reading, not by a theorem.

  \<^bold>\<open>What the lemmas show.\<close>
  \<^item> Claims and statuses: one winner, startup recovery, no broken claims, stages that settle what they took
    (\<open>Db_Reports\<close>, \<open>Reports_Api\<close>, \<open>Local_Safety\<close>, \<open>Fix_Stage\<close>, \<open>Open_Pr_Safety\<close>).
  \<^item> Dispatch: the eligibility queries and their specifications agree (\<open>Eligibility\<close>); duplicates never form a
    cycle (\<open>Intake\<close>).
  \<^item> Money: a paid action runs once, on its terms, and never on the configured key in user-key mode
    (\<open>Triage_Safety\<close>, \<open>Action_Safety\<close>); the refinement of the sync to the life of one action.
  \<^item> Exactly once: imports, outcomes, reopenings, recorded pull requests (\<open>Db_Ledger\<close>, \<open>Db_Fix\<close>, \<open>Poller_Safety\<close>).
  \<^item> Secrets and confinement: error texts, git's arguments and output, candidate paths, status answers.
  \<^item> Contracts of texts: payloads, polled reports, repository maps and pull request bodies keep their bounds.
  \<^item> Views: a list shows what single reads show, the queue agrees with the list; a migration resumes after a
    crash.

  \<^item> Concurrency: a cancelled call waits for its git thread, one git worker runs per project and its lock comes
    back (\<open>Async_Git\<close>); a poll cycle keeps the limit and ends (\<open>Worker_Cycle\<close>); background tasks live until they
    are cancelled, and shutdown leaves none (\<open>Background\<close>).

  \<^bold>\<open>Bounds and fuel.\<close>  Loops over lists are structural.  \<open>retry_on_locked\<close> stops after four attempts
  (a measure); the pages of a poll and of the action list are bounded by the settings, as in the code; the runs of the machines by the number of their cancellations or jobs.  Nothing runs
  out of fuel: every function of the model is total.

  \<^bold>\<open>Not modelled.\<close>  The end of the process, where asyncio cancels every task, the shielded git workers too;
  the per-project locks of the poller and of the sync, except for the refusal of a second manual run, and
  \<open>db_write_lock\<close>; \<open>wait_idle\<close>, which only tests call; FastAPI's routing, request parsing and static files;
  the grammars of tree-sitter; SQLite's own pragmas; \<open>subprocess.run\<close>; logging; response models that only
  name fields; the usage rows' cost estimate, which every caller leaves at its default.

  \<^bold>\<open>What modelling showed.\<close>  Lemmas outside the list of properties back some of the findings:
  \<open>malformed_requester_blocks\<close>, \<open>head_failure_is_not_counted\<close>, \<open>cache_path_follows_branch\<close>,
  \<open>identifier_checks_allow_a_final_newline\<close>.
\<close>

end
